(* ===== verification/Go_Prelude.thy ===== *)
theory Go_Prelude
  imports Main "HOL-Library.AList" "HOL-Library.Word" "HOL-Library.Monad_Syntax"
begin

text \<open>
  Shared vocabulary of the development: Go's \<open>error\<close> values and the functions of package
  \<open>errors\<close> the code uses, decimal and quoted rendering (the verbs \<open>%d\<close>, \<open>%s\<close> and
  \<open>%q\<close> of package \<open>fmt\<close>), Go maps as association lists, and the generic lemmas on them
  that the component theories share.

  A nil \<open>error\<close> is \<open>None\<close>. A function returning \<open>(T, error)\<close> becomes a value of
  \<open>goerr + T\<close> where the source returns exactly one of the two.
\<close>

named_theorems go_simps \<open>unfolding rules of the modelled operations\<close>
named_theorems inv_intros \<open>introduction rules of the component invariants\<close>

section \<open>Errors\<close>

text \<open>
  \<open>ErrNew\<close> is \<open>errors.New\<close> and \<open>fmt.Errorf\<close> without \<open>%w\<close>; \<open>ErrSentinel\<close> is a
  package-level error compared by identity (its text identifies it here);
  \<open>ErrWrap a e b\<close> is \<open>fmt.Errorf\<close> with \<open>%w\<close> between the texts \<open>a\<close> and \<open>b\<close>;
  \<open>ErrJoin\<close> is the value of \<open>errors.Join\<close>.
\<close>

datatype goerr =
    ErrNew string
  | ErrSentinel string
  | ErrWrap string goerr string
  | ErrJoin "goerr list"

fun intersperse_lines :: "string list \<Rightarrow> string" where
  "intersperse_lines [] = []"
| "intersperse_lines [s] = s"
| "intersperse_lines (s # ss) = s @ CHR 0x0A # intersperse_lines ss"

fun err_msg :: "goerr \<Rightarrow> string" where
  "err_msg (ErrNew s) = s"
| "err_msg (ErrSentinel s) = s"
| "err_msg (ErrWrap a e b) = a @ err_msg e @ b"
| "err_msg (ErrJoin es) = intersperse_lines (map err_msg es)"

text \<open>\<open>errors.Is(err, target)\<close> for a sentinel target: the error itself or anything it wraps.\<close>

fun err_is :: "goerr \<Rightarrow> string \<Rightarrow> bool" where
  "err_is (ErrNew s) t = False"
| "err_is (ErrSentinel s) t = (s = t)"
| "err_is (ErrWrap a e b) t = err_is e t"
| "err_is (ErrJoin es) t = (\<exists>e \<in> set es. err_is e t)"

definition context_canceled :: goerr where
  "context_canceled = ErrSentinel ''context canceled''"

definition deadline_exceeded :: goerr where
  "deadline_exceeded = ErrSentinel ''context deadline exceeded''"

text \<open>
  The test both workers use to recognise a cancelled poll
  (\<open>errors.Is(err, context.Canceled) || errors.Is(err, context.DeadlineExceeded)\<close>).
\<close>

definition is_context_error :: "goerr \<Rightarrow> bool" where
  "is_context_error e \<longleftrightarrow>
     err_is e ''context canceled'' \<or> err_is e ''context deadline exceeded''"

lemma is_context_error_simps [simp]:
  "is_context_error (ErrNew s) = False"
  "is_context_error (ErrWrap a e b) = is_context_error e"
  "is_context_error context_canceled"
  "is_context_error deadline_exceeded"
  by (simp_all add: is_context_error_def context_canceled_def deadline_exceeded_def)

text \<open>\<open>errors.Join\<close> drops nil errors and is nil when nothing is left.\<close>

definition errors_join :: "goerr option list \<Rightarrow> goerr option" where
  "errors_join es =
     (let js = map the (filter (\<lambda>e. e \<noteq> None) es) in if js = [] then None else Some (ErrJoin js))"

lemma errors_join_eq_None [simp]: "errors_join es = None \<longleftrightarrow> (\<forall>e \<in> set es. e = None)"
  by (auto simp: errors_join_def Let_def filter_empty_conv)

lemma errors_join_is:
  assumes "errors_join es = Some j"
  shows "err_is j t \<longleftrightarrow> (\<exists>e. Some e \<in> set es \<and> err_is e t)"
proof -
  have set_js: "set (map the (filter (\<lambda>e. e \<noteq> None) es)) = {e. Some e \<in> set es}"
    by force
  from assms have "j = ErrJoin (map the (filter (\<lambda>e. e \<noteq> None) es))"
    by (auto simp: errors_join_def Let_def split: if_splits)
  then have "err_is j t \<longleftrightarrow> (\<exists>e \<in> set (map the (filter (\<lambda>e. e \<noteq> None) es)). err_is e t)"
    by (simp only: err_is.simps)
  then show ?thesis
    unfolding set_js by auto
qed

section \<open>Outcomes\<close>

text \<open>
  What a call can do besides diverging: return a value, return an error, or panic with a message
  (what \<open>recover\<close> would see, rendered with \<open>%v\<close>).
\<close>

datatype 'a gores = Ok 'a | Err goerr | Panic string

definition gores_bind :: "'a gores \<Rightarrow> ('a \<Rightarrow> 'b gores) \<Rightarrow> 'b gores" where
  "gores_bind r f = (case r of Ok a \<Rightarrow> f a | Err e \<Rightarrow> Err e | Panic m \<Rightarrow> Panic m)"

lemma gores_bind_simps [simp]:
  "gores_bind (Ok a) f = f a" "gores_bind (Err e) f = Err e" "gores_bind (Panic m) f = Panic m"
  by (simp_all add: gores_bind_def)

lemma gores_bind_Ok [simp]:
  "gores_bind r f = Ok b \<longleftrightarrow> (\<exists>a. r = Ok a \<and> f a = Ok b)"
  by (cases r) simp_all

section \<open>Rendering\<close>

text \<open>Decimal rendering of a natural number (\<open>%d\<close>).\<close>

definition digit_char :: "nat \<Rightarrow> char" where
  "digit_char d = char_of (48 + d)"

fun show_nat :: "nat \<Rightarrow> string" where
  "show_nat n = (if n < 10 then [digit_char n] else show_nat (n div 10) @ [digit_char (n mod 10)])"

declare show_nat.simps [simp del]

definition show_int :: "int \<Rightarrow> string" where
  "show_int i = (if i < 0 then CHR ''-'' # show_nat (nat (- i)) else show_nat (nat i))"

lemma of_char_digit_char [simp]: "d < 10 \<Longrightarrow> of_char (digit_char d) = (48 + d :: nat)"
  by (simp add: digit_char_def)

lemma digit_char_inj: "a < 10 \<Longrightarrow> b < 10 \<Longrightarrow> digit_char a = digit_char b \<Longrightarrow> a = b"
  by (metis add_left_cancel of_char_digit_char)

lemma show_nat_not_Nil [simp]: "show_nat n \<noteq> []"
  by (subst show_nat.simps) simp

lemma show_nat_inj_aux: "show_nat m = show_nat n \<Longrightarrow> m = n"
proof (induction m arbitrary: n rule: show_nat.induct)
  case (1 m)
  show ?case
  proof (cases "m < 10")
    case True
    have "n < 10"
    proof (rule ccontr)
      assume "\<not> n < 10"
      with 1(2) True have "show_nat (n div 10) @ [digit_char (n mod 10)] = [digit_char m]"
        by (simp add: show_nat.simps [of m] show_nat.simps [of n])
      then show False by simp
    qed
    with True 1(2) show ?thesis
      by (simp add: show_nat.simps [of m] show_nat.simps [of n] digit_char_inj)
  next
    case False
    have n: "\<not> n < 10"
    proof
      assume "n < 10"
      with 1(2) False have "show_nat (m div 10) @ [digit_char (m mod 10)] = [digit_char n]"
        by (simp add: show_nat.simps [of m] show_nat.simps [of n])
      then show False by simp
    qed
    with False 1(2) have eq: "show_nat (m div 10) = show_nat (n div 10)"
        "digit_char (m mod 10) = digit_char (n mod 10)"
      by (simp_all add: show_nat.simps [of m] show_nat.simps [of n])
    have "m div 10 = n div 10" using 1(1) False eq(1) by blast
    moreover have "m mod 10 = n mod 10" using eq(2) by (intro digit_char_inj) simp_all
    ultimately show ?thesis by (metis div_mult_mod_eq)
  qed
qed

lemma show_nat_inj [simp]: "show_nat m = show_nat n \<longleftrightarrow> m = n"
  using show_nat_inj_aux by blast

text \<open>
  \<open>%q\<close> (\<open>strconv.Quote\<close>) for ASCII text: the named escapes, \<open>\xhh\<close> for other control
  characters; bytes above 127 are taken to belong to printable UTF-8 and pass unchanged.
\<close>

definition hex_digit :: "nat \<Rightarrow> char" where
  "hex_digit d = (if d < 10 then char_of (48 + d) else char_of (87 + d))"

definition quote_char :: "char \<Rightarrow> string" where
  "quote_char c =
     (let n = of_char c :: nat in
      if c = CHR 0x22 then [CHR 0x5C, CHR 0x22]
      else if c = CHR 0x5C then [CHR 0x5C, CHR 0x5C]
      else if n = 7 then [CHR 0x5C, CHR ''a'']
      else if n = 8 then [CHR 0x5C, CHR ''b'']
      else if n = 9 then [CHR 0x5C, CHR ''t'']
      else if n = 10 then [CHR 0x5C, CHR ''n'']
      else if n = 11 then [CHR 0x5C, CHR ''v'']
      else if n = 12 then [CHR 0x5C, CHR ''f'']
      else if n = 13 then [CHR 0x5C, CHR ''r'']
      else if n < 32 \<or> n = 127 then [CHR 0x5C, CHR ''x'', hex_digit (n div 16), hex_digit (n mod 16)]
      else [c])"

definition go_quote :: "string \<Rightarrow> string" where
  "go_quote s = CHR 0x22 # concat (map quote_char s) @ [CHR 0x22]"

section \<open>Go maps\<close>

text \<open>
  A Go map is an association list with distinct keys: \<open>map_of m k\<close> reads,
  \<open>AList.update k v m\<close> is \<open>m[k] = v\<close>, \<open>AList.delete k m\<close> is \<open>delete(m, k)\<close>,
  \<open>length m\<close> is \<open>len(m)\<close>.
\<close>

type_synonym ('k, 'v) gomap = "('k \<times> 'v) list"

abbreviation gomap_ok :: "('k, 'v) gomap \<Rightarrow> bool" where
  "gomap_ok m \<equiv> distinct (map fst m)"

lemma map_of_update [simp]: "map_of (AList.update k v m) = (map_of m)(k \<mapsto> v)"
  by (rule AList.update_conv')

lemma map_of_delete [simp]: "map_of (AList.delete k m) = (map_of m)(k := None)"
  by (rule AList.delete_conv')

lemma gomap_ok_update [intro, simp]: "gomap_ok m \<Longrightarrow> gomap_ok (AList.update k v m)"
  by (rule AList.distinct_update)

lemma gomap_ok_delete [intro, simp]: "gomap_ok m \<Longrightarrow> gomap_ok (AList.delete k m)"
  by (rule AList.distinct_delete)

lemma length_update:
  "length (AList.update k v m) = (if map_of m k = None then Suc (length m) else length m)"
  by (induction m) auto

lemma delete_absent: "map_of m k = None \<Longrightarrow> AList.delete k m = m"
  by (simp add: AList.delete_idem map_of_eq_None_iff)

lemma length_delete:
  "gomap_ok m \<Longrightarrow> length (AList.delete k m) = (if map_of m k = None then length m else length m - 1)"
proof (induction m)
  case (Cons p m)
  obtain a b where p: "p = (a, b)" by force
  show ?case
  proof (cases "a = k")
    case True
    with Cons.prems p have "map_of m k = None" by (auto simp: map_of_eq_None_iff)
    with True p show ?thesis by (simp add: delete_absent)
  next
    case False
    moreover have "length m \<noteq> 0" if "map_of m k \<noteq> None" using that by auto
    ultimately show ?thesis using Cons p by (cases "map_of m k") auto
  qed
qed simp

section \<open>Lists\<close>

lemma sum_list_remove1:
  "x \<in> set xs \<Longrightarrow> sum_list (map f (remove1 x xs)) + f x = (sum_list (map f xs) :: int)"
  by (induction xs) auto

lemma nth_list_update_cases:
  "i < length xs \<Longrightarrow> xs[i := x] ! j = (if i = j then x else xs ! j)"
  by (cases "i = j") simp_all

end
