(* ===== verification/Completion_Pipe.thy ===== *)
theory Completion_Pipe
  imports Go_Prelude "HOL-Library.Multiset"
begin

text \<open>
  The bounded completion pipeline of \<open>internal/completionpipe/completionpipe.go\<close>.

  A ticket's closures are represented by labels of an arbitrary type \<open>'a\<close> (a nil function is
  \<open>None\<close>); the workers that build tickets say what each label does. Every critical section of the
  mutex is one definition here: \<open>enqueue\<close>, \<open>finish_and_take_next\<close> and the body of
  \<open>Result.Finalize\<close>. The goroutine \<open>Pipeline.run\<close> is the sequence of phases of \<open>proc\<close>, and
  \<open>pipe_step\<close> interleaves the goroutines, the buffered results channel and the worker loop that
  owns the pipeline.

  The lemmas show the accounting invariant (what \<open>outstanding\<close>, \<open>totalWeight\<close> and \<open>active\<close>
  count, and that they stay within their limits), first-in first-out submission, exactly-once
  submission and finalisation, and that a pipeline that receives no more tickets drains.
\<close>

section \<open>Data\<close>

definition err_at_capacity :: goerr where
  "err_at_capacity = ErrSentinel ''completion pipeline at capacity''"

definition err_invalid_size :: goerr where
  "err_invalid_size = ErrSentinel ''completion ticket weight must be positive''"

definition default_max_outstanding_weight :: int where
  "default_max_outstanding_weight = 64 * 2 ^ 20"

record 'a ticket =
  tk_submit :: "'a option"
  tk_after_submit :: "'a option"
  tk_finalize :: "'a option"
  tk_weight :: int

record 'a queued_ticket =
  q_ticket :: "'a ticket"
  q_weight :: int

text \<open>
  A \<open>Result\<close> keeps the entry its \<open>finalize\<close> closure captured; \<open>r_finalized\<close> is the state of
  its \<open>sync.Once\<close>.
\<close>

record 'a result =
  r_err :: "goerr option"
  r_entry :: "'a queued_ticket"
  r_finalized :: bool

record 'a pipeline =
  p_limit :: int
  p_max_items :: int
  p_max_weight :: int
  p_active :: int
  p_outstanding :: int
  p_total_weight :: int
  p_queue :: "'a queued_ticket list"
  p_results :: "'a result list"

datatype pipe_option = WithMaxOutstanding int | WithMaxWeight int

section \<open>Construction\<close>

definition at_least_one :: "int \<Rightarrow> int" where
  "at_least_one limit = (if limit < 1 then 1 else limit)"

fun apply_option :: "'a pipeline \<Rightarrow> pipe_option option \<Rightarrow> 'a pipeline" where
  "apply_option p None = p"
| "apply_option p (Some (WithMaxOutstanding limit)) = p\<lparr>p_max_items := at_least_one limit\<rparr>"
| "apply_option p (Some (WithMaxWeight limit)) = p\<lparr>p_max_weight := at_least_one limit\<rparr>"

definition new_pipeline :: "int \<Rightarrow> pipe_option option list \<Rightarrow> 'a pipeline" where
  "new_pipeline limit0 options =
     (let limit = at_least_one limit0;
          p = foldl apply_option
                \<lparr>p_limit = limit, p_max_items = limit * 2,
                 p_max_weight = default_max_outstanding_weight, p_active = 0,
                 p_outstanding = 0, p_total_weight = 0, p_queue = [], p_results = []\<rparr> options
      in if p_max_items p < p_limit p then p\<lparr>p_max_items := p_limit p\<rparr> else p)"

section \<open>Operations\<close>

definition normalized_weight :: "'a ticket \<Rightarrow> goerr + int" where
  "normalized_weight t =
     (if tk_weight t = 0 then Inr 1
      else if tk_weight t < 0 then Inl err_invalid_size
      else Inr (tk_weight t))"

text \<open>
  What \<open>Enqueue\<close> did: it refused the ticket with an error (calling its finalizer or not), it
  started a goroutine for it, or it left it in the queue. The last two return nil.
\<close>

datatype 'a enqueue_outcome =
    Refused goerr "'a option"
  | StartedRun "'a queued_ticket"
  | LeftQueued

definition reject :: "'a ticket \<Rightarrow> goerr \<Rightarrow> 'a enqueue_outcome" where
  "reject t e = Refused e (tk_finalize t)"

definition over_weight :: "'a pipeline \<Rightarrow> int \<Rightarrow> bool" where
  "over_weight p weight \<longleftrightarrow>
     p_max_weight p > 0 \<and>
     (weight > p_max_weight p \<or> p_total_weight p > p_max_weight p - weight)"

definition enqueue :: "'a pipeline \<Rightarrow> 'a ticket \<Rightarrow> 'a pipeline \<times> 'a enqueue_outcome" where
  "enqueue p t =
     (if tk_submit t = None
      then (p, Refused (ErrNew ''completion ticket submission is required'') None)
      else case normalized_weight t of
        Inl e \<Rightarrow> (p, reject t e)
      | Inr weight \<Rightarrow>
          if p_outstanding p \<ge> p_max_items p \<or> over_weight p weight
          then (p, reject t err_at_capacity)
          else
            let p1 = p\<lparr>p_outstanding := p_outstanding p + 1,
                       p_total_weight := p_total_weight p + weight\<rparr>;
                entry = \<lparr>q_ticket = t, q_weight = weight\<rparr>
            in if p_active p1 < p_limit p1
               then (p1\<lparr>p_active := p_active p1 + 1\<rparr>, StartedRun entry)
               else (p1\<lparr>p_queue := p_queue p1 @ [entry]\<rparr>, LeftQueued))"

definition finish_and_take_next ::
    "'a pipeline \<Rightarrow> 'a pipeline \<times> 'a queued_ticket option" where
  "finish_and_take_next p =
     (let p1 = p\<lparr>p_active := p_active p - 1\<rparr> in
      case p_queue p1 of
        [] \<Rightarrow> (p1, None)
      | entry # rest \<Rightarrow> (p1\<lparr>p_queue := rest, p_active := p_active p1 + 1\<rparr>, Some entry))"

text \<open>The critical section of the \<open>finalize\<close> closure that \<open>run\<close> builds.\<close>

definition release_outstanding :: "'a pipeline \<Rightarrow> 'a queued_ticket \<Rightarrow> 'a pipeline" where
  "release_outstanding p entry =
     p\<lparr>p_outstanding := p_outstanding p - 1,
       p_total_weight := p_total_weight p - q_weight entry\<rparr>"

text \<open>
  \<open>Result.Finalize\<close>: the first call runs the ticket's finalizer (returned here) and releases the
  slot; later calls and a nil result do nothing.
\<close>

definition result_finalize ::
    "'a pipeline \<Rightarrow> 'a result option \<Rightarrow> 'a pipeline \<times> 'a result option \<times> 'a option" where
  "result_finalize p r =
     (case r of
        None \<Rightarrow> (p, None, None)
      | Some res \<Rightarrow>
          if r_finalized res then (p, Some res, None)
          else (release_outstanding p (r_entry res), Some (res\<lparr>r_finalized := True\<rparr>),
                tk_finalize (q_ticket (r_entry res))))"

section \<open>The running system\<close>

text \<open>
  The phases of the goroutine \<open>run\<close>: about to call \<open>Submit\<close>; about to call
  \<open>AfterSubmit\<close> with the error \<open>Submit\<close> returned; about to send the result; about to take
  the next ticket.
\<close>

datatype 'a proc =
    Submitting "'a queued_ticket"
  | AfterSubmitting "'a queued_ticket" "goerr option"
  | SendingResult "'a queued_ticket" "goerr option"
  | Finishing

fun held :: "'a proc \<Rightarrow> 'a queued_ticket list" where
  "held (Submitting q) = [q]"
| "held (AfterSubmitting q e) = [q]"
| "held (SendingResult q e) = [q]"
| "held Finishing = []"

fun unsubmitted :: "'a proc \<Rightarrow> 'a queued_ticket list" where
  "unsubmitted (Submitting q) = [q]"
| "unsubmitted _ = []"

text \<open>
  \<open>s_taken\<close> are the results the owner received from the channel. The last five fields record the
  history: tickets accepted and started in order, submissions, finalisations, and refusals.
\<close>

record 'a psys =
  s_pipe :: "'a pipeline"
  s_procs :: "'a proc list"
  s_taken :: "'a result list"
  s_accepted :: "'a queued_ticket list"
  s_started :: "'a queued_ticket list"
  s_submitted :: "'a queued_ticket list"
  s_finalized :: "'a queued_ticket list"
  s_refused :: "('a ticket \<times> goerr) list"

definition initial_psys :: "int \<Rightarrow> pipe_option option list \<Rightarrow> 'a psys" where
  "initial_psys limit options =
     \<lparr>s_pipe = new_pipeline limit options, s_procs = [], s_taken = [], s_accepted = [],
      s_started = [], s_submitted = [], s_finalized = [], s_refused = []\<rparr>"

definition entry_of :: "'a ticket \<Rightarrow> 'a queued_ticket" where
  "entry_of t = \<lparr>q_ticket = t, q_weight = (case normalized_weight t of Inl e \<Rightarrow> 0 | Inr w \<Rightarrow> w)\<rparr>"

text \<open>A call of \<open>Enqueue\<close> by the owner, its \<open>go pipeline.run\<close> included.\<close>

definition sys_enqueue :: "'a psys \<Rightarrow> 'a ticket \<Rightarrow> 'a psys" where
  "sys_enqueue s t =
     (case enqueue (s_pipe s) t of
        (p, Refused e f) \<Rightarrow> s\<lparr>s_pipe := p, s_refused := s_refused s @ [(t, e)]\<rparr>
      | (p, StartedRun entry) \<Rightarrow>
          s\<lparr>s_pipe := p, s_procs := s_procs s @ [Submitting entry],
            s_accepted := s_accepted s @ [entry], s_started := s_started s @ [entry]\<rparr>
      | (p, LeftQueued) \<Rightarrow>
          s\<lparr>s_pipe := p, s_accepted := s_accepted s @ [entry_of t]\<rparr>)"

text \<open>The last statement of \<open>run\<close>, by the goroutine between \<open>ps\<close> and \<open>qs\<close>.\<close>

definition sys_finish :: "'a psys \<Rightarrow> 'a proc list \<Rightarrow> 'a proc list \<Rightarrow> 'a psys" where
  "sys_finish s ps qs =
     (case finish_and_take_next (s_pipe s) of
        (p, None) \<Rightarrow> s\<lparr>s_pipe := p, s_procs := ps @ qs\<rparr>
      | (p, Some entry) \<Rightarrow>
          s\<lparr>s_pipe := p, s_procs := ps @ qs @ [Submitting entry],
            s_started := s_started s @ [entry]\<rparr>)"

text \<open>The owner finalises the received result between \<open>rs\<close> and \<open>ts\<close>.\<close>

definition sys_finalize :: "'a psys \<Rightarrow> 'a result list \<Rightarrow> 'a result \<Rightarrow> 'a result list \<Rightarrow> 'a psys" where
  "sys_finalize s rs r ts =
     (case result_finalize (s_pipe s) (Some r) of
        (p, r', f) \<Rightarrow>
          s\<lparr>s_pipe := p, s_taken := rs @ the r' # ts,
            s_finalized := s_finalized s @ (if r_finalized r then [] else [r_entry r])\<rparr>)"

inductive pipe_internal :: "'a psys \<Rightarrow> 'a psys \<Rightarrow> bool" where
  submit: "s_procs s = ps @ Submitting q # qs \<Longrightarrow>
    pipe_internal s (s\<lparr>s_procs := ps @ AfterSubmitting q e # qs,
                       s_submitted := s_submitted s @ [q]\<rparr>)"
| after_submit: "s_procs s = ps @ AfterSubmitting q e # qs \<Longrightarrow>
    pipe_internal s (s\<lparr>s_procs := ps @ SendingResult q e # qs\<rparr>)"
| send: "s_procs s = ps @ SendingResult q e # qs \<Longrightarrow>
    int (length (p_results (s_pipe s))) < p_limit (s_pipe s) \<Longrightarrow>
    pipe_internal s
      (s\<lparr>s_procs := ps @ Finishing # qs,
         s_pipe := (s_pipe s)\<lparr>p_results := p_results (s_pipe s) @
                      [\<lparr>r_err = e, r_entry = q, r_finalized = False\<rparr>]\<rparr>\<rparr>)"
| finish: "s_procs s = ps @ Finishing # qs \<Longrightarrow> pipe_internal s (sys_finish s ps qs)"
| receive: "p_results (s_pipe s) = r # rs \<Longrightarrow>
    pipe_internal s (s\<lparr>s_pipe := (s_pipe s)\<lparr>p_results := rs\<rparr>, s_taken := s_taken s @ [r]\<rparr>)"
| finalize: "s_taken s = rs @ r # ts \<Longrightarrow> \<not> r_finalized r \<Longrightarrow>
    pipe_internal s (sys_finalize s rs r ts)"

inductive pipe_step :: "'a psys \<Rightarrow> 'a psys \<Rightarrow> bool" where
  internal: "pipe_internal s s' \<Longrightarrow> pipe_step s s'"
| enqueue: "pipe_step s (sys_enqueue s t)"
| finalize_again: "s_taken s = rs @ r # ts \<Longrightarrow> r_finalized r \<Longrightarrow>
    pipe_step s (sys_finalize s rs r ts)"

inductive pipe_reachable :: "int \<Rightarrow> pipe_option option list \<Rightarrow> 'a psys \<Rightarrow> bool"
  for limit options where
  start: "pipe_reachable limit options (initial_psys limit options)"
| step: "pipe_reachable limit options s \<Longrightarrow> pipe_step s s' \<Longrightarrow> pipe_reachable limit options s'"

inductive_cases pipe_stepE: "pipe_step s s'"
inductive_cases pipe_internalE: "pipe_internal s s'"

section \<open>The accounting invariant\<close>

text \<open>The entries that hold a slot: queued, in a goroutine, in the channel, or not yet finalised.\<close>

definition live :: "'a psys \<Rightarrow> 'a queued_ticket list" where
  "live s = p_queue (s_pipe s) @ concat (map held (s_procs s)) @
            map r_entry (p_results (s_pipe s)) @
            map r_entry (filter (\<lambda>r. \<not> r_finalized r) (s_taken s))"

definition limits_ok :: "'a pipeline \<Rightarrow> bool" where
  "limits_ok p \<longleftrightarrow> 1 \<le> p_limit p \<and> p_limit p \<le> p_max_items p \<and> 1 \<le> p_max_weight p"

definition slots_ok :: "'a psys \<Rightarrow> bool" where
  "slots_ok s \<longleftrightarrow>
     p_active (s_pipe s) = int (length (s_procs s)) \<and>
     p_active (s_pipe s) \<le> p_limit (s_pipe s) \<and>
     (p_queue (s_pipe s) \<noteq> [] \<longrightarrow> p_active (s_pipe s) = p_limit (s_pipe s)) \<and>
     int (length (p_results (s_pipe s))) \<le> p_limit (s_pipe s) \<and>
     (\<forall>r \<in> set (p_results (s_pipe s)). \<not> r_finalized r)"

definition weight_sum :: "'a queued_ticket list \<Rightarrow> int" where
  "weight_sum qs = sum_list (map q_weight qs)"

definition budget_ok :: "'a psys \<Rightarrow> bool" where
  "budget_ok s \<longleftrightarrow>
     p_outstanding (s_pipe s) = int (length (live s)) \<and>
     p_total_weight (s_pipe s) = weight_sum (live s) \<and>
     p_outstanding (s_pipe s) \<le> p_max_items (s_pipe s) \<and>
     p_total_weight (s_pipe s) \<le> p_max_weight (s_pipe s) \<and>
     (\<forall>q \<in> set (live s). 1 \<le> q_weight q)"

text \<open>
  The history: accepted tickets start in the order of their acceptance; what was started and is
  not about to be submitted has been submitted; what was accepted and holds no slot any more has
  been finalised.
\<close>

definition fifo_ok :: "'a psys \<Rightarrow> bool" where
  "fifo_ok s \<longleftrightarrow> s_accepted s = s_started s @ p_queue (s_pipe s)"

definition submitted_ok :: "'a psys \<Rightarrow> bool" where
  "submitted_ok s \<longleftrightarrow>
     mset (s_started s) = mset (concat (map unsubmitted (s_procs s))) + mset (s_submitted s)"

definition finalized_ok :: "'a psys \<Rightarrow> bool" where
  "finalized_ok s \<longleftrightarrow> mset (s_accepted s) = mset (live s) + mset (s_finalized s)"

definition pipe_inv :: "'a psys \<Rightarrow> bool" where
  "pipe_inv s \<longleftrightarrow>
     limits_ok (s_pipe s) \<and> slots_ok s \<and> budget_ok s \<and>
     fifo_ok s \<and> submitted_ok s \<and> finalized_ok s"

lemma pipe_invI [intro?]:
  "limits_ok (s_pipe s) \<Longrightarrow> slots_ok s \<Longrightarrow> budget_ok s \<Longrightarrow> fifo_ok s \<Longrightarrow> submitted_ok s \<Longrightarrow>
   finalized_ok s \<Longrightarrow> pipe_inv s"
  by (simp add: pipe_inv_def)

lemma pipe_invD:
  assumes "pipe_inv s"
  shows "limits_ok (s_pipe s)" "slots_ok s" "budget_ok s" "fifo_ok s" "submitted_ok s"
    "finalized_ok s"
  using assms by (simp_all add: pipe_inv_def)

text \<open>Options touch only the two limits, and keep the weight limit positive.\<close>

definition options_frame :: "'a pipeline \<Rightarrow> 'a pipeline \<Rightarrow> bool" where
  "options_frame p p' \<longleftrightarrow>
     (\<exists>mi mw. p' = p\<lparr>p_max_items := mi, p_max_weight := mw\<rparr> \<and> (1 \<le> p_max_weight p \<longrightarrow> 1 \<le> mw))"

lemma options_frameI:
  "p' = p\<lparr>p_max_items := mi, p_max_weight := mw\<rparr> \<Longrightarrow> (1 \<le> p_max_weight p \<Longrightarrow> 1 \<le> mw) \<Longrightarrow>
   options_frame p p'"
  unfolding options_frame_def by blast

lemma apply_option_frame: "options_frame p (apply_option p opt)"
proof (cases "(p, opt)" rule: apply_option.cases)
  case (1 p')
  then show ?thesis by (intro options_frameI [where mi = "p_max_items p" and mw = "p_max_weight p"]) auto
next
  case (2 p' limit)
  then show ?thesis
    by (intro options_frameI [where mi = "at_least_one limit" and mw = "p_max_weight p"]) auto
next
  case (3 p' limit)
  then show ?thesis
    by (intro options_frameI [where mi = "p_max_items p" and mw = "at_least_one limit"])
      (auto simp: at_least_one_def)
qed

lemma options_frame_trans:
  assumes "options_frame p q" and "options_frame q r"
  shows "options_frame p r"
proof -
  from assms(1) obtain mi mw where q: "q = p\<lparr>p_max_items := mi, p_max_weight := mw\<rparr>"
      and pq: "1 \<le> p_max_weight p \<longrightarrow> 1 \<le> mw"
    unfolding options_frame_def by blast
  from assms(2) obtain mi' mw' where r: "r = q\<lparr>p_max_items := mi', p_max_weight := mw'\<rparr>"
      and qr: "1 \<le> p_max_weight q \<longrightarrow> 1 \<le> mw'"
    unfolding options_frame_def by blast
  show ?thesis
    using q r pq qr by (intro options_frameI [where mi = mi' and mw = mw']) simp_all
qed

lemma options_frame_refl: "options_frame p p"
  using apply_option_frame [of p None] by simp

lemma foldl_options_frame: "options_frame p (foldl apply_option p os)"
proof (induction os arbitrary: p)
  case Nil
  show ?case by (simp add: options_frame_refl)
next
  case (Cons opt os)
  show ?case
    using options_frame_trans [OF apply_option_frame Cons.IH] by simp
qed

text \<open>What \<open>New\<close> guarantees, whatever the limit and the options.\<close>

lemma new_pipeline_form:
  obtains mi mw where "at_least_one limit \<le> mi" "1 \<le> mw"
    "new_pipeline limit os = \<lparr>p_limit = at_least_one limit, p_max_items = mi, p_max_weight = mw,
       p_active = 0, p_outstanding = 0, p_total_weight = 0, p_queue = [], p_results = []\<rparr>"
proof -
  let ?p0 = "\<lparr>p_limit = at_least_one limit, p_max_items = at_least_one limit * 2,
     p_max_weight = default_max_outstanding_weight, p_active = 0, p_outstanding = 0,
     p_total_weight = 0, p_queue = [], p_results = []\<rparr> :: 'a pipeline"
  from foldl_options_frame [of ?p0 os] obtain mi mw
    where fold: "foldl apply_option ?p0 os = ?p0\<lparr>p_max_items := mi, p_max_weight := mw\<rparr>"
      and mw: "1 \<le> mw"
    unfolding options_frame_def by (auto simp: default_max_outstanding_weight_def)
  from fold mw show ?thesis
    by (intro that [of "max mi (at_least_one limit)" mw]) (simp_all add: new_pipeline_def Let_def)
qed

lemma at_least_one_ge: "1 \<le> at_least_one n"
  by (simp add: at_least_one_def)

lemma pipe_inv_initial: "pipe_inv (initial_psys limit os)"
proof (rule new_pipeline_form [of limit os])
  fix mi mw
  assume "at_least_one limit \<le> mi" "1 \<le> mw"
    "new_pipeline limit os = (\<lparr>p_limit = at_least_one limit, p_max_items = mi, p_max_weight = mw,
       p_active = 0, p_outstanding = 0, p_total_weight = 0, p_queue = [], p_results = []\<rparr> ::
       'a pipeline)"
  then show ?thesis
    using at_least_one_ge [of limit]
    by (simp add: pipe_inv_def limits_ok_def slots_ok_def budget_ok_def fifo_ok_def
        submitted_ok_def finalized_ok_def live_def weight_sum_def initial_psys_def)
qed

subsection \<open>Every step keeps it\<close>

lemma normalized_weight_pos: "normalized_weight t = Inr w \<Longrightarrow> 1 \<le> w"
  by (auto simp: normalized_weight_def split: if_splits)

lemma entry_of_Inr: "normalized_weight t = Inr w \<Longrightarrow> entry_of t = \<lparr>q_ticket = t, q_weight = w\<rparr>"
  by (simp add: entry_of_def)

text \<open>The three ways \<open>Enqueue\<close> can end, with the state it leaves.\<close>

lemma enqueue_cases:
  obtains (refused) e f where "enqueue p t = (p, Refused e f)"
  | (started) w where "normalized_weight t = Inr w" "tk_submit t \<noteq> None"
      "p_outstanding p < p_max_items p" "\<not> over_weight p w" "p_active p < p_limit p"
      "enqueue p t = (p\<lparr>p_outstanding := p_outstanding p + 1,
         p_total_weight := p_total_weight p + w, p_active := p_active p + 1\<rparr>,
         StartedRun \<lparr>q_ticket = t, q_weight = w\<rparr>)"
  | (queued) w where "normalized_weight t = Inr w" "tk_submit t \<noteq> None"
      "p_outstanding p < p_max_items p" "\<not> over_weight p w" "p_limit p \<le> p_active p"
      "enqueue p t = (p\<lparr>p_outstanding := p_outstanding p + 1,
         p_total_weight := p_total_weight p + w,
         p_queue := p_queue p @ [\<lparr>q_ticket = t, q_weight = w\<rparr>]\<rparr>, LeftQueued)"
proof (cases "tk_submit t = None")
  case True
  show ?thesis by (rule refused) (simp add: enqueue_def True)
next
  case False
  show ?thesis
  proof (cases "normalized_weight t")
    case (Inl e)
    show ?thesis by (rule refused) (simp add: enqueue_def reject_def False Inl)
  next
    case (Inr w)
    show ?thesis
    proof (cases "p_outstanding p \<ge> p_max_items p \<or> over_weight p w")
      case True
      then show ?thesis
        by (intro refused [of err_at_capacity "tk_finalize t"]) (auto simp: enqueue_def reject_def False Inr)
    next
      case room: False
      show ?thesis
      proof (cases "p_active p < p_limit p")
        case True
        with False Inr room show ?thesis
          by (intro started [of w]) (simp_all add: enqueue_def Let_def)
      next
        case full: False
        with False Inr room show ?thesis
          by (intro queued [of w]) (simp_all add: enqueue_def Let_def)
      qed
    qed
  qed
qed

lemma not_over_weightD:
  "\<not> over_weight p w \<Longrightarrow> 1 \<le> p_max_weight p \<Longrightarrow> p_total_weight p + w \<le> p_max_weight p"
  by (auto simp: over_weight_def)

text \<open>
  Each step moves entries between the places \<open>live\<close> counts: these are the definitions every case
  below needs.
\<close>

lemmas live_simps = live_def weight_sum_def
lemmas part_defs = limits_ok_def slots_ok_def budget_ok_def live_simps
lemmas log_defs = fifo_ok_def submitted_ok_def finalized_ok_def

text \<open>Most rules move one entry from one place to the next, or nothing at all.\<close>

lemma pipe_inv_move:
  assumes inv: "pipe_inv s"
    and frame: "s_accepted s' = s_accepted s" "s_started s' = s_started s"
      "s_finalized s' = s_finalized s" "p_queue (s_pipe s') = p_queue (s_pipe s)"
      "p_outstanding (s_pipe s') = p_outstanding (s_pipe s)"
      "p_total_weight (s_pipe s') = p_total_weight (s_pipe s)"
      "p_max_items (s_pipe s') = p_max_items (s_pipe s)"
      "p_max_weight (s_pipe s') = p_max_weight (s_pipe s)"
      "p_limit (s_pipe s') = p_limit (s_pipe s)"
    and slots: "slots_ok s'" and live: "mset (live s') = mset (live s)"
    and submitted: "submitted_ok s'"
  shows "pipe_inv s'"
proof
  have "length (live s') = length (live s)" using live by (rule mset_eq_length)
  moreover have "set (live s') = set (live s)" using live by (rule mset_eq_setD)
  moreover have "weight_sum (live s') = weight_sum (live s)"
    using live unfolding weight_sum_def by (metis mset_map sum_mset_sum_list)
  ultimately show "budget_ok s'" using pipe_invD(3) [OF inv] frame by (simp add: budget_ok_def)
  show "limits_ok (s_pipe s')" "fifo_ok s'" "finalized_ok s'"
    using pipe_invD(1,4,6) [OF inv] frame live by (simp_all add: limits_ok_def log_defs)
qed (fact slots submitted)+

lemma refused_inv:
  assumes "pipe_inv s"
  shows "pipe_inv (s\<lparr>s_refused := rf\<rparr>)"
  using pipe_invD(2,5) [OF assms]
  by (intro pipe_inv_move [OF assms]) (auto simp: slots_ok_def submitted_ok_def live_def)

lemma pipe_inv_enqueue:
  assumes inv: "pipe_inv s"
  shows "pipe_inv (sys_enqueue s t)"
proof (cases rule: enqueue_cases [of "s_pipe s" t])
  case (refused e f)
  have "sys_enqueue s t = s\<lparr>s_refused := s_refused s @ [(t, e)]\<rparr>"
    by (simp add: sys_enqueue_def refused)
  with inv show ?thesis by (simp add: refused_inv)
next
  case (started w)
  note w = normalized_weight_pos [OF started(1)] not_over_weightD [OF started(4)]
  show ?thesis
  proof
    show "limits_ok (s_pipe (sys_enqueue s t))" "slots_ok (sys_enqueue s t)"
      "budget_ok (sys_enqueue s t)"
      using pipe_invD(1-3) [OF inv] started(3,5) w
      by (auto simp: sys_enqueue_def started(6) part_defs)
    show "fifo_ok (sys_enqueue s t)"
      using pipe_invD(2,4) [OF inv] started(5)
      by (auto simp: sys_enqueue_def started(6) fifo_ok_def slots_ok_def)
    show "submitted_ok (sys_enqueue s t)" "finalized_ok (sys_enqueue s t)"
      using pipe_invD(5,6) [OF inv]
      by (simp_all add: sys_enqueue_def started(6) submitted_ok_def finalized_ok_def live_def)
  qed
next
  case (queued w)
  note w = normalized_weight_pos [OF queued(1)] not_over_weightD [OF queued(4)]
  show ?thesis
  proof
    show "limits_ok (s_pipe (sys_enqueue s t))" "slots_ok (sys_enqueue s t)"
      "budget_ok (sys_enqueue s t)"
      using pipe_invD(1-3) [OF inv] queued(3,5) w
      by (auto simp: sys_enqueue_def queued(6) part_defs)
    show "fifo_ok (sys_enqueue s t)" "submitted_ok (sys_enqueue s t)"
      "finalized_ok (sys_enqueue s t)"
      using pipe_invD(4-6) [OF inv]
      by (simp_all add: sys_enqueue_def queued(6) entry_of_Inr [OF queued(1)] log_defs live_def)
  qed
qed

lemma pipe_inv_finish:
  assumes inv: "pipe_inv s" and procs: "s_procs s = ps @ Finishing # qs"
  shows "pipe_inv (sys_finish s ps qs)"
proof (cases "p_queue (s_pipe s)")
  case Nil
  note defs = sys_finish_def finish_and_take_next_def Let_def Nil procs
  show ?thesis
  proof
    show "limits_ok (s_pipe (sys_finish s ps qs))" "slots_ok (sys_finish s ps qs)"
      "budget_ok (sys_finish s ps qs)"
      using pipe_invD(1-3) [OF inv] by (auto simp: defs part_defs)
    show "fifo_ok (sys_finish s ps qs)" "submitted_ok (sys_finish s ps qs)"
      "finalized_ok (sys_finish s ps qs)"
      using pipe_invD(4-6) [OF inv] by (simp_all add: defs log_defs live_def)
  qed
next
  case (Cons q rest)
  note defs = sys_finish_def finish_and_take_next_def Let_def Cons procs
  show ?thesis
  proof
    show "limits_ok (s_pipe (sys_finish s ps qs))" "slots_ok (sys_finish s ps qs)"
      "budget_ok (sys_finish s ps qs)"
      using pipe_invD(1-3) [OF inv] by (auto simp: defs part_defs)
    show "fifo_ok (sys_finish s ps qs)" "submitted_ok (sys_finish s ps qs)"
      "finalized_ok (sys_finish s ps qs)"
      using pipe_invD(4-6) [OF inv] by (simp_all add: defs log_defs live_def)
  qed
qed

lemma pipe_inv_finalize:
  assumes inv: "pipe_inv s" and taken: "s_taken s = rs @ r # ts"
  shows "pipe_inv (sys_finalize s rs r ts)"
proof -
  note defs = sys_finalize_def result_finalize_def release_outstanding_def taken
  show ?thesis
  proof
    show "limits_ok (s_pipe (sys_finalize s rs r ts))" "slots_ok (sys_finalize s rs r ts)"
      "budget_ok (sys_finalize s rs r ts)"
      using pipe_invD(1-3) [OF inv] by (cases "r_finalized r"; auto simp: defs part_defs)+
    show "fifo_ok (sys_finalize s rs r ts)" "submitted_ok (sys_finalize s rs r ts)"
      "finalized_ok (sys_finalize s rs r ts)"
      using pipe_invD(4-6) [OF inv] by (cases "r_finalized r"; simp add: defs log_defs live_def)+
  qed
qed

lemma pipe_inv_internal: "pipe_internal s s' \<Longrightarrow> pipe_inv s \<Longrightarrow> pipe_inv s'"
proof (induction rule: pipe_internal.induct)
  case (submit s ps q qs e)
  then show ?case
    using pipe_invD(2,5) [OF submit.prems]
    by (intro pipe_inv_move [OF submit.prems]) (auto simp: slots_ok_def submitted_ok_def live_def)
next
  case (after_submit s ps q e qs)
  then show ?case
    using pipe_invD(2,5) [OF after_submit.prems]
    by (intro pipe_inv_move [OF after_submit.prems])
      (auto simp: slots_ok_def submitted_ok_def live_def)
next
  case (send s ps q e qs)
  then show ?case
    using pipe_invD(2,5) [OF send.prems]
    by (intro pipe_inv_move [OF send.prems]) (auto simp: slots_ok_def submitted_ok_def live_def)
next
  case (finish s ps qs)
  then show ?case by (blast intro: pipe_inv_finish)
next
  case (receive s r rs)
  then show ?case
    using pipe_invD(2,5) [OF receive.prems]
    by (intro pipe_inv_move [OF receive.prems])
      (auto simp: slots_ok_def submitted_ok_def live_def)
next
  case (finalize s rs r ts)
  then show ?case by (blast intro: pipe_inv_finalize)
qed

lemma pipe_inv_step: "pipe_step s s' \<Longrightarrow> pipe_inv s \<Longrightarrow> pipe_inv s'"
  by (induction rule: pipe_step.induct)
    (blast intro: pipe_inv_internal pipe_inv_enqueue pipe_inv_finalize)+

lemma pipe_reachable_inv: "pipe_reachable limit os s \<Longrightarrow> pipe_inv s"
  by (induction rule: pipe_reachable.induct) (blast intro: pipe_inv_initial pipe_inv_step)+

section \<open>Draining\<close>

text \<open>
  Every internal step brings an accepted ticket closer to its finalisation: the weights below
  strictly decrease, so without new tickets only finitely many steps remain.
\<close>

fun proc_rank :: "'a proc \<Rightarrow> nat" where
  "proc_rank (Submitting q) = 6"
| "proc_rank (AfterSubmitting q e) = 5"
| "proc_rank (SendingResult q e) = 4"
| "proc_rank Finishing = 1"

definition work_left :: "'a psys \<Rightarrow> nat" where
  "work_left s =
     6 * length (p_queue (s_pipe s)) + sum_list (map proc_rank (s_procs s)) +
     2 * length (p_results (s_pipe s)) + length (filter (\<lambda>r. \<not> r_finalized r) (s_taken s))"

lemma internal_decreases: "pipe_internal s s' \<Longrightarrow> work_left s' < work_left s"
proof (induction rule: pipe_internal.induct)
  case (finish s ps qs)
  then show ?case
    by (cases "p_queue (s_pipe s)")
      (simp_all add: work_left_def sys_finish_def finish_and_take_next_def Let_def)
next
  case (finalize s rs r ts)
  then show ?case
    by (simp add: work_left_def sys_finalize_def result_finalize_def release_outstanding_def)
qed (simp_all add: work_left_def)

text \<open>A pipeline with an outstanding ticket is never stuck.\<close>

lemma internal_progress:
  assumes inv: "pipe_inv s" and out: "p_outstanding (s_pipe s) > 0"
  shows "\<exists>s'. pipe_internal s s'"
proof (cases "s_procs s")
  case (Cons pr qs)
  then have procs: "s_procs s = [] @ pr # qs" by simp
  show ?thesis
  proof (cases pr)
    case (SendingResult q e)
    show ?thesis
    proof (cases "p_results (s_pipe s)")
      case Nil
      with pipe_invD(1) [OF inv] have "int (length (p_results (s_pipe s))) < p_limit (s_pipe s)"
        by (simp add: limits_ok_def)
      then show ?thesis using pipe_internal.send procs SendingResult by blast
    next
      case (Cons r rs)
      then show ?thesis by (blast intro: pipe_internal.receive)
    qed
  qed (use procs in \<open>blast intro: pipe_internal.intros\<close>)+
next
  case Nil
  with pipe_invD(1,2) [OF inv] have queue: "p_queue (s_pipe s) = []"
    by (auto simp: slots_ok_def limits_ok_def)
  show ?thesis
  proof (cases "p_results (s_pipe s)")
    case (Cons r rs)
    then show ?thesis by (blast intro: pipe_internal.receive)
  next
    case res: Nil
    with out queue Nil pipe_invD(3) [OF inv] have "filter (\<lambda>r. \<not> r_finalized r) (s_taken s) \<noteq> []"
      by (auto simp: budget_ok_def live_def)
    then obtain r where "r \<in> set (s_taken s)" and r: "\<not> r_finalized r"
      by (auto simp: filter_empty_conv)
    then obtain rs ts where "s_taken s = rs @ r # ts" by (meson split_list)
    with r show ?thesis by (blast intro: pipe_internal.finalize)
  qed
qed

lemma pipe_limit_constant:
  "pipe_step s s' \<Longrightarrow> p_limit (s_pipe s') = p_limit (s_pipe s)"
proof (induction rule: pipe_step.induct)
  case (internal s s')
  then show ?case
  proof (induction rule: pipe_internal.induct)
    case (finish s ps qs)
    show ?case
      by (cases "p_queue (s_pipe s)") (simp_all add: sys_finish_def finish_and_take_next_def Let_def)
  next
    case (finalize s rs r ts)
    then show ?case by (simp add: sys_finalize_def result_finalize_def release_outstanding_def)
  qed simp_all
next
  case (enqueue s t)
  show ?case by (cases rule: enqueue_cases [of "s_pipe s" t]) (simp_all add: sys_enqueue_def)
next
  case (finalize_again s rs r ts)
  then show ?case by (simp add: sys_finalize_def result_finalize_def)
qed

lemma pipe_reachable_limit: "pipe_reachable limit os s \<Longrightarrow> p_limit (s_pipe s) = at_least_one limit"
proof (induction rule: pipe_reachable.induct)
  case start
  show ?case
    unfolding initial_psys_def by (metis new_pipeline_form pipeline.select_convs(1) psys.select_convs(1))
next
  case (step s s')
  then show ?case using pipe_limit_constant by metis
qed

section \<open>Properties\<close>

lemma accepted_minus_live: "pipe_inv s \<Longrightarrow>
  int (length (s_accepted s)) = p_outstanding (s_pipe s) + int (length (s_finalized s))"
  using pipe_invD(3,6) [of s]
  by (simp add: budget_ok_def finalized_ok_def flip: size_mset)

lemma unsubmitted_subset_held:
  "mset (concat (map unsubmitted ps)) \<subseteq># mset (concat (map held ps))"
proof (induction ps)
  case (Cons pr ps)
  have "mset (unsubmitted pr) \<subseteq># mset (held pr)" by (cases pr) simp_all
  with Cons show ?case by (simp add: subset_mset.add_mono)
qed simp

lemma finalized_subset_submitted:
  assumes "pipe_inv s"
  shows "mset (s_finalized s) \<subseteq># mset (s_submitted s)"
proof -
  let ?U = "mset (concat (map unsubmitted (s_procs s)))"
  let ?R = "mset (map r_entry (p_results (s_pipe s)) @
             map r_entry (filter (\<lambda>r. \<not> r_finalized r) (s_taken s)))"
  obtain D where D: "mset (concat (map held (s_procs s))) = ?U + D"
    using unsubmitted_subset_held by (metis subset_mset.le_iff_add)
  have "?U + mset (s_submitted s) + mset (p_queue (s_pipe s)) =
      mset (p_queue (s_pipe s)) + (?U + D) + ?R + mset (s_finalized s)"
    using pipe_invD(4-6) [OF assms] D
    unfolding fifo_ok_def submitted_ok_def finalized_ok_def live_def by (simp add: ac_simps)
  then have "mset (s_submitted s) = mset (s_finalized s) + (D + ?R)"
    by (simp add: ac_simps)
  then show ?thesis by simp
qed

lemma no_outstanding_all_done:
  assumes inv: "pipe_inv s" and zero: "p_outstanding (s_pipe s) = 0"
  shows "mset (s_finalized s) = mset (s_accepted s)" "mset (s_submitted s) = mset (s_accepted s)"
proof -
  from pipe_invD(3) [OF inv] zero have live: "live s = []" by (simp add: budget_ok_def)
  with pipe_invD(6) [OF inv] show fin: "mset (s_finalized s) = mset (s_accepted s)"
    by (simp add: finalized_ok_def)
  have "mset (s_submitted s) \<subseteq># mset (s_accepted s)"
    using pipe_invD(4,5) [OF inv] by (simp add: fifo_ok_def submitted_ok_def)
  with finalized_subset_submitted [OF inv] fin
  show "mset (s_submitted s) = mset (s_accepted s)" by (simp add: subset_mset.antisym)
qed


definition sample_ticket :: "nat ticket" where
  "sample_ticket = \<lparr>tk_submit = Some 1, tk_after_submit = None, tk_finalize = Some 2, tk_weight = 7\<rparr>"

lemma sample_reachable: "pipe_reachable 1 [] (sys_enqueue (initial_psys 1 []) sample_ticket)"
  by (rule pipe_reachable.step [OF pipe_reachable.start]) (rule pipe_step.enqueue)


text \<open>
  C6. The pipeline submits tickets in the order it accepted them, submits and finalises each
  accepted ticket at most once, never finalises a ticket before submitting it, and once nothing is
  outstanding every accepted ticket has been submitted and finalised exactly once.
\<close>

theorem pipeline_exactly_once:
  assumes "pipe_reachable limit options s"
  shows "s_accepted s = s_started s @ p_queue (s_pipe s) \<and>
    mset (s_finalized s) \<subseteq># mset (s_submitted s) \<and>
    mset (s_submitted s) \<subseteq># mset (s_accepted s) \<and>
    (p_outstanding (s_pipe s) = 0 \<longrightarrow>
       mset (s_submitted s) = mset (s_accepted s) \<and> mset (s_finalized s) = mset (s_accepted s))"
proof (intro conjI impI)
  from assms have inv: "pipe_inv s" by (rule pipe_reachable_inv)
  show fifo: "s_accepted s = s_started s @ p_queue (s_pipe s)"
    using pipe_invD(4) [OF inv] by (simp add: fifo_ok_def)
  show "mset (s_submitted s) \<subseteq># mset (s_accepted s)"
    using pipe_invD(5) [OF inv] by (simp add: fifo submitted_ok_def)
qed (use pipe_reachable_inv [OF assms] finalized_subset_submitted no_outstanding_all_done in blast)+

lemma pipeline_exactly_once_witness:
  "s_accepted (sys_enqueue (initial_psys 1 []) sample_ticket) =
   s_started (sys_enqueue (initial_psys 1 []) sample_ticket)"
  using pipeline_exactly_once [OF sample_reachable]
  by (simp add: sys_enqueue_def initial_psys_def new_pipeline_def enqueue_def sample_ticket_def
      at_least_one_def default_max_outstanding_weight_def normalized_weight_def over_weight_def)



end
