(* ===== verification/Payload_Converter.thy ===== *)
theory Payload_Converter
  imports Go_Prelude
begin

text \<open>
  The payload converters of \<open>internal/converter\<close>: Go values to and from Temporal payloads.

  Go values reach the converters through \<open>any\<close> and \<open>reflect\<close>; \<open>goval\<close> lists the dynamic
  values the code distinguishes, \<open>gotype\<close> their types. A destination pointer is a
  \<open>gotarget\<close>: the nil interface, something that is not a usable pointer, or a pointer to a
  variable of a type holding a value. Byte slices and strings are both \<open>char list\<close> (a
  \<open>char\<close> is a byte). JSON, Protobuf JSON and Protobuf (de)serialisation come from outside the
  repository and are the fields of \<open>codec_lib\<close>.

  The lemmas show that every converter tags its payloads with its own encoding, that the composite
  converter routes a payload back to the converter that wrote it, and the round trips this gives.
\<close>

section \<open>Values, types and payloads\<close>

type_synonym bytes = "char list"

record payload =
  pl_metadata :: "(string, bytes) gomap option"
  pl_data :: bytes

datatype gotype =
    TAny
  | TError
  | TWorkflowContext
  | TGoContext
  | TBool
  | TInt
  | TString
  | TByte
  | TSlice gotype
  | TPtr gotype
  | TMessage string
  | TRawValue
  | TNamed string
  | TFunc

datatype goval =
    VNil
  | VBool bool
  | VInt int
  | VString string
  | VBytes bytes
  | VSlice gotype "goval list"
  | VPtr gotype "goval option"
  | VMessage string bytes
  | VRaw "payload option"
  | VPayload "payload option"
  | VPayloads "payload option list"
  | VExecution string string
  | VNamed string goval
  | VFunc

text \<open>
  \<open>VMessage n c\<close> is a generated struct of message type \<open>n\<close> with contents \<open>c\<close>; only its
  pointer implements \<open>proto.Message\<close>. \<open>VPayload\<close> is a \<open>*commonpb.Payload\<close>,
  \<open>VPayloads\<close> a \<open>[]*commonpb.Payload\<close>, \<open>VExecution\<close> a \<open>WorkflowExecution\<close>.
\<close>

definition payload_message_name :: string where
  "payload_message_name = ''temporal.api.common.v1.Payload''"

fun type_of :: "goval \<Rightarrow> gotype" where
  "type_of VNil = TAny"
| "type_of (VBool b) = TBool"
| "type_of (VInt i) = TInt"
| "type_of (VString s) = TString"
| "type_of (VBytes b) = TSlice TByte"
| "type_of (VSlice t vs) = TSlice t"
| "type_of (VPtr t v) = TPtr t"
| "type_of (VMessage n c) = TMessage n"
| "type_of (VRaw p) = TRawValue"
| "type_of (VPayload p) = TPtr (TMessage payload_message_name)"
| "type_of (VPayloads ps) = TSlice (TPtr (TMessage payload_message_name))"
| "type_of (VExecution i r) = TNamed ''WorkflowExecution''"
| "type_of (VNamed n v) = TNamed n"
| "type_of VFunc = TFunc"

text \<open>\<open>reflect.Zero\<close>; the zero value of \<open>[]byte\<close> is identified with the empty slice.\<close>

fun zero_value :: "gotype \<Rightarrow> goval" where
  "zero_value TBool = VBool False"
| "zero_value TInt = VInt 0"
| "zero_value TByte = VInt 0"
| "zero_value TString = VString []"
| "zero_value (TSlice t) = (if t = TByte then VBytes [] else VSlice t [])"
| "zero_value (TPtr t) = (if t = TMessage payload_message_name then VPayload None else VPtr t None)"
| "zero_value (TMessage n) = VMessage n []"
| "zero_value TRawValue = VRaw None"
| "zero_value (TNamed n) = VNamed n VNil"
| "zero_value TFunc = VFunc"
| "zero_value TAny = VNil"
| "zero_value TError = VNil"
| "zero_value TWorkflowContext = VNil"
| "zero_value TGoContext = VNil"

text \<open>\<open>reflect.Type.AssignableTo\<close> for the dynamic type of a non-nil value.\<close>

definition assignable_to :: "goval \<Rightarrow> gotype \<Rightarrow> bool" where
  "assignable_to v t \<longleftrightarrow> t = TAny \<or> type_of v = t"

datatype gotarget = NilTarget | BadTarget gotype | Target gotype goval

text \<open>What storing through a target did: the error returned, and the value written, if any.\<close>

type_synonym stored = "goerr option \<times> goval option"

abbreviation stored_ok :: "goval \<Rightarrow> stored" where
  "stored_ok v \<equiv> (None, Some v)"

abbreviation stored_err :: "goerr \<Rightarrow> stored" where
  "stored_err e \<equiv> (Some e, None)"

section \<open>The interface\<close>

text \<open>\<open>PayloadConverter\<close>, as the workers use it.\<close>

record converter =
  cv_to_payload :: "goval \<Rightarrow> payload option gores"
  cv_from_payload :: "payload option \<Rightarrow> gotarget \<Rightarrow> stored"
  cv_to_payloads :: "goval list \<Rightarrow> payload option list option gores"
  cv_from_payloads :: "payload option list option \<Rightarrow> gotarget list \<Rightarrow> goerr option \<times> goval option list"

text \<open>\<open>PayloadEncodingConverter\<close>: one encoding.\<close>

record encoding_converter =
  ec_to_payload :: "goval \<Rightarrow> payload option gores"
  ec_from_payload :: "payload \<Rightarrow> gotarget \<Rightarrow> stored"
  ec_to_string :: "payload \<Rightarrow> string"
  ec_encoding :: string

record protojson_options =
  pj_exclude_message_types :: bool
  pj_allow_unknown_fields :: bool
  pj_use_proto_names :: bool
  pj_use_enum_numbers :: bool
  pj_emit_unpopulated :: bool
  pj_legacy_temporal_compat :: bool

text \<open>
  The serialisation libraries. Marshalling a message takes its type and contents; unmarshalling
  returns an error, if any, and the contents the destination then holds (a failed unmarshal may have
  written part of it). \<open>type_name\<close> and \<open>show_value\<close> are \<open>%T\<close> and \<open>%v\<close>.
\<close>

record codec_lib =
  json_marshal :: "goval \<Rightarrow> goerr + bytes"
  json_unmarshal :: "bytes \<Rightarrow> gotype \<Rightarrow> goval \<Rightarrow> goerr option \<times> goval"
  protojson_marshal :: "protojson_options \<Rightarrow> string \<Rightarrow> bytes \<Rightarrow> goerr + bytes"
  protojson_unmarshal :: "protojson_options \<Rightarrow> bytes \<Rightarrow> string \<Rightarrow> bytes \<Rightarrow> goerr option \<times> bytes"
  proto_marshal :: "string \<Rightarrow> bytes \<Rightarrow> goerr + bytes"
  proto_unmarshal :: "bytes \<Rightarrow> string \<Rightarrow> bytes \<Rightarrow> goerr option \<times> bytes"
  payload_content :: "payload option \<Rightarrow> bytes"
  content_payload :: "bytes \<Rightarrow> payload"
  base64_raw :: "bytes \<Rightarrow> string"
  type_name :: "gotype \<Rightarrow> string"
  show_value :: "goval \<Rightarrow> string"

section \<open>Metadata and errors\<close>

definition metadata_encoding :: string where "metadata_encoding = ''encoding''"
definition metadata_message_type :: string where "metadata_message_type = ''messageType''"
definition encoding_binary :: string where "encoding_binary = ''binary/plain''"
definition encoding_json :: string where "encoding_json = ''json/plain''"
definition encoding_nil :: string where "encoding_nil = ''binary/null''"
definition encoding_proto_json :: string where "encoding_proto_json = ''json/protobuf''"
definition encoding_proto :: string where "encoding_proto = ''binary/protobuf''"

definition err_metadata_not_set :: goerr where
  "err_metadata_not_set = ErrSentinel ''metadata is not set''"
definition err_encoding_not_set :: goerr where
  "err_encoding_not_set = ErrSentinel ''payload encoding metadata is not set''"
definition err_encoding_not_supported :: goerr where
  "err_encoding_not_supported = ErrSentinel ''payload encoding is not supported''"
definition err_unable_to_encode :: goerr where
  "err_unable_to_encode = ErrSentinel ''unable to encode''"
definition err_unable_to_decode :: goerr where
  "err_unable_to_decode = ErrSentinel ''unable to decode''"
definition err_unable_to_find_converter :: goerr where
  "err_unable_to_find_converter = ErrSentinel ''unable to find converter''"
definition err_not_proto_message :: goerr where
  "err_not_proto_message = ErrSentinel ''type doesn't implement proto.Message''"
definition err_not_pointer :: goerr where
  "err_not_pointer = ErrSentinel ''not a pointer type''"
definition err_must_be_concrete :: goerr where
  "err_must_be_concrete = ErrSentinel ''must be a concrete type, not interface''"
definition err_not_byte_slice :: goerr where
  "err_not_byte_slice = ErrSentinel ''type is not *[]byte''"

lemmas converter_names = metadata_encoding_def metadata_message_type_def encoding_binary_def
  encoding_json_def encoding_nil_def encoding_proto_json_def encoding_proto_def

definition target_type_name :: "codec_lib \<Rightarrow> gotarget \<Rightarrow> string" where
  "target_type_name lib target = (case target of
     NilTarget \<Rightarrow> ''<nil>'' | BadTarget t \<Rightarrow> type_name lib t | Target t v \<Rightarrow> CHR ''*'' # type_name lib t)"

definition with_type :: "codec_lib \<Rightarrow> gotarget \<Rightarrow> goerr \<Rightarrow> goerr" where
  "with_type lib target e = ErrWrap (''type: '' @ target_type_name lib target @ '': '') e []"

definition with_cause :: "goerr \<Rightarrow> goerr \<Rightarrow> goerr" where
  "with_cause e cause = ErrWrap [] e ('': '' @ err_msg cause)"

definition new_payload :: "bytes \<Rightarrow> string \<Rightarrow> payload" where
  "new_payload data enc = \<lparr>pl_metadata = Some [(metadata_encoding, enc)], pl_data = data\<rparr>"

definition new_proto_payload :: "bytes \<Rightarrow> string \<Rightarrow> bool \<Rightarrow> string \<Rightarrow> payload" where
  "new_proto_payload data enc exclude_types message_type =
     (if exclude_types then new_payload data enc
      else \<lparr>pl_metadata = Some [(metadata_encoding, enc), (metadata_message_type, message_type)],
            pl_data = data\<rparr>)"

text \<open>\<open>encoding\<close> of \<open>composite_payload_converter.go\<close>.\<close>

definition encoding_of :: "payload \<Rightarrow> goerr + string" where
  "encoding_of p =
     (case pl_metadata p of
        None \<Rightarrow> Inl err_metadata_not_set
      | Some md \<Rightarrow>
          (case map_of md metadata_encoding of
             Some enc \<Rightarrow> Inr enc
           | None \<Rightarrow> Inl err_encoding_not_set))"

lemma encoding_of_new_payload [simp]: "encoding_of (new_payload d enc) = Inr enc"
  by (simp add: encoding_of_def new_payload_def)

lemma encoding_of_new_proto_payload [simp]: "encoding_of (new_proto_payload d enc x m) = Inr enc"
  by (simp add: encoding_of_def new_proto_payload_def new_payload_def)

section \<open>Reflection helpers\<close>

definition is_interface_nil :: "goval \<Rightarrow> bool" where
  "is_interface_nil v = (case v of
     VNil \<Rightarrow> True | VPtr t None \<Rightarrow> True | VPayload None \<Rightarrow> True | _ \<Rightarrow> False)"

text \<open>
  A value that implements \<open>proto.Message\<close>, directly or through the pointer
  \<open>pointerTo\<close> builds: its message type and contents.
\<close>

definition as_message :: "codec_lib \<Rightarrow> goval \<Rightarrow> (string \<times> bytes) option" where
  "as_message lib v = (case v of
     VPtr t (Some (VMessage n c)) \<Rightarrow> if t = TMessage n then Some (n, c) else None
   | VPtr (TMessage n) None \<Rightarrow> Some (n, [])
   | VPayload p \<Rightarrow> Some (payload_message_name, payload_content lib p)
   | _ \<Rightarrow> None)"

definition as_message_or_pointer :: "codec_lib \<Rightarrow> goval \<Rightarrow> (string \<times> bytes) option" where
  "as_message_or_pointer lib v = (case as_message lib v of
     Some m \<Rightarrow> Some m
   | None \<Rightarrow> (case v of VMessage n c \<Rightarrow> Some (n, c) | _ \<Rightarrow> None))"

section \<open>The encoding converters\<close>

subsection \<open>binary/null\<close>

definition nil_to_payload :: "goval \<Rightarrow> payload option gores" where
  "nil_to_payload v = Ok (if is_interface_nil v then Some (new_payload [] encoding_nil) else None)"

definition nil_from_payload :: "codec_lib \<Rightarrow> payload \<Rightarrow> gotarget \<Rightarrow> stored" where
  "nil_from_payload lib p target = (case target of
     Target t v \<Rightarrow> stored_ok (zero_value t)
   | _ \<Rightarrow> stored_err (with_type lib target err_not_pointer))"

definition nil_converter :: "codec_lib \<Rightarrow> encoding_converter" where
  "nil_converter lib = \<lparr>ec_to_payload = nil_to_payload, ec_from_payload = nil_from_payload lib,
     ec_to_string = (\<lambda>p. ''nil''), ec_encoding = encoding_nil\<rparr>"

subsection \<open>binary/plain\<close>

definition bytes_to_payload :: "goval \<Rightarrow> payload option gores" where
  "bytes_to_payload v = Ok (case v of VBytes b \<Rightarrow> Some (new_payload b encoding_binary) | _ \<Rightarrow> None)"

definition bytes_from_payload :: "codec_lib \<Rightarrow> payload \<Rightarrow> gotarget \<Rightarrow> stored" where
  "bytes_from_payload lib p target = (case target of
     Target t v \<Rightarrow>
       if t = TAny then stored_ok (VBytes (pl_data p))
       else if t = TSlice TByte then stored_ok (VBytes (pl_data p))
       else stored_err (with_type lib target err_not_byte_slice)
   | _ \<Rightarrow> stored_err (with_type lib target err_not_pointer))"

definition bytes_to_string :: "codec_lib \<Rightarrow> payload \<Rightarrow> string" where
  "bytes_to_string lib p = base64_raw lib (pl_data p)"

definition bytes_converter :: "codec_lib \<Rightarrow> encoding_converter" where
  "bytes_converter lib = \<lparr>ec_to_payload = bytes_to_payload, ec_from_payload = bytes_from_payload lib,
     ec_to_string = bytes_to_string lib, ec_encoding = encoding_binary\<rparr>"

subsection \<open>json/protobuf\<close>

definition json_null :: bytes where "json_null = ''null''"

definition protojson_to_payload ::
    "codec_lib \<Rightarrow> protojson_options \<Rightarrow> goval \<Rightarrow> payload option gores" where
  "protojson_to_payload lib opts v =
     (if is_interface_nil v then Ok (Some (new_payload json_null encoding_proto_json))
      else case as_message_or_pointer lib v of
        None \<Rightarrow> Ok None
      | Some (n, c) \<Rightarrow>
          (case protojson_marshal lib opts n c of
             Inl e \<Rightarrow> Err (with_cause err_unable_to_encode e)
           | Inr data \<Rightarrow>
               Ok (Some (new_proto_payload data encoding_proto_json (pj_exclude_message_types opts) n))))"

text \<open>
  The destination of a message: through a pointer variable (allocated when nil) or a struct
  variable (copied, decoded, stored back).
\<close>

definition message_pointer :: "codec_lib \<Rightarrow> string \<Rightarrow> bytes \<Rightarrow> goval" where
  "message_pointer lib n c =
     (if n = payload_message_name then VPayload (Some (content_payload lib c))
      else VPtr (TMessage n) (Some (VMessage n c)))"

definition current_content :: "codec_lib \<Rightarrow> goval \<Rightarrow> bytes" where
  "current_content lib v = (case v of
     VPtr t (Some (VMessage n c)) \<Rightarrow> c
   | VPayload (Some p) \<Rightarrow> payload_content lib (Some p)
   | VMessage n c \<Rightarrow> c
   | _ \<Rightarrow> [])"

definition store_message ::
    "codec_lib \<Rightarrow> (string \<Rightarrow> bytes \<Rightarrow> goerr option \<times> bytes) \<Rightarrow> gotarget \<Rightarrow> gotype \<Rightarrow> goval \<Rightarrow> stored" where
  "store_message lib unmarshal target t v =
     (let finish = (\<lambda>wrap n. case unmarshal n (current_content lib v) of
              (e, c) \<Rightarrow> (map_option (with_cause err_unable_to_decode) e, Some (wrap n c)))
      in case t of
        TPtr (TMessage n) \<Rightarrow> finish (message_pointer lib) n
      | TMessage n \<Rightarrow> finish VMessage n
      | _ \<Rightarrow> stored_err (with_type lib target err_not_proto_message))"

definition is_interface_type :: "gotype \<Rightarrow> bool" where
  "is_interface_type t \<longleftrightarrow> t = TAny \<or> t = TError \<or> t = TGoContext"

definition protojson_from_payload ::
    "codec_lib \<Rightarrow> protojson_options \<Rightarrow> payload \<Rightarrow> gotarget \<Rightarrow> stored" where
  "protojson_from_payload lib opts p target = (case target of
     Target t v \<Rightarrow>
       if pl_data p = json_null then stored_ok (zero_value t)
       else if is_interface_type t
       then stored_err (ErrWrap (''value type: '' @ type_name lib t @ '': '') err_must_be_concrete [])
       else store_message lib (protojson_unmarshal lib opts (pl_data p)) target t v
   | _ \<Rightarrow> stored_err (with_type lib target err_not_pointer))"

definition protojson_converter :: "codec_lib \<Rightarrow> protojson_options \<Rightarrow> encoding_converter" where
  "protojson_converter lib opts = \<lparr>ec_to_payload = protojson_to_payload lib opts,
     ec_from_payload = protojson_from_payload lib opts,
     ec_to_string = pl_data, ec_encoding = encoding_proto_json\<rparr>"

subsection \<open>binary/protobuf\<close>

definition proto_to_payload :: "codec_lib \<Rightarrow> bool \<Rightarrow> goval \<Rightarrow> payload option gores" where
  "proto_to_payload lib exclude_types v =
     (if v = VNil then Panic ''reflect: New(nil)''
      else case as_message_or_pointer lib v of
        None \<Rightarrow> Ok None
      | Some (n, c) \<Rightarrow>
          (case proto_marshal lib n c of
             Inl e \<Rightarrow> Err (with_cause err_unable_to_encode e)
           | Inr data \<Rightarrow> Ok (Some (new_proto_payload data encoding_proto exclude_types n))))"

definition proto_from_payload :: "codec_lib \<Rightarrow> payload \<Rightarrow> gotarget \<Rightarrow> stored" where
  "proto_from_payload lib p target = (case target of
     Target t v \<Rightarrow>
       if is_interface_type t
       then stored_err (ErrWrap (''value type: '' @ type_name lib t @ '': '') err_must_be_concrete [])
       else store_message lib (proto_unmarshal lib (pl_data p)) target t v
   | _ \<Rightarrow> stored_err (with_type lib target err_not_pointer))"

definition proto_to_string :: "codec_lib \<Rightarrow> payload \<Rightarrow> string" where
  "proto_to_string lib p = base64_raw lib (pl_data p)"

definition proto_converter :: "codec_lib \<Rightarrow> bool \<Rightarrow> encoding_converter" where
  "proto_converter lib exclude_types = \<lparr>ec_to_payload = proto_to_payload lib exclude_types,
     ec_from_payload = proto_from_payload lib, ec_to_string = proto_to_string lib,
     ec_encoding = encoding_proto\<rparr>"

subsection \<open>json/plain\<close>

definition json_to_payload :: "codec_lib \<Rightarrow> goval \<Rightarrow> payload option gores" where
  "json_to_payload lib v = (case json_marshal lib v of
     Inl e \<Rightarrow> Err (with_cause err_unable_to_encode e)
   | Inr data \<Rightarrow> Ok (Some (new_payload data encoding_json)))"

definition json_from_payload :: "codec_lib \<Rightarrow> payload \<Rightarrow> gotarget \<Rightarrow> stored" where
  "json_from_payload lib p target = (case target of
     Target t v \<Rightarrow>
       (case json_unmarshal lib (pl_data p) t v of
          (e, v') \<Rightarrow> (map_option (with_cause err_unable_to_decode) e, Some v'))
   | NilTarget \<Rightarrow> stored_err (with_cause err_unable_to_decode (ErrNew ''json: Unmarshal(nil)''))
   | BadTarget t \<Rightarrow>
       stored_err (with_cause err_unable_to_decode
         (ErrNew (''json: Unmarshal(non-pointer '' @ type_name lib t @ '')''))))"

definition json_converter :: "codec_lib \<Rightarrow> encoding_converter" where
  "json_converter lib = \<lparr>ec_to_payload = json_to_payload lib, ec_from_payload = json_from_payload lib,
     ec_to_string = pl_data, ec_encoding = encoding_json\<rparr>"

section \<open>The composite converter\<close>

record composite =
  cc_converters :: "(string, encoding_converter) gomap"
  cc_ordered :: "string list"

definition new_composite :: "encoding_converter list \<Rightarrow> composite" where
  "new_composite cs =
     \<lparr>cc_converters = foldl (\<lambda>m c. AList.update (ec_encoding c) c m) [] cs,
      cc_ordered = map ec_encoding cs\<rparr>"

text \<open>The loop of \<open>ToPayload\<close> over the ordered encodings; a missing map entry is a nil interface.\<close>

fun first_payload :: "codec_lib \<Rightarrow> composite \<Rightarrow> goval \<Rightarrow> string list \<Rightarrow> payload option gores" where
  "first_payload lib c v [] =
     Err (ErrWrap (''value: '' @ show_value lib v @ '' of type: '' @ type_name lib (type_of v) @ '': '')
            err_unable_to_find_converter [])"
| "first_payload lib c v (enc # encs) =
     (case map_of (cc_converters c) enc of
        None \<Rightarrow> Panic ''invalid memory address or nil pointer dereference''
      | Some ec \<Rightarrow>
          (case ec_to_payload ec v of
             Err e \<Rightarrow> Err e
           | Panic m \<Rightarrow> Panic m
           | Ok (Some p) \<Rightarrow> Ok (Some p)
           | Ok None \<Rightarrow> first_payload lib c v encs))"

definition composite_to_payload :: "codec_lib \<Rightarrow> composite \<Rightarrow> goval \<Rightarrow> payload option gores" where
  "composite_to_payload lib c v = (case v of
     VRaw p \<Rightarrow> Ok p
   | _ \<Rightarrow> first_payload lib c v (cc_ordered c))"

definition composite_from_payload :: "composite \<Rightarrow> payload option \<Rightarrow> gotarget \<Rightarrow> stored" where
  "composite_from_payload c p target = (case p of
     None \<Rightarrow> (None, None)
   | Some pl \<Rightarrow>
       (case target of
          Target TRawValue v \<Rightarrow> stored_ok (VRaw (Some pl))
        | _ \<Rightarrow>
            (case encoding_of pl of
               Inl e \<Rightarrow> stored_err e
             | Inr enc \<Rightarrow>
                 (case map_of (cc_converters c) enc of
                    None \<Rightarrow> stored_err (ErrWrap (''encoding '' @ enc @ '': '') err_encoding_not_supported [])
                  | Some ec \<Rightarrow> ec_from_payload ec pl target))))"

fun to_payloads_from :: "codec_lib \<Rightarrow> composite \<Rightarrow> nat \<Rightarrow> goval list \<Rightarrow> payload option list gores" where
  "to_payloads_from lib c i [] = Ok []"
| "to_payloads_from lib c i (v # vs) =
     (case composite_to_payload lib c v of
        Err e \<Rightarrow> Err (ErrWrap (''values['' @ show_nat i @ '']: '') e [])
      | Panic m \<Rightarrow> Panic m
      | Ok p \<Rightarrow> gores_bind (to_payloads_from lib c (Suc i) vs) (\<lambda>ps. Ok (p # ps)))"

definition composite_to_payloads ::
    "codec_lib \<Rightarrow> composite \<Rightarrow> goval list \<Rightarrow> payload option list option gores" where
  "composite_to_payloads lib c vs =
     (if vs = [] then Ok None else gores_bind (to_payloads_from lib c 0 vs) (\<lambda>ps. Ok (Some ps)))"

text \<open>
  \<open>FromPayloads\<close> stops at the first error and ignores surplus payloads; the list holds what was
  written through each target (surplus targets keep their value).
\<close>

fun from_payloads_from ::
    "composite \<Rightarrow> nat \<Rightarrow> payload option list \<Rightarrow> gotarget list \<Rightarrow> goerr option \<times> goval option list" where
  "from_payloads_from c i ps [] = (None, [])"
| "from_payloads_from c i [] ts = (None, map (\<lambda>t. None) ts)"
| "from_payloads_from c i (p # ps) (t # ts) =
     (case composite_from_payload c p t of
        (Some e, w) \<Rightarrow>
          (Some (ErrWrap (''payload item '' @ show_nat i @ '': '') e []), w # map (\<lambda>t. None) ts)
      | (None, w) \<Rightarrow>
          (case from_payloads_from c (Suc i) ps ts of (e, ws) \<Rightarrow> (e, w # ws)))"

definition composite_from_payloads ::
    "composite \<Rightarrow> payload option list option \<Rightarrow> gotarget list \<Rightarrow> goerr option \<times> goval option list" where
  "composite_from_payloads c ps ts = (case ps of
     None \<Rightarrow> (None, map (\<lambda>t. None) ts)
   | Some pls \<Rightarrow> from_payloads_from c 0 pls ts)"

definition composite_to_string :: "composite \<Rightarrow> payload option \<Rightarrow> string" where
  "composite_to_string c p = (case p of
     None \<Rightarrow> []
   | Some pl \<Rightarrow>
       (case encoding_of pl of
          Inl e \<Rightarrow> err_msg e
        | Inr enc \<Rightarrow>
            (case map_of (cc_converters c) enc of
               None \<Rightarrow> err_msg (ErrWrap (''encoding '' @ enc @ '': '') err_encoding_not_supported [])
             | Some ec \<Rightarrow> ec_to_string ec pl)))"

definition composite_to_strings :: "composite \<Rightarrow> payload option list option \<Rightarrow> string list" where
  "composite_to_strings c ps = (case ps of None \<Rightarrow> [] | Some pls \<Rightarrow> map (composite_to_string c) pls)"

definition composite_converter :: "codec_lib \<Rightarrow> composite \<Rightarrow> converter" where
  "composite_converter lib c = \<lparr>cv_to_payload = composite_to_payload lib c,
     cv_from_payload = composite_from_payload c, cv_to_payloads = composite_to_payloads lib c,
     cv_from_payloads = composite_from_payloads c\<rparr>"

definition default_protojson_options :: protojson_options where
  "default_protojson_options = \<lparr>pj_exclude_message_types = False, pj_allow_unknown_fields = False,
     pj_use_proto_names = False, pj_use_enum_numbers = False, pj_emit_unpopulated = False,
     pj_legacy_temporal_compat = False\<rparr>"

definition default_encoding_converters :: "codec_lib \<Rightarrow> encoding_converter list" where
  "default_encoding_converters lib = [nil_converter lib, bytes_converter lib,
     protojson_converter lib default_protojson_options, proto_converter lib False,
     json_converter lib]"

definition default_composite :: "codec_lib \<Rightarrow> composite" where
  "default_composite lib = new_composite (default_encoding_converters lib)"

definition default_payload_converter :: "codec_lib \<Rightarrow> converter" where
  "default_payload_converter lib = composite_converter lib (default_composite lib)"

lemmas converter_record_defs = nil_converter_def bytes_converter_def protojson_converter_def
  proto_converter_def json_converter_def

section \<open>What the composite promises\<close>

subsection \<open>The interface\<close>

text \<open>
  What \<open>CompositePayloadConverter\<close> relies on: the converters write payloads that carry their own
  encoding, and no two share an encoding.
\<close>

locale tagged_converters =
  fixes lib :: codec_lib and cs :: "encoding_converter list"
  assumes tagged: "ec \<in> set cs \<Longrightarrow> ec_to_payload ec v = Ok (Some p) \<Longrightarrow>
      encoding_of p = Inr (ec_encoding ec)"
    and distinct_encodings: "distinct (map ec_encoding cs)"

lemma composite_to_payload_not_raw:
  "\<forall>p. v \<noteq> VRaw p \<Longrightarrow> composite_to_payload lib c v = first_payload lib c v (cc_ordered c)"
  by (cases v) (simp_all add: composite_to_payload_def)

lemma map_of_foldl_update:
  "map_of (foldl (\<lambda>m c. AList.update (f c) c m) m0 cs) k =
     (case List.find (\<lambda>c. f c = k) (rev cs) of Some c \<Rightarrow> Some c | None \<Rightarrow> map_of m0 k)"
proof (induction cs rule: rev_induct)
  case (snoc c cs)
  then show ?case by simp
qed simp

lemma find_rev_distinct:
  "distinct (map f cs) \<Longrightarrow> c \<in> set cs \<Longrightarrow> List.find (\<lambda>x. f x = f c) (rev cs) = Some c"
proof (induction cs rule: rev_induct)
  case (snoc x cs)
  show ?case
  proof (cases "f x = f c")
    case True
    have "c = x"
    proof (rule ccontr)
      assume "c \<noteq> x"
      with snoc.prems(2) have "f c \<in> f ` set cs" by simp
      with True snoc.prems(1) show False by auto
    qed
    then show ?thesis by simp
  next
    case False
    with snoc.prems have "c \<in> set cs" by auto
    with snoc False show ?thesis by simp
  qed
qed simp

context tagged_converters
begin

lemma lookup: "ec \<in> set cs \<Longrightarrow> map_of (cc_converters (new_composite cs)) (ec_encoding ec) = Some ec"
  unfolding new_composite_def
  by (simp add: map_of_foldl_update find_rev_distinct [OF distinct_encodings])

lemma first_payload_written:
  assumes "set encs \<subseteq> ec_encoding ` set cs" and "first_payload lib (new_composite cs) v encs = Ok r"
  obtains ec p where "ec \<in> set cs" "ec_to_payload ec v = Ok (Some p)" "r = Some p"
  using assms
proof (induction encs)
  case (Cons enc encs)
  from Cons.prems(2) obtain ec where ec: "ec \<in> set cs" "enc = ec_encoding ec" by auto
  from Cons.prems(3) ec have "first_payload lib (new_composite cs) v (ec_encoding ec # encs) = Ok r"
    by simp
  then show ?case
    using Cons.IH Cons.prems(1,2) ec(1)
    by (auto simp: lookup split: gores.splits option.splits)
qed simp

text \<open>Decoding a payload the composite wrote uses the converter that wrote it.\<close>

lemma routed:
  assumes "composite_to_payload lib (new_composite cs) v = Ok r" and "\<forall>p. v \<noteq> VRaw p"
  obtains ec p where "ec \<in> set cs" "ec_to_payload ec v = Ok (Some p)" "r = Some p"
    "\<And>target. (\<forall>w. target \<noteq> Target TRawValue w) \<Longrightarrow>
       composite_from_payload (new_composite cs) r target = ec_from_payload ec p target"
proof -
  have "first_payload lib (new_composite cs) v (cc_ordered (new_composite cs)) = Ok r"
    using assms by (simp add: composite_to_payload_not_raw)
  moreover have "set (cc_ordered (new_composite cs)) \<subseteq> ec_encoding ` set cs"
    by (simp add: new_composite_def)
  ultimately obtain ec p where ec: "ec \<in> set cs" "ec_to_payload ec v = Ok (Some p)" "r = Some p"
    using first_payload_written by metis
  have "composite_from_payload (new_composite cs) (Some p) target = ec_from_payload ec p target"
    if "\<forall>w. target \<noteq> Target TRawValue w" for target
    using that tagged [OF ec(1,2)] lookup [OF ec(1)]
    by (auto simp: composite_from_payload_def split: gotarget.splits gotype.splits)
  with ec show ?thesis by (intro that) simp_all
qed

lemma first_converter:
  assumes "cs = as @ ec # bs" and "\<And>a. a \<in> set as \<Longrightarrow> ec_to_payload a v = Ok None"
    and "ec_to_payload ec v = Ok (Some p)" and "\<forall>p. v \<noteq> VRaw p"
  shows "composite_to_payload lib (new_composite cs) v = Ok (Some p)"
proof -
  have "first_payload lib (new_composite cs) v (map ec_encoding (xs @ ec # bs)) = Ok (Some p)"
    if "set xs \<subseteq> set as" for xs
    using that
  proof (induction xs)
    case Nil
    have "ec \<in> set cs" using assms(1) by simp
    then show ?case using assms(3) by (simp add: lookup)
  next
    case (Cons a xs)
    then have "a \<in> set cs" using assms(1) by auto
    with Cons assms(2) show ?case by (simp add: lookup)
  qed
  from this [of as] show ?thesis
    using assms(1) composite_to_payload_not_raw [OF assms(4)] by (simp add: new_composite_def)
qed

end

subsection \<open>The converters of the default composite keep it\<close>

lemma nil_tagged: "ec_to_payload (nil_converter lib) v = Ok (Some p) \<Longrightarrow>
    encoding_of p = Inr (ec_encoding (nil_converter lib))"
  by (auto simp: nil_converter_def nil_to_payload_def split: if_splits)

lemma bytes_tagged: "ec_to_payload (bytes_converter lib) v = Ok (Some p) \<Longrightarrow>
    encoding_of p = Inr (ec_encoding (bytes_converter lib))"
  by (auto simp: bytes_converter_def bytes_to_payload_def split: goval.splits)

lemma protojson_tagged: "ec_to_payload (protojson_converter lib opts) v = Ok (Some p) \<Longrightarrow>
    encoding_of p = Inr (ec_encoding (protojson_converter lib opts))"
  by (auto simp: protojson_converter_def protojson_to_payload_def
      split: if_splits option.splits prod.splits sum.splits)

lemma proto_tagged: "ec_to_payload (proto_converter lib x) v = Ok (Some p) \<Longrightarrow>
    encoding_of p = Inr (ec_encoding (proto_converter lib x))"
  by (auto simp: proto_converter_def proto_to_payload_def
      split: if_splits option.splits prod.splits sum.splits)

lemma json_tagged: "ec_to_payload (json_converter lib) v = Ok (Some p) \<Longrightarrow>
    encoding_of p = Inr (ec_encoding (json_converter lib))"
  by (auto simp: json_converter_def json_to_payload_def split: sum.splits)

interpretation default_converters:
  tagged_converters lib "default_encoding_converters lib" for lib
proof
  fix ec v p
  assume "ec \<in> set (default_encoding_converters lib)" "ec_to_payload ec v = Ok (Some p)"
  then show "encoding_of p = Inr (ec_encoding ec)"
    using nil_tagged bytes_tagged protojson_tagged proto_tagged json_tagged
    unfolding default_encoding_converters_def by auto
next
  show "distinct (map ec_encoding (default_encoding_converters lib))"
    by (simp add: default_encoding_converters_def converter_record_defs converter_names)
qed

section \<open>Which converter of the default composite writes a value\<close>

lemma proto_to_payload_message: "proto_to_payload lib x v = Ok (Some p) \<Longrightarrow> as_message_or_pointer lib v \<noteq> None"
  by (auto simp: proto_to_payload_def split: if_splits option.splits)

lemma protojson_refuses:
  "protojson_to_payload lib opts v = Ok None \<Longrightarrow> as_message_or_pointer lib v = None"
  by (auto simp: protojson_to_payload_def split: if_splits option.splits sum.splits prod.splits)

definition default_writers :: "codec_lib \<Rightarrow> encoding_converter list" where
  "default_writers lib = [nil_converter lib, bytes_converter lib,
     protojson_converter lib default_protojson_options, json_converter lib]"

lemma default_first_payload:
  assumes "first_payload lib (default_composite lib) v (cc_ordered (default_composite lib)) = Ok r"
  shows "\<exists>ec \<in> set (default_writers lib). \<exists>p. ec_to_payload ec v = Ok (Some p) \<and> r = Some p"
proof -
  have mem: "nil_converter lib \<in> set (default_encoding_converters lib)"
    "bytes_converter lib \<in> set (default_encoding_converters lib)"
    "protojson_converter lib default_protojson_options \<in> set (default_encoding_converters lib)"
    "proto_converter lib False \<in> set (default_encoding_converters lib)"
    "json_converter lib \<in> set (default_encoding_converters lib)"
    by (simp_all add: default_encoding_converters_def)
  note look = mem [THEN default_converters.lookup]
  have order: "cc_ordered (new_composite (default_encoding_converters lib)) =
      [ec_encoding (nil_converter lib), ec_encoding (bytes_converter lib),
       ec_encoding (protojson_converter lib default_protojson_options),
       ec_encoding (proto_converter lib False), ec_encoding (json_converter lib)]"
    by (simp add: new_composite_def default_encoding_converters_def)
  have no_proto: "ec_to_payload (proto_converter lib False) v \<noteq> Ok (Some p)"
    if "ec_to_payload (protojson_converter lib default_protojson_options) v = Ok None" for p
    using that protojson_refuses proto_to_payload_message
    by (fastforce simp: protojson_converter_def proto_converter_def)
  from assms show ?thesis
    unfolding default_composite_def order first_payload.simps look default_writers_def
    by (auto split: gores.splits option.splits dest: no_proto)
qed

definition read_back :: "codec_lib \<Rightarrow> goval \<Rightarrow> gotarget \<Rightarrow> stored option" where
  "read_back lib v target =
     (case cv_to_payload (default_payload_converter lib) v of
        Ok r \<Rightarrow> Some (cv_from_payload (default_payload_converter lib) r target)
      | _ \<Rightarrow> None)"

lemma read_back_first:
  assumes "default_encoding_converters lib = as @ ec # bs"
    and "list_all (\<lambda>a. ec_to_payload a v = Ok None) as"
    and "ec_to_payload ec v = Ok (Some p)" and "\<forall>p. v \<noteq> VRaw p"
    and "\<forall>w. target \<noteq> Target TRawValue w"
  shows "read_back lib v target = Some (ec_from_payload ec p target)"
proof -
  have w: "composite_to_payload lib (default_composite lib) v = Ok (Some p)"
    unfolding default_composite_def by (rule default_converters.first_converter [OF assms(1) _ assms(3,4)])
      (use assms(2) in \<open>simp add: list_all_iff\<close>)
  have ec: "ec \<in> set (default_encoding_converters lib)" using assms(1) by simp
  have "composite_from_payload (default_composite lib) (Some p) target = ec_from_payload ec p target"
    using assms(5) default_converters.tagged [OF ec assms(3)] default_converters.lookup [OF ec]
    by (auto simp: composite_from_payload_def default_composite_def split: gotarget.splits gotype.splits)
  with w show ?thesis
    by (simp add: read_back_def default_payload_converter_def composite_converter_def)
qed

text \<open>A value no converter but the JSON one takes.\<close>

definition plain_value :: "codec_lib \<Rightarrow> goval \<Rightarrow> bool" where
  "plain_value lib v \<longleftrightarrow> \<not> is_interface_nil v \<and> as_message_or_pointer lib v = None \<and>
     (case v of VBytes b \<Rightarrow> False | VRaw p \<Rightarrow> False | _ \<Rightarrow> True)"

lemma plain_valueD:
  assumes "plain_value lib v"
  shows "\<not> is_interface_nil v" "as_message_or_pointer lib v = None" "\<forall>b. v \<noteq> VBytes b"
    "\<forall>p. v \<noteq> VRaw p" "v \<noteq> VNil"
  using assms by (auto simp: plain_value_def is_interface_nil_def split: goval.splits)

section \<open>Properties\<close>

text \<open>
  A payload the default converter writes for anything but a RawValue is written by its nil,
  byte-slice, Protobuf-JSON or JSON converter (the binary Protobuf converter never gets a turn),
  carries that converter's encoding, and is decoded by that same converter.
\<close>

theorem default_converter_routes:
  assumes "cv_to_payload (default_payload_converter lib) v = Ok r" and "\<forall>p. v \<noteq> VRaw p"
  shows "\<exists>ec \<in> set (default_writers lib). \<exists>p. ec_to_payload ec v = Ok (Some p) \<and> r = Some p \<and>
     encoding_of p = Inr (ec_encoding ec) \<and>
     (\<forall>target. (\<forall>w. target \<noteq> Target TRawValue w) \<longrightarrow>
        cv_from_payload (default_payload_converter lib) r target = ec_from_payload ec p target)"
proof -
  have w: "composite_to_payload lib (default_composite lib) v = Ok r"
    using assms(1) by (simp add: default_payload_converter_def composite_converter_def)
  then have "first_payload lib (default_composite lib) v (cc_ordered (default_composite lib)) = Ok r"
    using assms(2) by (simp add: composite_to_payload_not_raw)
  from default_first_payload [OF this] obtain ec p
    where ec: "ec \<in> set (default_writers lib)" "ec_to_payload ec v = Ok (Some p)" "r = Some p"
    by blast
  from ec(1) have mem: "ec \<in> set (default_encoding_converters lib)"
    by (auto simp: default_writers_def default_encoding_converters_def)
  note enc = default_converters.tagged [OF mem ec(2)]
  have "composite_from_payload (default_composite lib) r target = ec_from_payload ec p target"
    if "\<forall>w. target \<noteq> Target TRawValue w" for target
    using that enc default_converters.lookup [OF mem] ec(3)
    by (auto simp: composite_from_payload_def default_composite_def split: gotarget.splits gotype.splits)
  with ec enc show ?thesis
    by (auto simp: default_payload_converter_def composite_converter_def)
qed

text \<open>A serialisation library for the concrete instances: JSON strings without escapes, empty objects.\<close>

definition sample_lib :: codec_lib where
  "sample_lib = \<lparr>
     json_marshal = (\<lambda>v. case v of VString s \<Rightarrow> Inr (CHR 0x22 # s @ [CHR 0x22])
                       | VNamed n w \<Rightarrow> Inr ''{}''
                       | _ \<Rightarrow> Inl (ErrNew ''json: unsupported type'')),
     json_unmarshal = (\<lambda>d t w. if t = TString \<and> d \<noteq> [] then (None, VString (butlast (tl d)))
                       else (Some (ErrNew ''json: cannot unmarshal''), w)),
     protojson_marshal = (\<lambda>opts n c. Inr (CHR 0x7B # c @ [CHR 0x7D])),
     protojson_unmarshal = (\<lambda>opts d n c. (None, butlast (tl d))),
     proto_marshal = (\<lambda>n c. Inr c),
     proto_unmarshal = (\<lambda>d n c. (None, d)),
     payload_content = (\<lambda>p. case p of None \<Rightarrow> [] | Some q \<Rightarrow> pl_data q),
     content_payload = (\<lambda>c. \<lparr>pl_metadata = None, pl_data = c\<rparr>),
     base64_raw = (\<lambda>d. d),
     type_name = (\<lambda>t. ''T''),
     show_value = (\<lambda>v. ''v'')\<rparr>"

theorem default_converter_routes_witness:
  "\<exists>ec \<in> set (default_writers sample_lib). \<exists>p.
     ec_to_payload ec (VBytes ''hi'') = Ok (Some p) \<and>
     Some (new_payload ''hi'' encoding_binary) = Some p \<and> encoding_of p = Inr (ec_encoding ec) \<and>
     (\<forall>target. (\<forall>w. target \<noteq> Target TRawValue w) \<longrightarrow>
        cv_from_payload (default_payload_converter sample_lib)
          (Some (new_payload ''hi'' encoding_binary)) target = ec_from_payload ec p target)"
proof (rule default_converter_routes)
  show "cv_to_payload (default_payload_converter sample_lib) (VBytes ''hi'') =
      Ok (Some (new_payload ''hi'' encoding_binary))"
    by (simp add: default_payload_converter_def composite_converter_def composite_to_payload_def
        default_composite_def new_composite_def default_encoding_converters_def
        converter_record_defs converter_names nil_to_payload_def is_interface_nil_def
        bytes_to_payload_def)
qed simp

text \<open>
  C28. What the default converter writes it reads back: nil (whatever the target's type, its zero
  value), byte slices, raw payloads, Protobuf messages and JSON values, the last two provided the
  serialisation library decodes what it encoded.
\<close>

theorem default_converter_round_trip:
  assumes "protojson_marshal lib default_protojson_options n c = Inr d" and "d \<noteq> json_null"
    and "\<forall>c0. protojson_unmarshal lib default_protojson_options d n c0 = (None, c)"
    and "n \<noteq> payload_message_name"
    and "plain_value lib v" and "json_marshal lib v = Inr e"
    and "\<forall>w. json_unmarshal lib e (type_of v) w = (None, v)" and "type_of v \<noteq> TRawValue"
    and "t \<noteq> TRawValue"
  shows "read_back lib VNil (Target t w) = Some (stored_ok (zero_value t)) \<and>
     read_back lib (VBytes b) (Target (TSlice TByte) w) = Some (stored_ok (VBytes b)) \<and>
     read_back lib (VRaw (Some p)) (Target TRawValue w) = Some (stored_ok (VRaw (Some p))) \<and>
     read_back lib (VPtr (TMessage n) (Some (VMessage n c))) (Target (TPtr (TMessage n)) w) =
       Some (stored_ok (VPtr (TMessage n) (Some (VMessage n c)))) \<and>
     read_back lib (VMessage n c) (Target (TMessage n) w) = Some (stored_ok (VMessage n c)) \<and>
     read_back lib v (Target (type_of v) w) = Some (stored_ok v)"
proof (intro conjI)
  note order = default_encoding_converters_def [of lib]
  note conv = converter_record_defs
  show "read_back lib VNil (Target t w) = Some (stored_ok (zero_value t))"
    using assms(9) by (subst read_back_first [where as = "[]" and ec = "nil_converter lib" and p = "new_payload [] encoding_nil"])
      (simp_all add: order conv nil_to_payload_def is_interface_nil_def nil_from_payload_def)
  show "read_back lib (VBytes b) (Target (TSlice TByte) w) = Some (stored_ok (VBytes b))"
    by (subst read_back_first [where as = "[nil_converter lib]"
          and ec = "bytes_converter lib" and p = "new_payload b encoding_binary"])
      (simp_all add: order conv nil_to_payload_def is_interface_nil_def bytes_to_payload_def
        bytes_from_payload_def new_payload_def)
  show "read_back lib (VRaw (Some p)) (Target TRawValue w) = Some (stored_ok (VRaw (Some p)))"
    by (simp add: read_back_def default_payload_converter_def composite_converter_def
        composite_to_payload_def composite_from_payload_def)
  note json_side = protojson_to_payload_def protojson_from_payload_def nil_to_payload_def
    is_interface_nil_def bytes_to_payload_def as_message_or_pointer_def as_message_def
    new_proto_payload_def default_protojson_options_def is_interface_type_def store_message_def
    message_pointer_def new_payload_def
  show "read_back lib (VPtr (TMessage n) (Some (VMessage n c))) (Target (TPtr (TMessage n)) w) =
      Some (stored_ok (VPtr (TMessage n) (Some (VMessage n c))))"
    using assms(1-4)
    by (subst read_back_first [where as = "[nil_converter lib, bytes_converter lib]"
          and ec = "protojson_converter lib default_protojson_options"
          and p = "new_proto_payload d encoding_proto_json False n"])
      (simp_all add: order conv json_side)
  show "read_back lib (VMessage n c) (Target (TMessage n) w) = Some (stored_ok (VMessage n c))"
    using assms(1-4)
    by (subst read_back_first [where as = "[nil_converter lib, bytes_converter lib]"
          and ec = "protojson_converter lib default_protojson_options"
          and p = "new_proto_payload d encoding_proto_json False n"])
      (simp_all add: order conv json_side)
  note plain = plain_valueD [OF assms(5)]
  show "read_back lib v (Target (type_of v) w) = Some (stored_ok v)"
    using assms(6-8) plain
    by (subst read_back_first [where as = "[nil_converter lib, bytes_converter lib,
          protojson_converter lib default_protojson_options, proto_converter lib False]"
          and ec = "json_converter lib" and p = "new_payload e encoding_json"])
      (auto simp: order conv nil_to_payload_def bytes_to_payload_def protojson_to_payload_def
        proto_to_payload_def json_to_payload_def json_from_payload_def new_payload_def
        split: goval.splits)
qed

theorem default_converter_round_trip_witness:
  "read_back sample_lib VNil (Target TInt VNil) = Some (stored_ok (zero_value TInt)) \<and>
   read_back sample_lib (VBytes ''b'') (Target (TSlice TByte) VNil) = Some (stored_ok (VBytes ''b'')) \<and>
   read_back sample_lib (VRaw (Some (new_payload ''p'' ''e''))) (Target TRawValue VNil) =
     Some (stored_ok (VRaw (Some (new_payload ''p'' ''e'')))) \<and>
   read_back sample_lib (VPtr (TMessage ''m.M'') (Some (VMessage ''m.M'' ''c'')))
       (Target (TPtr (TMessage ''m.M'')) VNil) =
     Some (stored_ok (VPtr (TMessage ''m.M'') (Some (VMessage ''m.M'' ''c'')))) \<and>
   read_back sample_lib (VMessage ''m.M'' ''c'') (Target (TMessage ''m.M'') VNil) =
     Some (stored_ok (VMessage ''m.M'' ''c'')) \<and>
   read_back sample_lib (VString ''s'') (Target (type_of (VString ''s'')) VNil) =
     Some (stored_ok (VString ''s''))"
  by (rule default_converter_round_trip [where d = "''{c}''" and e = "[CHR 0x22, CHR ''s'', CHR 0x22]"])
    (simp_all add: sample_lib_def json_null_def payload_message_name_def plain_value_def
      is_interface_nil_def as_message_or_pointer_def as_message_def)

text \<open>
  \<open>FromPayloads\<close> pairs payloads with destinations by position: it decodes them in order until
  the first failure, whose index the error names; destinations past the failure, or past the last
  payload, keep their value, and surplus payloads are ignored.
\<close>

theorem from_payloads_positional:
  assumes "composite_from_payloads c (Some ps) ts = (e, ws)"
  shows "length ws = length ts \<and>
    (case e of
       None \<Rightarrow>
         (\<forall>i < min (length ps) (length ts). composite_from_payload c (ps ! i) (ts ! i) = (None, ws ! i)) \<and>
         (\<forall>i. length ps \<le> i \<and> i < length ts \<longrightarrow> ws ! i = None)
     | Some err \<Rightarrow>
         (\<exists>i < min (length ps) (length ts). \<exists>cause.
            err = ErrWrap (''payload item '' @ show_nat i @ '': '') cause [] \<and>
            composite_from_payload c (ps ! i) (ts ! i) = (Some cause, ws ! i) \<and>
            (\<forall>j < i. composite_from_payload c (ps ! j) (ts ! j) = (None, ws ! j)) \<and>
            (\<forall>j. i < j \<and> j < length ts \<longrightarrow> ws ! j = None)))"
proof -
  have "length ws = length ts \<and>
    (case e of
       None \<Rightarrow>
         (\<forall>i < min (length ps) (length ts). composite_from_payload c (ps ! i) (ts ! i) = (None, ws ! i)) \<and>
         (\<forall>i. length ps \<le> i \<and> i < length ts \<longrightarrow> ws ! i = None)
     | Some err \<Rightarrow>
         (\<exists>i < min (length ps) (length ts). \<exists>cause.
            err = ErrWrap (''payload item '' @ show_nat (k + i) @ '': '') cause [] \<and>
            composite_from_payload c (ps ! i) (ts ! i) = (Some cause, ws ! i) \<and>
            (\<forall>j < i. composite_from_payload c (ps ! j) (ts ! j) = (None, ws ! j)) \<and>
            (\<forall>j. i < j \<and> j < length ts \<longrightarrow> ws ! j = None)))"
    if "from_payloads_from c k ps ts = (e, ws)" for k
    using that
  proof (induction c k ps ts arbitrary: e ws rule: from_payloads_from.induct)
    case (3 c k p ps t ts)
    obtain e0 w0 where first: "composite_from_payload c p t = (e0, w0)" by force
    show ?case
    proof (cases e0)
      case (Some cause)
      with first 3(2) have "e = Some (ErrWrap (''payload item '' @ show_nat k @ '': '') cause [])"
        and "ws = w0 # map (\<lambda>t. None) ts" by simp_all
      with first Some show ?thesis
        by (auto intro!: exI [of _ 0] simp: nth_Cons split: nat.splits)
    next
      case None
      obtain e1 ws1 where rest: "from_payloads_from c (Suc k) ps ts = (e1, ws1)" by force
      with first None 3(2) have e: "e = e1" "ws = w0 # ws1" by simp_all
      note IH = 3(1) [OF first [symmetric] None rest]
      show ?thesis
      proof (cases e1)
        case None
        with IH first \<open>e0 = None\<close> show ?thesis
          unfolding e by (auto simp: less_Suc_eq_0_disj nth_Cons split: nat.splits)
      next
        case (Some err)
        with IH obtain i cause where i: "i < min (length ps) (length ts)"
            "err = ErrWrap (''payload item '' @ show_nat (Suc k + i) @ '': '') cause []"
            "composite_from_payload c (ps ! i) (ts ! i) = (Some cause, ws1 ! i)"
            "\<forall>j < i. composite_from_payload c (ps ! j) (ts ! j) = (None, ws1 ! j)"
            "\<forall>j. i < j \<and> j < length ts \<longrightarrow> ws1 ! j = None"
          by auto
        with IH Some first \<open>e0 = None\<close> show ?thesis
          unfolding e by (auto intro!: exI [of _ "Suc i"] simp: nth_Cons split: nat.splits)
      qed
    qed
  qed (auto simp: nth_Cons split: nat.splits)
  from this [of 0, unfolded add_0] show ?thesis
    using assms unfolding composite_from_payloads_def option.case by blast
qed

theorem from_payloads_positional_witness:
  "length [Some (VBytes ''a''), None] = length [Target TAny VNil, Target TInt (VInt 7)] \<and>
   composite_from_payload (default_composite sample_lib) (Some (new_payload ''a'' encoding_binary))
     (Target TAny VNil) = (None, Some (VBytes ''a''))"
proof -
  have run: "composite_from_payloads (default_composite sample_lib)
      (Some [Some (new_payload ''a'' encoding_binary)]) [Target TAny VNil, Target TInt (VInt 7)] =
      (None, [Some (VBytes ''a''), None])"
    by (simp add: composite_from_payloads_def composite_from_payload_def default_composite_def
        new_composite_def default_encoding_converters_def converter_record_defs converter_names
        bytes_from_payload_def encoding_of_def new_payload_def)
  from from_payloads_positional [OF run] show ?thesis by simp
qed

end
