(* ===== verification/Payload_Codec.thy ===== *)
theory Payload_Codec
  imports Payload_Converter
begin

text \<open>
  Payload codecs at the Core boundary, \<open>internal/converter/payload_codec.go\<close>.

  A Protobuf message is seen through \<open>protoreflect\<close>: its full name and its populated fields, in
  descriptor order. A field is a scalar (or a list or map of scalars), or holds payloads or messages,
  singly, in a list or in a map; the entries of a map are in the order \<open>Range\<close> visits them. A nil
  element of a list or map of messages has no populated field and is an empty message here. The
  code changes the message in place, so every function returns the message as it is left, together
  with the error, if any. The codec is a parameter.

  The lemmas relate the traversal to the list of the message's eligible payload batches: which
  payloads reach the codec, in which order, what an error leaves behind, and that decoding undoes
  encoding.
\<close>

section \<open>Messages\<close>

datatype pmessage = PMessage string "(string \<times> pfield) list"
and pfield =
    FScalar bytes
  | FPayload "payload option"
  | FPayloadList "payload option list"
  | FPayloadMap "(string \<times> payload option) list"
  | FMessage pmessage
  | FMessageList "pmessage list"
  | FMessageMap "(string \<times> pmessage) list"

definition search_attributes_message_name :: string where
  "search_attributes_message_name = ''temporal.api.common.v1.SearchAttributes''"

type_synonym payload_transform = "payload option list \<Rightarrow> goerr + payload option list"

record payload_codec =
  pc_encode :: payload_transform
  pc_decode :: payload_transform

definition noop_codec :: payload_codec where
  "noop_codec = \<lparr>pc_encode = Inr, pc_decode = Inr\<rparr>"

section \<open>The traversal\<close>

definition transform_single :: "payload_transform \<Rightarrow> payload option \<Rightarrow> goerr + payload option" where
  "transform_single t p = (case t [p] of
     Inl e \<Rightarrow> Inl e
   | Inr [Some q] \<Rightarrow> Inr (Some q)
   | Inr qs \<Rightarrow>
       Inl (ErrNew (''payload codec returned '' @ show_nat (length qs) @
                    '' payloads for a singular field'')))"

definition transform_list ::
    "payload_transform \<Rightarrow> payload option list \<Rightarrow> goerr + payload option list" where
  "transform_list t ps = (case t ps of
     Inl e \<Rightarrow> Inl e
   | Inr qs \<Rightarrow>
       if None \<in> set qs then Inl (ErrNew ''payload codec returned a nil payload'') else Inr qs)"

fun transform_payload_map :: "payload_transform \<Rightarrow> (string \<times> payload option) list \<Rightarrow>
    goerr option \<times> (string \<times> payload option) list" where
  "transform_payload_map t [] = (None, [])"
| "transform_payload_map t ((k, p) # kvs) =
     (case transform_single t p of
        Inl e \<Rightarrow> (Some e, (k, p) # kvs)
      | Inr q \<Rightarrow> (case transform_payload_map t kvs of (e, kvs') \<Rightarrow> (e, (k, q) # kvs')))"

fun transform_message :: "payload_transform \<Rightarrow> pmessage \<Rightarrow> goerr option \<times> pmessage"
and transform_fields ::
    "payload_transform \<Rightarrow> (string \<times> pfield) list \<Rightarrow> goerr option \<times> (string \<times> pfield) list"
and transform_field :: "payload_transform \<Rightarrow> pfield \<Rightarrow> goerr option \<times> pfield"
and transform_message_list :: "payload_transform \<Rightarrow> pmessage list \<Rightarrow> goerr option \<times> pmessage list"
and transform_message_map ::
    "payload_transform \<Rightarrow> (string \<times> pmessage) list \<Rightarrow> goerr option \<times> (string \<times> pmessage) list"
where
  "transform_message t (PMessage n fs) =
     (if n = search_attributes_message_name then (None, PMessage n fs)
      else case transform_fields t fs of (e, fs') \<Rightarrow> (e, PMessage n fs'))"
| "transform_fields t [] = (None, [])"
| "transform_fields t ((n, f) # fs) =
     (case transform_field t f of
        (Some e, f') \<Rightarrow> (Some (ErrWrap (n @ '': '') e []), (n, f') # fs)
      | (None, f') \<Rightarrow> (case transform_fields t fs of (e, fs') \<Rightarrow> (e, (n, f') # fs')))"
| "transform_field t (FScalar d) = (None, FScalar d)"
| "transform_field t (FPayload p) =
     (case transform_single t p of
        Inl e \<Rightarrow> (Some e, FPayload p) | Inr q \<Rightarrow> (None, FPayload q))"
| "transform_field t (FPayloadList ps) =
     (case transform_list t ps of
        Inl e \<Rightarrow> (Some e, FPayloadList ps) | Inr qs \<Rightarrow> (None, FPayloadList qs))"
| "transform_field t (FPayloadMap kvs) =
     (case transform_payload_map t kvs of (e, kvs') \<Rightarrow> (e, FPayloadMap kvs'))"
| "transform_field t (FMessage m) =
     (case transform_message t m of (e, m') \<Rightarrow> (e, FMessage m'))"
| "transform_field t (FMessageList ms) =
     (case transform_message_list t ms of (e, ms') \<Rightarrow> (e, FMessageList ms'))"
| "transform_field t (FMessageMap kvs) =
     (case transform_message_map t kvs of (e, kvs') \<Rightarrow> (e, FMessageMap kvs'))"
| "transform_message_list t [] = (None, [])"
| "transform_message_list t (m # ms) =
     (case transform_message t m of
        (Some e, m') \<Rightarrow> (Some e, m' # ms)
      | (None, m') \<Rightarrow> (case transform_message_list t ms of (e, ms') \<Rightarrow> (e, m' # ms')))"
| "transform_message_map t [] = (None, [])"
| "transform_message_map t ((k, m) # kvs) =
     (case transform_message t m of
        (Some e, m') \<Rightarrow> (Some e, (k, m') # kvs)
      | (None, m') \<Rightarrow> (case transform_message_map t kvs of (e, kvs') \<Rightarrow> (e, (k, m') # kvs')))"

definition transform_payloads ::
    "pmessage option \<Rightarrow> payload_transform \<Rightarrow> goerr option \<times> pmessage option" where
  "transform_payloads m t = (case m of
     None \<Rightarrow> (Some (ErrNew ''payload message is nil''), None)
   | Some msg \<Rightarrow> (case transform_message t msg of (e, msg') \<Rightarrow> (e, Some msg')))"

definition encode_payloads ::
    "pmessage option \<Rightarrow> payload_codec option \<Rightarrow> goerr option \<times> pmessage option" where
  "encode_payloads m codec = (case codec of
     None \<Rightarrow> (Some (ErrNew ''payload codec is nil''), m)
   | Some c \<Rightarrow> transform_payloads m (pc_encode c))"

definition decode_payloads ::
    "pmessage option \<Rightarrow> payload_codec option \<Rightarrow> goerr option \<times> pmessage option" where
  "decode_payloads m codec = (case codec of
     None \<Rightarrow> (Some (ErrNew ''payload codec is nil''), m)
   | Some c \<Rightarrow> transform_payloads m (pc_decode c))"

section \<open>The eligible payloads of a message\<close>

text \<open>
  The reference: the batches the codec must see (a singular field or a map value is a batch of one),
  in traversal order, and the message with each batch replaced.
\<close>

datatype batch = Single "payload option" | Many "payload option list"

definition convert_batch :: "payload_transform \<Rightarrow> batch \<Rightarrow> goerr + batch" where
  "convert_batch t b = (case b of
     Single p \<Rightarrow> (case transform_single t p of Inl e \<Rightarrow> Inl e | Inr q \<Rightarrow> Inr (Single q))
   | Many ps \<Rightarrow> (case transform_list t ps of Inl e \<Rightarrow> Inl e | Inr qs \<Rightarrow> Inr (Many qs)))"

fun batches :: "pmessage \<Rightarrow> batch list" and field_batches :: "pfield \<Rightarrow> batch list" where
  "batches (PMessage n fs) =
     (if n = search_attributes_message_name then [] else concat (map (\<lambda>nf. field_batches (snd nf)) fs))"
| "field_batches (FScalar d) = []"
| "field_batches (FPayload p) = [Single p]"
| "field_batches (FPayloadList ps) = [Many ps]"
| "field_batches (FPayloadMap kvs) = map (Single \<circ> snd) kvs"
| "field_batches (FMessage m) = batches m"
| "field_batches (FMessageList ms) = concat (map batches ms)"
| "field_batches (FMessageMap kvs) = concat (map (\<lambda>km. batches (snd km)) kvs)"

definition single_of :: "batch \<Rightarrow> payload option" where
  "single_of b = (case b of Single p \<Rightarrow> p | Many ps \<Rightarrow> None)"

definition many_of :: "batch \<Rightarrow> payload option list" where
  "many_of b = (case b of Single p \<Rightarrow> [] | Many ps \<Rightarrow> ps)"

fun map_batches :: "(batch \<Rightarrow> batch) \<Rightarrow> pmessage \<Rightarrow> pmessage"
and map_field_batches :: "(batch \<Rightarrow> batch) \<Rightarrow> pfield \<Rightarrow> pfield" where
  "map_batches g (PMessage n fs) =
     (if n = search_attributes_message_name then PMessage n fs
      else PMessage n (map (\<lambda>nf. (fst nf, map_field_batches g (snd nf))) fs))"
| "map_field_batches g (FScalar d) = FScalar d"
| "map_field_batches g (FPayload p) = FPayload (single_of (g (Single p)))"
| "map_field_batches g (FPayloadList ps) = FPayloadList (many_of (g (Many ps)))"
| "map_field_batches g (FPayloadMap kvs) =
     FPayloadMap (map (\<lambda>kv. (fst kv, single_of (g (Single (snd kv))))) kvs)"
| "map_field_batches g (FMessage m) = FMessage (map_batches g m)"
| "map_field_batches g (FMessageList ms) = FMessageList (map (map_batches g) ms)"
| "map_field_batches g (FMessageMap kvs) =
     FMessageMap (map (\<lambda>km. (fst km, map_batches g (snd km))) kvs)"

section \<open>The traversal implements the reference\<close>

definition accepts :: "payload_transform \<Rightarrow> batch \<Rightarrow> bool" where
  "accepts t b \<longleftrightarrow> (case convert_batch t b of Inl e \<Rightarrow> False | Inr b' \<Rightarrow> True)"

definition converted :: "payload_transform \<Rightarrow> batch \<Rightarrow> batch" where
  "converted t b = (case convert_batch t b of Inl e \<Rightarrow> b | Inr b' \<Rightarrow> b')"

lemma convert_Single [simp]:
  "transform_single t p = Inl e \<Longrightarrow> convert_batch t (Single p) = Inl e"
  "transform_single t p = Inr q \<Longrightarrow> convert_batch t (Single p) = Inr (Single q)"
  by (simp_all add: convert_batch_def)

lemma convert_Many [simp]:
  "transform_list t ps = Inl e \<Longrightarrow> convert_batch t (Many ps) = Inl e"
  "transform_list t ps = Inr qs \<Longrightarrow> convert_batch t (Many ps) = Inr (Many qs)"
  by (simp_all add: convert_batch_def)

lemma accepts_Inl [simp]: "convert_batch t b = Inl e \<Longrightarrow> \<not> accepts t b"
  by (simp add: accepts_def)

lemma accepts_Inr [simp]: "convert_batch t b = Inr b' \<Longrightarrow> accepts t b"
  by (simp add: accepts_def)

lemma converted_Inr [simp]: "convert_batch t b = Inr b' \<Longrightarrow> converted t b = b'"
  by (simp add: converted_def)

lemma single_of_simp [simp]: "single_of (Single p) = p"
  by (simp add: single_of_def)

lemma many_of_simp [simp]: "many_of (Many ps) = ps"
  by (simp add: many_of_def)

lemma transform_payload_map_Ok:
  "transform_payload_map t kvs = (None, kvs') \<longleftrightarrow>
     (\<forall>kv \<in> set kvs. accepts t (Single (snd kv))) \<and>
     kvs' = map (\<lambda>kv. (fst kv, single_of (converted t (Single (snd kv))))) kvs"
proof (induction kvs arbitrary: kvs')
  case (Cons kv kvs)
  obtain k p where kv: "kv = (k, p)" by force
  obtain e kvs1 where rest: "transform_payload_map t kvs = (e, kvs1)" by force
  with Cons.IH [of kvs1] Cons.IH show ?case
    unfolding kv by (cases "transform_single t p") auto
qed auto

lemma pair_result:
  assumes "\<And>y. (r = (None, y)) = (A \<and> y = X)"
  shows "\<exists>e x. r = (e, x) \<and> (e = None \<longleftrightarrow> A) \<and> (A \<longrightarrow> x = X)"
proof -
  obtain e x where r: "r = (e, x)" by force
  with assms [of x] assms [of X] show ?thesis by blast
qed

lemma list_all_concat: "list_all P (concat (map g xs)) = list_all (\<lambda>x. list_all P (g x)) xs"
  by (simp add: list_all_iff)

lemma transform_Ok:
  "transform_message t m = (None, m') \<longleftrightarrow>
     list_all (accepts t) (batches m) \<and> m' = map_batches (converted t) m"
  "transform_fields t fs = (None, fs') \<longleftrightarrow>
     list_all (\<lambda>nf. list_all (accepts t) (field_batches (snd nf))) fs \<and>
     fs' = map (\<lambda>nf. (fst nf, map_field_batches (converted t) (snd nf))) fs"
  "transform_field t f = (None, f') \<longleftrightarrow>
     list_all (accepts t) (field_batches f) \<and> f' = map_field_batches (converted t) f"
  "transform_message_list t ms = (None, ms') \<longleftrightarrow>
     list_all (\<lambda>m. list_all (accepts t) (batches m)) ms \<and> ms' = map (map_batches (converted t)) ms"
  "transform_message_map t kms = (None, kms') \<longleftrightarrow>
     list_all (\<lambda>km. list_all (accepts t) (batches (snd km))) kms \<and>
     kms' = map (\<lambda>km. (fst km, map_batches (converted t) (snd km))) kms"
proof (induction t m and t fs and t f and t ms and t kms
    arbitrary: m' and fs' and f' and ms' and kms'
    rule: transform_message_transform_fields_transform_field_transform_message_list_transform_message_map.induct)
  case (1 t n fs)
  show ?case
  proof (cases "n = search_attributes_message_name")
    case False
    from pair_result [OF 1 [OF False]] False show ?thesis
      by (elim exE) (simp add: list_all_concat, blast)
  qed auto
next
  case (3 t n f fs)
  obtain e f1 where r: "transform_field t f = (e, f1)" by force
  show ?case
  proof (cases e)
    case None
    from pair_result [OF 3(1)] pair_result [OF 3(2) [OF r [symmetric] None]] r None show ?thesis
      by (elim exE) (simp, blast)
  next
    case (Some err)
    with pair_result [OF 3(1)] r show ?thesis by auto
  qed
next
  case (5 t p)
  then show ?case by (cases "transform_single t p") auto
next
  case (6 t ps)
  then show ?case by (cases "transform_list t ps") auto
next
  case (7 t kvs)
  from pair_result [OF transform_payload_map_Ok [of t kvs]] show ?case
    by (elim exE) (simp add: list_all_iff, blast)
next
  case (8 t m)
  from pair_result [OF 8] show ?case by (elim exE) (simp, blast)
next
  case (9 t ms)
  from pair_result [OF 9] show ?case by (elim exE) (simp add: list_all_concat, blast)
next
  case (10 t kms)
  from pair_result [OF 10] show ?case by (elim exE) (simp add: list_all_concat, blast)
next
  case (12 t m ms)
  obtain e m1 where r: "transform_message t m = (e, m1)" by force
  show ?case
  proof (cases e)
    case None
    from pair_result [OF 12(1)] pair_result [OF 12(2) [OF r [symmetric] None]] r None show ?thesis
      by (elim exE) (simp, blast)
  next
    case (Some err)
    with pair_result [OF 12(1)] r show ?thesis by auto
  qed
next
  case (14 t k m kms)
  obtain e m1 where r: "transform_message t m = (e, m1)" by force
  show ?case
  proof (cases e)
    case None
    from pair_result [OF 14(1)] pair_result [OF 14(2) [OF r [symmetric] None]] r None show ?thesis
      by (elim exE) (simp, blast)
  next
    case (Some err)
    with pair_result [OF 14(1)] r show ?thesis by auto
  qed
qed auto

subsection \<open>What an error leaves behind\<close>

text \<open>
  \<open>stops t bs e bs'\<close>: the first batch of \<open>bs\<close> the codec does not convert fails with the cause
  of \<open>e\<close>; the batches before it are converted in \<open>bs'\<close>, it and the later ones are unchanged.
\<close>

definition stops :: "payload_transform \<Rightarrow> batch list \<Rightarrow> goerr \<Rightarrow> batch list \<Rightarrow> bool" where
  "stops t bs e bs' \<longleftrightarrow>
     (\<exists>before b after cause. bs = before @ b # after \<and> list_all (accepts t) before \<and>
        convert_batch t b = Inl cause \<and> (\<forall>s. err_is e s = err_is cause s) \<and>
        bs' = map (converted t) before @ b # after)"

lemma stopsI:
  "list_all (accepts t) before \<Longrightarrow> convert_batch t b = Inl cause \<Longrightarrow>
   (\<forall>s. err_is e s = err_is cause s) \<Longrightarrow>
   stops t (before @ b # after) e (map (converted t) before @ b # after)"
  unfolding stops_def by blast

lemma stops_here: "convert_batch t b = Inl e \<Longrightarrow> stops t (b # bs) e (b # bs)"
  using stopsI [of t "[]"] by simp

lemma stops_append: "stops t bs e bs' \<Longrightarrow> stops t (bs @ xs) e (bs' @ xs)"
  unfolding stops_def by force

lemma stops_after:
  assumes "list_all (accepts t) xs" and "stops t bs e bs'"
  shows "stops t (xs @ bs) e (map (converted t) xs @ bs')"
proof -
  from assms(2) obtain before b after cause where "bs = before @ b # after"
      "list_all (accepts t) before" "convert_batch t b = Inl cause" "\<forall>s. err_is e s = err_is cause s"
      "bs' = map (converted t) before @ b # after"
    unfolding stops_def by blast
  with stopsI [of t "xs @ before" b cause e after] assms(1) show ?thesis by simp
qed

lemma stops_wrap [simp]: "stops t bs (ErrWrap a e b) bs' = stops t bs e bs'"
  by (simp add: stops_def)

lemma single_converted: "transform_single t p = Inr q \<Longrightarrow> Single q = converted t (Single p)"
  by simp

lemma converted_single_of [simp]:
  "Single (single_of (converted t (Single p))) = converted t (Single p)"
  by (cases "transform_single t p") (simp_all add: converted_def convert_batch_def single_of_def)

lemma converted_many_of [simp]: "Many (many_of (converted t (Many ps))) = converted t (Many ps)"
  by (cases "transform_list t ps") (simp_all add: converted_def convert_batch_def many_of_def)

lemma batches_map_batches:
  "batches (map_batches (converted t) m) = map (converted t) (batches m)"
  "field_batches (map_field_batches (converted t) f) = map (converted t) (field_batches f)"
proof (induction m and f rule: batches_field_batches.induct)
  case (1 n fs)
  then have "map (\<lambda>nf. field_batches (map_field_batches (converted t) (snd nf))) fs =
      map (\<lambda>nf. map (converted t) (field_batches (snd nf))) fs"
    if "n \<noteq> search_attributes_message_name" using that by auto
  then show ?case by (simp add: map_concat o_def del: map_eq_conv)
next
  case (7 ms)
  then have "map (\<lambda>m. batches (map_batches (converted t) m)) ms =
      map (\<lambda>m. map (converted t) (batches m)) ms" by auto
  then show ?case by (simp add: map_concat o_def del: map_eq_conv)
next
  case (8 kvs)
  then have "map (\<lambda>km. batches (map_batches (converted t) (snd km))) kvs =
      map (\<lambda>km. map (converted t) (batches (snd km))) kvs" by auto
  then show ?case by (simp add: map_concat o_def del: map_eq_conv)
qed simp_all

lemma transform_payload_map_stops:
  "transform_payload_map t kvs = (Some e, kvs') \<Longrightarrow>
   stops t (map (Single \<circ> snd) kvs) e (map (Single \<circ> snd) kvs')"
proof (induction kvs arbitrary: kvs')
  case (Cons kv kvs)
  obtain k p where kv: "kv = (k, p)" by force
  show ?case
  proof (cases "transform_single t p")
    case (Inl err)
    with Cons.prems kv show ?thesis by (auto intro!: stops_here)
  next
    case (Inr q)
    with Cons.prems kv obtain kvs1 where rest: "transform_payload_map t kvs = (Some e, kvs1)"
        "kvs' = (k, q) # kvs1"
      by (auto split: prod.splits)
    from stops_after [of t "[Single p]", OF _ Cons.IH [OF rest(1)]] Inr rest(2) kv
    show ?thesis by simp
  qed
qed simp

lemma transform_stops:
  "transform_message t m = (Some e, m') \<Longrightarrow> stops t (batches m) e (batches m')"
  "transform_fields t fs = (Some e, fs') \<Longrightarrow>
     stops t (concat (map (\<lambda>nf. field_batches (snd nf)) fs)) e
             (concat (map (\<lambda>nf. field_batches (snd nf)) fs'))"
  "transform_field t f = (Some e, f') \<Longrightarrow> stops t (field_batches f) e (field_batches f')"
  "transform_message_list t ms = (Some e, ms') \<Longrightarrow>
     stops t (concat (map batches ms)) e (concat (map batches ms'))"
  "transform_message_map t kms = (Some e, kms') \<Longrightarrow>
     stops t (concat (map (\<lambda>km. batches (snd km)) kms)) e (concat (map (\<lambda>km. batches (snd km)) kms'))"
proof (induction t m and t fs and t f and t ms and t kms
    arbitrary: e m' and e fs' and e f' and e ms' and e kms'
    rule: transform_message_transform_fields_transform_field_transform_message_list_transform_message_map.induct)
  case (1 t n fs)
  then show ?case by (auto split: if_splits prod.splits)
next
  case (3 t n f fs)
  obtain e1 f1 where r: "transform_field t f = (e1, f1)" by force
  show ?case
  proof (cases e1)
    case None
    with 3(3) r obtain fs1 where rest: "transform_fields t fs = (Some e, fs1)" "fs' = (n, f1) # fs1"
      by (auto split: prod.splits)
    have "list_all (accepts t) (field_batches f)" "f1 = map_field_batches (converted t) f"
      using transform_Ok(3) [of t f f1] r None by simp_all
    with stops_after [OF _ 3(2) [OF r [symmetric] None rest(1)]] rest(2) show ?thesis
      by (simp add: batches_map_batches)
  next
    case (Some err)
    with 3(1) 3(3) r show ?thesis by (auto intro!: stops_append)
  qed
next
  case (5 t p)
  then show ?case by (cases "transform_single t p") (auto intro!: stops_here)
next
  case (6 t ps)
  then show ?case by (cases "transform_list t ps") (auto intro!: stops_here)
next
  case (7 t kvs)
  then show ?case using transform_payload_map_stops by (auto split: prod.splits)
next
  case (8 t m)
  then show ?case by (auto split: prod.splits)
next
  case (9 t ms)
  then show ?case by (auto split: prod.splits)
next
  case (10 t kms)
  then show ?case by (auto split: prod.splits)
next
  case (12 t m ms)
  obtain e1 m1 where r: "transform_message t m = (e1, m1)" by force
  show ?case
  proof (cases e1)
    case None
    with 12(3) r obtain ms1 where rest: "transform_message_list t ms = (Some e, ms1)" "ms' = m1 # ms1"
      by (auto split: prod.splits)
    have "list_all (accepts t) (batches m)" "m1 = map_batches (converted t) m"
      using transform_Ok(1) [of t m m1] r None by simp_all
    with stops_after [OF _ 12(2) [OF r [symmetric] None rest(1)]] rest(2) show ?thesis
      by (simp add: batches_map_batches)
  next
    case (Some err)
    with 12(1) 12(3) r show ?thesis by (auto intro!: stops_append)
  qed
next
  case (14 t k m kms)
  obtain e1 m1 where r: "transform_message t m = (e1, m1)" by force
  show ?case
  proof (cases e1)
    case None
    with 14(3) r obtain ms1 where rest: "transform_message_map t kms = (Some e, ms1)"
        "kms' = (k, m1) # ms1"
      by (auto split: prod.splits)
    have "list_all (accepts t) (batches m)" "m1 = map_batches (converted t) m"
      using transform_Ok(1) [of t m m1] r None by simp_all
    with stops_after [OF _ 14(2) [OF r [symmetric] None rest(1)]] rest(2) show ?thesis
      by (simp add: batches_map_batches)
  next
    case (Some err)
    with 14(1) 14(3) r show ?thesis by (auto intro!: stops_append)
  qed
qed simp_all

subsection \<open>Undoing a transformation\<close>

definition no_nil :: "batch \<Rightarrow> bool" where
  "no_nil b = (case b of Single p \<Rightarrow> p \<noteq> None | Many ps \<Rightarrow> None \<notin> set ps)"

lemma transform_single_Inr: "transform_single t p = Inr q \<longleftrightarrow> t [p] = Inr [q] \<and> q \<noteq> None"
  by (auto simp: transform_single_def split: sum.splits list.splits option.splits)

lemma transform_list_Inr: "transform_list t ps = Inr qs \<longleftrightarrow> t ps = Inr qs \<and> None \<notin> set qs"
  by (auto simp: transform_list_def split: sum.splits)

lemma convert_batch_inverse:
  assumes "\<forall>ps qs. t ps = Inr qs \<longrightarrow> u qs = Inr ps" and "accepts t b" and "no_nil b"
  shows "convert_batch u (converted t b) = Inr b"
proof (cases b)
  case (Single p)
  with assms(2) obtain q where q: "transform_single t p = Inr q"
    by (auto simp: accepts_def convert_batch_def split: sum.splits)
  with assms(1,3) Single have "transform_single u q = Inr p"
    by (auto simp: transform_single_Inr no_nil_def)
  with q Single show ?thesis by simp
next
  case (Many ps)
  with assms(2) obtain qs where qs: "transform_list t ps = Inr qs"
    by (auto simp: accepts_def convert_batch_def split: sum.splits)
  with assms(1,3) Many have "transform_list u qs = Inr ps"
    by (auto simp: transform_list_Inr no_nil_def)
  with qs Many show ?thesis by simp
qed

lemma map_batches_inverse:
  "list_all (\<lambda>b. converted u (converted t b) = b) (batches m) \<Longrightarrow>
     map_batches (converted u) (map_batches (converted t) m) = m"
  "list_all (\<lambda>b. converted u (converted t b) = b) (field_batches f) \<Longrightarrow>
     map_field_batches (converted u) (map_field_batches (converted t) f) = f"
proof (induction m and f rule: batches_field_batches.induct)
  case (1 n fs)
  then show ?case by (auto simp: list_all_iff intro!: map_idI split: if_splits)
next
  case (5 kvs)
  then show ?case by (auto simp: list_all_iff intro!: map_idI)
next
  case (7 ms)
  then show ?case by (auto simp: list_all_iff intro!: map_idI)
next
  case (8 kvs)
  then show ?case by (auto simp: list_all_iff intro!: map_idI)
qed simp_all

lemma transform_inverse:
  assumes "transform_message t m = (None, m')" and "list_all no_nil (batches m)"
    and "\<forall>ps qs. t ps = Inr qs \<longrightarrow> u qs = Inr ps"
  shows "transform_message u m' = (None, m)"
proof -
  from assms(1) have acc: "list_all (accepts t) (batches m)" and m': "m' = map_batches (converted t) m"
    by (simp_all add: transform_Ok)
  have conv: "convert_batch u (converted t b) = Inr b" if "b \<in> set (batches m)" for b
    using convert_batch_inverse [OF assms(3)] acc assms(2) that by (auto simp: list_all_iff)
  then have "list_all (accepts u) (batches m')"
    by (auto simp: m' batches_map_batches list_all_iff intro: accepts_Inr)
  moreover have "map_batches (converted u) m' = m"
    unfolding m' using conv by (intro map_batches_inverse) (auto simp: list_all_iff)
  ultimately show ?thesis by (simp add: transform_Ok)
qed

section \<open>Properties\<close>

text \<open>
  C27. Encoding or decoding a message succeeds exactly when the codec converts every eligible batch
  (each repeated payload field as one batch, each singular field and map value on its own), and then
  the message is the original with each batch replaced by its conversion and nothing else changed:
  search attributes and scalar fields are untouched.
\<close>

theorem codec_transforms_eligible_payloads:
  "(encode_payloads (Some m) (Some c) = (None, Some m') \<longleftrightarrow>
      list_all (accepts (pc_encode c)) (batches m) \<and> m' = map_batches (converted (pc_encode c)) m) \<and>
   (decode_payloads (Some m) (Some c) = (None, Some m') \<longleftrightarrow>
      list_all (accepts (pc_decode c)) (batches m) \<and> m' = map_batches (converted (pc_decode c)) m)"
proof -
  have "transform_payloads (Some m) t = (None, Some m') \<longleftrightarrow>
      list_all (accepts t) (batches m) \<and> m' = map_batches (converted t) m" for t
    unfolding transform_Ok(1) [symmetric] by (auto simp: transform_payloads_def split: prod.splits)
  then show ?thesis by (simp add: encode_payloads_def decode_payloads_def)
qed

text \<open>
  C38. A failed transformation stops at the first batch the codec does not convert: earlier batches
  are converted, that one and the later ones are as before, and the error wraps the failure's cause.
\<close>

theorem codec_error_stops:
  assumes "encode_payloads (Some m) (Some c) = (Some e, r)"
  shows "\<exists>m'. r = Some m' \<and> stops (pc_encode c) (batches m) e (batches m')"
  using assms transform_stops(1) [of "pc_encode c" m e]
  by (auto simp: encode_payloads_def transform_payloads_def split: prod.splits)

text \<open>A codec for the concrete instances: it prefixes the data, and refuses an empty payload.\<close>

definition sample_codec :: payload_codec where
  "sample_codec =
     \<lparr>pc_encode = (\<lambda>ps. if \<exists>p \<in> set ps. p = None \<or> pl_data (the p) = []
                      then Inl (ErrSentinel ''empty payload'')
                      else Inr (map (map_option (\<lambda>p. p\<lparr>pl_data := CHR ''+'' # pl_data p\<rparr>)) ps)),
      pc_decode = (\<lambda>ps. Inr (map (map_option (\<lambda>p. p\<lparr>pl_data := tl (pl_data p)\<rparr>)) ps))\<rparr>"

definition sample_message :: "bytes \<Rightarrow> bytes \<Rightarrow> pmessage" where
  "sample_message a b = PMessage ''m.Started''
     [(''m.Started.input'', FPayloadList [Some (new_payload a ''e'')]),
      (''m.Started.attributes'', FMessage (PMessage search_attributes_message_name
         [(''fields'', FPayloadMap [(''k'', Some (new_payload [] ''e''))])])),
      (''m.Started.result'', FPayload (Some (new_payload b ''e'')))]"

lemmas sample_codec_simps = sample_codec_def sample_message_def search_attributes_message_name_def
  new_payload_def encode_payloads_def decode_payloads_def transform_payloads_def
  transform_list_def transform_single_def

theorem codec_error_stops_witness:
  "\<exists>m'. Some (sample_message ''+a'' []) = Some m' \<and>
     stops (pc_encode sample_codec) (batches (sample_message ''a'' []))
       (ErrWrap ''m.Started.result: '' (ErrSentinel ''empty payload'') []) (batches m')"
  by (rule codec_error_stops) (simp add: sample_codec_simps)



end
