(* ===== verification/Invoker.thy ===== *)
theory Invoker
  imports Payload_Converter
begin

text \<open>
  Validation and calling of registered Go functions (\<open>internal/invoker/function.go\<close>), operation
  names (\<open>internal/functionname\<close>) and the shared connection defaults
  (\<open>internal/workerconfig\<close>).

  A Go value passed as \<open>any\<close> for a function is \<open>None\<close> (nil), a value that is not a function, or
  a function with its parameter and result types and its body (\<open>None\<close> for a nil function). What a
  body is, and how it runs, is up to the component that calls it; this theory holds what happens
  before the call (decoding the arguments) and after it (encoding the result). Variadic functions are
  not distinguished from functions whose last parameter is a slice.
\<close>

section \<open>Functions\<close>

datatype 'b gofunc =
    NotFunc gotype
  | GoFunc (fn_in: "gotype list") (fn_out: "gotype list") (fn_body: "'b option")

record 'b reg_function =
  f_kind :: string
  f_name :: string
  f_function :: "'b gofunc"
  f_input_start :: nat
  f_result :: bool

text \<open>\<open>New\<close>. The context type is \<open>None\<close> where the source passes a nil \<open>reflect.Type\<close>.\<close>

definition new_function ::
    "codec_lib \<Rightarrow> string \<Rightarrow> string \<Rightarrow> 'b gofunc option \<Rightarrow> gotype option \<Rightarrow> bool \<Rightarrow> string \<Rightarrow>
     goerr + 'b reg_function" where
  "new_function lib kind name function context_type context_required context_description =
     (if name = [] then Inl (ErrNew (kind @ '' name is required''))
      else case function of
        None \<Rightarrow> Inl (ErrNew (kind @ '' function is required''))
      | Some (NotFunc t) \<Rightarrow>
          Inl (ErrNew (kind @ '' '' @ go_quote name @ '' must be a function, got '' @ type_name lib t))
      | Some (GoFunc ins outs body) \<Rightarrow>
          if body = None
          then Inl (ErrNew (kind @ '' '' @ go_quote name @ '' must be a function, got '' @
                            type_name lib TFunc))
          else
            let has_context = (ins \<noteq> [] \<and> Some (hd ins) = context_type)
            in if \<not> has_context \<and> context_required
               then Inl (ErrNew (kind @ '' '' @ go_quote name @ '' must accept '' @
                                 context_description @ '' first''))
               else if length outs < 1 \<or> length outs > 2 \<or> last outs \<noteq> TError
               then Inl (ErrNew (kind @ '' '' @ go_quote name @
                                 '' must return error or (result, error)''))
               else Inr \<lparr>f_kind = kind, f_name = name, f_function = GoFunc ins outs body,
                         f_input_start = (if has_context then 1 else 0),
                         f_result = (length outs = 2)\<rparr>)"

text \<open>\<open>DecodeInput\<close>: the argument values after the context, zero where no payload was given.\<close>

definition decode_input :: "converter \<Rightarrow> 'b reg_function \<Rightarrow> payload option list \<Rightarrow> goerr + goval list" where
  "decode_input conv f input =
     (let types = drop (f_input_start f) (fn_in (f_function f));
          targets = map (\<lambda>t. Target t (zero_value t)) types
      in case cv_from_payloads conv (Some input) targets of
           (Some e, ws) \<Rightarrow>
             Inl (ErrWrap (''decode '' @ f_kind f @ '' '' @ go_quote (f_name f) @ '' input: '') e [])
         | (None, ws) \<Rightarrow>
             Inr (map2 (\<lambda>t w. case w of None \<Rightarrow> zero_value t | Some v \<Rightarrow> v) types ws))"

text \<open>
  The rest of \<open>ExecuteDecoded\<close> once the function has returned a result (ignored by a function that
  returns only an error) and an error.
\<close>

definition encode_result ::
    "converter \<Rightarrow> 'b reg_function \<Rightarrow> goval \<Rightarrow> goerr option \<Rightarrow> payload option gores" where
  "encode_result conv f v err =
     (case err of
        Some e \<Rightarrow> Err e
      | None \<Rightarrow>
          if \<not> f_result f then Ok None
          else (case cv_to_payload conv v of
            Err e \<Rightarrow>
              Err (ErrWrap (''encode '' @ f_kind f @ '' '' @ go_quote (f_name f) @ '' result: '') e [])
          | r \<Rightarrow> r))"

section \<open>Operation names\<close>

text \<open>\<open>strings.Split(s, ".")\<close> followed by the last element.\<close>

definition after_last_dot :: "string \<Rightarrow> string" where
  "after_last_dot s = rev (takeWhile (\<lambda>c. c \<noteq> CHR ''.'') (rev s))"

definition trim_suffix :: "string \<Rightarrow> string \<Rightarrow> string" where
  "trim_suffix s suffix =
     (if length suffix \<le> length s \<and> drop (length s - length suffix) s = suffix
      then take (length s - length suffix) s else s)"

text \<open>\<open>Get\<close>; the runtime name of a body is a parameter (\<open>None\<close>: \<open>FuncForPC\<close> knows none).\<close>

definition function_name ::
    "codec_lib \<Rightarrow> ('b \<Rightarrow> string option) \<Rightarrow> string \<Rightarrow> 'b gofunc option \<Rightarrow> goerr + string" where
  "function_name lib runtime_name kind function =
     (case function of
        None \<Rightarrow> Inl (ErrNew (kind @ '' function is required''))
      | Some (NotFunc t) \<Rightarrow> Inl (ErrNew (kind @ '' must be a function, got '' @ type_name lib t))
      | Some (GoFunc ins outs None) \<Rightarrow>
          Inl (ErrNew (kind @ '' must be a function, got '' @ type_name lib TFunc))
      | Some (GoFunc ins outs (Some body)) \<Rightarrow>
          (case runtime_name body of
             None \<Rightarrow> Inl (ErrNew (''cannot determine '' @ kind @ '' function name''))
           | Some n \<Rightarrow> Inr (trim_suffix (after_last_dot n) ''-fm'')))"

section \<open>Connection defaults\<close>

definition default_address :: string where "default_address = ''localhost:7233''"
definition default_namespace :: string where "default_namespace = ''default''"
definition default_identity :: string where "default_identity = ''go-sdk-on-wasm-core''"

text \<open>The TLS configuration is opaque to the workers and is represented by a label.\<close>

record ('cv, 'cc) connection =
  cn_address :: string
  cn_namespace :: string
  cn_task_queue :: string
  cn_identity :: string
  cn_payload_converter :: "'cv option"
  cn_payload_codec :: "'cc option"
  cn_tls :: "string option"
  cn_api_key :: string

definition or_default :: "string \<Rightarrow> string \<Rightarrow> string" where
  "or_default s d = (if s = [] then d else s)"

definition normalize_connection ::
    "'cv \<Rightarrow> 'cc \<Rightarrow> string \<Rightarrow> ('cv, 'cc) connection \<Rightarrow> goerr + ('cv, 'cc) connection" where
  "normalize_connection default_cv noop_cc kind c =
     (let c1 = c\<lparr>cn_address := or_default (cn_address c) default_address,
                 cn_namespace := or_default (cn_namespace c) default_namespace,
                 cn_identity := or_default (cn_identity c) default_identity\<rparr>
      in if cn_task_queue c1 = [] then Inl (ErrNew (kind @ '' task queue is required''))
         else Inr (c1\<lparr>cn_payload_converter := Some (case cn_payload_converter c1 of
                                                      None \<Rightarrow> default_cv | Some cv \<Rightarrow> cv),
                      cn_payload_codec := Some (case cn_payload_codec c1 of
                                                  None \<Rightarrow> noop_cc | Some cc \<Rightarrow> cc)\<rparr>))"

section \<open>What validation guarantees\<close>

text \<open>The functions \<open>New\<close> accepts, and what it returns for them.\<close>

definition valid_function :: "string \<Rightarrow> 'b reg_function \<Rightarrow> gotype option \<Rightarrow> bool \<Rightarrow> bool" where
  "valid_function kind f context_type context_required \<longleftrightarrow>
     f_kind f = kind \<and> f_name f \<noteq> [] \<and>
     (\<exists>ins outs body. f_function f = GoFunc ins outs (Some body) \<and>
        outs \<noteq> [] \<and> length outs \<le> 2 \<and> last outs = TError \<and>
        f_result f = (length outs = 2) \<and>
        (f_input_start f = 1 \<and> ins \<noteq> [] \<and> Some (hd ins) = context_type \<or>
         f_input_start f = 0 \<and> \<not> context_required \<and> (ins = [] \<or> Some (hd ins) \<noteq> context_type)))"

lemma new_function_valid:
  assumes "new_function lib kind name function ct req descr = Inr f"
  shows "valid_function kind f ct req \<and> f_name f = name \<and> function = Some (f_function f)"
  using assms
  by (auto simp: new_function_def valid_function_def Let_def not_less Suc_le_eq
      split: if_splits option.splits gofunc.splits)

lemma valid_function_accepted:
  assumes "valid_function kind f ct req"
  shows "new_function lib kind (f_name f) (Some (f_function f)) ct req descr = Inr f"
proof -
  from assms obtain ins outs body where f: "f_kind f = kind" "f_name f \<noteq> []"
      "f_function f = GoFunc ins outs (Some body)" "outs \<noteq> []" "length outs \<le> 2"
      "last outs = TError" "f_result f = (length outs = 2)"
    and start: "f_input_start f = 1 \<and> ins \<noteq> [] \<and> Some (hd ins) = ct \<or>
      f_input_start f = 0 \<and> \<not> req \<and> (ins = [] \<or> Some (hd ins) \<noteq> ct)"
    unfolding valid_function_def by blast
  have "length outs \<ge> 1" using f(4) by (cases outs) auto
  with f start show ?thesis
    by (cases f) (auto simp: new_function_def Let_def)
qed

text \<open>\<open>DecodeInput\<close> yields one value per parameter after the context.\<close>

lemma decode_input_length:
  assumes "decode_input conv f input = Inr vs"
    and "\<And>ps ts ws. cv_from_payloads conv (Some ps) ts = (None, ws) \<Longrightarrow> length ws = length ts"
  shows "length vs = length (fn_in (f_function f)) - f_input_start f"
  using assms(1)
  by (auto simp: decode_input_def Let_def dest!: assms(2) split: prod.splits option.splits)


end
