(* ===== verification/Workflow_Types.thy ===== *)
theory Workflow_Types
  imports Invoker
begin

text \<open>
  The data of the workflow interpreter (\<open>internal/workflowworker\<close>): user code, commands,
  activation jobs, and the state of one workflow execution.

  A workflow function, a function passed to \<open>Go\<close>, an update or query handler and a validator are
  Go code this library is called by. \<open>prog\<close> is such code as its caller sees it: a possibly infinite
  tree of the library calls it makes, each with what it does with the answer; \<open>PVars\<close> is
  everything it does to its own variables (of the arbitrary type \<open>'u\<close>) between calls. A panic raised
  by a library call ends the coroutine: user code that recovers from it is not represented, and
  neither is user code that shares futures between two executions.

  Futures live in a list per execution; a future is its index. A signal channel is its name.
\<close>

section \<open>User code\<close>

type_synonym fid = nat

record update_info =
  ui_id :: string
  ui_name :: string

text \<open>\<open>*Context\<close> (\<open>None\<close>: nil): its coroutine, if it has one, and the update it serves.\<close>

record ctx =
  cx_coroutine :: "nat option"
  cx_info :: "update_info option"

record activity_options =
  ao_activity_id :: string
  ao_activity_type :: string
  ao_task_queue :: string
  ao_start_to_close :: int
  ao_disable_eager :: bool

record local_activity_options =
  lo_activity_id :: string
  lo_activity_type :: string
  lo_schedule_to_close :: int
  lo_schedule_to_start :: int
  lo_start_to_close :: int
  lo_retry_threshold :: int

record child_options =
  ch_namespace :: string
  ch_workflow_id :: string
  ch_workflow_type :: string
  ch_task_queue :: string
  ch_execution_timeout :: int
  ch_run_timeout :: int
  ch_task_timeout :: int
  ch_parent_close_policy :: int
  ch_id_reuse_policy :: int

datatype settle = SetBoth | SetValueOnly | SetErrorOnly

codatatype 'u prog =
    PReturn goval "goerr option"
  | PPanic string
  | PVars "'u \<Rightarrow> 'u \<times> 'u prog"
  | PGo "ctx option" string "(ctx \<Rightarrow> 'u prog) option" "'u prog"
  | PNewFuture "ctx option" "fid \<Rightarrow> 'u prog"
  | PNewTimer "ctx option" int "fid \<Rightarrow> 'u prog"
  | PActivity "ctx option" activity_options "goval list" "fid \<Rightarrow> 'u prog"
  | PLocalActivity "ctx option" local_activity_options "goval list" "fid \<Rightarrow> 'u prog"
  | PChild "ctx option" child_options "goval list" "fid \<Rightarrow> fid \<Rightarrow> 'u prog"
  | PGet "ctx option" fid gotarget "stored \<Rightarrow> 'u prog"
  | PIsReady fid "bool \<Rightarrow> 'u prog"
  | PSet settle fid goval "goerr option" "'u prog"
  | PChain fid "fid option" "'u prog"
  | PSignalChannel "ctx option" string "'u prog"
  | PReceive "ctx option" string gotarget "stored \<Rightarrow> 'u prog"
  | PReceiveAsync string gotarget "bool \<times> stored \<Rightarrow> 'u prog"
  | PLen string "nat \<Rightarrow> 'u prog"
  | PSetQuery "ctx option" string "(ctx option \<Rightarrow> goval list \<Rightarrow> 'u prog) gofunc option"
      "goerr option \<Rightarrow> 'u prog"
  | PSetUpdate "ctx option" string "(ctx option \<Rightarrow> goval list \<Rightarrow> 'u prog) gofunc option"
      "(ctx option \<Rightarrow> goval list \<Rightarrow> 'u prog) gofunc option" "goerr option \<Rightarrow> 'u prog"
  | PUpdateInfo "ctx option" "update_info option \<Rightarrow> 'u prog"

type_synonym 'u code = "ctx option \<Rightarrow> goval list \<Rightarrow> 'u prog"

section \<open>Commands\<close>

record failure =
  fl_message :: string
  fl_source :: string
  fl_stack_trace :: string
  fl_type :: string

record schedule_activity =
  sa_activity_id :: string
  sa_activity_type :: string
  sa_task_queue :: string
  sa_arguments :: "payload option list"
  sa_start_to_close :: int
  sa_do_not_eagerly_execute :: bool

record schedule_local_activity =
  sl_activity_id :: string
  sl_activity_type :: string
  sl_arguments :: "payload option list"
  sl_attempt :: nat
  sl_schedule_to_close :: "int option"
  sl_schedule_to_start :: "int option"
  sl_start_to_close :: "int option"
  sl_retry_threshold :: "int option"
  sl_cancellation_type :: string

record start_child =
  sc_namespace :: string
  sc_workflow_id :: string
  sc_workflow_type :: string
  sc_task_queue :: string
  sc_input :: "payload option list"
  sc_execution_timeout :: "int option"
  sc_run_timeout :: "int option"
  sc_task_timeout :: "int option"
  sc_parent_close_policy :: int
  sc_id_reuse_policy :: int

datatype query_result = QueryFailed failure | QuerySucceeded "payload option"
datatype update_response = UpdateAccepted | UpdateRejected failure | UpdateCompleted "payload option"

text \<open>The commands the worker sends, each with its sequence number where it has one.\<close>

datatype command =
    StartTimer "32 word" int
  | ScheduleActivity "32 word" schedule_activity
  | ScheduleLocalActivity "32 word" schedule_local_activity
  | StartChildWorkflow "32 word" start_child
  | CompleteWorkflow "payload option"
  | FailWorkflow failure
  | RespondToQuery string query_result
  | UpdateResponse string update_response

section \<open>Activation jobs\<close>

text \<open>A oneof of the activation messages: \<open>None\<close> when the message, or its status, is missing.\<close>

datatype resolution_status =
    ResCompleted "payload option"
  | ResFailed "failure option"
  | ResCancelled "failure option"
  | ResBackoff

datatype child_start_status =
    StartSucceeded string
  | StartFailed string string string
  | StartCancelled "failure option"

record query_job =
  qj_id :: string
  qj_type :: string
  qj_arguments :: "payload option list"

record update_job =
  uj_id :: string
  uj_protocol_instance_id :: string
  uj_name :: string
  uj_input :: "payload option list"
  uj_run_validator :: bool

text \<open>
  \<open>InitializeWorkflow\<close> has the workflow type and arguments, \<open>ResolveChildStart\<close> its status and
  \<open>ResolveChild\<close> its result; \<open>OtherJob\<close> is a variant the runtime does not handle, named by its
  Go type.
\<close>

datatype job =
    InitializeWorkflow string "payload option list"
  | RemoveFromCache
  | SignalWorkflow string "payload option list"
  | QueryWorkflow query_job
  | DoUpdate update_job
  | FireTimer "32 word"
  | ResolveActivity "32 word" bool "resolution_status option option"
  | ResolveChildStart "32 word" "child_start_status option"
  | ResolveChild "32 word" "resolution_status option option"
  | OtherJob string

section \<open>Execution state\<close>

record future =
  fu_ready :: bool
  fu_value :: goval
  fu_err :: "goerr option"
  fu_chained :: "fid list"

datatype operation_kind = OpTimer | OpActivity | OpLocalActivity | OpChild

record operation =
  op_kind :: operation_kind
  op_result :: fid
  op_started :: "fid option"
  op_workflow_id :: string

record channel =
  sch_buffer :: "payload option list list"
  sch_waiters :: "fid list"

record 'u registered_update =
  ru_name :: string
  ru_handler :: "'u code reg_function"
  ru_validator :: "'u code reg_function option"

text \<open>
  What a coroutine does when it is next resumed: decode its input and enter a function, go on with
  user code, or re-enter the waiting loop of \<open>Get\<close> or \<open>Receive\<close>.
\<close>

datatype 'u cont =
    CStart "'u code reg_function" "ctx option" "payload option list"
  | CRun "'u prog"
  | CGet "ctx option" fid gotarget "stored \<Rightarrow> 'u prog"
  | CReceive "ctx option" string fid gotarget "stored \<Rightarrow> 'u prog"

text \<open>
  The function literal a coroutine was created with: the workflow's root, a function passed to
  \<open>Go\<close>, or an update (by its protocol instance) with its handler.
\<close>

datatype 'u frame =
    FRoot "'u code reg_function"
  | FGo
  | FUpdate string "'u code reg_function"

record 'u coroutine =
  co_name :: string
  co_info :: "update_info option"
  co_frame :: "'u frame"
  co_cont :: "'u cont"
  co_begun :: bool
  co_waiting :: "fid option"
  co_done :: bool
  co_err :: "goerr option"
  co_high_priority :: bool
  co_panic_fails :: bool

record 'u execution =
  ex_namespace :: string
  ex_task_queue :: string
  ex_run_id :: string
  ex_next_seq :: "32 word"
  ex_operations :: "(32 word, operation) gomap"
  ex_channels :: "(string, channel) gomap"
  ex_queries :: "(string, 'u code reg_function) gomap"
  ex_updates :: "(string, 'u registered_update) gomap"
  ex_coroutines :: "'u coroutine list"
  ex_current :: "nat option"
  ex_commands :: "command list"
  ex_terminal :: bool
  ex_started :: bool
  ex_bootstrapped :: bool
  ex_stopped :: bool
  ex_futures :: "future list"
  ex_vars :: 'u

text \<open>The worker's converter, and what the Go runtime contributes to texts.\<close>

record runtime =
  rt_lib :: codec_lib
  rt_converter :: converter
  rt_stack :: string

definition new_execution :: "string \<Rightarrow> string \<Rightarrow> string \<Rightarrow> 'u \<Rightarrow> 'u execution" where
  "new_execution namespace task_queue run_id vars =
     \<lparr>ex_namespace = namespace, ex_task_queue = task_queue, ex_run_id = run_id, ex_next_seq = 0,
      ex_operations = [], ex_channels = [], ex_queries = [], ex_updates = [], ex_coroutines = [],
      ex_current = None, ex_commands = [], ex_terminal = False, ex_started = False,
      ex_bootstrapped = False, ex_stopped = False, ex_futures = [], ex_vars = vars\<rparr>"

definition new_failure :: "goerr \<Rightarrow> string \<Rightarrow> string \<Rightarrow> failure" where
  "new_failure e failure_type stack_trace =
     \<lparr>fl_message = err_msg e, fl_source = ''Go SDK on WASM Core prototype'',
      fl_stack_trace = stack_trace, fl_type = failure_type\<rparr>"

definition failure_message :: "failure option \<Rightarrow> string" where
  "failure_message f = (case f of
     None \<Rightarrow> ''unknown failure''
   | Some fl \<Rightarrow> if fl_message fl = [] then ''unknown failure'' else fl_message fl)"

definition emit :: "'u execution \<Rightarrow> command \<Rightarrow> 'u execution" where
  "emit ex c = ex\<lparr>ex_commands := ex_commands ex @ [c]\<rparr>"

definition fail_workflow :: "'u execution \<Rightarrow> goerr \<Rightarrow> 'u execution" where
  "fail_workflow ex e =
     (if ex_terminal ex then ex
      else (emit ex (FailWorkflow (new_failure e ''GoWasmWorkflowError'' [])))\<lparr>ex_terminal := True\<rparr>)"

definition next_seq :: "'u execution \<Rightarrow> 32 word \<times> 'u execution" where
  "next_seq ex = (ex_next_seq ex + 1, ex\<lparr>ex_next_seq := ex_next_seq ex + 1\<rparr>)"

definition update_rejected :: "string \<Rightarrow> goerr \<Rightarrow> command" where
  "update_rejected protocol_id e =
     UpdateResponse protocol_id (UpdateRejected (new_failure e ''GoWasmUpdateError'' []))"

definition update_accepted :: "string \<Rightarrow> command" where
  "update_accepted protocol_id = UpdateResponse protocol_id UpdateAccepted"

definition update_completed :: "string \<Rightarrow> payload option \<Rightarrow> command" where
  "update_completed protocol_id r = UpdateResponse protocol_id (UpdateCompleted r)"

text \<open>\<open>addCoroutineWithUpdateInfo\<close>; the new coroutine's context names it by its position.\<close>

definition coroutine_ctx :: "'u execution \<Rightarrow> update_info option \<Rightarrow> ctx" where
  "coroutine_ctx ex info = \<lparr>cx_coroutine = Some (length (ex_coroutines ex)), cx_info = info\<rparr>"

definition new_coroutine ::
    "string \<Rightarrow> update_info option \<Rightarrow> 'u frame \<Rightarrow> 'u cont \<Rightarrow> 'u coroutine" where
  "new_coroutine name info frame c =
     \<lparr>co_name = name, co_info = info, co_frame = frame, co_cont = c, co_begun = False,
      co_waiting = None, co_done = False, co_err = None,
      co_high_priority = (info \<noteq> None), co_panic_fails = (info \<noteq> None)\<rparr>"

lemma new_coroutine_simps [simp]:
  "co_name (new_coroutine name info frame c) = name"
  "co_info (new_coroutine name info frame c) = info"
  "co_frame (new_coroutine name info frame c) = frame"
  "co_cont (new_coroutine name info frame c) = c"
  "\<not> co_begun (new_coroutine name info frame c)"
  "co_waiting (new_coroutine name info frame c) = None"
  "\<not> co_done (new_coroutine name info frame c)"
  "co_err (new_coroutine name info frame c) = None"
  "co_high_priority (new_coroutine name info frame c) = (info \<noteq> None)"
  "co_panic_fails (new_coroutine name info frame c) = (info \<noteq> None)"
  by (simp_all add: new_coroutine_def)

definition add_coroutine ::
    "'u execution \<Rightarrow> string \<Rightarrow> update_info option \<Rightarrow> 'u frame \<Rightarrow> (ctx \<Rightarrow> 'u cont) \<Rightarrow> 'u execution" where
  "add_coroutine ex name info frame body =
     ex\<lparr>ex_coroutines := ex_coroutines ex @
       [new_coroutine name info frame (body (coroutine_ctx ex info))]\<rparr>"

definition start_execution ::
    "'u execution \<Rightarrow> 'u code reg_function \<Rightarrow> payload option list \<Rightarrow> 'u execution" where
  "start_execution ex handler input =
     add_coroutine (ex\<lparr>ex_started := True\<rparr>) ''root'' None (FRoot handler)
       (\<lambda>ctx. CStart handler (Some ctx) input)"

definition update_coroutine :: "'u execution \<Rightarrow> nat \<Rightarrow> ('u coroutine \<Rightarrow> 'u coroutine) \<Rightarrow> 'u execution" where
  "update_coroutine ex i f =
     (if i < length (ex_coroutines ex)
      then ex\<lparr>ex_coroutines := (ex_coroutines ex)[i := f (ex_coroutines ex ! i)]\<rparr> else ex)"

end
