(* ===== verification/Workflow_Runtime.thy ===== *)
theory Workflow_Runtime
  imports Workflow_Types
begin

text \<open>
  The operations user code calls (\<open>context.go\<close>, \<open>signal.go\<close>, and the registration parts of
  \<open>query.go\<close> and \<open>update.go\<close> of \<open>internal/workflowworker\<close>). Each takes the execution and returns
  it changed, with its answer, or the message of the panic it raises.
\<close>

section \<open>Futures\<close>

text \<open>A call that answers, or panics with a message.\<close>

type_synonym 'a panicking = "string + 'a"

definition nil_pointer :: string where
  "nil_pointer = ''runtime error: invalid memory address or nil pointer dereference''"

definition already_set :: string where "already_set = ''future is already set''"

definition unready :: "future list \<Rightarrow> nat" where
  "unready fs = length (filter (\<lambda>f. \<not> fu_ready f) fs)"

lemma unready_less:
  "i < length fs \<Longrightarrow> \<not> fu_ready (fs ! i) \<Longrightarrow> fu_ready f \<Longrightarrow> unready (fs[i := f]) < unready fs"
  unfolding unready_def
proof (induction fs arbitrary: i)
  case (Cons g fs)
  then show ?case by (cases i) auto
qed simp

text \<open>
  \<open>set\<close> marks the future, then sets the chained ones, each with what is chained to it first: the
  worklist holds the futures still to set, in that order. It ends at the first one already set, with
  a panic; the futures marked until then stay so. The source clears \<open>chained\<close> after the loop; nothing
  reads the field of a ready future.
\<close>

function set_futures ::
    "goval \<Rightarrow> goerr option \<Rightarrow> fid list \<Rightarrow> future list \<Rightarrow> future list \<times> string option" where
  "set_futures v e [] fs = (fs, None)"
| "set_futures v e (f # work) fs =
     (if f \<ge> length fs then (fs, Some nil_pointer)
      else if fu_ready (fs ! f) then (fs, Some already_set)
      else set_futures v e (fu_chained (fs ! f) @ work)
             (fs[f := \<lparr>fu_ready = True, fu_value = v, fu_err = e, fu_chained = []\<rparr>]))"
  by pat_completeness auto
termination
  by (relation "measures [\<lambda>(v, e, work, fs). unready fs]") (auto simp: unready_less not_le)

definition set_future ::
    "'u execution \<Rightarrow> fid \<Rightarrow> goval \<Rightarrow> goerr option \<Rightarrow> 'u execution \<times> string option" where
  "set_future ex f v e =
     (case set_futures v e [f] (ex_futures ex) of (fs, p) \<Rightarrow> (ex\<lparr>ex_futures := fs\<rparr>, p))"

definition new_future :: "'u execution \<Rightarrow> fid \<times> 'u execution" where
  "new_future ex =
     (length (ex_futures ex),
      ex\<lparr>ex_futures := ex_futures ex @
           [\<lparr>fu_ready = False, fu_value = VNil, fu_err = None, fu_chained = []\<rparr>]\<rparr>)"

definition ready_future :: "'u execution \<Rightarrow> goval \<Rightarrow> goerr option \<Rightarrow> fid \<times> 'u execution" where
  "ready_future ex v e =
     (case new_future ex of (f, ex1) \<Rightarrow> (f, fst (set_future ex1 f v e)))"

definition is_ready :: "'u execution \<Rightarrow> fid \<Rightarrow> bool" where
  "is_ready ex f \<longleftrightarrow> f < length (ex_futures ex) \<and> fu_ready (ex_futures ex ! f)"

definition running_message :: "string \<Rightarrow> string" where
  "running_message operation =
     ''workflow '' @ operation @ '' must run in the currently executing workflow coroutine''"

text \<open>\<open>Context.requireRunning\<close> and the test of \<open>blockOn\<close>.\<close>

definition ctx_running :: "'u execution \<Rightarrow> ctx option \<Rightarrow> bool" where
  "ctx_running ex c = (case c of
     None \<Rightarrow> False
   | Some cx \<Rightarrow> cx_coroutine cx \<noteq> None \<and> ex_current ex = cx_coroutine cx)"

definition future_running_message :: "string \<Rightarrow> string" where
  "future_running_message operation =
     ''workflow future '' @ operation @ '' must run in a workflow coroutine''"

definition signal_running_message :: "string \<Rightarrow> string" where
  "signal_running_message operation =
     ''workflow signal '' @ operation @ '' must run in a workflow coroutine''"

definition settle_name :: "settle \<Rightarrow> string" where
  "settle_name s = (case s of
     SetBoth \<Rightarrow> ''Set'' | SetValueOnly \<Rightarrow> ''SetValue'' | SetErrorOnly \<Rightarrow> ''SetError'')"

text \<open>\<open>Set\<close>, \<open>SetValue\<close> and \<open>SetError\<close>.\<close>

definition settle_future ::
    "'u execution \<Rightarrow> settle \<Rightarrow> fid \<Rightarrow> goval \<Rightarrow> goerr option \<Rightarrow> 'u execution \<times> string option" where
  "settle_future ex s f v e =
     (if f \<ge> length (ex_futures ex) then (ex, Some nil_pointer)
      else if ex_current ex = None then (ex, Some (future_running_message (settle_name s)))
      else case s of
        SetBoth \<Rightarrow> set_future ex f v e
      | SetValueOnly \<Rightarrow> set_future ex f v None
      | SetErrorOnly \<Rightarrow> set_future ex f VNil e)"

definition foreign_future :: string where
  "foreign_future = ''cannot chain a future from another workflow runtime''"

definition chain_future :: "'u execution \<Rightarrow> fid \<Rightarrow> fid option \<Rightarrow> 'u execution \<times> string option" where
  "chain_future ex f other =
     (if f \<ge> length (ex_futures ex) then (ex, Some nil_pointer)
      else if ex_current ex = None then (ex, Some (future_running_message ''Chain''))
      else case other of
        None \<Rightarrow> (ex, Some foreign_future)
      | Some g \<Rightarrow>
          if g \<ge> length (ex_futures ex) then (ex, Some foreign_future)
          else if fu_ready (ex_futures ex ! f) then (ex, Some already_set)
          else let other_future = ex_futures ex ! g in
            if fu_ready other_future
            then set_future ex f (fu_value other_future) (fu_err other_future)
            else (ex\<lparr>ex_futures := (ex_futures ex)[g :=
                    other_future\<lparr>fu_chained := fu_chained other_future @ [f]\<rparr>]\<rparr>, None))"

definition require_context_error :: goerr where
  "require_context_error = ErrNew ''future Get requires its workflow context''"

definition bad_result_target :: goerr where
  "bad_result_target = ErrNew ''future result must be a non-nil pointer''"

text \<open>The part of \<open>Get\<close> after the future is ready.\<close>

definition future_result :: "runtime \<Rightarrow> future \<Rightarrow> gotarget \<Rightarrow> stored" where
  "future_result rt fu target =
     (if fu_err fu \<noteq> None \<or> target = NilTarget then (fu_err fu, None)
      else case fu_value fu of
        VNil \<Rightarrow> stored_err (ErrNew ''future completed without a result'')
      | VPayload p \<Rightarrow>
          (case cv_from_payload (rt_converter rt) p target of
             (Some e, w) \<Rightarrow> (Some (ErrWrap ''decode future result: '' e []), w)
           | (None, w) \<Rightarrow> (None, w))
      | v \<Rightarrow>
          (case target of
             Target t w \<Rightarrow>
               if assignable_to v t then stored_ok v
               else stored_err (ErrNew (''future result type '' @ type_name (rt_lib rt) (type_of v) @
                      '' cannot be assigned to '' @ target_type_name (rt_lib rt) target))
           | _ \<Rightarrow> stored_err bad_result_target))"

section \<open>Timers, activities and child workflows\<close>

definition register_operation ::
    "'u execution \<Rightarrow> 32 word \<Rightarrow> operation_kind \<Rightarrow> fid \<Rightarrow> fid option \<Rightarrow> string \<Rightarrow> 'u execution" where
  "register_operation ex seq kind result started workflow_id =
     ex\<lparr>ex_operations := AList.update seq
          \<lparr>op_kind = kind, op_result = result, op_started = started, op_workflow_id = workflow_id\<rparr>
          (ex_operations ex)\<rparr>"

definition show_seq :: "32 word \<Rightarrow> string" where "show_seq seq = show_nat (unat seq)"

definition new_timer :: "'u execution \<Rightarrow> int \<Rightarrow> fid \<times> 'u execution" where
  "new_timer ex duration =
     (if duration < 0
      then ready_future ex VNil (Some (ErrNew ''workflow timer duration cannot be negative''))
      else case next_seq ex of (seq, ex1) \<Rightarrow>
        case new_future ex1 of (f, ex2) \<Rightarrow>
          (f, emit (register_operation ex2 seq OpTimer f None []) (StartTimer seq duration)))"

text \<open>\<open>payloads.GetPayloads()\<close>: none for a nil message.\<close>

definition payloads_of :: "payload option list option \<Rightarrow> payload option list" where
  "payloads_of ps = (case ps of None \<Rightarrow> [] | Some l \<Rightarrow> l)"

definition execute_activity ::
    "runtime \<Rightarrow> 'u execution \<Rightarrow> activity_options \<Rightarrow> goval list \<Rightarrow> (fid \<times> 'u execution) panicking" where
  "execute_activity rt ex options arguments =
     (if ao_activity_type options = []
      then Inr (ready_future ex VNil (Some (ErrNew ''activity type is required'')))
      else if ao_start_to_close options \<le> 0
      then Inr (ready_future ex VNil (Some
             (ErrNew ''activity start-to-close timeout must be positive'')))
      else case cv_to_payloads (rt_converter rt) arguments of
        Panic m \<Rightarrow> Inl m
      | Err e \<Rightarrow> Inr (ready_future ex VNil (Some (ErrWrap ''encode activity input: '' e [])))
      | Ok payloads \<Rightarrow>
          (case next_seq ex of (seq, ex1) \<Rightarrow>
             case new_future ex1 of (f, ex2) \<Rightarrow>
               Inr (f, emit (register_operation ex2 seq OpActivity f None [])
                 (ScheduleActivity seq
                    \<lparr>sa_activity_id = or_default (ao_activity_id options) (''activity-'' @ show_seq seq),
                     sa_activity_type = ao_activity_type options,
                     sa_task_queue = or_default (ao_task_queue options) (ex_task_queue ex),
                     sa_arguments = payloads_of payloads,
                     sa_start_to_close = ao_start_to_close options,
                     sa_do_not_eagerly_execute = ao_disable_eager options\<rparr>))))"

definition positive_duration :: "int \<Rightarrow> int option" where
  "positive_duration d = (if d > 0 then Some d else None)"

definition execute_local_activity ::
    "runtime \<Rightarrow> 'u execution \<Rightarrow> local_activity_options \<Rightarrow> goval list \<Rightarrow>
     (fid \<times> 'u execution) panicking" where
  "execute_local_activity rt ex options arguments =
     (if lo_activity_type options = []
      then Inr (ready_future ex VNil (Some (ErrNew ''local activity type is required'')))
      else if lo_schedule_to_close options \<le> 0 \<and> lo_start_to_close options \<le> 0
      then Inr (ready_future ex VNil (Some (ErrNew
             ''local activity schedule-to-close or start-to-close timeout must be positive'')))
      else if lo_schedule_to_close options < 0 \<or> lo_schedule_to_start options < 0 \<or>
              lo_start_to_close options < 0 \<or> lo_retry_threshold options < 0
      then Inr (ready_future ex VNil (Some (ErrNew ''local activity timeouts cannot be negative'')))
      else case cv_to_payloads (rt_converter rt) arguments of
        Panic m \<Rightarrow> Inl m
      | Err e \<Rightarrow> Inr (ready_future ex VNil (Some (ErrWrap ''encode local activity input: '' e [])))
      | Ok payloads \<Rightarrow>
          (case next_seq ex of (seq, ex1) \<Rightarrow>
             case new_future ex1 of (f, ex2) \<Rightarrow>
               Inr (f, emit (register_operation ex2 seq OpLocalActivity f None [])
                 (ScheduleLocalActivity seq
                    \<lparr>sl_activity_id =
                       or_default (lo_activity_id options) (''local-activity-'' @ show_seq seq),
                     sl_activity_type = lo_activity_type options,
                     sl_arguments = payloads_of payloads,
                     sl_attempt = 1,
                     sl_schedule_to_close = positive_duration (lo_schedule_to_close options),
                     sl_schedule_to_start = positive_duration (lo_schedule_to_start options),
                     sl_start_to_close = positive_duration (lo_start_to_close options),
                     sl_retry_threshold = positive_duration (lo_retry_threshold options),
                     sl_cancellation_type = ''WAIT_CANCELLATION_COMPLETED''\<rparr>))))"

definition optional_duration :: "int \<Rightarrow> int option" where
  "optional_duration d = (if d = 0 then None else Some d)"

definition reuse_policy_unspecified :: int where "reuse_policy_unspecified = 0"
definition reuse_policy_allow_duplicate :: int where "reuse_policy_allow_duplicate = 1"

text \<open>The closure \<open>fail\<close> of \<open>executeChildWorkflow\<close>: both futures are set.\<close>

definition fail_child :: "'u execution \<Rightarrow> fid \<Rightarrow> fid \<Rightarrow> goerr \<Rightarrow> 'u execution" where
  "fail_child ex result started e =
     fst (set_future (fst (set_future ex started VNil (Some e))) result VNil (Some e))"

definition child_options_error :: "child_options \<Rightarrow> goerr option" where
  "child_options_error options =
     (if ch_workflow_type options = [] then Some (ErrNew ''child workflow type is required'')
      else if ch_execution_timeout options < 0
      then Some (ErrNew ''child workflow execution timeout cannot be negative'')
      else if ch_run_timeout options < 0
      then Some (ErrNew ''child workflow run timeout cannot be negative'')
      else if ch_task_timeout options < 0
      then Some (ErrNew ''child workflow task timeout cannot be negative'')
      else None)"

text \<open>The answer is the result future and the start future of the child.\<close>

definition execute_child ::
    "runtime \<Rightarrow> 'u execution \<Rightarrow> child_options \<Rightarrow> goval list \<Rightarrow> (fid \<times> fid \<times> 'u execution) panicking" where
  "execute_child rt ex options arguments =
     (let (result, ex1) = new_future ex; (started, ex2) = new_future ex1 in
      case child_options_error options of
        Some e \<Rightarrow> Inr (result, started, fail_child ex2 result started e)
      | None \<Rightarrow>
        (case cv_to_payloads (rt_converter rt) arguments of
           Panic m \<Rightarrow> Inl m
         | Err e \<Rightarrow>
             Inr (result, started,
                  fail_child ex2 result started (ErrWrap ''encode child workflow input: '' e []))
         | Ok payloads \<Rightarrow>
             (case next_seq ex2 of (seq, ex3) \<Rightarrow>
              let workflow_id = or_default (ch_workflow_id options)
                                  (ex_run_id ex @ ''_'' @ show_seq seq) in
              Inr (result, started,
                emit (register_operation ex3 seq OpChild result (Some started) workflow_id)
                  (StartChildWorkflow seq
                    \<lparr>sc_namespace = or_default (ch_namespace options) (ex_namespace ex),
                     sc_workflow_id = workflow_id,
                     sc_workflow_type = ch_workflow_type options,
                     sc_task_queue = or_default (ch_task_queue options) (ex_task_queue ex),
                     sc_input = payloads_of payloads,
                     sc_execution_timeout = optional_duration (ch_execution_timeout options),
                     sc_run_timeout = optional_duration (ch_run_timeout options),
                     sc_task_timeout = optional_duration (ch_task_timeout options),
                     sc_parent_close_policy = ch_parent_close_policy options,
                     sc_id_reuse_policy =
                       (if ch_id_reuse_policy options = reuse_policy_unspecified
                        then reuse_policy_allow_duplicate else ch_id_reuse_policy options)\<rparr>)))))"

section \<open>Signal channels\<close>

definition ensure_channel :: "'u execution \<Rightarrow> string \<Rightarrow> 'u execution" where
  "ensure_channel ex name =
     (case map_of (ex_channels ex) name of
        Some ch \<Rightarrow> ex
      | None \<Rightarrow> ex\<lparr>ex_channels := AList.update name \<lparr>sch_buffer = [], sch_waiters = []\<rparr> (ex_channels ex)\<rparr>)"

definition put_channel :: "'u execution \<Rightarrow> string \<Rightarrow> channel \<Rightarrow> 'u execution" where
  "put_channel ex name ch = ex\<lparr>ex_channels := AList.update name ch (ex_channels ex)\<rparr>"

text \<open>The loop of \<open>deliver\<close>: the first waiter that is not ready, and the waiters left after it.\<close>

fun pop_waiter :: "'u execution \<Rightarrow> fid list \<Rightarrow> fid option \<times> fid list" where
  "pop_waiter ex [] = (None, [])"
| "pop_waiter ex (w # ws) = (if is_ready ex w then pop_waiter ex ws else (Some w, ws))"

definition deliver :: "'u execution \<Rightarrow> string \<Rightarrow> payload option list \<Rightarrow> 'u execution \<times> string option" where
  "deliver ex0 name input =
     (let ex = ensure_channel ex0 name in
      case map_of (ex_channels ex) name of
        None \<Rightarrow> (ex, Some nil_pointer)
      | Some ch \<Rightarrow>
          (case pop_waiter ex (sch_waiters ch) of
             (Some w, ws) \<Rightarrow>
               set_future (put_channel ex name (ch\<lparr>sch_waiters := ws\<rparr>)) w (VPayloads input) None
           | (None, ws) \<Rightarrow>
               (put_channel ex name
                  (ch\<lparr>sch_waiters := ws, sch_buffer := sch_buffer ch @ [input]\<rparr>), None)))"

definition take_signal :: "channel \<Rightarrow> (payload option list \<times> channel) option" where
  "take_signal ch = (case sch_buffer ch of
     [] \<Rightarrow> None
   | input # rest \<Rightarrow> Some (input, ch\<lparr>sch_buffer := rest\<rparr>))"

definition remove_waiter :: "'u execution \<Rightarrow> string \<Rightarrow> fid \<Rightarrow> 'u execution" where
  "remove_waiter ex name w = (case map_of (ex_channels ex) name of
     None \<Rightarrow> ex
   | Some ch \<Rightarrow> put_channel ex name (ch\<lparr>sch_waiters := remove1 w (sch_waiters ch)\<rparr>))"

definition decode_signal :: "runtime \<Rightarrow> string \<Rightarrow> payload option list \<Rightarrow> gotarget \<Rightarrow> stored" where
  "decode_signal rt name input target =
     (if target = NilTarget \<or> input = [] then (None, None)
      else case cv_from_payload (rt_converter rt) (hd input) target of
        (Some e, w) \<Rightarrow> (Some (ErrWrap (''decode signal '' @ go_quote name @ '': '') e []), w)
      | (None, w) \<Rightarrow> (None, w))"

definition bad_signal_target :: goerr where
  "bad_signal_target = ErrNew ''signal result must be a non-nil pointer''"

definition signal_target_error :: "gotarget \<Rightarrow> goerr option" where
  "signal_target_error target = (case target of
     BadTarget t \<Rightarrow> Some bad_signal_target | _ \<Rightarrow> None)"

text \<open>The input a signal waiter was completed with.\<close>

definition waiter_input :: "future \<Rightarrow> payload option list" where
  "waiter_input fu = (case fu_value fu of VPayloads ps \<Rightarrow> ps | _ \<Rightarrow> [])"

section \<open>Handlers\<close>

definition reserved_name :: "string \<Rightarrow> bool" where
  "reserved_name name \<longleftrightarrow> take 2 name = ''__''"

definition workflow_context_text :: string where "workflow_context_text = ''*workflow.Context''"

definition new_registered_workflow ::
    "runtime \<Rightarrow> string \<Rightarrow> 'u code gofunc option \<Rightarrow> goerr + 'u code reg_function" where
  "new_registered_workflow rt name function =
     new_function (rt_lib rt) ''workflow'' name function (Some TWorkflowContext) True
       workflow_context_text"

definition query_shape_error :: "string \<Rightarrow> 'b gofunc option \<Rightarrow> goerr option" where
  "query_shape_error name handler = (case handler of
     Some (GoFunc ins outs body) \<Rightarrow>
       if ins \<noteq> [] \<and> hd ins = TWorkflowContext
       then Some (ErrNew (''query '' @ go_quote name @ '' must not accept *workflow.Context''))
       else if length outs \<noteq> 2
       then Some (ErrNew (''query '' @ go_quote name @ '' must return (result, error)''))
       else None
   | _ \<Rightarrow> None)"

definition new_registered_query ::
    "runtime \<Rightarrow> string \<Rightarrow> 'b gofunc option \<Rightarrow> goerr + 'b reg_function" where
  "new_registered_query rt name handler =
     (if reserved_name name
      then Inl (ErrNew (''query type names beginning with '' @ go_quote ''__'' @ '' are reserved''))
      else case query_shape_error name handler of
        Some e \<Rightarrow> Inl e
      | None \<Rightarrow> new_function (rt_lib rt) ''query'' name handler None False [])"

definition update_handler_type ::
    "runtime \<Rightarrow> string \<Rightarrow> 'b gofunc option \<Rightarrow> goerr + gotype list" where
  "update_handler_type rt name handler = (case handler of
     None \<Rightarrow> Inl (ErrNew (''update '' @ go_quote name @ '' function is required''))
   | Some (NotFunc t) \<Rightarrow>
       Inl (ErrNew (''update '' @ go_quote name @ '' must be a function, got '' @ type_name (rt_lib rt) t))
   | Some (GoFunc ins outs body) \<Rightarrow>
       if ins = [] \<or> hd ins \<noteq> TWorkflowContext
       then Inl (ErrNew (''update '' @ go_quote name @ '' must accept *workflow.Context first''))
       else Inr ins)"

definition update_validator_type ::
    "runtime \<Rightarrow> string \<Rightarrow> 'b gofunc \<Rightarrow> goerr + gotype list" where
  "update_validator_type rt name validator = (case validator of
     NotFunc t \<Rightarrow>
       Inl (ErrNew (''update '' @ go_quote name @ '' validator must be a function, got '' @
                    type_name (rt_lib rt) t))
   | GoFunc ins outs body \<Rightarrow>
       if outs \<noteq> [TError]
       then Inl (ErrNew (''update '' @ go_quote name @ '' validator must return error''))
       else Inr ins)"

definition without_context :: "gotype list \<Rightarrow> gotype list" where
  "without_context ins = (if ins \<noteq> [] \<and> hd ins = TWorkflowContext then tl ins else ins)"

fun first_parameter_mismatch ::
    "runtime \<Rightarrow> nat \<Rightarrow> gotype list \<Rightarrow> gotype list \<Rightarrow> goerr option" where
  "first_parameter_mismatch rt i (h # hs) (v # vs) =
     (if h \<noteq> v
      then Some (ErrNew (''parameter '' @ show_nat i @ '' is '' @ type_name (rt_lib rt) v @ '', want '' @
                         type_name (rt_lib rt) h))
      else first_parameter_mismatch rt (Suc i) hs vs)"
| "first_parameter_mismatch rt i hs vs = None"

definition validate_update_parameters :: "runtime \<Rightarrow> gotype list \<Rightarrow> gotype list \<Rightarrow> goerr option" where
  "validate_update_parameters rt handler_in validator_in =
     (let hs = without_context handler_in; vs = without_context validator_in in
      if length hs \<noteq> length vs then Some (ErrNew ''parameters must match the update handler'')
      else first_parameter_mismatch rt 0 hs vs)"

definition new_registered_update ::
    "runtime \<Rightarrow> string \<Rightarrow> 'u code gofunc option \<Rightarrow> 'u code gofunc option \<Rightarrow>
     goerr + 'u registered_update" where
  "new_registered_update rt name handler validator =
     (if reserved_name name
      then Inl (ErrNew (''update names beginning with '' @ go_quote ''__'' @ '' are reserved''))
      else case update_handler_type rt name handler of
        Inl e \<Rightarrow> Inl e
      | Inr handler_in \<Rightarrow>
        (case new_function (rt_lib rt) ''update'' name handler (Some TWorkflowContext) True
                workflow_context_text of
           Inl e \<Rightarrow> Inl e
         | Inr h \<Rightarrow>
           (case validator of
              None \<Rightarrow> Inr \<lparr>ru_name = name, ru_handler = h, ru_validator = None\<rparr>
            | Some v \<Rightarrow>
              (case update_validator_type rt name v of
                 Inl e \<Rightarrow> Inl e
               | Inr validator_in \<Rightarrow>
                 (case validate_update_parameters rt handler_in validator_in of
                    Some e \<Rightarrow> Inl (ErrWrap (''update '' @ go_quote name @ '' validator: '') e [])
                  | None \<Rightarrow>
                    (case new_function (rt_lib rt) ''update validator'' name (Some v)
                            (Some TWorkflowContext) False [] of
                       Inl e \<Rightarrow> Inl e
                     | Inr f \<Rightarrow>
                         Inr \<lparr>ru_name = name, ru_handler = h, ru_validator = Some f\<rparr>))))))"

definition set_query_handler ::
    "runtime \<Rightarrow> 'u execution \<Rightarrow> string \<Rightarrow> 'u code gofunc option \<Rightarrow> goerr option \<times> 'u execution" where
  "set_query_handler rt ex query_type handler =
     (case new_registered_query rt query_type handler of
        Inl e \<Rightarrow> (Some e, ex)
      | Inr q \<Rightarrow> (None, ex\<lparr>ex_queries := AList.update query_type q (ex_queries ex)\<rparr>))"

definition set_update_handler ::
    "runtime \<Rightarrow> 'u execution \<Rightarrow> string \<Rightarrow> 'u code gofunc option \<Rightarrow> 'u code gofunc option \<Rightarrow>
     goerr option \<times> 'u execution" where
  "set_update_handler rt ex name handler validator =
     (case new_registered_update rt name handler validator of
        Inl e \<Rightarrow> (Some e, ex)
      | Inr u \<Rightarrow> (None, ex\<lparr>ex_updates := AList.update name u (ex_updates ex)\<rparr>))"

end
