(* ===== verification/Workflow_Dispatch.thy ===== *)
theory Workflow_Dispatch
  imports Workflow_Runtime
begin

text \<open>
  Running coroutines (\<open>worker.go\<close> and \<open>context.go\<close> of \<open>internal/workflowworker\<close>).

  \<open>user_step\<close> is one library call of the running user code; \<open>user_run\<close> continues it until it blocks, returns
  or panics, which need not happen: it is \<open>None\<close> then. \<open>resume\<close> is what \<open>coroutine.next()\<close> does,
  with the deferred recoveries, and \<open>drive\<close> the dispatcher's loop.
\<close>

section \<open>One call\<close>

datatype 'u outcome =
    Next "'u cont"
  | Blocked "'u cont"
  | Returned goval "goerr option"
  | Panicked string

definition evicted_error :: goerr where
  "evicted_error = ErrNew ''workflow execution was evicted''"

definition not_current_error :: goerr where
  "not_current_error =
     ErrNew ''future Get must be called from the currently running workflow coroutine''"

text \<open>\<open>requireRunning\<close> as a guard: the call, or the panic.\<close>

definition when_running ::
    "'u execution \<Rightarrow> ctx option \<Rightarrow> string \<Rightarrow> 'u execution \<times> 'u outcome \<Rightarrow> 'u execution \<times> 'u outcome" where
  "when_running ex c operation call =
     (if ctx_running ex c then call else (ex, Panicked (running_message operation)))"

definition answer_panicking ::
    "'u execution \<Rightarrow> 'a panicking \<Rightarrow> ('a \<Rightarrow> 'u execution \<times> 'u outcome) \<Rightarrow> 'u execution \<times> 'u outcome" where
  "answer_panicking ex r k = (case r of Inl m \<Rightarrow> (ex, Panicked m) | Inr a \<Rightarrow> k a)"

definition unless_panic :: "'u execution \<times> string option \<Rightarrow> 'u prog \<Rightarrow> 'u execution \<times> 'u outcome" where
  "unless_panic r k = (case r of
     (ex, None) \<Rightarrow> (ex, Next (CRun k)) | (ex, Some m) \<Rightarrow> (ex, Panicked m))"

definition set_waiting :: "'u execution \<Rightarrow> fid \<Rightarrow> 'u execution" where
  "set_waiting ex f = (case ex_current ex of
     None \<Rightarrow> ex | Some i \<Rightarrow> update_coroutine ex i (\<lambda>co. co\<lparr>co_waiting := Some f\<rparr>))"

definition step_receive ::
    "runtime \<Rightarrow> 'u execution \<Rightarrow> ctx option \<Rightarrow> string \<Rightarrow> gotarget \<Rightarrow> (stored \<Rightarrow> 'u prog) \<Rightarrow>
     'u execution \<times> 'u outcome" where
  "step_receive rt ex c name target k =
     (case map_of (ex_channels ex) name of
        None \<Rightarrow> (ex, Panicked nil_pointer)
      | Some ch \<Rightarrow>
          if c = None
          then (ex, Next (CRun (k (stored_err
                      (ErrNew ''signal Receive requires its workflow context'')))))
          else if ex_current ex = None then (ex, Panicked (signal_running_message ''Receive''))
          else (case signal_target_error target of
            Some e \<Rightarrow> (ex, Next (CRun (k (stored_err e))))
          | None \<Rightarrow>
              (case take_signal ch of
                 Some (input, ch') \<Rightarrow>
                   (put_channel ex name ch', Next (CRun (k (decode_signal rt name input target))))
               | None \<Rightarrow>
                   (case new_future ex of (w, ex1) \<Rightarrow>
                      (put_channel ex1 name (ch\<lparr>sch_waiters := sch_waiters ch @ [w]\<rparr>),
                       Next (CReceive c name w target k))))))"

definition step_receive_async ::
    "runtime \<Rightarrow> 'u execution \<Rightarrow> string \<Rightarrow> gotarget \<Rightarrow> (bool \<times> stored \<Rightarrow> 'u prog) \<Rightarrow>
     'u execution \<times> 'u outcome" where
  "step_receive_async rt ex name target k =
     (case map_of (ex_channels ex) name of
        None \<Rightarrow> (ex, Panicked nil_pointer)
      | Some ch \<Rightarrow>
          if ex_current ex = None then (ex, Panicked (signal_running_message ''ReceiveAsync''))
          else (case signal_target_error target of
            Some e \<Rightarrow> (ex, Next (CRun (k (False, stored_err e))))
          | None \<Rightarrow>
              (case take_signal ch of
                 Some (input, ch') \<Rightarrow>
                   (put_channel ex name ch',
                    Next (CRun (k (True, decode_signal rt name input target))))
               | None \<Rightarrow> (ex, Next (CRun (k (False, (None, None))))))))"

definition step_get ::
    "'u execution \<Rightarrow> ctx option \<Rightarrow> fid \<Rightarrow> gotarget \<Rightarrow> (stored \<Rightarrow> 'u prog) \<Rightarrow>
     'u execution \<times> 'u outcome" where
  "step_get ex c f target k =
     (if f \<ge> length (ex_futures ex) then (ex, Panicked nil_pointer)
      else if c = None then (ex, Next (CRun (k (stored_err require_context_error))))
      else case target of
        BadTarget t \<Rightarrow> (ex, Next (CRun (k (stored_err bad_result_target))))
      | _ \<Rightarrow> (ex, Next (CGet c f target k)))"

fun step_prog :: "runtime \<Rightarrow> 'u execution \<Rightarrow> 'u prog \<Rightarrow> 'u execution \<times> 'u outcome" where
  "step_prog rt ex (PReturn v e) = (ex, Returned v e)"
| "step_prog rt ex (PPanic m) = (ex, Panicked m)"
| "step_prog rt ex (PVars g) =
     (case g (ex_vars ex) of (u, k) \<Rightarrow> (ex\<lparr>ex_vars := u\<rparr>, Next (CRun k)))"
| "step_prog rt ex (PGo c name body k) =
     (case body of
        None \<Rightarrow> (ex, Panicked ''workflow Go requires a function'')
      | Some b \<Rightarrow>
          when_running ex c ''Go''
            (add_coroutine ex name (Option.bind c cx_info) FGo (\<lambda>cx. CRun (b cx)), Next (CRun k)))"
| "step_prog rt ex (PNewFuture c k) =
     when_running ex c ''NewFuture''
       (case new_future ex of (f, ex') \<Rightarrow> (ex', Next (CRun (k f))))"
| "step_prog rt ex (PNewTimer c d k) =
     when_running ex c ''NewTimer''
       (case new_timer ex d of (f, ex') \<Rightarrow> (ex', Next (CRun (k f))))"
| "step_prog rt ex (PActivity c opts args k) =
     when_running ex c ''ExecuteActivity''
       (answer_panicking ex (execute_activity rt ex opts args) (\<lambda>(f, ex'). (ex', Next (CRun (k f)))))"
| "step_prog rt ex (PLocalActivity c opts args k) =
     when_running ex c ''ExecuteLocalActivity''
       (answer_panicking ex (execute_local_activity rt ex opts args)
          (\<lambda>(f, ex'). (ex', Next (CRun (k f)))))"
| "step_prog rt ex (PChild c opts args k) =
     when_running ex c ''ExecuteChildWorkflow''
       (answer_panicking ex (execute_child rt ex opts args)
          (\<lambda>(f, s, ex'). (ex', Next (CRun (k f s)))))"
| "step_prog rt ex (PGet c f target k) = step_get ex c f target k"
| "step_prog rt ex (PIsReady f k) =
     (if f \<ge> length (ex_futures ex) then (ex, Panicked nil_pointer)
      else (ex, Next (CRun (k (is_ready ex f)))))"
| "step_prog rt ex (PSet s f v e k) = unless_panic (settle_future ex s f v e) k"
| "step_prog rt ex (PChain f other k) = unless_panic (chain_future ex f other) k"
| "step_prog rt ex (PSignalChannel c name k) =
     when_running ex c ''GetSignalChannel'' (ensure_channel ex name, Next (CRun k))"
| "step_prog rt ex (PReceive c name target k) = step_receive rt ex c name target k"
| "step_prog rt ex (PReceiveAsync name target k) = step_receive_async rt ex name target k"
| "step_prog rt ex (PLen name k) =
     (case map_of (ex_channels ex) name of
        None \<Rightarrow> (ex, Panicked nil_pointer)
      | Some ch \<Rightarrow> (ex, Next (CRun (k (length (sch_buffer ch))))))"
| "step_prog rt ex (PSetQuery c name handler k) =
     when_running ex c ''SetQueryHandler''
       (case set_query_handler rt ex name handler of (e, ex') \<Rightarrow> (ex', Next (CRun (k e))))"
| "step_prog rt ex (PSetUpdate c name handler validator k) =
     when_running ex c ''SetUpdateHandler''
       (case set_update_handler rt ex name handler validator of (e, ex') \<Rightarrow>
          (ex', Next (CRun (k e))))"
| "step_prog rt ex (PUpdateInfo c k) = (ex, Next (CRun (k (Option.bind c cx_info))))"

text \<open>Entering a function with decoded arguments; the context is passed only if it takes one.\<close>

definition enter_function :: "'u code reg_function \<Rightarrow> ctx option \<Rightarrow> goval list \<Rightarrow> 'u outcome" where
  "enter_function f c args =
     (case f_function f of
        GoFunc ins outs (Some body) \<Rightarrow>
          Next (CRun (body (if f_input_start f = 1 then c else None) args))
      | _ \<Rightarrow> Panicked nil_pointer)"

text \<open>The waiting loops of \<open>Get\<close> and \<open>Receive\<close>, with \<open>blockOn\<close>.\<close>

fun user_step :: "runtime \<Rightarrow> 'u execution \<Rightarrow> 'u cont \<Rightarrow> 'u execution \<times> 'u outcome" where
  "user_step rt ex (CRun p) = step_prog rt ex p"
| "user_step rt ex (CStart f c input) =
     (case decode_input (rt_converter rt) f input of
        Inl e \<Rightarrow> (ex, Returned VNil (Some e))
      | Inr args \<Rightarrow> (ex, enter_function f c args))"
| "user_step rt ex (CGet c f target k) =
     (if is_ready ex f
      then (ex, Next (CRun (k (future_result rt (ex_futures ex ! f) target))))
      else if ctx_running ex c then (set_waiting ex f, Blocked (CGet c f target k))
      else (ex, Next (CRun (k (stored_err not_current_error)))))"
| "user_step rt ex (CReceive c name w target k) =
     (if is_ready ex w
      then (ex, Next (CRun (k (decode_signal rt name (waiter_input (ex_futures ex ! w)) target))))
      else if ctx_running ex c then (set_waiting ex w, Blocked (CReceive c name w target k))
      else (remove_waiter ex name w, Next (CRun (k (stored_err not_current_error)))))"

section \<open>Running until a call blocks\<close>

datatype 'u run_end =
    Yielded "'u cont"
  | Finished goval "goerr option"
  | Crashed string

partial_function (option) user_run ::
    "runtime \<Rightarrow> 'u execution \<Rightarrow> 'u cont \<Rightarrow> ('u execution \<times> 'u run_end) option" where
  "user_run rt ex c =
     (case user_step rt ex c of
        (ex', Next c') \<Rightarrow> user_run rt ex' c'
      | (ex', Blocked c') \<Rightarrow> Some (ex', Yielded c')
      | (ex', Returned v e) \<Rightarrow> Some (ex', Finished v e)
      | (ex', Panicked m) \<Rightarrow> Some (ex', Crashed m))"

text \<open>The result of a call of a validated function that ended this way (\<open>ExecuteDecoded\<close>).\<close>

definition call_result ::
    "runtime \<Rightarrow> 'u code reg_function \<Rightarrow> 'u run_end \<Rightarrow> payload option gores" where
  "call_result rt f r = (case r of
     Finished v e \<Rightarrow> encode_result (rt_converter rt) f v e
   | Crashed m \<Rightarrow> Panic m
   | Yielded c \<Rightarrow> Panic nil_pointer)"

definition newline :: char where "newline = CHR 0x0A"

definition panic_error :: "runtime \<Rightarrow> string \<Rightarrow> string \<Rightarrow> goerr" where
  "panic_error rt what m = ErrNew (what @ '' panicked: '' @ m @ [newline] @ rt_stack rt)"

definition coroutine_panic :: "runtime \<Rightarrow> 'u execution \<Rightarrow> nat \<Rightarrow> string \<Rightarrow> 'u execution" where
  "coroutine_panic rt ex i m = update_coroutine ex i (\<lambda>co.
     co\<lparr>co_err := Some (panic_error rt (''workflow coroutine '' @ go_quote (co_name co)) m)\<rparr>)"

text \<open>
  What the function literal of the coroutine does with the end of the user function: the literal of
  \<open>start\<close> (with \<open>executeSafely\<close>), the one passed to \<open>GoNamed\<close>, the one of \<open>startUpdate\<close>.
\<close>

definition finish_coroutine ::
    "runtime \<Rightarrow> 'u execution \<Rightarrow> nat \<Rightarrow> 'u frame \<Rightarrow> 'u run_end \<Rightarrow> 'u execution" where
  "finish_coroutine rt ex i frame r = (case frame of
     FRoot f \<Rightarrow>
       (case call_result rt f r of
          Ok p \<Rightarrow> (emit ex (CompleteWorkflow p))\<lparr>ex_terminal := True\<rparr>
        | Err e \<Rightarrow> fail_workflow ex e
        | Panic m \<Rightarrow> fail_workflow ex (panic_error rt (''workflow '' @ go_quote (f_name f)) m))
   | FGo \<Rightarrow> (case r of Crashed m \<Rightarrow> coroutine_panic rt ex i m | _ \<Rightarrow> ex)
   | FUpdate protocol_id f \<Rightarrow>
       (case call_result rt f r of
          Ok p \<Rightarrow> emit ex (update_completed protocol_id p)
        | Err e \<Rightarrow> emit ex (update_rejected protocol_id e)
        | Panic m \<Rightarrow> coroutine_panic rt ex i m))"

text \<open>
  \<open>coroutine.next()\<close> and the bookkeeping around it in \<open>drive\<close>: \<open>waiting\<close> cleared, the coroutine
  current while it runs, \<open>done\<close> set when it has ended.
\<close>

definition settle_coroutine ::
    "runtime \<Rightarrow> 'u execution \<Rightarrow> nat \<Rightarrow> 'u frame \<Rightarrow> 'u run_end \<Rightarrow> 'u execution" where
  "settle_coroutine rt ex i frame r = (case r of
     Yielded c \<Rightarrow> update_coroutine ex i (\<lambda>co. co\<lparr>co_cont := c\<rparr>)
   | _ \<Rightarrow> update_coroutine (finish_coroutine rt ex i frame r) i (\<lambda>co. co\<lparr>co_done := True\<rparr>))"

definition resume :: "runtime \<Rightarrow> 'u execution \<Rightarrow> nat \<Rightarrow> 'u execution option" where
  "resume rt ex i =
     (let co = ex_coroutines ex ! i;
          ex1 = (update_coroutine ex i (\<lambda>co. co\<lparr>co_waiting := None, co_begun := True\<rparr>))
                  \<lparr>ex_current := Some i\<rparr>
      in map_option (\<lambda>(ex2, r). (settle_coroutine rt ex2 i (co_frame co) r)\<lparr>ex_current := None\<rparr>)
           (user_run rt ex1 (co_cont co)))"

section \<open>The dispatcher\<close>

text \<open>How a pass over the coroutines ended: with or without progress, or with \<open>drive\<close> returning.\<close>

datatype pass_end = Passed bool | Stop "goerr option"

definition runnable :: "'u execution \<Rightarrow> bool \<Rightarrow> nat \<Rightarrow> bool" where
  "runnable ex high i \<longleftrightarrow>
     i < length (ex_coroutines ex) \<and>
     (let co = ex_coroutines ex ! i in
      co_high_priority co = high \<and> \<not> co_done co \<and>
      (case co_waiting co of None \<Rightarrow> True | Some f \<Rightarrow> is_ready ex f))"

text \<open>What \<open>drive\<close> does after a coroutine has run.\<close>

definition after_resume :: "'u execution \<Rightarrow> nat \<Rightarrow> 'u execution \<times> pass_end" where
  "after_resume ex i =
     (let co = ex_coroutines ex ! i in
      case co_err co of
        Some e \<Rightarrow>
          if co_panic_fails co then (ex, Stop (Some e))
          else let ex' = fail_workflow ex e in
            (ex', if ex_terminal ex' then Stop None else Passed True)
      | None \<Rightarrow> (ex, if ex_terminal ex then Stop None else Passed True))"

text \<open>The inner loop: it ranges over the coroutines there are when it starts.\<close>

fun drive_pass :: "runtime \<Rightarrow> bool \<Rightarrow> nat list \<Rightarrow> 'u execution \<Rightarrow> bool \<Rightarrow> ('u execution \<times> pass_end) option"
where
  "drive_pass rt high [] ex progressed = Some (ex, Passed progressed)"
| "drive_pass rt high (i # is) ex progressed =
     (if \<not> runnable ex high i then drive_pass rt high is ex progressed
      else Option.bind (resume rt ex i) (\<lambda>ex1.
        case after_resume ex1 i of
          (ex2, Stop e) \<Rightarrow> Some (ex2, Stop e)
        | (ex2, Passed b) \<Rightarrow> drive_pass rt high is ex2 True))"

definition coroutine_ids :: "'u execution \<Rightarrow> nat list" where
  "coroutine_ids ex = [0..<length (ex_coroutines ex)]"

definition drive_round :: "runtime \<Rightarrow> 'u execution \<Rightarrow> ('u execution \<times> pass_end) option" where
  "drive_round rt ex =
     Option.bind (drive_pass rt True (coroutine_ids ex) ex False) (\<lambda>r.
       case r of
         (ex1, Stop e) \<Rightarrow> Some (ex1, Stop e)
       | (ex1, Passed p) \<Rightarrow> drive_pass rt False (coroutine_ids ex1) ex1 p)"

partial_function (option) drive_loop ::
    "runtime \<Rightarrow> 'u execution \<Rightarrow> ('u execution \<times> goerr option) option" where
  "drive_loop rt ex =
     Option.bind (drive_round rt ex) (\<lambda>r.
       case r of
         (ex1, Stop e) \<Rightarrow> Some (ex1, e)
       | (ex1, Passed p) \<Rightarrow> if p then drive_loop rt ex1 else Some (ex1, None))"

definition drive :: "runtime \<Rightarrow> 'u execution \<Rightarrow> ('u execution \<times> goerr option) option" where
  "drive rt ex = (if ex_terminal ex then Some (ex, None) else drive_loop rt ex)"

end
