(* ===== verification/Workflow_Activation.thy ===== *)
theory Workflow_Activation
  imports Workflow_Dispatch
begin

text \<open>
  Applying an activation to an execution (\<open>activate\<close>, \<open>tryApply\<close> and \<open>stop\<close> of \<open>worker.go\<close>,
  \<open>startUpdate\<close> of \<open>update.go\<close>, \<open>respondToQuery\<close> of \<open>query.go\<close>).
\<close>

section \<open>Queries\<close>

text \<open>\<open>executeQuerySafely\<close>: the handler runs outside every coroutine.\<close>

definition execute_query ::
    "runtime \<Rightarrow> 'u execution \<Rightarrow> query_job \<Rightarrow> ('u execution \<times> (goerr + payload option)) option" where
  "execute_query rt ex q =
     (case map_of (ex_queries ex) (qj_type q) of
        None \<Rightarrow> Some (ex, Inl (ErrNew (''query '' @ go_quote (qj_type q) @ '' is not registered'')))
      | Some f \<Rightarrow>
          map_option (\<lambda>(ex', r).
             (ex', case call_result rt f r of
                     Ok p \<Rightarrow> Inr p
                   | Err e \<Rightarrow> Inl e
                   | Panic m \<Rightarrow> Inl (panic_error rt (''query '' @ go_quote (qj_type q)) m)))
            (user_run rt ex (CStart f None (qj_arguments q))))"

definition respond_to_query :: "runtime \<Rightarrow> 'u execution \<Rightarrow> query_job \<Rightarrow> 'u execution option" where
  "respond_to_query rt ex q =
     map_option (\<lambda>(ex', r).
        emit ex' (RespondToQuery (qj_id q)
          (case r of
             Inl e \<Rightarrow> QueryFailed (new_failure e ''GoWasmQueryError'' [])
           | Inr p \<Rightarrow> QuerySucceeded p)))
       (execute_query rt ex q)"

fun respond_to_queries :: "runtime \<Rightarrow> 'u execution \<Rightarrow> query_job list \<Rightarrow> 'u execution option" where
  "respond_to_queries rt ex [] = Some ex"
| "respond_to_queries rt ex (q # qs) =
     Option.bind (respond_to_query rt ex q) (\<lambda>ex'. respond_to_queries rt ex' qs)"

section \<open>Updates\<close>

text \<open>\<open>validateUpdateSafely\<close>, with the validator run outside every coroutine: its error, if any.\<close>

definition validate_update ::
    "runtime \<Rightarrow> 'u execution \<Rightarrow> 'u registered_update \<Rightarrow> update_info \<Rightarrow> goval list \<Rightarrow>
     ('u execution \<times> goerr option) option" where
  "validate_update rt ex u info args =
     (case ru_validator u of
        None \<Rightarrow> Some (ex, None)
      | Some f \<Rightarrow>
          (case enter_function f (Some \<lparr>cx_coroutine = None, cx_info = Some info\<rparr>) args of
             Next c \<Rightarrow>
               map_option (\<lambda>(ex', r).
                  (ex', case call_result rt f r of
                          Ok p \<Rightarrow> None
                        | Err e \<Rightarrow> Some (ErrWrap (''validate update '' @ go_quote (ru_name u) @ '': '') e [])
                        | Panic m \<Rightarrow>
                            Some (panic_error rt (''update '' @ go_quote (ru_name u) @ '' validator'') m)))
                 (user_run rt ex c)
           | _ \<Rightarrow>
               Some (ex, Some (panic_error rt (''update '' @ go_quote (ru_name u) @ '' validator'')
                                 nil_pointer))))"

definition accept_update ::
    "'u execution \<Rightarrow> 'u registered_update \<Rightarrow> update_job \<Rightarrow> goval list \<Rightarrow> 'u execution" where
  "accept_update ex u up args =
     add_coroutine (emit ex (update_accepted (uj_protocol_instance_id up)))
       (''update:'' @ uj_name up @ '':'' @ uj_id up)
       (Some \<lparr>ui_id = uj_id up, ui_name = uj_name up\<rparr>)
       (FUpdate (uj_protocol_instance_id up) (ru_handler u))
       (\<lambda>cx. case enter_function (ru_handler u) (Some cx) args of
               Next c \<Rightarrow> c | _ \<Rightarrow> CRun (PPanic nil_pointer))"

definition start_update :: "runtime \<Rightarrow> 'u execution \<Rightarrow> update_job \<Rightarrow> 'u execution option" where
  "start_update rt ex up =
     (case map_of (ex_updates ex) (uj_name up) of
        None \<Rightarrow>
          Some (emit ex (update_rejected (uj_protocol_instance_id up)
                 (ErrNew (''update '' @ go_quote (uj_name up) @ '' is not registered''))))
      | Some u \<Rightarrow>
          (case decode_input (rt_converter rt) (ru_handler u) (uj_input up) of
             Inl e \<Rightarrow> Some (emit ex (update_rejected (uj_protocol_instance_id up) e))
           | Inr args \<Rightarrow>
               if uj_run_validator up \<and> ru_validator u \<noteq> None
               then map_option (\<lambda>(ex', r).
                      case r of
                        Some e \<Rightarrow> emit ex' (update_rejected (uj_protocol_instance_id up) e)
                      | None \<Rightarrow> accept_update ex' u up args)
                    (validate_update rt ex u \<lparr>ui_id = uj_id up, ui_name = uj_name up\<rparr> args)
               else Some (accept_update ex u up args)))"

fun start_updates :: "runtime \<Rightarrow> 'u execution \<Rightarrow> update_job list \<Rightarrow> 'u execution option" where
  "start_updates rt ex [] = Some ex"
| "start_updates rt ex (up # ups) =
     Option.bind (start_update rt ex up) (\<lambda>ex'. start_updates rt ex' ups)"

section \<open>Resolutions\<close>

definition activity_resolution :: "resolution_status option option \<Rightarrow> goval \<times> goerr option" where
  "activity_resolution r = (case r of
     None \<Rightarrow> (VPayload None, Some (ErrNew ''activity resolution is missing a result''))
   | Some None \<Rightarrow> (VPayload None, Some (ErrNew ''activity resolution has no status''))
   | Some (Some (ResCompleted p)) \<Rightarrow> (VPayload p, None)
   | Some (Some (ResFailed f)) \<Rightarrow>
       (VPayload None, Some (ErrNew (''activity failed: '' @ failure_message f)))
   | Some (Some (ResCancelled f)) \<Rightarrow>
       (VPayload None, Some (ErrNew (''activity cancelled: '' @ failure_message f)))
   | Some (Some ResBackoff) \<Rightarrow>
       (VPayload None, Some (ErrNew ''local-activity backoff is not supported'')))"

definition child_resolution :: "resolution_status option option \<Rightarrow> goval \<times> goerr option" where
  "child_resolution r = (case r of
     None \<Rightarrow> (VPayload None, Some (ErrNew ''child workflow resolution is missing a result''))
   | Some (Some (ResCompleted p)) \<Rightarrow> (VPayload p, None)
   | Some (Some (ResFailed f)) \<Rightarrow>
       (VPayload None, Some (ErrNew (''child workflow failed: '' @ failure_message f)))
   | Some (Some (ResCancelled f)) \<Rightarrow>
       (VPayload None, Some (ErrNew (''child workflow cancelled: '' @ failure_message f)))
   | _ \<Rightarrow> (VPayload None, Some (ErrNew ''child workflow resolution has no status'')))"

text \<open>How \<open>tryApply\<close> ends: matched or not, an error, or a panic.\<close>

datatype applied = Matched | NotMatched | ApplyError goerr | ApplyPanic string

definition delete_operation :: "'u execution \<Rightarrow> 32 word \<Rightarrow> 'u execution" where
  "delete_operation ex seq = ex\<lparr>ex_operations := AList.delete seq (ex_operations ex)\<rparr>"

text \<open>\<open>set\<close> followed by \<open>delete\<close> and \<open>return true, nil\<close>; a panic skips what follows.\<close>

definition resolve_operation ::
    "'u execution \<Rightarrow> 32 word \<Rightarrow> fid \<Rightarrow> goval \<Rightarrow> goerr option \<Rightarrow> 'u execution \<times> applied" where
  "resolve_operation ex seq f v e = (case set_future ex f v e of
     (ex', Some m) \<Rightarrow> (ex', ApplyPanic m)
   | (ex', None) \<Rightarrow> (delete_operation ex' seq, Matched))"

definition apply_fire_timer :: "'u execution \<Rightarrow> 32 word \<Rightarrow> 'u execution \<times> applied" where
  "apply_fire_timer ex seq = (case map_of (ex_operations ex) seq of
     None \<Rightarrow> (ex, NotMatched)
   | Some op \<Rightarrow>
       if op_kind op \<noteq> OpTimer
       then (ex, ApplyError (ErrNew (''FireTimer sequence '' @ show_seq seq @
                   '' targets a non-timer operation'')))
       else resolve_operation ex seq (op_result op) VNil None)"

definition apply_resolve_activity ::
    "'u execution \<Rightarrow> 32 word \<Rightarrow> bool \<Rightarrow> resolution_status option option \<Rightarrow> 'u execution \<times> applied" where
  "apply_resolve_activity ex seq is_local r = (case map_of (ex_operations ex) seq of
     None \<Rightarrow> (ex, NotMatched)
   | Some op \<Rightarrow>
       if op_kind op \<noteq> (if is_local then OpLocalActivity else OpActivity)
       then (ex, ApplyError (ErrNew (''ResolveActivity sequence '' @ show_seq seq @
                   '' has unexpected local status'')))
       else case activity_resolution r of (v, e) \<Rightarrow> resolve_operation ex seq (op_result op) v e)"

definition child_start_error :: "operation \<Rightarrow> child_start_status option \<Rightarrow> goerr + goerr" where
  "child_start_error op status = (case status of
     Some (StartFailed workflow_id workflow_type cause) \<Rightarrow>
       Inr (ErrNew (''child workflow '' @ go_quote workflow_id @ '' ('' @ go_quote workflow_type @
              '') failed to start: '' @ cause))
   | Some (StartCancelled f) \<Rightarrow>
       Inr (ErrNew (''child workflow '' @ go_quote (op_workflow_id op) @ '' start cancelled: '' @
              failure_message f))
   | _ \<Rightarrow>
       Inl (ErrNew (''child workflow '' @ go_quote (op_workflow_id op) @
              '' start resolution has no status'')))"

definition apply_child_start ::
    "'u execution \<Rightarrow> 32 word \<Rightarrow> child_start_status option \<Rightarrow> 'u execution \<times> applied" where
  "apply_child_start ex seq status = (case map_of (ex_operations ex) seq of
     None \<Rightarrow> (ex, NotMatched)
   | Some op \<Rightarrow>
       if op_kind op \<noteq> OpChild
       then (ex, ApplyError (ErrNew (''child start sequence '' @ show_seq seq @
                   '' targets a non-child operation'')))
       else (case op_started op of
         None \<Rightarrow> (ex, ApplyPanic nil_pointer)
       | Some started \<Rightarrow>
           (case status of
              Some (StartSucceeded run_id) \<Rightarrow>
                (case set_future ex started (VExecution (op_workflow_id op) run_id) None of
                   (ex', Some m) \<Rightarrow> (ex', ApplyPanic m)
                 | (ex', None) \<Rightarrow> (ex', Matched))
            | _ \<Rightarrow>
                (case child_start_error op status of
                   Inl e \<Rightarrow> (ex, ApplyError e)
                 | Inr e \<Rightarrow>
                     (case set_future ex started VNil (Some e) of
                        (ex', Some m) \<Rightarrow> (ex', ApplyPanic m)
                      | (ex', None) \<Rightarrow> resolve_operation ex' seq (op_result op) VNil (Some e))))))"

definition started_ok :: "'u execution \<Rightarrow> operation \<Rightarrow> bool" where
  "started_ok ex op \<longleftrightarrow> (case op_started op of
     None \<Rightarrow> False
   | Some s \<Rightarrow> is_ready ex s \<and> fu_err (ex_futures ex ! s) = None)"

definition apply_child_result ::
    "'u execution \<Rightarrow> 32 word \<Rightarrow> resolution_status option option \<Rightarrow> 'u execution \<times> applied" where
  "apply_child_result ex seq r = (case map_of (ex_operations ex) seq of
     None \<Rightarrow> (ex, NotMatched)
   | Some op \<Rightarrow>
       if op_kind op \<noteq> OpChild
       then (ex, ApplyError (ErrNew (''child completion sequence '' @ show_seq seq @
                   '' targets a non-child operation'')))
       else if \<not> started_ok ex op
       then (ex, ApplyError (ErrNew (''child workflow '' @ go_quote (op_workflow_id op) @
                   '' completed before its start resolved'')))
       else case child_resolution r of (v, e) \<Rightarrow> resolve_operation ex seq (op_result op) v e)"

text \<open>\<open>%T\<close> of the job's variant.\<close>

fun variant_name :: "job \<Rightarrow> string" where
  "variant_name (InitializeWorkflow t a) =
     ''*workflowactivation.WorkflowActivationJob_InitializeWorkflow''"
| "variant_name RemoveFromCache = ''*workflowactivation.WorkflowActivationJob_RemoveFromCache''"
| "variant_name (SignalWorkflow n i) = ''*workflowactivation.WorkflowActivationJob_SignalWorkflow''"
| "variant_name (QueryWorkflow q) = ''*workflowactivation.WorkflowActivationJob_QueryWorkflow''"
| "variant_name (DoUpdate u) = ''*workflowactivation.WorkflowActivationJob_DoUpdate''"
| "variant_name (FireTimer s) = ''*workflowactivation.WorkflowActivationJob_FireTimer''"
| "variant_name (ResolveActivity s l r) = ''*workflowactivation.WorkflowActivationJob_ResolveActivity''"
| "variant_name (ResolveChildStart s r) =
     ''*workflowactivation.WorkflowActivationJob_ResolveChildWorkflowExecutionStart''"
| "variant_name (ResolveChild s r) =
     ''*workflowactivation.WorkflowActivationJob_ResolveChildWorkflowExecution''"
| "variant_name (OtherJob t) = t"

fun try_apply :: "'u execution \<Rightarrow> job \<Rightarrow> 'u execution \<times> applied" where
  "try_apply ex (InitializeWorkflow t a) =
     (ex, ApplyError (ErrNew ''InitializeWorkflow must be the first job in an activation''))"
| "try_apply ex RemoveFromCache =
     (ex, ApplyError (ErrNew ''RemoveFromCache must be the only job in an activation''))"
| "try_apply ex (FireTimer seq) = apply_fire_timer ex seq"
| "try_apply ex (ResolveActivity seq is_local r) = apply_resolve_activity ex seq is_local r"
| "try_apply ex (ResolveChildStart seq status) = apply_child_start ex seq status"
| "try_apply ex (ResolveChild seq r) = apply_child_result ex seq r"
| "try_apply ex j =
     (ex, ApplyError (ErrNew (''workflow activation job '' @ variant_name j @
            '' is not supported by the workflow runtime'')))"

section \<open>Activation\<close>

text \<open>
  How an activation ends: with commands, an error, or a panic (an operation's future already set)
  that unwinds out of \<open>activate\<close>.
\<close>

datatype activation_end = Commands "command list" | ActivateError goerr | ActivatePanic string

text \<open>
  The classifying loop: signals are delivered at once, queries and updates set aside; the rest is
  pending.
\<close>

fun classify :: "'u execution \<Rightarrow> job list \<Rightarrow>
    'u execution \<times> string option \<times> job list \<times> query_job list \<times> update_job list" where
  "classify ex [] = (ex, None, [], [], [])"
| "classify ex (j # js) =
     (case j of
        SignalWorkflow name input \<Rightarrow>
          (case deliver ex name input of
             (ex', Some m) \<Rightarrow> (ex', Some m, [], [], [])
           | (ex', None) \<Rightarrow> classify ex' js)
      | QueryWorkflow q \<Rightarrow>
          (case classify ex js of (ex', p, pending, qs, us) \<Rightarrow> (ex', p, pending, q # qs, us))
      | DoUpdate u \<Rightarrow>
          (case classify ex js of (ex', p, pending, qs, us) \<Rightarrow> (ex', p, pending, qs, u # us))
      | _ \<Rightarrow>
          (case classify ex js of (ex', p, pending, qs, us) \<Rightarrow> (ex', p, j # pending, qs, us)))"

text \<open>One sweep over the pending jobs: what remains and whether one applied, or how it failed.\<close>

datatype sweep_end = Swept "job list" bool | SweepEnd activation_end

fun sweep :: "'u execution \<Rightarrow> job list \<Rightarrow> 'u execution \<times> sweep_end" where
  "sweep ex [] = (ex, Swept [] False)"
| "sweep ex (j # js) =
     (case try_apply ex j of
        (ex', ApplyError e) \<Rightarrow> (ex', SweepEnd (ActivateError e))
      | (ex', ApplyPanic m) \<Rightarrow> (ex', SweepEnd (ActivatePanic m))
      | (ex', Matched) \<Rightarrow>
          (case sweep ex' js of
             (ex2, Swept remaining applied) \<Rightarrow> (ex2, Swept remaining True)
           | r \<Rightarrow> r)
      | (ex', NotMatched) \<Rightarrow>
          (case sweep ex' js of
             (ex2, Swept remaining applied) \<Rightarrow> (ex2, Swept (j # remaining) applied)
           | r \<Rightarrow> r))"

definition unmatched_error :: "job list \<Rightarrow> goerr" where
  "unmatched_error pending =
     ErrNew (''workflow activation job '' @ variant_name (hd pending) @
             '' does not match an outstanding operation'')"

definition no_progress :: "'u execution \<Rightarrow> 'u execution \<Rightarrow> bool" where
  "no_progress before after \<longleftrightarrow>
     ex_next_seq before = ex_next_seq after \<and>
     length (ex_operations before) = length (ex_operations after)"

text \<open>The loop over \<open>pending\<close>; \<open>None\<close> as the end means it is empty.\<close>

partial_function (option) apply_pending ::
    "runtime \<Rightarrow> 'u execution \<Rightarrow> job list \<Rightarrow> ('u execution \<times> activation_end option) option" where
  "apply_pending rt ex pending =
     (if pending = [] then Some (ex, None)
      else case sweep ex pending of
        (ex1, SweepEnd e) \<Rightarrow> Some (ex1, Some e)
      | (ex1, Swept remaining applied) \<Rightarrow>
          if remaining = [] then Some (ex1, None)
          else Option.bind (drive rt ex1) (\<lambda>r.
            case r of
              (ex2, Some e) \<Rightarrow> Some (ex2, Some (ActivateError e))
            | (ex2, None) \<Rightarrow>
                if \<not> applied \<and> no_progress ex1 ex2
                then Some (ex2, Some (ActivateError (unmatched_error remaining)))
                else apply_pending rt ex2 remaining))"

definition bootstrap :: "runtime \<Rightarrow> 'u execution \<Rightarrow> ('u execution \<times> goerr option) option" where
  "bootstrap rt ex =
     (if ex_bootstrapped ex then Some (ex, None)
      else map_option (\<lambda>(ex1, e). (if e = None then ex1\<lparr>ex_bootstrapped := True\<rparr> else ex1, e))
             (drive rt ex))"

definition take_commands :: "'u execution \<Rightarrow> 'u execution \<times> activation_end" where
  "take_commands ex = (ex\<lparr>ex_commands := []\<rparr>, Commands (ex_commands ex))"

text \<open>From the last \<open>drive\<close> of \<open>activate\<close> on.\<close>

definition finish_activation ::
    "runtime \<Rightarrow> 'u execution \<Rightarrow> query_job list \<Rightarrow> ('u execution \<times> activation_end) option" where
  "finish_activation rt ex queries =
     Option.bind (drive rt ex) (\<lambda>r.
       case r of
         (ex1, Some e) \<Rightarrow> Some (ex1, ActivateError e)
       | (ex1, None) \<Rightarrow> map_option take_commands (respond_to_queries rt ex1 queries))"

definition activate ::
    "runtime \<Rightarrow> 'u execution \<Rightarrow> job list \<Rightarrow> ('u execution \<times> activation_end) option" where
  "activate rt ex jobs =
     (if ex_stopped ex
      then Some (ex, ActivateError (ErrNew ''workflow execution is stopped''))
      else if \<not> ex_started ex
      then Some (ex, ActivateError (ErrNew ''workflow execution was not initialized''))
      else case classify ex jobs of
        (ex1, Some m, pending, queries, updates) \<Rightarrow> Some (ex1, ActivatePanic m)
      | (ex1, None, pending, queries, updates) \<Rightarrow>
          Option.bind (bootstrap rt ex1) (\<lambda>b.
            case b of
              (ex2, Some e) \<Rightarrow> Some (ex2, ActivateError e)
            | (ex2, None) \<Rightarrow>
                Option.bind (start_updates rt ex2 updates) (\<lambda>ex3.
                Option.bind (apply_pending rt ex3 pending) (\<lambda>a.
                  case a of
                    (ex4, Some e) \<Rightarrow> Some (ex4, e)
                  | (ex4, None) \<Rightarrow> finish_activation rt ex4 queries))))"

section \<open>Eviction\<close>

text \<open>
  \<open>stopPull\<close> of a suspended coroutine: its \<open>yield\<close> returns false, so the call it blocks in returns
  an error, and it runs to its end with no coroutine current. One that has not begun never runs.
\<close>

fun evict_cont :: "'u execution \<Rightarrow> 'u cont \<Rightarrow> 'u execution \<times> 'u cont" where
  "evict_cont ex (CGet c f target k) = (ex, CRun (k (stored_err evicted_error)))"
| "evict_cont ex (CReceive c name w target k) =
     (remove_waiter ex name w, CRun (k (stored_err evicted_error)))"
| "evict_cont ex c = (ex, c)"

definition stop_coroutine :: "runtime \<Rightarrow> 'u execution \<Rightarrow> nat \<Rightarrow> 'u execution option" where
  "stop_coroutine rt ex i =
     (let co = ex_coroutines ex ! i in
      if co_done co \<or> \<not> co_begun co then Some ex
      else case evict_cont ex (co_cont co) of
        (ex1, c) \<Rightarrow>
          map_option (\<lambda>(ex2, r). settle_coroutine rt ex2 i (co_frame co) r) (user_run rt ex1 c))"

fun stop_coroutines :: "runtime \<Rightarrow> nat list \<Rightarrow> 'u execution \<Rightarrow> 'u execution option" where
  "stop_coroutines rt [] ex = Some ex"
| "stop_coroutines rt (i # is) ex =
     Option.bind (stop_coroutine rt ex i) (\<lambda>ex'. stop_coroutines rt is ex')"

definition stop :: "runtime \<Rightarrow> 'u execution \<Rightarrow> 'u execution option" where
  "stop rt ex =
     (if ex_stopped ex then Some ex
      else stop_coroutines rt (coroutine_ids ex) (ex\<lparr>ex_stopped := True\<rparr>))"

end
