(* ===== verification/Workflow_Frames.thy ===== *)
theory Workflow_Frames
  imports Workflow_Activation
begin

text \<open>
  The primitive changes the operations of an execution are made of, the operations as compositions
  of them, and which fields each change leaves alone.
\<close>

section \<open>Sequence numbers and kinds of commands\<close>

fun command_seq :: "command \<Rightarrow> 32 word option" where
  "command_seq (StartTimer s d) = Some s"
| "command_seq (ScheduleActivity s a) = Some s"
| "command_seq (ScheduleLocalActivity s a) = Some s"
| "command_seq (StartChildWorkflow s a) = Some s"
| "command_seq _ = None"

fun command_kind :: "command \<Rightarrow> operation_kind option" where
  "command_kind (StartTimer s d) = Some OpTimer"
| "command_kind (ScheduleActivity s a) = Some OpActivity"
| "command_kind (ScheduleLocalActivity s a) = Some OpLocalActivity"
| "command_kind (StartChildWorkflow s a) = Some OpChild"
| "command_kind _ = None"

fun is_terminal :: "command \<Rightarrow> bool" where
  "is_terminal (CompleteWorkflow p) = True"
| "is_terminal (FailWorkflow f) = True"
| "is_terminal _ = False"

lemma command_kind_not_terminal: "command_kind c = Some k \<Longrightarrow> \<not> is_terminal c"
  by (cases c) auto

lemma command_seq_kind: "command_seq c = None \<longleftrightarrow> command_kind c = None"
  by (cases c) auto

section \<open>The primitive changes of user code\<close>

text \<open>Allocating a number, registering its operation and emitting its command.\<close>

definition schedule ::
    "'u execution \<Rightarrow> operation_kind \<Rightarrow> fid \<Rightarrow> fid option \<Rightarrow> string \<Rightarrow> command \<Rightarrow> 'u execution" where
  "schedule ex kind f started workflow_id c =
     emit (register_operation (snd (next_seq ex)) (ex_next_seq ex + 1) kind f started workflow_id) c"

definition schedulable ::
    "'u execution \<Rightarrow> operation_kind \<Rightarrow> fid \<Rightarrow> fid option \<Rightarrow> command \<Rightarrow> bool" where
  "schedulable ex kind f started c \<longleftrightarrow>
     command_seq c = Some (ex_next_seq ex + 1) \<and> command_kind c = Some kind \<and>
     f < length (ex_futures ex) \<and> \<not> fu_ready (ex_futures ex ! f) \<and>
     (case started of
        None \<Rightarrow> kind \<noteq> OpChild
      | Some s \<Rightarrow> kind = OpChild \<and> s < length (ex_futures ex) \<and> \<not> fu_ready (ex_futures ex ! s) \<and> s \<noteq> f)"

definition append_chained :: "'u execution \<Rightarrow> fid \<Rightarrow> fid \<Rightarrow> 'u execution" where
  "append_chained ex g f =
     ex\<lparr>ex_futures := (ex_futures ex)[g := (ex_futures ex ! g)
          \<lparr>fu_chained := fu_chained (ex_futures ex ! g) @ [f]\<rparr>]\<rparr>"

definition add_waiter :: "'u execution \<Rightarrow> string \<Rightarrow> channel \<Rightarrow> 'u execution" where
  "add_waiter ex name ch =
     put_channel (snd (new_future ex)) name (ch\<lparr>sch_waiters := sch_waiters ch @ [fst (new_future ex)]\<rparr>)"

lemma take_signal_None: "take_signal ch = None \<longleftrightarrow> sch_buffer ch = []"
  by (auto simp: take_signal_def split: list.splits)

lemma snd_next_seq: "snd (next_seq ex) = ex\<lparr>ex_next_seq := ex_next_seq ex + 1\<rparr>"
  by (simp add: next_seq_def)

lemma new_future_fst [simp]: "fst (new_future ex) = length (ex_futures ex)"
  by (simp add: new_future_def)

lemma ready_future_eq:
  "ready_future ex v e = (fst (new_future ex),
     fst (set_future (snd (new_future ex)) (fst (new_future ex)) v e))"
  by (simp add: ready_future_def new_future_def)

text \<open>The operations that schedule are a fresh future followed by \<open>schedule\<close>.\<close>

lemma next_seq_futures:
  "ex\<lparr>ex_next_seq := n, ex_futures := fs\<rparr> = ex\<lparr>ex_futures := fs, ex_next_seq := n\<rparr>"
  by simp

lemma new_timer_cases:
  assumes "new_timer ex d = (f, ex')"
  shows "(\<exists>e. ex' = snd (ready_future ex VNil e)) \<or>
    (\<exists>c. schedulable (snd (new_future ex)) OpTimer f None c \<and>
       ex' = schedule (snd (new_future ex)) OpTimer f None [] c)"
proof (cases "d < 0")
  case True
  with assms show ?thesis by (auto simp: new_timer_def ready_future_eq)
next
  case False
  with assms have "schedulable (snd (new_future ex)) OpTimer f None (StartTimer (ex_next_seq ex + 1) d)"
    "ex' = schedule (snd (new_future ex)) OpTimer f None [] (StartTimer (ex_next_seq ex + 1) d)"
    by (auto simp: new_timer_def next_seq_def new_future_def schedule_def schedulable_def
        register_operation_def emit_def)
  then show ?thesis by blast
qed

lemma execute_activity_cases:
  assumes "execute_activity rt ex opts args = Inr (f, ex')"
  shows "(\<exists>e. ex' = snd (ready_future ex VNil e)) \<or>
    (\<exists>c. schedulable (snd (new_future ex)) OpActivity f None c \<and>
       ex' = schedule (snd (new_future ex)) OpActivity f None [] c)"
proof (cases "\<exists>e. ready_future ex VNil e = (f, ex')")
  case True
  then show ?thesis by (metis snd_conv)
next
  case False
  with assms obtain a where
    f: "f = fst (new_future ex)" and ex': "ex' = schedule (snd (new_future ex)) OpActivity f None []
       (ScheduleActivity (ex_next_seq ex + 1) a)"
    by (auto simp: execute_activity_def next_seq_def new_future_def schedule_def next_seq_futures
        split: if_splits gores.splits)
  from f have "schedulable (snd (new_future ex)) OpActivity f None (ScheduleActivity (ex_next_seq ex + 1) a)"
    by (simp add: schedulable_def new_future_def)
  with ex' show ?thesis by blast
qed

lemma execute_local_activity_cases:
  assumes "execute_local_activity rt ex opts args = Inr (f, ex')"
  shows "(\<exists>e. ex' = snd (ready_future ex VNil e)) \<or>
    (\<exists>c. schedulable (snd (new_future ex)) OpLocalActivity f None c \<and>
       ex' = schedule (snd (new_future ex)) OpLocalActivity f None [] c)"
proof (cases "\<exists>e. ready_future ex VNil e = (f, ex')")
  case True
  then show ?thesis by (metis snd_conv)
next
  case False
  with assms obtain a where
    f: "f = fst (new_future ex)" and ex': "ex' = schedule (snd (new_future ex)) OpLocalActivity f None []
       (ScheduleLocalActivity (ex_next_seq ex + 1) a)"
    by (auto simp: execute_local_activity_def next_seq_def new_future_def schedule_def
        next_seq_futures split: if_splits gores.splits)
  from f have "schedulable (snd (new_future ex)) OpLocalActivity f None (ScheduleLocalActivity (ex_next_seq ex + 1) a)"
    by (simp add: schedulable_def new_future_def)
  with ex' show ?thesis by blast
qed

lemma execute_child_cases:
  assumes "execute_child rt ex opts args = Inr (f, s, ex')"
  defines "ex2 \<equiv> snd (new_future (snd (new_future ex)))"
  shows "(\<exists>e. ex' = fail_child ex2 f s e) \<or>
    (\<exists>c w. schedulable ex2 OpChild f (Some s) c \<and> ex' = schedule ex2 OpChild f (Some s) w c)"
proof (cases "\<exists>e. ex' = fail_child ex2 f s e")
  case False
  with assms(1) obtain a w where
    fs: "f = length (ex_futures ex)" "s = Suc (length (ex_futures ex))"
    and ex': "ex' = schedule ex2 OpChild f (Some s) w (StartChildWorkflow (ex_next_seq ex + 1) a)"
    by (auto simp: ex2_def execute_child_def next_seq_def new_future_def schedule_def Let_def
        split: if_splits gores.splits option.splits)
  have "schedulable ex2 OpChild f (Some s) (StartChildWorkflow (ex_next_seq ex + 1) a)"
    by (auto simp: fs ex2_def schedulable_def new_future_def nth_append)
  with ex' show ?thesis by blast
qed simp

definition begin_coroutine :: "'u execution \<Rightarrow> nat \<Rightarrow> 'u execution" where
  "begin_coroutine ex i =
     (update_coroutine ex i (\<lambda>co. co\<lparr>co_waiting := None, co_begun := True\<rparr>))\<lparr>ex_current := Some i\<rparr>"

section \<open>Frames\<close>

text \<open>The fields an operation leaves alone.\<close>

lemma set_future_simps [simp]:
  "ex_commands (fst (set_future ex f v e)) = ex_commands ex"
  "ex_next_seq (fst (set_future ex f v e)) = ex_next_seq ex"
  "ex_operations (fst (set_future ex f v e)) = ex_operations ex"
  "ex_channels (fst (set_future ex f v e)) = ex_channels ex"
  "ex_coroutines (fst (set_future ex f v e)) = ex_coroutines ex"
  "ex_terminal (fst (set_future ex f v e)) = ex_terminal ex"
  "ex_current (fst (set_future ex f v e)) = ex_current ex"
  by (simp_all add: set_future_def split: prod.splits)

lemma new_future_simps [simp]:
  "ex_commands (snd (new_future ex)) = ex_commands ex"
  "ex_next_seq (snd (new_future ex)) = ex_next_seq ex"
  "ex_operations (snd (new_future ex)) = ex_operations ex"
  "ex_channels (snd (new_future ex)) = ex_channels ex"
  "ex_coroutines (snd (new_future ex)) = ex_coroutines ex"
  "ex_terminal (snd (new_future ex)) = ex_terminal ex"
  "ex_current (snd (new_future ex)) = ex_current ex"
  "ex_futures (snd (new_future ex)) =
     ex_futures ex @ [\<lparr>fu_ready = False, fu_value = VNil, fu_err = None, fu_chained = []\<rparr>]"
  by (simp_all add: new_future_def)

lemma set_waiting_simps [simp]:
  "ex_commands (set_waiting ex f) = ex_commands ex"
  "ex_next_seq (set_waiting ex f) = ex_next_seq ex"
  "ex_operations (set_waiting ex f) = ex_operations ex"
  "ex_channels (set_waiting ex f) = ex_channels ex"
  "ex_futures (set_waiting ex f) = ex_futures ex"
  "ex_terminal (set_waiting ex f) = ex_terminal ex"
  "ex_current (set_waiting ex f) = ex_current ex"
  "length (ex_coroutines (set_waiting ex f)) = length (ex_coroutines ex)"
  by (simp_all add: set_waiting_def update_coroutine_def split: option.splits)

lemma update_coroutine_simps [simp]:
  "ex_commands (update_coroutine ex i g) = ex_commands ex"
  "ex_next_seq (update_coroutine ex i g) = ex_next_seq ex"
  "ex_operations (update_coroutine ex i g) = ex_operations ex"
  "ex_channels (update_coroutine ex i g) = ex_channels ex"
  "ex_futures (update_coroutine ex i g) = ex_futures ex"
  "ex_terminal (update_coroutine ex i g) = ex_terminal ex"
  "ex_current (update_coroutine ex i g) = ex_current ex"
  "length (ex_coroutines (update_coroutine ex i g)) = length (ex_coroutines ex)"
  by (simp_all add: update_coroutine_def)

lemma emit_simps [simp]:
  "ex_commands (emit ex c) = ex_commands ex @ [c]"
  "ex_next_seq (emit ex c) = ex_next_seq ex"
  "ex_operations (emit ex c) = ex_operations ex"
  "ex_channels (emit ex c) = ex_channels ex"
  "ex_futures (emit ex c) = ex_futures ex"
  "ex_terminal (emit ex c) = ex_terminal ex"
  "ex_current (emit ex c) = ex_current ex"
  "ex_coroutines (emit ex c) = ex_coroutines ex"
  by (simp_all add: emit_def)

lemma add_coroutine_simps [simp]:
  "ex_commands (add_coroutine ex name info frame body) = ex_commands ex"
  "ex_next_seq (add_coroutine ex name info frame body) = ex_next_seq ex"
  "ex_operations (add_coroutine ex name info frame body) = ex_operations ex"
  "ex_channels (add_coroutine ex name info frame body) = ex_channels ex"
  "ex_futures (add_coroutine ex name info frame body) = ex_futures ex"
  "ex_terminal (add_coroutine ex name info frame body) = ex_terminal ex"
  "ex_current (add_coroutine ex name info frame body) = ex_current ex"
  by (simp_all add: add_coroutine_def)

lemma put_channel_simps [simp]:
  "ex_commands (put_channel ex name ch) = ex_commands ex"
  "ex_next_seq (put_channel ex name ch) = ex_next_seq ex"
  "ex_operations (put_channel ex name ch) = ex_operations ex"
  "ex_channels (put_channel ex name ch) = AList.update name ch (ex_channels ex)"
  "ex_futures (put_channel ex name ch) = ex_futures ex"
  "ex_terminal (put_channel ex name ch) = ex_terminal ex"
  "ex_current (put_channel ex name ch) = ex_current ex"
  "ex_coroutines (put_channel ex name ch) = ex_coroutines ex"
  by (simp_all add: put_channel_def)

lemma ensure_channel_simps [simp]:
  "ex_commands (ensure_channel ex name) = ex_commands ex"
  "ex_next_seq (ensure_channel ex name) = ex_next_seq ex"
  "ex_operations (ensure_channel ex name) = ex_operations ex"
  "ex_futures (ensure_channel ex name) = ex_futures ex"
  "ex_terminal (ensure_channel ex name) = ex_terminal ex"
  "ex_current (ensure_channel ex name) = ex_current ex"
  "ex_coroutines (ensure_channel ex name) = ex_coroutines ex"
  by (simp_all add: ensure_channel_def split: option.splits)

lemma remove_waiter_simps [simp]:
  "ex_commands (remove_waiter ex name w) = ex_commands ex"
  "ex_next_seq (remove_waiter ex name w) = ex_next_seq ex"
  "ex_operations (remove_waiter ex name w) = ex_operations ex"
  "ex_futures (remove_waiter ex name w) = ex_futures ex"
  "ex_terminal (remove_waiter ex name w) = ex_terminal ex"
  "ex_current (remove_waiter ex name w) = ex_current ex"
  "ex_coroutines (remove_waiter ex name w) = ex_coroutines ex"
  by (simp_all add: remove_waiter_def split: option.splits)

lemma delete_operation_simps [simp]:
  "ex_commands (delete_operation ex seq) = ex_commands ex"
  "ex_next_seq (delete_operation ex seq) = ex_next_seq ex"
  "ex_operations (delete_operation ex seq) = AList.delete seq (ex_operations ex)"
  "ex_channels (delete_operation ex seq) = ex_channels ex"
  "ex_futures (delete_operation ex seq) = ex_futures ex"
  "ex_terminal (delete_operation ex seq) = ex_terminal ex"
  by (simp_all add: delete_operation_def)

lemma schedule_simps [simp]:
  "ex_commands (schedule ex kind f s w c) = ex_commands ex @ [c]"
  "ex_next_seq (schedule ex kind f s w c) = ex_next_seq ex + 1"
  "ex_operations (schedule ex kind f s w c) = AList.update (ex_next_seq ex + 1)
     \<lparr>op_kind = kind, op_result = f, op_started = s, op_workflow_id = w\<rparr> (ex_operations ex)"
  "ex_channels (schedule ex kind f s w c) = ex_channels ex"
  "ex_futures (schedule ex kind f s w c) = ex_futures ex"
  "ex_terminal (schedule ex kind f s w c) = ex_terminal ex"
  "ex_current (schedule ex kind f s w c) = ex_current ex"
  "ex_coroutines (schedule ex kind f s w c) = ex_coroutines ex"
  by (simp_all add: schedule_def next_seq_def register_operation_def)

lemma append_chained_simps [simp]:
  "ex_commands (append_chained ex g f) = ex_commands ex"
  "ex_next_seq (append_chained ex g f) = ex_next_seq ex"
  "ex_operations (append_chained ex g f) = ex_operations ex"
  "ex_channels (append_chained ex g f) = ex_channels ex"
  "ex_terminal (append_chained ex g f) = ex_terminal ex"
  "ex_current (append_chained ex g f) = ex_current ex"
  "ex_coroutines (append_chained ex g f) = ex_coroutines ex"
  by (simp_all add: append_chained_def)

lemma add_waiter_simps [simp]:
  "ex_commands (add_waiter ex name ch) = ex_commands ex"
  "ex_next_seq (add_waiter ex name ch) = ex_next_seq ex"
  "ex_operations (add_waiter ex name ch) = ex_operations ex"
  "ex_terminal (add_waiter ex name ch) = ex_terminal ex"
  "ex_current (add_waiter ex name ch) = ex_current ex"
  "ex_coroutines (add_waiter ex name ch) = ex_coroutines ex"
  "ex_futures (add_waiter ex name ch) = ex_futures (snd (new_future ex))"
  by (simp_all add: add_waiter_def)

text \<open>Delivering a signal completes a waiter or changes the channels only.\<close>

lemma deliver_cases:
  obtains (waiter) w ws ch where "map_of (ex_channels (ensure_channel ex name)) name = Some ch"
      "pop_waiter (ensure_channel ex name) (sch_waiters ch) = (Some w, ws)"
      "fst (deliver ex name input) =
         fst (set_future (put_channel (ensure_channel ex name) name (ch\<lparr>sch_waiters := ws\<rparr>)) w
                (VPayloads input) None)"
  | (buffered) ws ch where "map_of (ex_channels (ensure_channel ex name)) name = Some ch"
      "pop_waiter (ensure_channel ex name) (sch_waiters ch) = (None, ws)"
      "fst (deliver ex name input) = put_channel (ensure_channel ex name) name
         (ch\<lparr>sch_waiters := ws, sch_buffer := sch_buffer ch @ [input]\<rparr>)"
proof -
  obtain ch where ch: "map_of (ex_channels (ensure_channel ex name)) name = Some ch"
    by (cases "map_of (ex_channels ex) name") (auto simp: ensure_channel_def)
  obtain w ws where "pop_waiter (ensure_channel ex name) (sch_waiters ch) = (w, ws)" by force
  with ch that show ?thesis by (cases w) (auto simp: deliver_def Let_def)
qed

lemma deliver_frame [simp]:
  "ex_commands (fst (deliver ex name input)) = ex_commands ex"
  "ex_next_seq (fst (deliver ex name input)) = ex_next_seq ex"
  "ex_operations (fst (deliver ex name input)) = ex_operations ex"
  "ex_terminal (fst (deliver ex name input)) = ex_terminal ex"
  "ex_coroutines (fst (deliver ex name input)) = ex_coroutines ex"
  by (rule deliver_cases [of ex name input]; simp)+

text \<open>What ends a coroutine touches neither futures nor channels nor operations.\<close>

lemma fail_workflow_simps [simp]:
  "ex_next_seq (fail_workflow ex e) = ex_next_seq ex"
  "ex_operations (fail_workflow ex e) = ex_operations ex"
  "ex_channels (fail_workflow ex e) = ex_channels ex"
  "ex_futures (fail_workflow ex e) = ex_futures ex"
  "ex_coroutines (fail_workflow ex e) = ex_coroutines ex"
  "ex_current (fail_workflow ex e) = ex_current ex"
  by (simp_all add: fail_workflow_def)

lemma finish_coroutine_simps [simp]:
  "ex_next_seq (finish_coroutine rt ex i frame r) = ex_next_seq ex"
  "ex_operations (finish_coroutine rt ex i frame r) = ex_operations ex"
  "ex_channels (finish_coroutine rt ex i frame r) = ex_channels ex"
  "ex_futures (finish_coroutine rt ex i frame r) = ex_futures ex"
  by (simp_all add: finish_coroutine_def coroutine_panic_def split: frame.splits gores.splits run_end.splits)

lemma settle_coroutine_simps [simp]:
  "ex_next_seq (settle_coroutine rt ex i frame r) = ex_next_seq ex"
  "ex_operations (settle_coroutine rt ex i frame r) = ex_operations ex"
  "ex_channels (settle_coroutine rt ex i frame r) = ex_channels ex"
  "ex_futures (settle_coroutine rt ex i frame r) = ex_futures ex"
  by (simp_all add: settle_coroutine_def split: run_end.splits)

lemma begin_coroutine_simps [simp]:
  "ex_commands (begin_coroutine ex i) = ex_commands ex"
  "ex_next_seq (begin_coroutine ex i) = ex_next_seq ex"
  "ex_operations (begin_coroutine ex i) = ex_operations ex"
  "ex_channels (begin_coroutine ex i) = ex_channels ex"
  "ex_futures (begin_coroutine ex i) = ex_futures ex"
  "ex_terminal (begin_coroutine ex i) = ex_terminal ex"
  by (simp_all add: begin_coroutine_def)

end
