(* ===== verification/Workflow_Laws.thy ===== *)
theory Workflow_Laws
  imports Workflow_Frames
begin

text \<open>
  Reasoning about executions. Every change user code makes to an execution is one of a few
  primitive ones; a relation that is a preorder and holds of the primitives holds of whatever user
  code does between two blocking calls (\<open>user_law\<close>), of everything a \<open>drive\<close> does if it also
  holds of the dispatcher's own changes (\<open>dispatch_law\<close>), and of a whole activation and of \<open>stop\<close>
  if it holds of the resolutions too (\<open>activation_law\<close>). The theories that state what executions
  guarantee interpret these locales.
\<close>

section \<open>User code\<close>

locale user_law =
  fixes R :: "'u execution \<Rightarrow> 'u execution \<Rightarrow> bool"
  assumes refl: "R ex ex"
    and trans: "R ex ex' \<Longrightarrow> R ex' ex'' \<Longrightarrow> R ex ex''"
    and vars: "R ex (ex\<lparr>ex_vars := u\<rparr>)"
    and new_future: "R ex (snd (new_future ex))"
    and set_future: "R ex (fst (set_future ex f v e))"
    and chain: "f < length (ex_futures ex) \<Longrightarrow> g < length (ex_futures ex) \<Longrightarrow>
        \<not> fu_ready (ex_futures ex ! f) \<Longrightarrow> \<not> fu_ready (ex_futures ex ! g) \<Longrightarrow>
        R ex (append_chained ex g f)"
    and queries: "R ex (ex\<lparr>ex_queries := AList.update name q (ex_queries ex)\<rparr>)"
    and updates: "R ex (ex\<lparr>ex_updates := AList.update name up (ex_updates ex)\<rparr>)"
    and go: "R ex (add_coroutine ex name info FGo body)"
    and ensure_channel: "R ex (ensure_channel ex name)"
    and take_signal: "map_of (ex_channels ex) name = Some ch \<Longrightarrow> take_signal ch = Some (input, ch') \<Longrightarrow>
        R ex (put_channel ex name ch')"
    and add_waiter: "map_of (ex_channels ex) name = Some ch \<Longrightarrow> sch_buffer ch = [] \<Longrightarrow>
        R ex (add_waiter ex name ch)"
    and remove_waiter: "R ex (remove_waiter ex name w)"
    and schedule: "schedulable ex kind f started c \<Longrightarrow>
        R ex (schedule ex kind f started workflow_id c)"
    and waiting: "R ex (set_waiting ex f)"

context user_law
begin

lemma ready_future: "R ex (snd (ready_future ex v e))"
  using trans [OF new_future set_future] by (simp add: ready_future_eq)

lemma fail_child: "R ex (fail_child ex f s e)"
  using trans [OF set_future set_future] by (simp add: fail_child_def)

lemma scheduled_future:
  "(\<exists>e. ex' = snd (Workflow_Runtime.ready_future ex VNil e)) \<or>
   (\<exists>c. schedulable (snd (Workflow_Runtime.new_future ex)) kind f None c \<and>
      ex' = Workflow_Frames.schedule (snd (Workflow_Runtime.new_future ex)) kind f None w c) \<Longrightarrow> R ex ex'"
  using ready_future trans [OF new_future schedule] by blast

lemma settle_future: "R ex (fst (settle_future ex s f v e))"
  by (simp add: settle_future_def refl set_future split: settle.splits)

lemma chain_future: "R ex (fst (chain_future ex f other))"
  using chain [of f ex "the other"]
  by (auto simp: chain_future_def refl set_future append_chained_def Let_def not_le
      split: option.splits)

lemma unless_panic: "unless_panic r k = (ex', out) \<Longrightarrow> R ex (fst r) \<Longrightarrow> R ex ex'"
  by (auto simp: unless_panic_def split: prod.splits option.splits)

lemma step_prog:
  assumes "step_prog rt ex p = (ex', out)"
  shows "R ex ex'"
proof (cases p)
  case (PNewTimer c d k)
  with assms new_timer_cases [of ex d] show ?thesis
    by (auto simp: when_running_def refl split: if_splits prod.splits intro: scheduled_future)
next
  case (PActivity c opts args k)
  with assms execute_activity_cases [of rt ex opts args] show ?thesis
    by (auto simp: when_running_def answer_panicking_def refl
        split: if_splits prod.splits sum.splits intro: scheduled_future)
next
  case (PLocalActivity c opts args k)
  with assms execute_local_activity_cases [of rt ex opts args] show ?thesis
    by (auto simp: when_running_def answer_panicking_def refl
        split: if_splits prod.splits sum.splits intro: scheduled_future)
next
  case (PChild c opts args k)
  show ?thesis
  proof (cases "\<exists>f s. execute_child rt ex opts args = Inr (f, s, ex')")
    case True
    then obtain f s where "execute_child rt ex opts args = Inr (f, s, ex')" by blast
    from execute_child_cases [OF this] show ?thesis
      using trans [OF trans [OF new_future new_future] fail_child]
        trans [OF trans [OF new_future new_future] schedule] by blast
  next
    case False
    with assms PChild have "ex' = ex"
      by (auto simp: when_running_def answer_panicking_def split: if_splits prod.splits sum.splits)
    then show ?thesis by (simp add: refl)
  qed
next
  case (PNewFuture c k)
  with assms new_future [of ex] show ?thesis
    by (auto simp: when_running_def refl split: if_splits prod.splits)
next
  case (PGet c f target k)
  with assms show ?thesis
    by (auto simp: step_get_def refl split: if_splits gotarget.splits)
next
  case (PSet s f v e k)
  with assms settle_future show ?thesis by (auto intro: unless_panic)
next
  case (PChain f other k)
  with assms chain_future show ?thesis by (auto intro: unless_panic)
next
  case (PReceive c name target k)
  with assms take_signal add_waiter show ?thesis
    by (auto simp: step_receive_def refl take_signal_None Workflow_Frames.add_waiter_def
        Workflow_Runtime.new_future_def
        split: if_splits option.splits prod.splits)
next
  case (PReceiveAsync name target k)
  with assms take_signal show ?thesis
    by (auto simp: step_receive_async_def refl split: if_splits option.splits prod.splits)
next
  case (PSetQuery c name handler k)
  with assms queries show ?thesis
    by (auto simp: when_running_def set_query_handler_def refl split: if_splits prod.splits sum.splits)
next
  case (PSetUpdate c name handler validator k)
  with assms updates show ?thesis
    by (auto simp: when_running_def set_update_handler_def refl split: if_splits prod.splits sum.splits)
qed (use assms in \<open>auto simp: when_running_def refl vars go ensure_channel
       split: if_splits prod.splits option.splits\<close>)

lemma user_step:
  assumes "user_step rt ex c = (ex', out)"
  shows "R ex ex'"
proof (cases c)
  case (CRun p)
  with assms show ?thesis by (auto intro: step_prog)
qed (use assms in \<open>auto simp: refl waiting remove_waiter split: if_splits sum.splits\<close>)

lemma user_run: "user_run rt ex c = Some (ex', r) \<Longrightarrow> R ex ex'"
proof -
  have "R ex (fst y)" if "user_run rt ex c = Some y" for y
  proof (rule user_run.raw_induct [where P = "\<lambda>rt ex c y. R ex (fst y)", OF _ that])
    fix go :: "runtime \<Rightarrow> 'u execution \<Rightarrow> 'u cont \<Rightarrow> ('u execution \<times> 'u run_end) option" and rt ex c y
    assume IH: "\<And>rt ex c y. go rt ex c = Some y \<Longrightarrow> R ex (fst y)"
      and run: "(case user_step rt ex c of
          (ex', Next c') \<Rightarrow> go rt ex' c' | (ex', Blocked c') \<Rightarrow> Some (ex', Yielded c')
        | (ex', Returned v e) \<Rightarrow> Some (ex', Finished v e)
        | (ex', Panicked m) \<Rightarrow> Some (ex', Crashed m)) = Some y"
    obtain ex1 out where s: "user_step rt ex c = (ex1, out)" by force
    with run user_step [OF s] show "R ex (fst y)"
      by (cases out) (auto intro: IH trans [OF user_step [OF s]])
  qed
  then show "user_run rt ex c = Some (ex', r) \<Longrightarrow> R ex ex'" by fastforce
qed

end

text \<open>User code does not end the workflow: only the end of its coroutine does.\<close>

definition not_ending :: "'u execution \<Rightarrow> 'u execution \<Rightarrow> bool" where
  "not_ending ex ex' \<longleftrightarrow> ex_terminal ex' = ex_terminal ex \<and>
     (\<exists>cs. ex_commands ex' = ex_commands ex @ cs \<and> filter is_terminal cs = [])"

interpretation not_ending: user_law not_ending
proof
  show "not_ending ex (Workflow_Frames.schedule ex kind f started w c)"
    if "schedulable ex kind f started c" for ex :: "'u execution" and kind f started w c
    using that command_kind_not_terminal by (auto simp: not_ending_def schedulable_def)
  show "not_ending ex ex' \<Longrightarrow> not_ending ex' ex'' \<Longrightarrow> not_ending ex ex''" for ex ex' ex'' :: "'u execution"
    by (auto simp: not_ending_def)
qed (simp_all add: not_ending_def)

section \<open>The dispatcher\<close>

text \<open>
  \<open>coroutine_law\<close> asks for the relation between the states before and after a coroutine runs;
  \<open>dispatch_law\<close> derives it from the changes \<open>resume\<close> consists of.
\<close>

locale coroutine_law = user_law +
  assumes resumed: "resume rt ex i = Some ex' \<Longrightarrow> \<not> ex_terminal ex \<Longrightarrow> R ex ex'"
    and fail_workflow: "R ex (fail_workflow ex e)"

locale dispatch_law = user_law +
  assumes begun: "R ex (begin_coroutine ex i)"
    and no_current: "R ex (ex\<lparr>ex_current := None\<rparr>)"
    and settle: "\<not> ex_terminal ex \<Longrightarrow> R ex (settle_coroutine rt ex i frame r)"
    and failed: "R ex (fail_workflow ex e)"

sublocale dispatch_law \<subseteq> coroutine_law
proof
  fix rt ex i ex' e
  show "R ex (fail_workflow ex e)" by (rule failed)
  assume res: "resume rt ex i = Some ex'" and nt: "\<not> ex_terminal ex"
  from res obtain ex2 r where run: "user_run rt (begin_coroutine ex i) (co_cont (ex_coroutines ex ! i)) =
      Some (ex2, r)" and ex': "ex' = (settle_coroutine rt ex2 i (co_frame (ex_coroutines ex ! i)) r)
        \<lparr>ex_current := None\<rparr>"
    unfolding resume_def Let_def begin_coroutine_def by auto
  have "\<not> ex_terminal ex2"
    using not_ending.user_run [OF run] nt by (simp add: not_ending_def)
  then show "R ex ex'"
    unfolding ex' using begun user_run [OF run] settle no_current trans by metis
qed

context coroutine_law
begin

lemma after_resume: "after_resume ex i = (ex', e) \<Longrightarrow> R ex ex'"
  using fail_workflow refl by (auto simp: after_resume_def Let_def split: if_splits option.splits)

lemma drive_pass:
  "drive_pass rt high is ex p = Some (ex', e) \<Longrightarrow> \<not> ex_terminal ex \<Longrightarrow>
   R ex ex' \<and> (ex_terminal ex' \<longrightarrow> (\<exists>err. e = Stop err))"
proof (induction "is" arbitrary: ex p)
  case Nil
  then show ?case by (simp add: refl)
next
  case (Cons i "is")
  show ?case
  proof (cases "runnable ex high i")
    case False
    with Cons show ?thesis by simp
  next
    case True
    with Cons.prems obtain ex1 where ex1: "resume rt ex i = Some ex1"
      by (auto split: bind_splits)
    obtain ex2 e2 where ex2: "Workflow_Dispatch.after_resume ex1 i = (ex2, e2)" by force
    have R2: "R ex ex2" using resumed [OF ex1 Cons.prems(2)] after_resume [OF ex2] trans by blast
    show ?thesis
    proof (cases e2)
      case (Stop err)
      with Cons.prems(1) True ex1 ex2 have "ex' = ex2" "e = Stop err" by auto
      then show ?thesis using R2 by simp
    next
      case (Passed b)
      have "\<not> ex_terminal ex2" using ex2 Passed
        by (auto simp: after_resume_def Let_def split: option.splits if_splits)
      with Cons.IH [of ex2 True] Cons.prems(1) True ex1 ex2 Passed R2 trans show ?thesis by auto
    qed
  qed
qed

lemma drive_round:
  assumes "drive_round rt ex = Some (ex', e)" and "\<not> ex_terminal ex"
  shows "R ex ex' \<and> (ex_terminal ex' \<longrightarrow> (\<exists>err. e = Stop err))"
proof -
  from assms(1) obtain ex1 e1 where p: "Workflow_Dispatch.drive_pass rt True (coroutine_ids ex) ex False =
      Some (ex1, e1)"
    by (auto simp: drive_round_def split: bind_splits)
  note R1 = drive_pass [OF p assms(2)]
  show ?thesis
  proof (cases e1)
    case (Passed b)
    with assms(1) p have "Workflow_Dispatch.drive_pass rt False (coroutine_ids ex1) ex1 b = Some (ex', e)"
      by (simp add: drive_round_def)
    from drive_pass [OF this] R1 Passed trans show ?thesis by auto
  next
    case (Stop err)
    with assms(1) p R1 show ?thesis by (auto simp: drive_round_def)
  qed
qed

lemma drive_loop: "drive_loop rt ex = Some (ex', e) \<Longrightarrow> \<not> ex_terminal ex \<Longrightarrow> R ex ex'"
proof -
  have "\<not> ex_terminal ex \<longrightarrow> R ex (fst y)" if "drive_loop rt ex = Some y" for y
  proof (rule drive_loop.raw_induct
      [where P = "\<lambda>rt ex y. \<not> ex_terminal ex \<longrightarrow> R ex (fst y)", OF _ that], intro impI)
    fix go :: "runtime \<Rightarrow> 'a execution \<Rightarrow> ('a execution \<times> goerr option) option" and rt ex y
    assume IH: "\<And>rt ex y. go rt ex = Some y \<Longrightarrow> \<not> ex_terminal ex \<longrightarrow> R ex (fst y)"
      and run: "Option.bind (Workflow_Dispatch.drive_round rt ex) (\<lambda>r. case r of
          (ex1, Stop e) \<Rightarrow> Some (ex1, e)
        | (ex1, Passed p) \<Rightarrow> if p then go rt ex1 else Some (ex1, None)) = Some y"
      and nt: "\<not> ex_terminal ex"
    from run obtain ex1 e1 where s: "Workflow_Dispatch.drive_round rt ex = Some (ex1, e1)"
      by (auto split: bind_splits)
    note R1 = drive_round [OF s nt]
    have "R ex (fst y)" if "go rt ex1 = Some y" "\<not> ex_terminal ex1"
      using trans [OF _ IH [OF that(1), rule_format, OF that(2)]] R1 by blast
    with run s R1 show "R ex (fst y)"
      by (cases e1) (auto split: if_splits)
  qed
  then show "drive_loop rt ex = Some (ex', e) \<Longrightarrow> \<not> ex_terminal ex \<Longrightarrow> R ex ex'" by fastforce
qed

lemma drive: "drive rt ex = Some (ex', e) \<Longrightarrow> R ex ex'"
  using drive_loop refl by (auto simp: drive_def split: if_splits)

end

section \<open>Activations\<close>

lemma apply_pending_end:
  assumes "apply_pending rt (ex :: 'b execution) pending = Some (ex', Some e)"
  shows "\<forall>cs. e \<noteq> Commands cs"
proof -
  have ended: "sweep ex js = (ex', SweepEnd e) \<Longrightarrow> \<forall>cs. e \<noteq> Commands cs" for ex :: "'b execution" and js ex' e
    by (induction js arbitrary: ex) (auto split: applied.splits prod.splits sweep_end.splits)
  have "\<forall>e. snd y = Some e \<longrightarrow> (\<forall>cs. e \<noteq> Commands cs)" if "apply_pending rt ex pending = Some y" for y
  proof (rule apply_pending.raw_induct
      [where P = "\<lambda>rt ex pending y. \<forall>e. snd y = Some e \<longrightarrow> (\<forall>cs. e \<noteq> Commands cs)", OF _ that])
    fix go :: "runtime \<Rightarrow> 'b execution \<Rightarrow> job list \<Rightarrow> ('b execution \<times> activation_end option) option"
      and rt ex pending y
    assume IH: "\<And>rt ex pending y. go rt ex pending = Some y \<Longrightarrow>
        \<forall>e. snd y = Some e \<longrightarrow> (\<forall>cs. e \<noteq> Commands cs)"
      and run: "(if pending = [] then Some (ex, None)
        else case sweep ex pending of
          (ex1, SweepEnd e) \<Rightarrow> Some (ex1, Some e)
        | (ex1, Swept remaining applied) \<Rightarrow>
            if remaining = [] then Some (ex1, None)
            else Option.bind (drive rt ex1) (\<lambda>r. case r of
                (ex2, Some e) \<Rightarrow> Some (ex2, Some (ActivateError e))
              | (ex2, None) \<Rightarrow>
                  if \<not> applied \<and> no_progress ex1 ex2
                  then Some (ex2, Some (ActivateError (unmatched_error remaining)))
                  else go rt ex2 remaining)) = Some y"
    from run show "\<forall>e. snd y = Some e \<longrightarrow> (\<forall>cs. e \<noteq> Commands cs)"
      by (auto split: if_splits prod.splits sweep_end.splits option.splits bind_splits
          dest: ended IH)
  qed
  with assms show ?thesis by fastforce
qed

text \<open>How \<open>activate\<close> leaves the execution: its commands handed over if it succeeds.\<close>

definition handed_over :: "'u execution \<Rightarrow> activation_end \<Rightarrow> 'u execution \<Rightarrow> bool" where
  "handed_over ex e ex' \<longleftrightarrow>
     (case e of Commands cs \<Rightarrow> cs = ex_commands ex \<and> ex' = ex\<lparr>ex_commands := []\<rparr> | _ \<Rightarrow> ex' = ex)"

text \<open>The operations a job may remove.\<close>

fun job_seqs :: "job \<Rightarrow> 32 word set" where
  "job_seqs (FireTimer s) = {s}"
| "job_seqs (ResolveActivity s l r) = {s}"
| "job_seqs (ResolveChildStart s r) = {s}"
| "job_seqs (ResolveChild s r) = {s}"
| "job_seqs _ = {}"

definition jobs_seqs :: "job list \<Rightarrow> 32 word set" where
  "jobs_seqs js = (\<Union>j \<in> set js. job_seqs j)"

lemma jobs_seqs_simps [simp]:
  "jobs_seqs [] = {}" "jobs_seqs (j # js) = job_seqs j \<union> jobs_seqs js"
  by (simp_all add: jobs_seqs_def)

text \<open>\<open>D\<close> bounds the operations that are resolved; it need not bound anything.\<close>

locale activation_law = coroutine_law +
  fixes D :: "32 word set"
  assumes deliver: "R ex (fst (deliver ex name input))"
    and delete_operation: "seq \<in> D \<Longrightarrow> R ex (delete_operation ex seq)"
    and respond: "command_kind c = None \<Longrightarrow> \<not> is_terminal c \<Longrightarrow> R ex (emit ex c)"
    and update_coroutine: "R ex (add_coroutine ex name (Some info) (FUpdate pid f) body)"
    and bootstrapped: "R ex (ex\<lparr>ex_bootstrapped := True\<rparr>)"
begin

lemma classify: "classify ex js = (ex', r) \<Longrightarrow> R ex ex'"
proof (induction js arbitrary: ex ex' r)
  case (Cons j js)
  show ?case
  proof (cases j)
    case (SignalWorkflow name input)
    obtain ex1 p where d: "Workflow_Runtime.deliver ex name input = (ex1, p)" by force
    then have R1: "R ex ex1" using deliver [of ex name input] by simp
    from Cons.prems SignalWorkflow d R1 show ?thesis
      by (auto split: option.splits intro: trans [OF R1 Cons.IH])
  qed (use Cons in \<open>auto split: prod.splits\<close>)
qed (simp add: refl)

lemma respond_to_query: "respond_to_query rt ex q = Some ex' \<Longrightarrow> R ex ex'"
  using user_run trans [OF _ respond]
  by (fastforce simp: respond_to_query_def execute_query_def refl split: option.splits)

lemma respond_to_queries: "respond_to_queries rt ex qs = Some ex' \<Longrightarrow> R ex ex'"
proof (induction qs arbitrary: ex)
  case (Cons q qs)
  from Cons.prems obtain ex1 where "respond_to_query rt ex q = Some ex1"
      "respond_to_queries rt ex1 qs = Some ex'"
    by (auto split: bind_splits)
  with Cons.IH respond_to_query trans show ?case by blast
qed (simp add: refl)

lemma accept_update: "R ex (accept_update ex u up args)"
  using trans [OF respond update_coroutine] by (simp add: accept_update_def update_accepted_def)

lemma validate_update: "validate_update rt ex u info args = Some (ex', e) \<Longrightarrow> R ex ex'"
  using user_run refl
  by (fastforce simp: validate_update_def split: option.splits outcome.splits)

lemma rejected: "R ex (emit ex (update_rejected pid e))"
  by (simp add: respond update_rejected_def)

lemma start_update:
  assumes "start_update rt ex up = Some ex'"
  shows "R ex ex'"
proof (cases "map_of (ex_updates ex) (uj_name up)")
  case None
  with assms show ?thesis by (auto simp: start_update_def intro: rejected)
next
  case (Some u)
  show ?thesis
  proof (cases "decode_input (rt_converter rt) (ru_handler u) (uj_input up)")
    case (Inl e)
    with assms Some show ?thesis by (auto simp: start_update_def intro: rejected)
  next
    case (Inr args)
    show ?thesis
    proof (cases "uj_run_validator up \<and> ru_validator u \<noteq> None")
      case False
      with assms Some Inr show ?thesis by (auto simp: start_update_def intro: accept_update)
    next
      case True
      with assms Some Inr obtain ex1 r where
        "validate_update rt ex u \<lparr>ui_id = uj_id up, ui_name = uj_name up\<rparr> args = Some (ex1, r)"
        "ex' = (case r of Some e \<Rightarrow> emit ex1 (update_rejected (uj_protocol_instance_id up) e)
                | None \<Rightarrow> accept_update ex1 u up args)"
        by (auto simp: start_update_def)
      then show ?thesis
        using trans [OF validate_update rejected] trans [OF validate_update accept_update]
        by (auto split: option.splits)
    qed
  qed
qed

lemma start_updates: "start_updates rt ex ups = Some ex' \<Longrightarrow> R ex ex'"
proof (induction ups arbitrary: ex)
  case (Cons up ups)
  from Cons.prems obtain ex1 where "start_update rt ex up = Some ex1"
      "start_updates rt ex1 ups = Some ex'"
    by (auto split: bind_splits)
  with Cons.IH start_update trans show ?case by blast
qed (simp add: refl)

lemma resolve_operation:
  "resolve_operation ex seq f v e = (ex', a) \<Longrightarrow> seq \<in> D \<Longrightarrow> R ex ex'"
  using set_future [of ex f v e] trans [OF _ delete_operation]
  by (fastforce simp: resolve_operation_def split: prod.splits option.splits)

lemma apply_child_start:
  assumes "apply_child_start ex seq status = (ex', a)" and "seq \<in> D"
  shows "R ex ex'"
proof (cases "ex' = ex")
  case False
  with assms obtain op s where op: "map_of (ex_operations ex) seq = Some op" "op_kind op = OpChild"
      "op_started op = Some s"
    by (auto simp: apply_child_start_def split: option.splits if_splits)
  show ?thesis
  proof (cases "\<exists>run_id. status = Some (StartSucceeded run_id)")
    case True
    then obtain run_id where "status = Some (StartSucceeded run_id)" by blast
    with assms op set_future [of ex s] show ?thesis
      by (auto simp: apply_child_start_def split: prod.splits option.splits) (metis fst_conv)+
  next
    case nonsuccess: False
    obtain e where "child_start_error op status = Inr e"
      using assms op nonsuccess False
      by (cases "child_start_error op status")
        (auto simp: apply_child_start_def split: option.splits child_start_status.splits)
    with assms op nonsuccess have
      "(case Workflow_Runtime.set_future ex s VNil (Some e) of
          (ex1, Some m) \<Rightarrow> (ex1, ApplyPanic m)
        | (ex1, None) \<Rightarrow> Workflow_Activation.resolve_operation ex1 seq (op_result op) VNil (Some e)) = (ex', a)"
      by (auto simp: apply_child_start_def split: option.splits child_start_status.splits)
    moreover obtain ex1 p where s1: "Workflow_Runtime.set_future ex s VNil (Some e) = (ex1, p)" by force
    moreover have "R ex ex1" using set_future [of ex s VNil "Some e"] s1 by simp
    ultimately show ?thesis using resolve_operation assms(2) trans by (auto split: option.splits)
  qed
qed (simp add: refl)

lemma try_apply: "try_apply ex j = (ex', a) \<Longrightarrow> job_seqs j \<subseteq> D \<Longrightarrow> R ex ex'"
  using resolve_operation apply_child_start refl
  by (cases j)
    (auto simp: apply_fire_timer_def apply_resolve_activity_def apply_child_result_def
      split: option.splits if_splits prod.splits)

lemma sweep: "sweep ex js = (ex', r) \<Longrightarrow> jobs_seqs js \<subseteq> D \<Longrightarrow> R ex ex'"
proof (induction js arbitrary: ex r)
  case (Cons j js)
  obtain ex1 a where t: "try_apply ex j = (ex1, a)" by force
  from Cons.prems(2) have D: "job_seqs j \<subseteq> D" "jobs_seqs js \<subseteq> D" by simp_all
  show ?case
    using Cons.prems(1) t try_apply [OF t D(1)]
    by (auto split: applied.splits sweep_end.splits prod.splits
        intro: trans [OF try_apply [OF t D(1)] Cons.IH [OF _ D(2)]])
qed (simp add: refl)

lemma sweep_remaining:
  "Workflow_Activation.sweep ex js = (ex', Swept remaining a) \<Longrightarrow> set remaining \<subseteq> set js"
proof (induction js arbitrary: ex remaining a)
  case (Cons j js)
  show ?case
    using Cons.prems
    by (auto split: applied.splits sweep_end.splits prod.splits dest!: Cons.IH)
qed simp

lemma jobs_seqs_mono: "set js \<subseteq> set js' \<Longrightarrow> jobs_seqs js \<subseteq> jobs_seqs js'"
  by (auto simp: jobs_seqs_def)

lemma apply_pending:
  assumes "apply_pending rt ex pending = Some (ex', e)" and "jobs_seqs pending \<subseteq> D"
  shows "R ex ex'"
proof -
  have "jobs_seqs pending \<subseteq> D \<longrightarrow> R ex (fst y)" if "apply_pending rt ex pending = Some y" for y
  proof (rule apply_pending.raw_induct
      [where P = "\<lambda>rt ex pending y. jobs_seqs pending \<subseteq> D \<longrightarrow> R ex (fst y)", OF _ that], intro impI)
    fix go :: "runtime \<Rightarrow> 'a execution \<Rightarrow> job list \<Rightarrow> ('a execution \<times> activation_end option) option"
      and rt ex pending y
    assume IH: "\<And>rt ex pending y. go rt ex pending = Some y \<Longrightarrow> jobs_seqs pending \<subseteq> D \<longrightarrow> R ex (fst y)"
      and D: "jobs_seqs pending \<subseteq> D"
      and run: "(if pending = [] then Some (ex, None)
        else case Workflow_Activation.sweep ex pending of
          (ex1, SweepEnd e) \<Rightarrow> Some (ex1, Some e)
        | (ex1, Swept remaining applied) \<Rightarrow>
            if remaining = [] then Some (ex1, None)
            else Option.bind (Workflow_Dispatch.drive rt ex1) (\<lambda>r. case r of
                (ex2, Some e) \<Rightarrow> Some (ex2, Some (ActivateError e))
              | (ex2, None) \<Rightarrow>
                  if \<not> applied \<and> no_progress ex1 ex2
                  then Some (ex2, Some (ActivateError (unmatched_error remaining)))
                  else go rt ex2 remaining)) = Some y"
    obtain ex1 r where s: "Workflow_Activation.sweep ex pending = (ex1, r)" by force
    note R1 = sweep [OF s D]
    have IH': "go rt ex pending = Some y \<Longrightarrow> jobs_seqs pending \<subseteq> D \<Longrightarrow> R ex (fst y)"
      for rt ex pending y using IH by blast
    have D': "jobs_seqs remaining \<subseteq> D" if "r = Swept remaining a" for remaining a
      using jobs_seqs_mono [OF sweep_remaining] D s that by blast
    show "R ex (fst y)"
    proof (cases "Workflow_Dispatch.drive rt ex1")
      case (Some d)
      obtain ex2 e where d: "Workflow_Dispatch.drive rt ex1 = Some (ex2, e)"
        using Some by (cases d) simp
      note R2 = trans [OF R1 drive [OF d]]
      have "R ex (fst y)" if "go rt ex2 remaining = Some y" "r = Swept remaining a" for remaining a
        using trans [OF R2 IH' [OF that(1) D' [OF that(2)]]] .
      with run s d R1 R2 show ?thesis
        by (auto simp: refl split: if_splits sweep_end.splits option.splits)
    next
      case None
      with run s R1 show ?thesis
        by (auto simp: refl split: if_splits sweep_end.splits)
    qed
  qed
  with assms show ?thesis by fastforce
qed

lemma classify_pending:
  "Workflow_Activation.classify ex js = (ex', p, pending, qs, us) \<Longrightarrow> set pending \<subseteq> set js"
proof (induction js arbitrary: ex ex' p pending qs us)
  case (Cons j js)
  show ?case
  proof (cases j)
    case (SignalWorkflow name input)
    with Cons show ?thesis by (fastforce split: prod.splits option.splits)
  qed (use Cons in \<open>fastforce split: prod.splits\<close>)+
qed simp

lemma bootstrap: "bootstrap rt ex = Some (ex', e) \<Longrightarrow> R ex ex'"
  using drive trans [OF drive bootstrapped] refl
  by (auto simp: bootstrap_def split: if_splits)

lemma finish_activation:
  assumes "finish_activation rt ex queries = Some (ex', e)"
  shows "\<exists>exf. R ex exf \<and> handed_over exf e ex'"
proof -
  from assms obtain ex1 r where d: "drive rt ex = Some (ex1, r)"
    by (auto simp: finish_activation_def split: bind_splits)
  show ?thesis
  proof (cases r)
    case (Some err)
    with assms d drive [OF d] show ?thesis by (auto simp: finish_activation_def handed_over_def)
  next
    case None
    with assms d obtain ex2 where "respond_to_queries rt ex1 queries = Some ex2"
        "ex' = ex2\<lparr>ex_commands := []\<rparr>" "e = Commands (ex_commands ex2)"
      by (auto simp: finish_activation_def take_commands_def)
    with drive [OF d] respond_to_queries trans show ?thesis by (fastforce simp: handed_over_def)
  qed
qed

lemma activate:
  assumes "activate rt ex jobs = Some (ex', e)" and "jobs_seqs jobs \<subseteq> D"
  shows "\<exists>exf. R ex exf \<and> handed_over exf e ex'"
proof (cases "ex_stopped ex \<or> \<not> ex_started ex")
  case True
  with assms show ?thesis
    by (auto simp: activate_def handed_over_def intro: refl split: if_splits)
next
  case False
  obtain ex1 p pending queries updates
    where c: "classify ex jobs = (ex1, p, pending, queries, updates)" by (metis prod_cases5)
  note R1 = classify [OF c]
  have D: "jobs_seqs pending \<subseteq> D"
    using jobs_seqs_mono [OF classify_pending [OF c]] assms(2) by blast
  show ?thesis
  proof (cases p)
    case (Some m)
    with assms(1) False c R1 show ?thesis by (auto simp: activate_def handed_over_def)
  next
    case None
    with assms(1) False c obtain ex2 b where b: "bootstrap rt ex1 = Some (ex2, b)"
      by (auto simp: activate_def split: bind_splits)
    note R2 = trans [OF R1 bootstrap [OF b]]
    show ?thesis
    proof (cases b)
      case (Some err)
      with assms(1) False c None b R2 show ?thesis by (auto simp: activate_def handed_over_def)
    next
      case bNone: None
      with assms(1) False c None b obtain ex3 ex4 a where
        u: "start_updates rt ex2 updates = Some ex3" and
        a: "apply_pending rt ex3 pending = Some (ex4, a)" and
        r: "(case a of Some e \<Rightarrow> Some (ex4, e) | None \<Rightarrow> finish_activation rt ex4 queries) = Some (ex', e)"
        by (auto simp: activate_def split: bind_splits)
      have R4: "R ex ex4" using R2 start_updates [OF u] apply_pending [OF a D] trans by blast
      show ?thesis
      proof (cases a)
        case (Some e1)
        with r have "ex' = ex4" "e = e1" by simp_all
        with R4 apply_pending_end [of rt ex3 pending ex4 e] a Some show ?thesis
          by (auto simp: handed_over_def split: activation_end.splits)
      next
        case None
        with r finish_activation [of rt ex4 queries] R4 trans show ?thesis by fastforce
      qed
    qed
  qed
qed

end

text \<open>\<open>stop\<close>, and everything that happens to a cached execution.\<close>

locale history_law = activation_law R UNIV for R :: "'u execution \<Rightarrow> 'u execution \<Rightarrow> bool" +
  assumes cleared: "R ex (ex\<lparr>ex_commands := []\<rparr>)"
    and stopped: "R ex (ex\<lparr>ex_stopped := True\<rparr>)"
    and evicted: "R ex (settle_coroutine rt ex i frame r)"
begin

lemma activation: "activate rt ex jobs = Some (ex', e) \<Longrightarrow> R ex ex'"
  using activate [of rt ex jobs ex' e] trans [OF _ cleared]
  by (cases e) (auto simp: handed_over_def)

lemma stop_coroutine:
  assumes "stop_coroutine rt ex i = Some ex'"
  shows "R ex ex'"
proof (cases "ex' = ex")
  case False
  obtain ex1 c where e: "evict_cont ex (co_cont (ex_coroutines ex ! i)) = (ex1, c)" by force
  have "R ex ex1"
    using e remove_waiter refl by (cases "co_cont (ex_coroutines ex ! i)") auto
  moreover from assms False e obtain ex2 r where "user_run rt ex1 c = Some (ex2, r)"
      "ex' = settle_coroutine rt ex2 i (co_frame (ex_coroutines ex ! i)) r"
    by (auto simp: stop_coroutine_def Let_def split: if_splits)
  ultimately show ?thesis by (metis user_run evicted trans)
qed (simp add: refl)

lemma stop_coroutines: "stop_coroutines rt is ex = Some ex' \<Longrightarrow> R ex ex'"
proof (induction "is" arbitrary: ex)
  case (Cons i "is")
  from Cons.prems obtain ex1 where "stop_coroutine rt ex i = Some ex1"
      "stop_coroutines rt is ex1 = Some ex'"
    by (auto split: bind_splits)
  with Cons.IH stop_coroutine trans show ?case by blast
qed (simp add: refl)

lemma stop: "stop rt ex = Some ex' \<Longrightarrow> R ex ex'"
  using stop_coroutines trans [OF stopped] refl by (auto simp: stop_def split: if_splits)

end

section \<open>Histories\<close>

text \<open>The executions the worker can hold: created for an initialising activation, then activated.\<close>

inductive execution_reachable :: "runtime \<Rightarrow> 'u execution \<Rightarrow> bool" for rt where
  created: "execution_reachable rt
     (start_execution (new_execution namespace task_queue run_id vars) handler input)"
| activated: "execution_reachable rt ex \<Longrightarrow> activate rt ex jobs = Some (ex', e) \<Longrightarrow>
     execution_reachable rt ex'"
| stopped: "execution_reachable rt ex \<Longrightarrow> stop rt ex = Some ex' \<Longrightarrow> execution_reachable rt ex'"

end
