(* ===== verification/Workflow_Safety.thy ===== *)
theory Workflow_Safety
  imports Workflow_Laws
begin

text \<open>
  What every workflow execution guarantees, whatever its user code does: futures are written once,
  a signal is never left in the buffer while a receiver waits for it, sequence numbers are
  consecutive across activations, and the outstanding operations are exactly those scheduled and not
  resolved.
\<close>

section \<open>Futures are written once\<close>

definition future_kept :: "future \<Rightarrow> future \<Rightarrow> bool" where
  "future_kept fu fu' \<longleftrightarrow>
     (fu_ready fu \<longrightarrow> fu_ready fu' \<and> fu_value fu' = fu_value fu \<and> fu_err fu' = fu_err fu)"

definition list_kept :: "future list \<Rightarrow> future list \<Rightarrow> bool" where
  "list_kept fs fs' \<longleftrightarrow> length fs \<le> length fs' \<and> (\<forall>i < length fs. future_kept (fs ! i) (fs' ! i))"

definition futures_kept :: "'u execution \<Rightarrow> 'u execution \<Rightarrow> bool" where
  "futures_kept ex ex' \<longleftrightarrow> list_kept (ex_futures ex) (ex_futures ex')"

lemma future_kept_refl [simp]: "future_kept fu fu"
  by (simp add: future_kept_def)

lemma list_kept_refl [simp]: "list_kept fs fs"
  by (simp add: list_kept_def)

lemma list_kept_trans: "list_kept fs fs' \<Longrightarrow> list_kept fs' fs'' \<Longrightarrow> list_kept fs fs''"
  unfolding list_kept_def future_kept_def by (metis order_less_le_trans order_trans)

lemma list_kept_update:
  "i < length fs \<Longrightarrow> future_kept (fs ! i) fu \<Longrightarrow> list_kept fs (fs[i := fu])"
  by (auto simp: list_kept_def nth_list_update)

lemma list_kept_append [simp]: "list_kept fs (fs @ gs)"
  by (simp add: list_kept_def nth_append)

lemma set_futures_kept: "set_futures v e work fs = (fs', p) \<Longrightarrow> list_kept fs fs'"
proof (induction v e work fs arbitrary: fs' p rule: set_futures.induct)
  case (2 v e f work fs)
  show ?case
  proof (cases "f \<ge> length fs \<or> fu_ready (fs ! f)")
    case True
    with 2 show ?thesis by (auto split: if_splits)
  next
    case False
    then have "list_kept fs (fs[f := \<lparr>fu_ready = True, fu_value = v, fu_err = e, fu_chained = []\<rparr>])"
      by (intro list_kept_update) (auto simp: future_kept_def)
    with 2 False show ?thesis by (auto intro: list_kept_trans)
  qed
qed simp

lemma set_future_frame: "fst (set_future ex f v e) = ex\<lparr>ex_futures := ex_futures (fst (set_future ex f v e))\<rparr>"
  by (simp add: set_future_def split: prod.splits)

lemma set_future_kept: "list_kept (ex_futures ex) (ex_futures (fst (set_future ex f v e)))"
  using set_futures_kept
  by (auto simp: set_future_def simp del: set_futures.simps split: prod.splits)

lemma futures_keptI: "ex_futures ex' = ex_futures ex \<Longrightarrow> futures_kept ex ex'"
  by (simp add: futures_kept_def)

interpretation once_dispatch: dispatch_law futures_kept
proof
  show "futures_kept ex ex' \<Longrightarrow> futures_kept ex' ex'' \<Longrightarrow> futures_kept ex ex''" for ex ex' ex'' :: "'u execution"
    unfolding futures_kept_def by (rule list_kept_trans)
  show "futures_kept ex (fst (set_future ex f v e))" for ex :: "'u execution" and f v e
    unfolding futures_kept_def by (rule set_future_kept)
  show "futures_kept ex (append_chained ex g f)"
    if "g < length (ex_futures ex)" "\<not> fu_ready (ex_futures ex ! g)" for ex :: "'u execution" and f g
    using that by (simp add: futures_kept_def append_chained_def list_kept_update future_kept_def)
qed (simp_all add: futures_kept_def)

interpretation once: history_law futures_kept
proof
  show "futures_kept ex (fst (deliver ex name input))" for ex :: "'u execution" and name input
  proof (rule deliver_cases [of ex name input])
    fix w ws ch
    assume "fst (deliver ex name input) =
        fst (set_future (put_channel (ensure_channel ex name) name (ch\<lparr>sch_waiters := ws\<rparr>)) w
               (VPayloads input) None)"
    then show ?thesis
      using set_future_kept [of "put_channel (ensure_channel ex name) name (ch\<lparr>sch_waiters := ws\<rparr>)" w]
      by (simp add: futures_kept_def)
  qed (simp add: futures_kept_def)
qed (simp_all add: futures_kept_def)

section \<open>Signals and their receivers\<close>

text \<open>A channel with a buffered signal has no receiver still waiting.\<close>

definition channel_ok :: "'u execution \<Rightarrow> channel \<Rightarrow> bool" where
  "channel_ok ex ch \<longleftrightarrow> sch_buffer ch = [] \<or> (\<forall>w \<in> set (sch_waiters ch). is_ready ex w)"

definition channels_ok :: "'u execution \<Rightarrow> bool" where
  "channels_ok ex \<longleftrightarrow> (\<forall>name ch. map_of (ex_channels ex) name = Some ch \<longrightarrow> channel_ok ex ch)"

definition signals_kept :: "'u execution \<Rightarrow> 'u execution \<Rightarrow> bool" where
  "signals_kept ex ex' \<longleftrightarrow> (channels_ok ex \<longrightarrow> channels_ok ex')"

lemma is_ready_kept: "list_kept (ex_futures ex) (ex_futures ex') \<Longrightarrow> is_ready ex w \<Longrightarrow> is_ready ex' w"
  by (auto simp: is_ready_def list_kept_def future_kept_def)

lemma channel_ok_kept:
  "list_kept (ex_futures ex) (ex_futures ex') \<Longrightarrow> channel_ok ex ch \<Longrightarrow> channel_ok ex' ch"
  using is_ready_kept by (auto simp: channel_ok_def)

lemma channels_ok_kept:
  "list_kept (ex_futures ex) (ex_futures ex') \<Longrightarrow> ex_channels ex' = ex_channels ex \<Longrightarrow>
   channels_ok ex \<Longrightarrow> channels_ok ex'"
  using channel_ok_kept by (fastforce simp: channels_ok_def)

lemma channels_ok_put:
  "channels_ok ex \<Longrightarrow> channel_ok ex ch \<Longrightarrow> channels_ok (put_channel ex name ch)"
  by (auto simp: channels_ok_def channel_ok_def is_ready_def)

lemma channels_ok_ensure: "channels_ok ex \<Longrightarrow> channels_ok (ensure_channel ex name)"
  by (auto simp: ensure_channel_def channels_ok_def channel_ok_def is_ready_def split: option.splits)

lemma channels_okD: "channels_ok ex \<Longrightarrow> map_of (ex_channels ex) name = Some ch \<Longrightarrow> channel_ok ex ch"
  by (simp add: channels_ok_def)

lemma pop_waiter_None: "pop_waiter ex ws = (None, ws') \<Longrightarrow> ws' = [] \<and> (\<forall>w \<in> set ws. is_ready ex w)"
  by (induction ws) (auto split: if_splits)

lemma pop_waiter_Some:
  "pop_waiter ex ws = (Some w, ws') \<Longrightarrow>
     \<exists>before. ws = before @ w # ws' \<and> (\<forall>x \<in> set before. is_ready ex x) \<and> \<not> is_ready ex w"
proof (induction ws)
  case (Cons x ws)
  show ?case
  proof (cases "is_ready ex x")
    case True
    with Cons obtain before where "ws = before @ w # ws'" "\<forall>x \<in> set before. is_ready ex x"
        "\<not> is_ready ex w" by auto
    with True show ?thesis by (intro exI [of _ "x # before"]) auto
  next
    case False
    with Cons.prems show ?thesis by (intro exI [of _ "[]"]) auto
  qed
qed simp

lemma channels_ok_deliver:
  assumes "channels_ok ex"
  shows "channels_ok (fst (deliver ex name input))"
proof (rule deliver_cases [of ex name input])
  fix w ws ch
  let ?ex = "ensure_channel ex name"
  let ?put = "put_channel ?ex name (ch\<lparr>sch_waiters := ws\<rparr>)"
  assume ch: "map_of (ex_channels ?ex) name = Some ch" and pop: "pop_waiter ?ex (sch_waiters ch) = (Some w, ws)"
    and d: "fst (deliver ex name input) = fst (set_future ?put w (VPayloads input) None)"
  have "channel_ok ?ex ch" using channels_okD [OF channels_ok_ensure [OF assms] ch] .
  with pop_waiter_Some [OF pop] have "channel_ok ?ex (ch\<lparr>sch_waiters := ws\<rparr>)"
    by (auto simp: channel_ok_def)
  then have "channels_ok ?put" by (rule channels_ok_put [OF channels_ok_ensure [OF assms]])
  then show ?thesis unfolding d by (rule channels_ok_kept [OF set_future_kept, rotated]) simp
next
  fix ws ch
  let ?ex = "ensure_channel ex name"
  assume pop: "pop_waiter ?ex (sch_waiters ch) = (None, ws)"
    and d: "fst (deliver ex name input) = put_channel ?ex name
         (ch\<lparr>sch_waiters := ws, sch_buffer := sch_buffer ch @ [input]\<rparr>)"
  from pop_waiter_None [OF pop]
  show ?thesis unfolding d by (intro channels_ok_put channels_ok_ensure assms) (simp add: channel_ok_def)
qed

lemma signals_keptI:
  "list_kept (ex_futures ex) (ex_futures ex') \<Longrightarrow> ex_channels ex' = ex_channels ex \<Longrightarrow>
   signals_kept ex ex'"
  unfolding signals_kept_def using channels_ok_kept by blast

interpretation delivered_dispatch: dispatch_law signals_kept
proof
  show "signals_kept ex ex' \<Longrightarrow> signals_kept ex' ex'' \<Longrightarrow> signals_kept ex ex''"
    for ex ex' ex'' :: "'u execution"
    by (simp add: signals_kept_def)
  show "signals_kept ex (fst (set_future ex f v e))" for ex :: "'u execution" and f v e
    by (rule signals_keptI [OF set_future_kept]) simp
  show "signals_kept ex (append_chained ex g f)"
    if "g < length (ex_futures ex)" "\<not> fu_ready (ex_futures ex ! g)" for ex :: "'u execution" and f g
    using that
    by (intro signals_keptI) (simp_all add: append_chained_def list_kept_update future_kept_def)
  show "signals_kept ex (ensure_channel ex name)" for ex :: "'u execution" and name
    using channels_ok_ensure by (auto simp: signals_kept_def)
  show "signals_kept ex (put_channel ex name ch')"
    if "map_of (ex_channels ex) name = Some ch" "take_signal ch = Some (input, ch')"
    for ex :: "'u execution" and name ch input ch'
    unfolding signals_kept_def
  proof
    assume ok: "channels_ok ex"
    from channels_okD [OF ok that(1)] that(2) have "channel_ok ex ch'"
      by (auto simp: channel_ok_def take_signal_def split: list.splits)
    then show "channels_ok (put_channel ex name ch')" by (rule channels_ok_put [OF ok])
  qed
  show "signals_kept ex (add_waiter ex name ch)"
    if "map_of (ex_channels ex) name = Some ch" "sch_buffer ch = []" for ex :: "'u execution" and name ch
    unfolding signals_kept_def add_waiter_def
  proof
    assume "channels_ok ex"
    then have "channels_ok (snd (new_future ex))" by (rule channels_ok_kept [rotated 2]) simp_all
    then show "channels_ok (put_channel (snd (new_future ex)) name
        (ch\<lparr>sch_waiters := sch_waiters ch @ [fst (new_future ex)]\<rparr>))"
      using that(2) by (intro channels_ok_put) (simp_all add: channel_ok_def)
  qed
  show "signals_kept ex (remove_waiter ex name w)" for ex :: "'u execution" and name w
    unfolding signals_kept_def
  proof
    assume ok: "channels_ok ex"
    show "channels_ok (remove_waiter ex name w)"
    proof (cases "map_of (ex_channels ex) name")
      case (Some ch)
      from channels_okD [OF ok Some] have "channel_ok ex (ch\<lparr>sch_waiters := remove1 w (sch_waiters ch)\<rparr>)"
        by (auto simp: channel_ok_def dest: notin_set_remove1)
      with Some ok show ?thesis by (simp add: remove_waiter_def channels_ok_put)
    qed (simp add: remove_waiter_def ok)
  qed
qed (rule signals_keptI; simp)+

interpretation delivered: history_law signals_kept
proof
  show "signals_kept ex (fst (deliver ex name input))" for ex :: "'u execution" and name input
    unfolding signals_kept_def by (intro impI channels_ok_deliver)
qed (rule signals_keptI; simp)+

section \<open>Sequence numbers\<close>

definition command_seqs :: "command list \<Rightarrow> 32 word list" where
  "command_seqs cs = List.map_filter command_seq cs"

lemma command_seqs_simps [simp]:
  "command_seqs [] = []"
  "command_seqs (c # cs) = (case command_seq c of None \<Rightarrow> command_seqs cs | Some s \<Rightarrow> s # command_seqs cs)"
  "command_seqs (cs @ ds) = command_seqs cs @ command_seqs ds"
  by (simp_all add: command_seqs_def List.map_filter_def split: option.splits)

definition seqs_from :: "32 word \<Rightarrow> nat \<Rightarrow> 32 word list" where
  "seqs_from n k = map (\<lambda>i. n + of_nat (Suc i)) [0..<k]"

lemma seqs_from_append: "seqs_from n (k + l) = seqs_from n k @ seqs_from (n + of_nat k) l"
proof -
  have "map (\<lambda>i. n + of_nat (Suc i)) [k..<k + l] = map (\<lambda>i. n + of_nat k + of_nat (Suc i)) [0..<l]"
    by (induction l) (simp_all add: algebra_simps)
  then show ?thesis by (simp add: seqs_from_def upt_add_eq_append [of 0 k l])
qed

text \<open>The commands appended carry the next sequence numbers, and the counter has moved past them.\<close>

definition emitted :: "'u execution \<Rightarrow> 'u execution \<Rightarrow> command list" where
  "emitted ex ex' = drop (length (ex_commands ex)) (ex_commands ex')"

definition numbered :: "'u execution \<Rightarrow> 'u execution \<Rightarrow> bool" where
  "numbered ex ex' \<longleftrightarrow>
     (\<exists>cs k. ex_commands ex' = ex_commands ex @ cs \<and> command_seqs cs = seqs_from (ex_next_seq ex) k \<and>
        ex_next_seq ex' = ex_next_seq ex + of_nat k)"

lemma numberedI: "ex_commands ex' = ex_commands ex @ cs \<Longrightarrow> command_seqs cs = [] \<Longrightarrow>
    ex_next_seq ex' = ex_next_seq ex \<Longrightarrow> numbered ex ex'"
  unfolding numbered_def by (intro exI [of _ cs] exI [of _ 0]) (simp add: seqs_from_def)

lemma numbered_same:
  "ex_commands ex' = ex_commands ex \<Longrightarrow> ex_next_seq ex' = ex_next_seq ex \<Longrightarrow> numbered ex ex'"
  by (rule numberedI [of _ _ "[]"]) simp_all

lemma numbered_trans:
  assumes "numbered ex ex'" and "numbered ex' ex''"
  shows "numbered ex ex''"
proof -
  from assms obtain cs k cs' k' where
    "ex_commands ex' = ex_commands ex @ cs" "command_seqs cs = seqs_from (ex_next_seq ex) k"
    "ex_next_seq ex' = ex_next_seq ex + of_nat k"
    "ex_commands ex'' = ex_commands ex' @ cs'" "command_seqs cs' = seqs_from (ex_next_seq ex') k'"
    "ex_next_seq ex'' = ex_next_seq ex' + of_nat k'"
    unfolding numbered_def by blast
  then show ?thesis
    unfolding numbered_def
    by (intro exI [of _ "cs @ cs'"] exI [of _ "k + k'"]) (simp add: seqs_from_append)
qed

lemma settled_commands:
  obtains c where "command_kind c = None"
    "ex_commands (settle_coroutine rt ex i frame r) = ex_commands ex @ [c]"
  | "ex_commands (settle_coroutine rt ex i frame r) = ex_commands ex"
proof -
  have "ex_commands (settle_coroutine rt ex i frame r) = ex_commands ex \<or>
    (\<exists>c. command_kind c = None \<and> ex_commands (settle_coroutine rt ex i frame r) = ex_commands ex @ [c])"
    by (auto simp: settle_coroutine_def finish_coroutine_def coroutine_panic_def fail_workflow_def
        update_completed_def update_rejected_def
        split: run_end.splits frame.splits gores.splits)
  then show thesis using that by blast
qed

lemma command_seqs_single: "command_kind c = None \<Longrightarrow> command_seqs [c] = []"
  by (simp add: command_seq_kind [symmetric])

lemma numbered_settle: "numbered ex (settle_coroutine rt ex i frame r)"
proof (rule settled_commands [of rt ex i frame r])
  fix c
  assume "command_kind c = None" "ex_commands (settle_coroutine rt ex i frame r) = ex_commands ex @ [c]"
  then show ?thesis by (intro numberedI [of _ _ "[c]"] command_seqs_single) simp_all
qed (rule numbered_same; simp)

lemma numbered_schedule:
  assumes "schedulable ex kind f s c"
  shows "numbered ex (schedule ex kind f s w c)"
  using assms unfolding numbered_def schedulable_def
  by (intro exI [of _ "[c]"] exI [of _ 1]) (simp add: seqs_from_def)

interpretation sequenced_dispatch: dispatch_law numbered
proof
  show "numbered ex (fail_workflow ex e)" for ex :: "'u execution" and e
  proof (cases "ex_terminal ex")
    case False
    then show ?thesis
      by (intro numberedI [of _ _ "[FailWorkflow (new_failure e ''GoWasmWorkflowError'' [])]"])
        (simp_all add: fail_workflow_def)
  qed (auto simp: fail_workflow_def intro: numbered_same)
qed (auto intro: numbered_trans numbered_same numbered_settle numbered_schedule)

interpretation sequenced: activation_law numbered UNIV
proof
  show "numbered ex (emit ex c)" if "command_kind c = None" for ex :: "'u execution" and c
    using command_seqs_single [OF that] by (intro numberedI [of _ _ "[c]"]) simp_all
qed (auto intro: numbered_trans numbered_same numbered_settle numbered_schedule)

section \<open>Outstanding operations\<close>

text \<open>
  Outside the set \<open>D\<close> of operations that may be resolved, the outstanding operations after the
  changes are those outstanding before and those the appended commands scheduled, with their kinds.
\<close>

definition scheduled_by :: "command list \<Rightarrow> 32 word \<Rightarrow> operation_kind \<Rightarrow> bool" where
  "scheduled_by cs seq kind \<longleftrightarrow> (\<exists>c \<in> set cs. command_seq c = Some seq \<and> command_kind c = Some kind)"

definition accounted :: "32 word set \<Rightarrow> 'u execution \<Rightarrow> 'u execution \<Rightarrow> bool" where
  "accounted D ex ex' \<longleftrightarrow>
     (\<exists>cs. ex_commands ex' = ex_commands ex @ cs \<and>
        (\<forall>seq. seq \<notin> D \<longrightarrow>
           (map_of (ex_operations ex') seq \<noteq> None \<longleftrightarrow>
              map_of (ex_operations ex) seq \<noteq> None \<or> seq \<in> set (command_seqs cs))) \<and>
        (\<forall>seq op. map_of (ex_operations ex') seq = Some op \<longrightarrow>
           map_of (ex_operations ex) seq = Some op \<or> scheduled_by cs seq (op_kind op)))"

lemma accountedI:
  assumes "ex_commands ex' = ex_commands ex @ cs"
    and "\<And>seq. seq \<notin> D \<Longrightarrow> map_of (ex_operations ex') seq \<noteq> None \<longleftrightarrow>
        map_of (ex_operations ex) seq \<noteq> None \<or> seq \<in> set (command_seqs cs)"
    and "\<And>seq op. map_of (ex_operations ex') seq = Some op \<Longrightarrow>
        map_of (ex_operations ex) seq = Some op \<or> scheduled_by cs seq (op_kind op)"
  shows "accounted D ex ex'"
  unfolding accounted_def using assms by (intro exI [of _ cs]) blast

lemma accounted_plain:
  assumes "ex_commands ex' = ex_commands ex @ cs" and "command_seqs cs = []"
    and "ex_operations ex' = ex_operations ex"
  shows "accounted D ex ex'"
  using assms by (intro accountedI [of ex' ex cs]) simp_all

lemma accounted_same:
  "ex_commands ex' = ex_commands ex \<Longrightarrow> ex_operations ex' = ex_operations ex \<Longrightarrow> accounted D ex ex'"
  by (rule accounted_plain [of _ _ "[]"]) simp_all

lemma accounted_trans:
  assumes "accounted D ex ex'" and "accounted D ex' ex''"
  shows "accounted D ex ex''"
proof -
  from assms(1) obtain cs where a: "ex_commands ex' = ex_commands ex @ cs"
    "\<And>seq. seq \<notin> D \<Longrightarrow> map_of (ex_operations ex') seq \<noteq> None \<longleftrightarrow>
        map_of (ex_operations ex) seq \<noteq> None \<or> seq \<in> set (command_seqs cs)"
    "\<And>seq op. map_of (ex_operations ex') seq = Some op \<Longrightarrow>
        map_of (ex_operations ex) seq = Some op \<or> scheduled_by cs seq (op_kind op)"
    unfolding accounted_def by blast
  from assms(2) obtain cs' where b: "ex_commands ex'' = ex_commands ex' @ cs'"
    "\<And>seq. seq \<notin> D \<Longrightarrow> map_of (ex_operations ex'') seq \<noteq> None \<longleftrightarrow>
        map_of (ex_operations ex') seq \<noteq> None \<or> seq \<in> set (command_seqs cs')"
    "\<And>seq op. map_of (ex_operations ex'') seq = Some op \<Longrightarrow>
        map_of (ex_operations ex') seq = Some op \<or> scheduled_by cs' seq (op_kind op)"
    unfolding accounted_def by blast
  show ?thesis
  proof (rule accountedI [of ex'' ex "cs @ cs'"])
    show "ex_commands ex'' = ex_commands ex @ cs @ cs'" using a(1) b(1) by simp
    fix seq
    show "map_of (ex_operations ex'') seq \<noteq> None \<longleftrightarrow>
        map_of (ex_operations ex) seq \<noteq> None \<or> seq \<in> set (command_seqs (cs @ cs'))" if "seq \<notin> D"
      using a(2) [OF that] b(2) [OF that] by auto
    fix op
    show "map_of (ex_operations ex) seq = Some op \<or> scheduled_by (cs @ cs') seq (op_kind op)"
      if "map_of (ex_operations ex'') seq = Some op"
      using a(3) [of seq op] b(3) [OF that] by (auto simp: scheduled_by_def)
  qed
qed

lemma accounted_settle: "accounted D ex (settle_coroutine rt ex i frame r)"
proof (rule settled_commands [of rt ex i frame r])
  fix c
  assume "command_kind c = None" "ex_commands (settle_coroutine rt ex i frame r) = ex_commands ex @ [c]"
  then show ?thesis by (intro accounted_plain [of _ _ "[c]"] command_seqs_single) simp_all
qed (rule accounted_same; simp)

lemma accounted_schedule:
  assumes "schedulable ex kind f s c"
  shows "accounted D ex (schedule ex kind f s w c)"
  using assms
  by (intro accountedI [of _ _ "[c]"])
    (auto simp: schedulable_def scheduled_by_def split: if_splits)

interpretation bookkeeping_dispatch: dispatch_law "accounted D" for D
proof
  show "accounted D ex (fail_workflow ex e)" for ex :: "'u execution" and e
  proof (cases "ex_terminal ex")
    case False
    then show ?thesis
      by (intro accounted_plain [of _ _ "[FailWorkflow (new_failure e ''GoWasmWorkflowError'' [])]"])
        (simp_all add: fail_workflow_def)
  qed (auto simp: fail_workflow_def intro: accounted_same)
qed (auto intro: accounted_trans accounted_same accounted_settle accounted_schedule)

interpretation bookkeeping: activation_law "accounted D" D for D
proof
  show "accounted D ex (emit ex c)" if "command_kind c = None" for ex :: "'u execution" and c
    using command_seqs_single [OF that] by (intro accounted_plain [of _ _ "[c]"]) simp_all
  show "accounted D ex (delete_operation ex seq)" if "seq \<in> D" for ex :: "'u execution" and seq
    using that by (intro accountedI [of _ _ "[]"]) (auto split: if_splits)
qed (auto intro: accounted_trans accounted_same accounted_settle accounted_schedule)

end
