(* ===== verification/Workflow_Api.thy ===== *)
theory Workflow_Api
  imports Workflow_Types
begin

text \<open>
  The public package \<open>workflow\<close> (\<open>workflow/*.go\<close>) over the interpreter's calls, and the workflows of
  \<open>cmd/demo/main.go\<close> written with it.

  A typed wrapper holds an interface value that may be nil, \<open>None\<close> here: the zero value of the
  wrapper. A wrapper's type parameter is a \<open>gotype\<close> argument.
\<close>

section \<open>Futures\<close>

definition not_initialized :: goerr where
  "not_initialized = ErrNew ''workflow future is not initialized''"

text \<open>\<open>var result T\<close> and what the call wrote into it.\<close>

definition stored_value :: "gotype \<Rightarrow> stored \<Rightarrow> goval" where
  "stored_value t r = (case snd r of None \<Rightarrow> zero_value t | Some v \<Rightarrow> v)"

definition future_get ::
    "gotype \<Rightarrow> fid option \<Rightarrow> ctx option \<Rightarrow> (goval \<times> goerr option \<Rightarrow> 'u prog) \<Rightarrow> 'u prog" where
  "future_get t f c k = (case f of
     None \<Rightarrow> k (zero_value t, Some not_initialized)
   | Some g \<Rightarrow> PGet c g (Target t (zero_value t)) (\<lambda>r. k (stored_value t r, fst r)))"

definition future_wait ::
    "fid option \<Rightarrow> ctx option \<Rightarrow> (goerr option \<Rightarrow> 'u prog) \<Rightarrow> 'u prog" where
  "future_wait f c k = (case f of
     None \<Rightarrow> k (Some not_initialized) | Some g \<Rightarrow> PGet c g NilTarget (\<lambda>r. k (fst r)))"

definition future_is_ready :: "fid option \<Rightarrow> (bool \<Rightarrow> 'u prog) \<Rightarrow> 'u prog" where
  "future_is_ready f k = (case f of None \<Rightarrow> k False | Some g \<Rightarrow> PIsReady g k)"

definition settable_set :: "fid \<Rightarrow> goval \<Rightarrow> goerr option \<Rightarrow> 'u prog \<Rightarrow> 'u prog" where
  "settable_set s v e k = PSet SetBoth s v e k"

definition settable_set_value :: "fid \<Rightarrow> goval \<Rightarrow> 'u prog \<Rightarrow> 'u prog" where
  "settable_set_value s v k = PSet SetValueOnly s v None k"

definition settable_set_error :: "fid \<Rightarrow> goerr option \<Rightarrow> 'u prog \<Rightarrow> 'u prog" where
  "settable_set_error s e k = PSet SetErrorOnly s VNil e k"

definition settable_chain :: "fid \<Rightarrow> fid option \<Rightarrow> 'u prog \<Rightarrow> 'u prog" where
  "settable_chain s source k = PChain s source k"

definition go_named :: "ctx option \<Rightarrow> string \<Rightarrow> (ctx \<Rightarrow> 'u prog) option \<Rightarrow> 'u prog \<Rightarrow> 'u prog" where
  "go_named c name body k = PGo c name body k"

definition go_anonymous :: "ctx option \<Rightarrow> (ctx \<Rightarrow> 'u prog) option \<Rightarrow> 'u prog \<Rightarrow> 'u prog" where
  "go_anonymous c body k = go_named c [] body k"

text \<open>\<open>NewFuture\<close>: the future and the settable are the same object.\<close>

definition api_new_future :: "ctx option \<Rightarrow> (fid option \<times> fid \<Rightarrow> 'u prog) \<Rightarrow> 'u prog" where
  "api_new_future c k = PNewFuture c (\<lambda>f. k (Some f, f))"

text \<open>\<open>Context.sleep\<close>: a timer, waited for without a result.\<close>

definition sleep :: "ctx option \<Rightarrow> int \<Rightarrow> (goerr option \<Rightarrow> 'u prog) \<Rightarrow> 'u prog" where
  "sleep c d k = PNewTimer c d (\<lambda>f. PGet c f NilTarget (\<lambda>r. k (fst r)))"

section \<open>Activities and child workflows\<close>

record activity_call =
  ac_activity_id :: string
  ac_task_queue :: string
  ac_start_to_close :: int
  ac_disable_eager :: bool

record local_activity_call =
  lc_activity_id :: string
  lc_schedule_to_close :: int
  lc_schedule_to_start :: int
  lc_start_to_close :: int
  lc_retry_threshold :: int

record child_call =
  cl_namespace :: string
  cl_workflow_id :: string
  cl_task_queue :: string
  cl_execution_timeout :: int
  cl_run_timeout :: int
  cl_task_timeout :: int
  cl_parent_close_policy :: int
  cl_id_reuse_policy :: int

definition internal_activity_options :: "string \<Rightarrow> activity_call \<Rightarrow> activity_options" where
  "internal_activity_options name o' =
     \<lparr>ao_activity_id = ac_activity_id o', ao_activity_type = name, ao_task_queue = ac_task_queue o',
      ao_start_to_close = ac_start_to_close o', ao_disable_eager = ac_disable_eager o'\<rparr>"

definition internal_local_activity_options ::
    "string \<Rightarrow> local_activity_call \<Rightarrow> local_activity_options" where
  "internal_local_activity_options name o' =
     \<lparr>lo_activity_id = lc_activity_id o', lo_activity_type = name,
      lo_schedule_to_close = lc_schedule_to_close o', lo_schedule_to_start = lc_schedule_to_start o',
      lo_start_to_close = lc_start_to_close o', lo_retry_threshold = lc_retry_threshold o'\<rparr>"

definition internal_child_options :: "string \<Rightarrow> child_call \<Rightarrow> child_options" where
  "internal_child_options name o' =
     \<lparr>ch_namespace = cl_namespace o', ch_workflow_id = cl_workflow_id o', ch_workflow_type = name,
      ch_task_queue = cl_task_queue o', ch_execution_timeout = cl_execution_timeout o',
      ch_run_timeout = cl_run_timeout o', ch_task_timeout = cl_task_timeout o',
      ch_parent_close_policy = cl_parent_close_policy o', ch_id_reuse_policy = cl_id_reuse_policy o'\<rparr>"

text \<open>\<open>operationName\<close>: the name \<open>functionname.Get\<close> derives, or a panic.\<close>

definition operation_name :: "goerr + string \<Rightarrow> (string \<Rightarrow> 'u prog) \<Rightarrow> 'u prog" where
  "operation_name r k = (case r of
     Inl e \<Rightarrow> PPanic (''workflow execute '' @ err_msg e) | Inr name \<Rightarrow> k name)"

definition api_execute_activity ::
    "ctx option \<Rightarrow> goerr + string \<Rightarrow> activity_call \<Rightarrow> goval list \<Rightarrow> (fid option \<Rightarrow> 'u prog) \<Rightarrow> 'u prog" where
  "api_execute_activity c activity o' arguments k =
     operation_name activity (\<lambda>name.
       PActivity c (internal_activity_options name o') arguments (\<lambda>f. k (Some f)))"

definition api_execute_local_activity ::
    "ctx option \<Rightarrow> goerr + string \<Rightarrow> local_activity_call \<Rightarrow> goval list \<Rightarrow>
     (fid option \<Rightarrow> 'u prog) \<Rightarrow> 'u prog" where
  "api_execute_local_activity c activity o' arguments k =
     operation_name activity (\<lambda>name.
       PLocalActivity c (internal_local_activity_options name o') arguments (\<lambda>f. k (Some f)))"

text \<open>The answer of the child calls is the result future and the execution future.\<close>

definition api_execute_child ::
    "ctx option \<Rightarrow> goerr + string \<Rightarrow> child_call \<Rightarrow> goval list \<Rightarrow>
     (fid option \<Rightarrow> fid option \<Rightarrow> 'u prog) \<Rightarrow> 'u prog" where
  "api_execute_child c child o' arguments k =
     operation_name child (\<lambda>name.
       PChild c (internal_child_options name o') arguments (\<lambda>f s. k (Some f) (Some s)))"

section \<open>Signals, queries and updates\<close>

definition channel_not_initialized :: goerr where
  "channel_not_initialized = ErrNew ''workflow signal channel is not initialized''"

definition get_signal_channel :: "ctx option \<Rightarrow> string \<Rightarrow> (string option \<Rightarrow> 'u prog) \<Rightarrow> 'u prog" where
  "get_signal_channel c name k = PSignalChannel c name (k (Some name))"

definition channel_receive ::
    "gotype \<Rightarrow> string option \<Rightarrow> ctx option \<Rightarrow> (goval \<times> goerr option \<Rightarrow> 'u prog) \<Rightarrow> 'u prog" where
  "channel_receive t ch c k = (case ch of
     None \<Rightarrow> k (zero_value t, Some channel_not_initialized)
   | Some name \<Rightarrow>
       PReceive c name (Target t (zero_value t)) (\<lambda>r.
         case fst r of Some e \<Rightarrow> k (zero_value t, Some e) | None \<Rightarrow> k (stored_value t r, None)))"

definition channel_receive_async ::
    "gotype \<Rightarrow> string option \<Rightarrow> (goval \<times> bool \<times> goerr option \<Rightarrow> 'u prog) \<Rightarrow> 'u prog" where
  "channel_receive_async t ch k = (case ch of
     None \<Rightarrow> k (zero_value t, False, Some channel_not_initialized)
   | Some name \<Rightarrow>
       PReceiveAsync name (Target t (zero_value t)) (\<lambda>(ok, r).
         case fst r of
           Some e \<Rightarrow> k (zero_value t, ok, Some e)
         | None \<Rightarrow> k (stored_value t r, ok, None)))"

definition channel_len :: "string option \<Rightarrow> (nat \<Rightarrow> 'u prog) \<Rightarrow> 'u prog" where
  "channel_len ch k = (case ch of None \<Rightarrow> k 0 | Some name \<Rightarrow> PLen name k)"

definition api_set_query_handler ::
    "ctx option \<Rightarrow> string \<Rightarrow> 'u code gofunc option \<Rightarrow> (goerr option \<Rightarrow> 'u prog) \<Rightarrow> 'u prog" where
  "api_set_query_handler c query_type handler k = PSetQuery c query_type handler k"

definition set_update_handler_with_options ::
    "ctx option \<Rightarrow> string \<Rightarrow> 'u code gofunc option \<Rightarrow> 'u code gofunc option \<Rightarrow>
     (goerr option \<Rightarrow> 'u prog) \<Rightarrow> 'u prog" where
  "set_update_handler_with_options c name handler validator k = PSetUpdate c name handler validator k"

definition api_set_update_handler ::
    "ctx option \<Rightarrow> string \<Rightarrow> 'u code gofunc option \<Rightarrow> (goerr option \<Rightarrow> 'u prog) \<Rightarrow> 'u prog" where
  "api_set_update_handler c name handler k = set_update_handler_with_options c name handler None k"

definition get_current_update_info :: "ctx option \<Rightarrow> (update_info option \<Rightarrow> 'u prog) \<Rightarrow> 'u prog" where
  "get_current_update_info c k = PUpdateInfo c k"

section \<open>The demo workflows\<close>

definition demo_task_queue :: string where "demo_task_queue = ''go-wasm-demo''"

definition seconds :: "int \<Rightarrow> int" where "seconds n = n * 1000000000"

text \<open>The names the Go runtime gives the demo's functions.\<close>

definition demo_runtime_name :: "string \<Rightarrow> string option" where
  "demo_runtime_name f = Some (''main.'' @ f)"

definition demo_function :: "string \<Rightarrow> string gofunc" where
  "demo_function f = GoFunc [] [] (Some f)"

definition demo_name :: "codec_lib \<Rightarrow> string \<Rightarrow> string \<Rightarrow> goerr + string" where
  "demo_name lib kind f = function_name lib demo_runtime_name kind (Some (demo_function f))"

record greeting_status =
  gs_name :: string
  gs_state :: string

type_synonym demo = "greeting_status prog"

definition string_of :: "goval \<Rightarrow> string" where
  "string_of v = (case v of VString s \<Rightarrow> s | _ \<Rightarrow> [])"

definition first_argument :: "goval list \<Rightarrow> string" where
  "first_argument args = (case args of [] \<Rightarrow> [] | a # as \<Rightarrow> string_of a)"

definition demo_activity_call :: activity_call where
  "demo_activity_call = \<lparr>ac_activity_id = [], ac_task_queue = demo_task_queue,
     ac_start_to_close = seconds 10, ac_disable_eager = False\<rparr>"

definition demo_child_call :: child_call where
  "demo_child_call = \<lparr>cl_namespace = [], cl_workflow_id = [], cl_task_queue = demo_task_queue,
     cl_execution_timeout = 0, cl_run_timeout = 0, cl_task_timeout = 0, cl_parent_close_policy = 0,
     cl_id_reuse_policy = 0\<rparr>"

definition timer_greeting :: "codec_lib \<Rightarrow> ctx option \<Rightarrow> goval list \<Rightarrow> demo" where
  "timer_greeting lib c args =
     sleep c (seconds 5) (\<lambda>e.
       case e of
         Some err \<Rightarrow> PReturn (VString []) (Some err)
       | None \<Rightarrow>
           api_execute_activity c (demo_name lib ''activity'' ''greet'') demo_activity_call
             [VString (first_argument args)] (\<lambda>f.
             future_get TString f c (\<lambda>(v, err). PReturn v err)))"

definition local_activity_greeting :: "codec_lib \<Rightarrow> ctx option \<Rightarrow> goval list \<Rightarrow> demo" where
  "local_activity_greeting lib c args =
     api_execute_local_activity c (demo_name lib ''activity'' ''localGreet'')
       \<lparr>lc_activity_id = [], lc_schedule_to_close = 0, lc_schedule_to_start = 0,
        lc_start_to_close = seconds 10, lc_retry_threshold = 0\<rparr>
       [VString (first_argument args)] (\<lambda>f.
       future_get TString f c (\<lambda>(v, err). PReturn v err))"

definition child_workflow_greeting :: "codec_lib \<Rightarrow> ctx option \<Rightarrow> goval list \<Rightarrow> demo" where
  "child_workflow_greeting lib c args =
     api_execute_child c (demo_name lib ''workflow'' ''childGreeting'') demo_child_call
       [VString (first_argument args)] (\<lambda>f s.
       future_get TString f c (\<lambda>(v, err). PReturn v err))"

definition child_greeting :: "ctx option \<Rightarrow> goval list \<Rightarrow> demo" where
  "child_greeting c args =
     PReturn (VString (''Hello, '' @ first_argument args @ '' from a child workflow!'')) None"

text \<open>The closure \<open>startBranch\<close> builds.\<close>

definition start_branch :: "codec_lib \<Rightarrow> string \<Rightarrow> string \<Rightarrow> fid \<Rightarrow> ctx \<Rightarrow> demo" where
  "start_branch lib name branch settable cx =
     api_execute_activity (Some cx) (demo_name lib ''activity'' ''greet'') demo_activity_call
       [VString (name @ '' '' @ branch)] (\<lambda>activity_future.
     api_execute_child (Some cx) (demo_name lib ''workflow'' ''childGreeting'') demo_child_call
       [VString (name @ '' '' @ branch)] (\<lambda>child started.
     future_get TString activity_future (Some cx) (\<lambda>(activity_result, err).
       case err of
         Some e \<Rightarrow> settable_set_error settable (Some e) (PReturn VNil None)
       | None \<Rightarrow>
           future_get TString child (Some cx) (\<lambda>(child_result, err).
             case err of
               Some e \<Rightarrow> settable_set_error settable (Some e) (PReturn VNil None)
             | None \<Rightarrow>
                 settable_set_value settable
                   (VString (string_of activity_result @ '' / '' @ string_of child_result))
                   (PReturn VNil None)))))"

definition parallel_greeting :: "codec_lib \<Rightarrow> ctx option \<Rightarrow> goval list \<Rightarrow> demo" where
  "parallel_greeting lib c args =
     api_new_future c (\<lambda>(first_done, first_settable).
     api_new_future c (\<lambda>(second_done, second_settable).
     go_named c ''first-branch'' (Some (start_branch lib (first_argument args) ''one'' first_settable))
    (go_named c ''second-branch'' (Some (start_branch lib (first_argument args) ''two'' second_settable))
    (future_get TString first_done c (\<lambda>(first, err).
       case err of
         Some e \<Rightarrow> PReturn (VString []) (Some e)
       | None \<Rightarrow>
           future_get TString second_done c (\<lambda>(second, err).
             case err of
               Some e \<Rightarrow> PReturn (VString []) (Some e)
             | None \<Rightarrow>
                 PReturn (VString (string_of first @ '' | '' @ string_of second)) None))))))"

definition signal_greeting :: "ctx option \<Rightarrow> goval list \<Rightarrow> demo" where
  "signal_greeting c args =
     get_signal_channel c ''greet'' (\<lambda>ch.
     channel_receive TString ch c (\<lambda>(name, err).
       case err of
         Some e \<Rightarrow> PReturn (VString []) (Some e)
       | None \<Rightarrow>
           PReturn (VString (''Hello, '' @ string_of name @ '' from a workflow signal!'')) None))"

text \<open>The query handlers return the workflow's variable \<open>status\<close>.\<close>

definition status_value :: "greeting_status \<Rightarrow> goval" where
  "status_value s =
     VNamed ''main.greetingStatus'' (VSlice TString [VString (gs_name s), VString (gs_state s)])"

definition status_handler :: "greeting_status code gofunc" where
  "status_handler = GoFunc [] [TNamed ''main.greetingStatus'', TError]
     (Some (\<lambda>c args. PVars (\<lambda>s. (s, PReturn (status_value s) None))))"

definition empty_struct :: gotype where "empty_struct = TNamed ''struct {}''"

definition query_greeting :: "ctx option \<Rightarrow> goval list \<Rightarrow> demo" where
  "query_greeting c args =
     PVars (\<lambda>s. (\<lparr>gs_name = [], gs_state = ''waiting for greet signal''\<rparr>,
     api_set_query_handler c ''status'' (Some status_handler) (\<lambda>e.
       case e of
         Some err \<Rightarrow> PReturn (VString []) (Some err)
       | None \<Rightarrow>
           get_signal_channel c ''greet'' (\<lambda>ch.
           channel_receive TString ch c (\<lambda>(name, err).
             case err of
               Some e \<Rightarrow> PReturn (VString []) (Some e)
             | None \<Rightarrow>
                 PVars (\<lambda>s. (\<lparr>gs_name = string_of name, gs_state = ''waiting for finish signal''\<rparr>,
                 get_signal_channel c ''finish'' (\<lambda>ch2.
                 channel_receive empty_struct ch2 c (\<lambda>(w, err).
                   case err of
                     Some e \<Rightarrow> PReturn (VString []) (Some e)
                   | None \<Rightarrow>
                       PReturn (VString (''Hello, '' @ string_of name @
                                         '' from a queried workflow!'')) None)))))))))"

text \<open>\<open>strings.TrimSpace(name) == ""\<close> for ASCII text.\<close>

definition is_space :: "char \<Rightarrow> bool" where
  "is_space ch \<longleftrightarrow> (let n = of_char ch :: nat in n = 32 \<or> 9 \<le> n \<and> n \<le> 13)"

definition set_name_handler :: "greeting_status code gofunc" where
  "set_name_handler = GoFunc [TWorkflowContext, TString] [TNamed ''main.greetingStatus'', TError]
     (Some (\<lambda>c args.
        sleep c (seconds 1) (\<lambda>e.
          case e of
            Some err \<Rightarrow> PReturn (status_value \<lparr>gs_name = [], gs_state = []\<rparr>) (Some err)
          | None \<Rightarrow>
              PVars (\<lambda>s.
                let s' = \<lparr>gs_name = first_argument args, gs_state = ''name updated''\<rparr>
                in (s', PReturn (status_value s') None)))))"

definition set_name_validator :: "greeting_status code gofunc" where
  "set_name_validator = GoFunc [TString] [TError]
     (Some (\<lambda>c args.
        PReturn VNil (if list_all is_space (first_argument args)
                      then Some (ErrNew ''name must not be empty'') else None)))"

definition update_greeting :: "ctx option \<Rightarrow> goval list \<Rightarrow> demo" where
  "update_greeting c args =
     PVars (\<lambda>s. (\<lparr>gs_name = [], gs_state = ''waiting for set-name update''\<rparr>,
     api_set_query_handler c ''status'' (Some status_handler) (\<lambda>e.
       case e of
         Some err \<Rightarrow> PReturn (VString []) (Some err)
       | None \<Rightarrow>
           set_update_handler_with_options c ''set-name'' (Some set_name_handler)
             (Some set_name_validator) (\<lambda>e.
             case e of
               Some err \<Rightarrow> PReturn (VString []) (Some err)
             | None \<Rightarrow>
                 get_signal_channel c ''finish'' (\<lambda>ch.
                 channel_receive empty_struct ch c (\<lambda>(w, err).
                   case err of
                     Some e \<Rightarrow> PReturn (VString []) (Some e)
                   | None \<Rightarrow>
                       PVars (\<lambda>s. (s, PReturn (VString (''Hello, '' @ gs_name s @
                                         '' from a workflow update!'')) None))))))))"

text \<open>How \<open>main\<close> registers a workflow taking the name, or nothing, and returning a greeting.\<close>

definition greeting_function ::
    "bool \<Rightarrow> (ctx option \<Rightarrow> goval list \<Rightarrow> demo) \<Rightarrow> greeting_status code gofunc" where
  "greeting_function takes_name body =
     GoFunc (TWorkflowContext # (if takes_name then [TString] else [])) [TString, TError] (Some body)"

end
