(* ===== verification/Workflow_Runs.thy ===== *)
theory Workflow_Runs
  imports Workflow_Laws Workflow_Api
begin

text \<open>
  The demo workflows run through the interpreter: concrete executions, evaluated by the code
  equations, for the instances of the general theorems.
\<close>

declare user_run.simps [code] drive_loop.simps [code] apply_pending.simps [code]

definition sample_runtime :: runtime where
  "sample_runtime = \<lparr>rt_lib = sample_lib, rt_converter = default_payload_converter sample_lib,
     rt_stack = ''stack''\<rparr>"

definition json_string :: "string \<Rightarrow> payload option" where
  "json_string s = Some (new_payload (CHR 0x22 # s @ [CHR 0x22]) encoding_json)"

definition idle_status :: greeting_status where
  "idle_status = \<lparr>gs_name = [], gs_state = []\<rparr>"

text \<open>A registered workflow of the demo, and an execution of it as the worker creates it.\<close>

definition demo_workflow ::
    "string \<Rightarrow> bool \<Rightarrow> (ctx option \<Rightarrow> goval list \<Rightarrow> demo) \<Rightarrow> greeting_status code reg_function" where
  "demo_workflow name takes_name body =
     (case new_registered_workflow sample_runtime name (Some (greeting_function takes_name body)) of
        Inr f \<Rightarrow> f
      | Inl e \<Rightarrow> \<lparr>f_kind = [], f_name = [], f_function = NotFunc TAny, f_input_start = 0, f_result = False\<rparr>)"

definition demo_execution ::
    "greeting_status code reg_function \<Rightarrow> payload option list \<Rightarrow> greeting_status execution" where
  "demo_execution f input =
     start_execution (new_execution ''ns'' ''tq'' ''run'' idle_status) f input"

text \<open>A sequence of activations, with how each ended.\<close>

fun play :: "runtime \<Rightarrow> 'u execution \<Rightarrow> job list list \<Rightarrow> ('u execution \<times> activation_end list) option"
where
  "play rt ex [] = Some (ex, [])"
| "play rt ex (jobs # rest) =
     Option.bind (activate rt ex jobs) (\<lambda>(ex1, e).
       map_option (\<lambda>(ex2, es). (ex2, e # es)) (play rt ex1 rest))"

lemma play_reachable:
  "execution_reachable rt ex \<Longrightarrow> play rt ex jss = Some (ex', es) \<Longrightarrow> execution_reachable rt ex'"
proof (induction jss arbitrary: ex es)
  case (Cons jobs rest)
  from Cons.prems(2) obtain ex1 e es' where "activate rt ex jobs = Some (ex1, e)"
      "play rt ex1 rest = Some (ex', es')"
    by (auto split: bind_splits)
  with Cons.IH Cons.prems(1) execution_reachable.activated show ?case by blast
qed simp

definition played :: "runtime \<Rightarrow> 'u execution \<Rightarrow> job list list \<Rightarrow> 'u execution" where
  "played rt ex jss = (case play rt ex jss of Some (ex', es) \<Rightarrow> ex' | None \<Rightarrow> ex)"

lemma activation_outcome: "map_option snd r = Some e \<Longrightarrow> \<exists>ex'. r = Some (ex', e)"
  by (cases r) auto

lemma activation_commands:
  "(case r of Some (ex, Commands cs) \<Rightarrow> True | _ \<Rightarrow> False) \<Longrightarrow> \<exists>ex' cs. r = Some (ex', Commands cs)"
  by (cases r; cases "snd (the r)") auto

lemma reachable_demo: "execution_reachable rt (demo_execution f input)"
  unfolding demo_execution_def by (rule execution_reachable.created)

lemma reachable_played: "execution_reachable rt (played rt (demo_execution f input) jss)"
  using play_reachable [OF reachable_demo] reachable_demo
  by (auto simp: played_def split: option.splits)

definition timer_run :: "greeting_status execution" where
  "timer_run = demo_execution
     (demo_workflow ''timer-greeting'' True (timer_greeting sample_lib)) [json_string ''Ada'']"

definition timer_jobs :: "job list list" where
  "timer_jobs = [[], [FireTimer 1], [ResolveActivity 2 False (Some (Some (ResCompleted (json_string ''Hi''))))]]"

definition parallel_run :: "greeting_status execution" where
  "parallel_run = demo_execution
     (demo_workflow ''parallel-greeting'' True (parallel_greeting sample_lib)) [json_string ''Ada'']"

definition signal_run :: "greeting_status execution" where
  "signal_run = demo_execution (demo_workflow ''signal-greeting'' False signal_greeting) []"

definition query_run :: "greeting_status execution" where
  "query_run = demo_execution (demo_workflow ''query-greeting'' False query_greeting) []"

definition update_run :: "greeting_status execution" where
  "update_run = demo_execution (demo_workflow ''update-greeting'' False update_greeting) []"

definition set_name_job :: "string \<Rightarrow> update_job" where
  "set_name_job name = \<lparr>uj_id = ''u1'', uj_protocol_instance_id = ''p1'', uj_name = ''set-name'',
     uj_input = [json_string name], uj_run_validator = True\<rparr>"

definition status_query :: query_job where
  "status_query = \<lparr>qj_id = ''q1'', qj_type = ''status'', qj_arguments = []\<rparr>"

lemma timer_run_commands:
  "map_option snd (play sample_runtime timer_run timer_jobs) = Some
     [Commands [StartTimer 1 (seconds 5)],
      Commands [ScheduleActivity 2 \<lparr>sa_activity_id = ''activity-2'', sa_activity_type = ''greet'',
        sa_task_queue = ''go-wasm-demo'', sa_arguments = [json_string ''Ada''],
        sa_start_to_close = seconds 10, sa_do_not_eagerly_execute = False\<rparr>],
      Commands [CompleteWorkflow (json_string ''Hi'')]]"
  by code_simp

lemma parallel_run_seqs:
  "(case activate sample_runtime parallel_run [] of
      Some (ex, Commands cs) \<Rightarrow> map command_seq cs | _ \<Rightarrow> []) = [Some 1, Some 2, Some 3, Some 4]"
  by code_simp

lemma signal_run_commands:
  "map_option snd (play sample_runtime signal_run [[], [SignalWorkflow ''greet'' [json_string ''Bo'']]]) =
     Some [Commands [],
           Commands [CompleteWorkflow (json_string ''Hello, Bo from a workflow signal!'')]]"
  by code_simp

lemma update_run_commands:
  "map_option snd (play sample_runtime update_run
     [[], [DoUpdate (set_name_job '' '')], [DoUpdate (set_name_job ''Cy'')], [FireTimer 1]]) = Some
     [Commands [],
      Commands [update_rejected ''p1'' (ErrNew
         (''validate update '' @ go_quote ''set-name'' @ '': name must not be empty''))],
      Commands [update_accepted ''p1'', StartTimer 1 (seconds 1)],
      Commands [update_completed ''p1'' (Some (new_payload ''{}'' encoding_json))]]"
  by code_simp

end
