(* ===== verification/Workflow_Properties.thy ===== *)
theory Workflow_Properties
  imports Workflow_Safety Workflow_Runs
begin

text \<open>
  The guarantees of workflow executions as properties, each with the instance that shows its
  hypotheses can hold.
\<close>

section \<open>Ending the workflow\<close>

text \<open>The number of terminal commands sent is the number of times the workflow has ended: at most one.\<close>

definition ends_counted :: "'u execution \<Rightarrow> 'u execution \<Rightarrow> bool" where
  "ends_counted ex ex' \<longleftrightarrow>
     (\<exists>cs. ex_commands ex' = ex_commands ex @ cs \<and>
        length (filter is_terminal cs) + of_bool (ex_terminal ex) = (of_bool (ex_terminal ex') :: nat))"

lemma ends_countedI:
  "ex_commands ex' = ex_commands ex @ cs \<Longrightarrow>
   length (filter is_terminal cs) + of_bool (ex_terminal ex) = (of_bool (ex_terminal ex') :: nat) \<Longrightarrow>
   ends_counted ex ex'"
  unfolding ends_counted_def by blast

lemma ends_counted_same:
  "ex_commands ex' = ex_commands ex \<Longrightarrow> ex_terminal ex' = ex_terminal ex \<Longrightarrow> ends_counted ex ex'"
  by (rule ends_countedI [of _ _ "[]"]) simp_all

lemma ends_counted_command:
  "ex_commands ex' = ex_commands ex @ [c] \<Longrightarrow> \<not> is_terminal c \<Longrightarrow> ex_terminal ex' = ex_terminal ex \<Longrightarrow>
   ends_counted ex ex'"
  by (rule ends_countedI [of _ _ "[c]"]) simp_all

lemma ends_counted_trans:
  assumes "ends_counted ex ex'" and "ends_counted ex' ex''"
  shows "ends_counted ex ex''"
proof -
  from assms obtain cs cs' where
    "ex_commands ex' = ex_commands ex @ cs"
    "length (filter is_terminal cs) + of_bool (ex_terminal ex) = (of_bool (ex_terminal ex') :: nat)"
    "ex_commands ex'' = ex_commands ex' @ cs'"
    "length (filter is_terminal cs') + of_bool (ex_terminal ex') = (of_bool (ex_terminal ex'') :: nat)"
    unfolding ends_counted_def by blast
  then show ?thesis by (intro ends_countedI [of _ _ "cs @ cs'"]) simp_all
qed

lemma ends_counted_fail: "ends_counted ex (fail_workflow ex e)"
proof (cases "ex_terminal ex")
  case False
  then show ?thesis
    by (intro ends_countedI [of _ _ "[FailWorkflow (new_failure e ''GoWasmWorkflowError'' [])]"])
      (simp_all add: fail_workflow_def)
qed (simp add: fail_workflow_def ends_counted_same)

lemma coroutine_panic_simps [simp]:
  "ex_commands (coroutine_panic rt ex i m) = ex_commands ex"
  "ex_terminal (coroutine_panic rt ex i m) = ex_terminal ex"
  by (simp_all add: coroutine_panic_def)

lemma ends_counted_finish:
  assumes "\<not> ex_terminal ex"
  shows "ends_counted ex (finish_coroutine rt ex i frame r)"
proof (cases frame)
  case (FRoot f)
  have "ends_counted ex ((emit ex (CompleteWorkflow p))\<lparr>ex_terminal := True\<rparr>)" for p
    using assms by (intro ends_countedI [of _ _ "[CompleteWorkflow p]"]) simp_all
  with FRoot show ?thesis
    by (simp add: finish_coroutine_def ends_counted_fail split: gores.splits)
next
  case FGo
  then show ?thesis by (simp add: finish_coroutine_def ends_counted_same split: run_end.splits)
next
  case (FUpdate pid f)
  then show ?thesis
    by (auto simp: finish_coroutine_def update_completed_def update_rejected_def
        intro: ends_counted_same ends_counted_command split: gores.splits)
qed

interpretation ending_dispatch: dispatch_law ends_counted
proof
  show "ends_counted ex (settle_coroutine rt ex i frame r)" if "\<not> ex_terminal ex"
    for ex :: "'u execution" and rt i frame r
    using ends_counted_finish [OF that, of rt i frame r] that
    by (auto simp: settle_coroutine_def ends_counted_def split: run_end.splits)
  show "ends_counted ex (Workflow_Frames.schedule ex kind f started w c)"
    if "schedulable ex kind f started c" for ex :: "'u execution" and kind f started w c
    using that command_kind_not_terminal
    by (intro ends_counted_command [of _ _ c]) (auto simp: schedulable_def)
qed (auto intro: ends_counted_trans ends_counted_same ends_counted_fail ends_counted_command)

interpretation ending: activation_law ends_counted UNIV
  by unfold_locales (auto intro: ends_counted_same ends_counted_command)



section \<open>Futures, signals, sequence numbers, operations\<close>

text \<open>
  C29. A future is written once: whatever happens to an execution afterwards, activations or
  eviction, a future that is ready stays ready with the same value and error.
\<close>

theorem futures_written_once:
  assumes "activate rt ex jobs = Some (ex', e) \<or> stop rt ex = Some ex'"
    and "i < length (ex_futures ex)" and "fu_ready (ex_futures ex ! i)"
  shows "i < length (ex_futures ex') \<and> fu_ready (ex_futures ex' ! i) \<and>
    fu_value (ex_futures ex' ! i) = fu_value (ex_futures ex ! i) \<and>
    fu_err (ex_futures ex' ! i) = fu_err (ex_futures ex ! i)"
proof -
  have "futures_kept ex ex'" using assms(1) once.activation once.stop by blast
  with assms(2,3) show ?thesis by (auto simp: futures_kept_def list_kept_def future_kept_def)
qed

theorem futures_written_once_witness:
  "\<exists>ex'. stop sample_runtime (played sample_runtime timer_run (take 2 timer_jobs)) = Some ex' \<and>
     0 < length (ex_futures ex') \<and> fu_ready (ex_futures ex' ! 0) \<and>
     fu_value (ex_futures ex' ! 0) =
       fu_value (ex_futures (played sample_runtime timer_run (take 2 timer_jobs)) ! 0) \<and>
     fu_err (ex_futures ex' ! 0) =
       fu_err (ex_futures (played sample_runtime timer_run (take 2 timer_jobs)) ! 0)"
proof -
  let ?ex = "played sample_runtime timer_run (take 2 timer_jobs)"
  have "map_option ex_terminal (stop sample_runtime ?ex) = Some True" by code_simp
  then obtain ex' where s: "stop sample_runtime ?ex = Some ex'" by auto
  have "0 < length (ex_futures ?ex)" and "fu_ready (ex_futures ?ex ! 0)" by code_simp+
  from futures_written_once [OF disjI2 [OF s] this] s show ?thesis by blast
qed

text \<open>
  No signal is stuck beside a waiting receiver: in every execution the worker can hold, a channel
  with a receiver still waiting has an empty buffer.
\<close>

lemma channels_ok_reachable: "execution_reachable rt ex \<Longrightarrow> channels_ok ex"
proof (induction rule: execution_reachable.induct)
  case (created namespace task_queue run_id vars handler input)
  show ?case by (simp add: channels_ok_def start_execution_def new_execution_def add_coroutine_def)
next
  case (activated ex jobs ex' e)
  with delivered.activation [OF activated.hyps(2)] show ?case by (simp add: signals_kept_def)
next
  case (stopped ex ex')
  with delivered.stop [OF stopped.hyps(2)] show ?case by (simp add: signals_kept_def)
qed

lemma no_signal_beside_waiting_receiver:
  assumes "execution_reachable rt ex" and "map_of (ex_channels ex) name = Some ch"
    and "w \<in> set (sch_waiters ch)" and "\<not> is_ready ex w"
  shows "sch_buffer ch = []"
  using channels_okD [OF channels_ok_reachable [OF assms(1)] assms(2)] assms(3,4)
  by (auto simp: channel_ok_def)

lemma no_signal_beside_waiting_receiver_witness:
  "\<exists>ch. map_of (ex_channels (played sample_runtime signal_run [[]])) ''greet'' = Some ch \<and>
     sch_waiters ch = [0] \<and> sch_buffer ch = []"
proof -
  let ?ex = "played sample_runtime signal_run [[]]"
  have "map_option sch_waiters (map_of (ex_channels ?ex) ''greet'') = Some [0]" by code_simp
  then obtain ch where ch: "map_of (ex_channels ?ex) ''greet'' = Some ch" "sch_waiters ch = [0]"
    by auto
  have "\<not> is_ready ?ex 0" by code_simp
  with ch no_signal_beside_waiting_receiver [of sample_runtime ?ex "''greet''" ch 0]
    reachable_played show ?thesis
    by (auto simp: signal_run_def)
qed

text \<open>
  Sequence numbers are consecutive within an activation and across activations: the commands of
  an activation carry the numbers after the last one used, in the order of the commands, so they are
  distinct unless one activation schedules \<open>2^32\<close> operations.
\<close>

lemma seqs_from_distinct: "k < 2 ^ 32 \<Longrightarrow> distinct (seqs_from n k)"
proof -
  assume k: "k < 2 ^ 32"
  have "of_nat (Suc i) = (of_nat (Suc j) :: 32 word) \<longleftrightarrow> i = j" if "i < k" "j < k" for i j
  proof
    assume eq: "of_nat (Suc i) = (of_nat (Suc j) :: 32 word)"
    have "Suc i mod 2 ^ 32 = Suc j mod 2 ^ 32"
      using arg_cong [OF eq, of unat] by (simp only: unat_of_nat)  simp
    with that k show "i = j"
      by (cases "Suc i = 2 ^ 32"; cases "Suc j = 2 ^ 32") simp_all
  qed simp
  then show ?thesis
    by (auto simp: seqs_from_def distinct_map intro!: inj_onI simp del: of_nat_Suc)
qed

lemma sequence_numbers_consecutive:
  assumes "activate rt ex jobs = Some (ex', Commands cs)" and "ex_commands ex = []"
  shows "\<exists>k. command_seqs cs = seqs_from (ex_next_seq ex) k \<and>
     ex_next_seq ex' = ex_next_seq ex + of_nat k \<and> (k < 2 ^ 32 \<longrightarrow> distinct (command_seqs cs))"
proof -
  from sequenced.activate [OF assms(1)] obtain exf where
    "numbered ex exf" "cs = ex_commands exf" "ex' = exf\<lparr>ex_commands := []\<rparr>"
    by (auto simp: handed_over_def)
  with assms(2) seqs_from_distinct show ?thesis by (auto simp: numbered_def)
qed

lemma sequence_numbers_consecutive_witness:
  "\<exists>ex' cs k. activate sample_runtime parallel_run [] = Some (ex', Commands cs) \<and>
     command_seqs cs = [1, 2, 3, 4] \<and> command_seqs cs = seqs_from (ex_next_seq parallel_run) k \<and>
     ex_next_seq ex' = ex_next_seq parallel_run + of_nat k \<and>
     (k < 2 ^ 32 \<longrightarrow> distinct (command_seqs cs))"
proof -
  have "(case activate sample_runtime parallel_run [] of
      Some (ex, Commands cs) \<Rightarrow> command_seqs cs | _ \<Rightarrow> []) = [1, 2, 3, 4]" by code_simp
  then obtain ex' cs where a: "activate sample_runtime parallel_run [] = Some (ex', Commands cs)"
      and cs: "command_seqs cs = [1, 2, 3, 4]"
    by (auto split: option.splits activation_end.splits)
  have "ex_commands parallel_run = []" by code_simp
  from sequence_numbers_consecutive [OF a this] a cs show ?thesis by blast
qed



end
