(* ===== verification/Workflow_Handlers.thy ===== *)
theory Workflow_Handlers
  imports Workflow_Safety Workflow_Runs
begin

text \<open>
  What a drive leaves behind, and what queries and updates may do: code that runs while no coroutine
  is current can only change its own variables.
\<close>

section \<open>No coroutine is current between drives\<close>

definition current_kept :: "'u execution \<Rightarrow> 'u execution \<Rightarrow> bool" where
  "current_kept ex ex' \<longleftrightarrow> ex_current ex' = ex_current ex"

interpretation current_user: user_law current_kept
  by unfold_locales (simp_all add: current_kept_def)

definition idle_kept :: "'u execution \<Rightarrow> 'u execution \<Rightarrow> bool" where
  "idle_kept ex ex' \<longleftrightarrow> (ex_current ex = None \<longrightarrow> ex_current ex' = None)"

lemma idle_keptI: "ex_current ex' = ex_current ex \<Longrightarrow> idle_kept ex ex'"
  by (simp add: idle_kept_def)

lemma resume_idle: "resume rt ex i = Some ex' \<Longrightarrow> ex_current ex' = None"
  by (auto simp: resume_def Let_def)

lemma settle_coroutine_current [simp]:
  "ex_current (settle_coroutine rt ex i frame r) = ex_current ex"
  by (simp add: settle_coroutine_def finish_coroutine_def coroutine_panic_def fail_workflow_def
      split: run_end.splits frame.splits gores.splits)

lemma deliver_current [simp]: "ex_current (fst (deliver ex name input)) = ex_current ex"
  by (rule deliver_cases [of ex name input]; simp)

lemma delete_operation_current [simp]: "ex_current (delete_operation ex seq) = ex_current ex"
  by (simp add: delete_operation_def)

interpretation idle_user: user_law idle_kept
  by unfold_locales (auto simp: idle_kept_def)

interpretation idle_coroutine: coroutine_law idle_kept
  by unfold_locales (auto simp: idle_kept_def fail_workflow_def dest: resume_idle)

interpretation idle: history_law idle_kept
  by unfold_locales (auto intro: idle_keptI)

lemma reachable_idle: "execution_reachable rt ex \<Longrightarrow> ex_current ex = None"
proof (induction rule: execution_reachable.induct)
  case (created namespace task_queue run_id vars handler input)
  show ?case by (simp add: start_execution_def new_execution_def)
next
  case (activated ex jobs ex' e)
  with idle.activation [OF activated.hyps(2)] show ?case by (simp add: idle_kept_def)
next
  case (stopped ex ex')
  with idle.stop [OF stopped.hyps(2)] show ?case by (simp add: idle_kept_def)
qed

section \<open>Code that runs while no coroutine is current\<close>

definition only_vars :: "'u execution \<Rightarrow> 'u execution \<Rightarrow> bool" where
  "only_vars ex ex' \<longleftrightarrow> (\<exists>u. ex' = ex\<lparr>ex_vars := u\<rparr>)"

lemma only_vars_refl [simp]: "only_vars ex ex"
  unfolding only_vars_def by (intro exI [of _ "ex_vars ex"]) simp

lemma only_vars_trans: "only_vars ex ex' \<Longrightarrow> only_vars ex' ex'' \<Longrightarrow> only_vars ex ex''"
  by (auto simp: only_vars_def)

fun receiving :: "'u cont \<Rightarrow> bool" where
  "receiving (CReceive c name w target k) = True"
| "receiving _ = False"

fun outcome_receiving :: "'u outcome \<Rightarrow> bool" where
  "outcome_receiving (Next c) = receiving c"
| "outcome_receiving (Blocked c) = True"
| "outcome_receiving _ = False"

lemma outside_ctx: "ex_current ex = None \<Longrightarrow> \<not> ctx_running ex c"
  by (auto simp: ctx_running_def split: option.splits)

lemma step_prog_outside:
  assumes "ex_current ex = None" and "step_prog rt ex p = (ex', out)"
  shows "only_vars ex ex' \<and> \<not> outcome_receiving out"
proof (cases p)
  case (PVars g)
  with assms(2) show ?thesis by (auto simp: only_vars_def split: prod.splits)
next
  case (PGo c name body k)
  with assms outside_ctx [OF assms(1)] show ?thesis
    by (auto simp: when_running_def split: option.splits)
next
  case (PGet c f target k)
  with assms show ?thesis by (auto simp: step_get_def split: if_splits gotarget.splits)
next
  case (PSet s f v e k)
  with assms show ?thesis
    by (auto simp: unless_panic_def settle_future_def split: if_splits)
next
  case (PChain f other k)
  with assms show ?thesis by (auto simp: unless_panic_def chain_future_def split: if_splits)
next
  case (PReceive c name target k)
  with assms show ?thesis by (auto simp: step_receive_def split: if_splits option.splits)
next
  case (PReceiveAsync name target k)
  with assms show ?thesis by (auto simp: step_receive_async_def split: if_splits option.splits)
qed (use assms outside_ctx [OF assms(1)] in \<open>auto simp: when_running_def split: if_splits option.splits\<close>)

lemma user_step_outside:
  assumes "ex_current ex = None" and "\<not> receiving c" and "user_step rt ex c = (ex', out)"
  shows "only_vars ex ex' \<and> \<not> outcome_receiving out"
proof (cases c)
  case (CRun p)
  with assms(3) step_prog_outside [OF assms(1), of rt p ex' out] show ?thesis by simp
next
  case (CStart f c input)
  with assms show ?thesis
    by (auto simp: enter_function_def split: sum.splits gofunc.splits option.splits)
next
  case (CGet cx f target k)
  with assms outside_ctx [OF assms(1)] show ?thesis by (auto split: if_splits)
qed (use assms in simp)

lemma only_vars_current: "only_vars ex ex' \<Longrightarrow> ex_current ex' = ex_current ex"
  by (auto simp: only_vars_def)

lemma user_run_outside:
  assumes "user_run rt ex c = Some (ex', r)" and "ex_current ex = None" and "\<not> receiving c"
  shows "only_vars ex ex' \<and> (\<forall>c'. r \<noteq> Yielded c')"
proof -
  have "ex_current ex = None \<and> \<not> receiving c \<longrightarrow> only_vars ex (fst y) \<and> (\<forall>c'. snd y \<noteq> Yielded c')"
    if "user_run rt ex c = Some y" for y
  proof (rule user_run.raw_induct [where P = "\<lambda>rt ex c y. ex_current ex = None \<and> \<not> receiving c \<longrightarrow>
        only_vars ex (fst y) \<and> (\<forall>c'. snd y \<noteq> Yielded c')", OF _ that], intro impI, elim conjE)
    fix go :: "runtime \<Rightarrow> 'a execution \<Rightarrow> 'a cont \<Rightarrow> ('a execution \<times> 'a run_end) option" and rt ex c y
    assume IH: "\<And>rt ex c y. go rt ex c = Some y \<Longrightarrow> ex_current ex = None \<and> \<not> receiving c \<longrightarrow>
        only_vars ex (fst y) \<and> (\<forall>c'. snd y \<noteq> Yielded c')"
      and run: "(case user_step rt ex c of
          (ex', Next c') \<Rightarrow> go rt ex' c' | (ex', Blocked c') \<Rightarrow> Some (ex', Yielded c')
        | (ex', Returned v e) \<Rightarrow> Some (ex', Finished v e)
        | (ex', Panicked m) \<Rightarrow> Some (ex', Crashed m)) = Some y"
      and out: "ex_current ex = None" "\<not> receiving c"
    obtain ex1 o1 where s: "user_step rt ex c = (ex1, o1)" by force
    note step = user_step_outside [OF out s]
    show "only_vars ex (fst y) \<and> (\<forall>c'. snd y \<noteq> Yielded c')"
    proof (cases o1)
      case (Next c')
      with run s have "go rt ex1 c' = Some y" by simp
      from IH [OF this] step Next only_vars_current out(1) only_vars_trans show ?thesis by fastforce
    qed (use run s step in auto)
  qed
  with assms show ?thesis by fastforce
qed

lemma execute_query_outside:
  "execute_query rt ex q = Some (ex', r) \<Longrightarrow> ex_current ex = None \<Longrightarrow> only_vars ex ex'"
  using user_run_outside [of rt ex "CStart f None (qj_arguments q)" for f]
  by (fastforce simp: execute_query_def split: option.splits)

lemma validate_update_outside:
  assumes "validate_update rt ex u info args = Some (ex', r)" and "ex_current ex = None"
  shows "only_vars ex ex'"
proof (cases "ru_validator u")
  case None
  with assms show ?thesis by (simp add: validate_update_def)
next
  case (Some f)
  have "\<not> receiving c" if "enter_function f cx args = Next c" for c cx
    using that by (auto simp: enter_function_def split: gofunc.splits option.splits)
  with assms Some user_run_outside show ?thesis
    by (fastforce simp: validate_update_def split: outcome.splits)
qed

section \<open>Where a drive stops\<close>

text \<open>Nothing is left to run: the workflow has ended, or every coroutine has or waits.\<close>

definition waits :: "'u execution \<Rightarrow> 'u coroutine \<Rightarrow> bool" where
  "waits ex co \<longleftrightarrow> (case co_waiting co of None \<Rightarrow> False | Some f \<Rightarrow> \<not> is_ready ex f)"

definition settled :: "'u execution \<Rightarrow> bool" where
  "settled ex \<longleftrightarrow> ex_terminal ex \<or> (\<forall>co \<in> set (ex_coroutines ex). co_done co \<or> waits ex co)"

lemma pass_progress: "drive_pass rt high is ex True = Some (ex', Passed b) \<Longrightarrow> b"
proof (induction "is" arbitrary: ex)
  case (Cons i "is")
  then show ?case by (auto split: if_splits bind_splits pass_end.splits prod.splits)
qed simp

lemma pass_no_progress:
  "drive_pass rt high is ex False = Some (ex', Passed False) \<Longrightarrow>
   ex' = ex \<and> (\<forall>i \<in> set is. \<not> runnable ex high i)"
proof (induction "is")
  case (Cons i "is")
  show ?case
  proof (cases "runnable ex high i")
    case True
    with Cons.prems obtain ex2 where "drive_pass rt high is ex2 True = Some (ex', Passed False)"
      by (auto split: bind_splits pass_end.splits prod.splits)
    with pass_progress show ?thesis by blast
  qed (use Cons in simp)
qed simp

lemma pass_stop: "drive_pass rt high is ex p = Some (ex', Stop None) \<Longrightarrow> ex_terminal ex'"
proof (induction "is" arbitrary: ex p)
  case (Cons i "is")
  show ?case
  proof (cases "runnable ex high i")
    case True
    with Cons.prems obtain ex1 where ex1: "resume rt ex i = Some ex1" by (auto split: bind_splits)
    obtain ex2 e2 where ex2: "after_resume ex1 i = (ex2, e2)" by force
    show ?thesis
    proof (cases e2)
      case (Stop err)
      with Cons.prems True ex1 ex2 have "ex' = ex2" "err = None" by auto
      with ex2 Stop show ?thesis by (auto simp: after_resume_def Let_def split: option.splits if_splits)
    next
      case (Passed b)
      with Cons True ex1 ex2 show ?thesis by auto
    qed
  qed (use Cons in simp)
qed simp

lemma not_runnable_settled:
  assumes "\<forall>i < length (ex_coroutines ex). \<not> runnable ex True i \<and> \<not> runnable ex False i"
  shows "settled ex"
proof -
  have "co_done co \<or> waits ex co" if mem: "co \<in> set (ex_coroutines ex)" for co
  proof -
    from mem obtain i where "i < length (ex_coroutines ex)" "co = ex_coroutines ex ! i"
      by (auto simp: in_set_conv_nth)
    with assms show ?thesis
      by (cases "co_high_priority co") (auto simp: runnable_def waits_def Let_def split: option.splits)
  qed
  then show ?thesis by (simp add: settled_def)
qed

lemma drive_settled:
  assumes "drive rt ex = Some (ex', None)"
  shows "settled ex'"
proof (cases "ex_terminal ex")
  case True
  with assms show ?thesis by (simp add: drive_def settled_def)
next
  case False
  have "snd y = None \<longrightarrow> settled (fst y)" if "drive_loop rt ex = Some y" for y
  proof (rule drive_loop.raw_induct [where P = "\<lambda>rt ex y. snd y = None \<longrightarrow> settled (fst y)", OF _ that])
    fix go :: "runtime \<Rightarrow> 'a execution \<Rightarrow> ('a execution \<times> goerr option) option" and rt ex y
    assume IH: "\<And>rt ex y. go rt ex = Some y \<Longrightarrow> snd y = None \<longrightarrow> settled (fst y)"
      and run: "Option.bind (drive_round rt ex) (\<lambda>r. case r of
          (ex1, Stop e) \<Rightarrow> Some (ex1, e)
        | (ex1, Passed p) \<Rightarrow> if p then go rt ex1 else Some (ex1, None)) = Some y"
    then obtain ex1 e1 where s: "drive_round rt ex = Some (ex1, e1)" by (auto split: bind_splits)
    from s obtain ex0 e0 where p: "drive_pass rt True (coroutine_ids ex) ex False = Some (ex0, e0)"
      by (auto simp: drive_round_def split: bind_splits)
    show "snd y = None \<longrightarrow> settled (fst y)"
    proof (cases e1)
      case (Stop err)
      have "ex_terminal ex1" if "err = None"
        using s p that Stop pass_stop [of rt] by (cases e0) (auto simp: drive_round_def)
      with run s Stop show ?thesis by (auto simp: settled_def)
    next
      case (Passed b)
      show ?thesis
      proof (cases b)
        case True
        with run s Passed IH [of rt ex1 y] show ?thesis by simp
      next
        case False
        from s p Passed obtain b0 where e0: "e0 = Passed b0"
          and p2: "drive_pass rt False (coroutine_ids ex0) ex0 b0 = Some (ex1, Passed False)"
          using False by (cases e0) (auto simp: drive_round_def)
        have "\<not> b0"
          using pass_progress [of rt False "coroutine_ids ex0" ex0 ex1 False] p2 by (cases b0) simp_all
        with p p2 e0 have p': "drive_pass rt True (coroutine_ids ex) ex False = Some (ex0, Passed False)"
          and p2': "drive_pass rt False (coroutine_ids ex0) ex0 False = Some (ex1, Passed False)"
          by simp_all
        from pass_no_progress [OF p'] pass_no_progress [OF p2'] have "ex0 = ex" "ex1 = ex"
          "\<forall>i \<in> set (coroutine_ids ex). \<not> runnable ex True i \<and> \<not> runnable ex False i"
          by auto
        then have "settled ex1" by (intro not_runnable_settled) (simp add: coroutine_ids_def)
        with run s Passed False show ?thesis by auto
      qed
    qed
  qed
  with assms False show ?thesis by (fastforce simp: drive_def)
qed

lemma respond_to_queries_frame:
  assumes "respond_to_queries rt ex qs = Some ex'" and "ex_current ex = None"
  shows "\<exists>rs u. length rs = length qs \<and>
    ex' = ex\<lparr>ex_vars := u, ex_commands := ex_commands ex @ map2 (\<lambda>q. RespondToQuery (qj_id q)) qs rs\<rparr>"
  using assms
proof (induction qs arbitrary: ex)
  case Nil
  then show ?case by (auto intro!: exI [of _ "ex_vars ex"])
next
  case (Cons q qs)
  from Cons.prems(1) obtain ex1 r ex2 where
    q: "execute_query rt ex q = Some (ex1, r)" and
    ex2: "ex2 = emit ex1 (RespondToQuery (qj_id q)
       (case r of Inl e \<Rightarrow> QueryFailed (new_failure e ''GoWasmQueryError'' []) | Inr p \<Rightarrow> QuerySucceeded p))"
    and rest: "respond_to_queries rt ex2 qs = Some ex'"
    by (auto simp: respond_to_query_def split: bind_splits)
  from execute_query_outside [OF q Cons.prems(2)] obtain u1 where ex1: "ex1 = ex\<lparr>ex_vars := u1\<rparr>"
    by (auto simp: only_vars_def)
  with ex2 Cons.prems(2) have "ex_current ex2 = None" by simp
  from Cons.IH [OF rest this] obtain rs u where "length rs = length qs"
    "ex' = ex2\<lparr>ex_vars := u, ex_commands := ex_commands ex2 @ map2 (\<lambda>q. RespondToQuery (qj_id q)) qs rs\<rparr>"
    by blast
  then show ?case
    unfolding ex2 ex1
    by (intro exI [of _ "(case r of Inl e \<Rightarrow> QueryFailed (new_failure e ''GoWasmQueryError'' [])
         | Inr p \<Rightarrow> QuerySucceeded p) # rs"] exI [of _ u]) (simp add: emit_def)
qed

lemma drive_idle: "drive rt ex = Some (ex', e) \<Longrightarrow> ex_current ex = None \<Longrightarrow> ex_current ex' = None"
  using idle_coroutine.drive by (auto simp: idle_kept_def)

text \<open>A settled execution has nothing to drive.\<close>

lemma settled_pass: "settled ex \<Longrightarrow> \<not> ex_terminal ex \<Longrightarrow> drive_pass rt high is ex p = Some (ex, Passed p)"
proof (induction "is")
  case (Cons i "is")
  then have "\<not> runnable ex high i"
    by (auto simp: settled_def runnable_def waits_def Let_def dest!: nth_mem split: option.splits)
  with Cons show ?case by simp
qed simp

lemma settled_drive: "settled ex \<Longrightarrow> drive rt ex = Some (ex, None)"
  by (cases "ex_terminal ex")
    (simp_all add: drive_def drive_loop.simps drive_round_def settled_pass)

section \<open>Properties\<close>

text \<open>
  C22. An activation runs everything that can run: after a successful one the workflow has ended, or
  every coroutine has ended or is blocked on a future that is not ready.
\<close>

lemma finish_activation_settled:
  assumes "finish_activation rt ex queries = Some (ex', Commands cs)" and "ex_current ex = None"
  shows "settled ex'"
proof -
  from assms(1) obtain ex1 where d: "drive rt ex = Some (ex1, None)"
    by (auto simp: finish_activation_def split: bind_splits option.splits)
  with assms(1) obtain ex2 where q: "respond_to_queries rt ex1 queries = Some ex2"
      "ex' = ex2\<lparr>ex_commands := []\<rparr>"
    by (auto simp: finish_activation_def take_commands_def)
  from respond_to_queries_frame [OF q(1) drive_idle [OF d assms(2)]]
  obtain rs u where "ex2 = ex1\<lparr>ex_vars := u, ex_commands := ex_commands ex1 @
      map2 (\<lambda>q. RespondToQuery (qj_id q)) queries rs\<rparr>" by blast
  with q(2) have ex': "ex' = ex1\<lparr>ex_vars := u, ex_commands := []\<rparr>" by simp
  then have "waits ex' co = waits ex1 co" for co
    by (simp add: waits_def is_ready_def cong: option.case_cong)
  with drive_settled [OF d] ex' show ?thesis by (simp add: settled_def)
qed



text \<open>
  C35. Queries only observe: an activation of queries alone, on an execution that has nothing left to
  run, answers each query exactly once, in order and under its own id, and changes nothing but the
  variables the user's handlers themselves write; no coroutine runs.
\<close>

lemma classify_queries: "classify ex (map QueryWorkflow qs) = (ex, None, [], qs, [])"
  by (induction qs) simp_all

theorem queries_only_observe:
  assumes "execution_reachable rt ex" and "settled ex" and "ex_bootstrapped ex" and "ex_started ex"
    and "\<not> ex_stopped ex" and "ex_commands ex = []"
    and "activate rt ex (map QueryWorkflow qs) = Some (ex', e)"
  shows "\<exists>rs u. length rs = length qs \<and> e = Commands (map2 (\<lambda>q. RespondToQuery (qj_id q)) qs rs) \<and>
     ex' = ex\<lparr>ex_vars := u\<rparr>"
proof -
  from assms(3-5,7) have "finish_activation rt ex qs = Some (ex', e)"
    by (simp add: activate_def classify_queries bootstrap_def apply_pending.simps)
  then obtain ex2 where q: "respond_to_queries rt ex qs = Some ex2"
    "ex' = ex2\<lparr>ex_commands := []\<rparr>" "e = Commands (ex_commands ex2)"
    by (auto simp: finish_activation_def settled_drive [OF assms(2)] take_commands_def)
  from respond_to_queries_frame [OF q(1) reachable_idle [OF assms(1)]] obtain rs u where
    "length rs = length qs"
    "ex2 = ex\<lparr>ex_vars := u, ex_commands := ex_commands ex @ map2 (\<lambda>q. RespondToQuery (qj_id q)) qs rs\<rparr>"
    by blast
  with q(2,3) assms(6) show ?thesis
    by (intro exI [of _ rs] exI [of _ u]) simp
qed

theorem queries_only_observe_witness:
  "\<exists>rs u ex'. activate sample_runtime (played sample_runtime query_run [[]])
       (map QueryWorkflow [status_query]) =
       Some (ex', Commands (map2 (\<lambda>q. RespondToQuery (qj_id q)) [status_query] rs)) \<and>
     ex' = (played sample_runtime query_run [[]])\<lparr>ex_vars := u\<rparr>"
proof -
  let ?ex = "played sample_runtime query_run [[]]"
  have "activate sample_runtime query_run [] \<noteq> None \<and>
      (case activate sample_runtime ?ex (map QueryWorkflow [status_query]) of
         Some (ex, Commands cs) \<Rightarrow> True | _ \<Rightarrow> False)"
    by (rule conjI, subst option.disc_eq_case(2), code_simp, code_simp)
  then obtain ex' cs where a: "activate sample_runtime ?ex (map QueryWorkflow [status_query]) =
      Some (ex', Commands cs)"
    using activation_commands by blast
  have "settled ?ex" by code_simp
  moreover have "ex_bootstrapped ?ex" "ex_started ?ex" "\<not> ex_stopped ?ex" "ex_commands ?ex = []"
    by code_simp+
  moreover have "execution_reachable sample_runtime ?ex"
    unfolding query_run_def by (rule reachable_played)
  ultimately show ?thesis using queries_only_observe [OF _ _ _ _ _ _ a] a by blast
qed

text \<open>Accepting an update; \<open>u\<close> are the variables its validator left.\<close>

lemma accept_update_adds:
  "\<exists>co. accept_update (ex\<lparr>ex_vars := u\<rparr>) h up args = ex\<lparr>ex_vars := u,
      ex_commands := ex_commands ex @ [update_accepted (uj_protocol_instance_id up)],
      ex_coroutines := ex_coroutines ex @ [co]\<rparr> \<and>
    co_frame co = FUpdate (uj_protocol_instance_id up) (ru_handler h) \<and> co_high_priority co \<and>
    \<not> co_done co \<and> co_waiting co = None \<and> co_info co = Some \<lparr>ui_id = uj_id up, ui_name = uj_name up\<rparr>"
  unfolding accept_update_def add_coroutine_def
  by (rule exI, intro conjI, simp add: emit_def, simp_all)

lemma start_update_decoded:
  assumes "execution_reachable rt ex" and "start_update rt ex up = Some ex'"
    and "map_of (ex_updates ex) (uj_name up) = Some h"
    and "decode_input (rt_converter rt) (ru_handler h) (uj_input up) = Inr args"
  obtains (rejected) u e where "ex' = ex\<lparr>ex_vars := u,
      ex_commands := ex_commands ex @ [update_rejected (uj_protocol_instance_id up) e]\<rparr>"
  | (accepted) u where "ex' = accept_update (ex\<lparr>ex_vars := u\<rparr>) h up args"
      "uj_run_validator up \<longrightarrow> (\<exists>exv. validate_update rt ex h
         \<lparr>ui_id = uj_id up, ui_name = uj_name up\<rparr> args = Some (exv, None))"
proof (cases "uj_run_validator up \<and> ru_validator h \<noteq> None")
  case True
  with assms(2-4) obtain exv r where
    v: "validate_update rt ex h \<lparr>ui_id = uj_id up, ui_name = uj_name up\<rparr> args = Some (exv, r)" and
    ex': "ex' = (case r of Some e \<Rightarrow> emit exv (update_rejected (uj_protocol_instance_id up) e)
      | None \<Rightarrow> accept_update exv h up args)"
    by (auto simp: start_update_def)
  from validate_update_outside [OF v reachable_idle [OF assms(1)]] obtain u
    where exv: "exv = ex\<lparr>ex_vars := u\<rparr>" by (auto simp: only_vars_def)
  show thesis
  proof (cases r)
    case (Some e)
    with ex' exv show ?thesis by (intro rejected [where u = u and e = e]) (simp add: emit_def)
  next
    case None
    with ex' exv v show ?thesis by (intro accepted [where u = u]) auto
  qed
next
  case False
  with assms(2-4) have "ex' = accept_update (ex\<lparr>ex_vars := ex_vars ex\<rparr>) h up args"
    by (auto simp: start_update_def)
  moreover have "uj_run_validator up \<longrightarrow>
      validate_update rt ex h \<lparr>ui_id = uj_id up, ui_name = uj_name up\<rparr> args = Some (ex, None)"
    using False by (auto simp: validate_update_def)
  ultimately show thesis by (intro accepted [where u = "ex_vars ex"]) auto
qed



section \<open>Chained futures\<close>

text \<open>The futures completed with a future: those chained to it, transitively.\<close>

inductive chained_from :: "future list \<Rightarrow> fid \<Rightarrow> fid \<Rightarrow> bool" for fs where
  self: "chained_from fs f f"
| link: "chained_from fs f g \<Longrightarrow> g < length fs \<Longrightarrow> h \<in> set (fu_chained (fs ! g)) \<Longrightarrow> chained_from fs f h"


lemma chained_after_mark:
  fixes v :: goval and e :: "goerr option"
  assumes "f < length fs"
  defines "fs1 \<equiv> fs[f := \<lparr>fu_ready = True, fu_value = v, fu_err = e, fu_chained = []\<rparr>]"
  shows "(\<exists>g \<in> set (f # work). chained_from fs g i) \<longleftrightarrow>
    i = f \<or> (\<exists>g \<in> set (fu_chained (fs ! f) @ work). chained_from fs1 g i)"
proof
  have same: "fs1 ! g = fs ! g" if "g \<noteq> f" for g using that by (simp add: fs1_def)
  have none: "fu_chained (fs1 ! f) = []" using assms(1) by (simp add: fs1_def)
  assume "\<exists>g \<in> set (f # work). chained_from fs g i"
  then obtain w where w: "w \<in> set (f # work)" "chained_from fs w i" by blast
  from w(2,1) show "i = f \<or> (\<exists>g \<in> set (fu_chained (fs ! f) @ work). chained_from fs1 g i)"
  proof (induction rule: chained_from.induct)
    case self
    then show ?case using chained_from.self by auto
  next
    case (link w g h)
    show ?case
    proof (cases "g = f")
      case True
      with link chained_from.self [of fs1 h] show ?thesis by auto
    next
      case False
      with link obtain g' where g': "g' \<in> set (fu_chained (fs ! f) @ work)" "chained_from fs1 g' g" by blast
      have "chained_from fs1 g' h"
        using chained_from.link [OF g'(2)] link.hyps same [OF False] by (simp add: fs1_def)
      with g'(1) show ?thesis by blast
    qed
  qed
next
  have sub: "chained_from fs1 g i \<Longrightarrow> chained_from fs g i" for g i
  proof (induction rule: chained_from.induct)
    case (link w g' h)
    then have "g' \<noteq> f" using assms(1) by (auto simp: fs1_def)
    with link show ?case by (auto simp: fs1_def intro: chained_from.link)
  qed (rule chained_from.self)
  have trans: "chained_from fs g i \<Longrightarrow> g \<in> set (fu_chained (fs ! f)) \<Longrightarrow> chained_from fs f i" for g
    by (induction rule: chained_from.induct)
      (use assms(1) in \<open>auto intro: chained_from.self chained_from.link\<close>)
  assume "i = f \<or> (\<exists>g \<in> set (fu_chained (fs ! f) @ work). chained_from fs1 g i)"
  then consider "i = f" | g where "g \<in> set (fu_chained (fs ! f))" "chained_from fs1 g i"
    | g where "g \<in> set work" "chained_from fs1 g i" by auto
  then show "\<exists>g \<in> set (f # work). chained_from fs g i"
    by cases (use sub trans in \<open>auto intro: chained_from.self\<close>)
qed

lemma set_futures_sets:
  "set_futures v e work fs = (fs', None) \<Longrightarrow>
     length fs' = length fs \<and>
     (\<forall>i < length fs. if \<exists>f \<in> set work. chained_from fs f i
        then fu_ready (fs' ! i) \<and> fu_value (fs' ! i) = v \<and> fu_err (fs' ! i) = e \<and> \<not> fu_ready (fs ! i)
        else fs' ! i = fs ! i)"
proof (induction v e work fs rule: set_futures.induct)
  case (2 v e f work fs)
  let ?fs1 = "fs[f := \<lparr>fu_ready = True, fu_value = v, fu_err = e, fu_chained = []\<rparr>]"
  from 2(2) have f: "f < length fs" "\<not> fu_ready (fs ! f)"
    and run: "set_futures v e (fu_chained (fs ! f) @ work) ?fs1 = (fs', None)"
    by (auto split: if_splits)
  from 2(1) [OF _ f(2) run] f(1) have len: "length fs' = length fs"
    and IH: "\<And>i. i < length fs \<Longrightarrow>
      if \<exists>g \<in> set (fu_chained (fs ! f) @ work). chained_from ?fs1 g i
      then fu_ready (fs' ! i) \<and> fu_value (fs' ! i) = v \<and> fu_err (fs' ! i) = e \<and> \<not> fu_ready (?fs1 ! i)
      else fs' ! i = ?fs1 ! i"
    by auto
  show ?case
  proof (intro conjI len allI impI)
    fix i
    assume i: "i < length fs"
    note iff = chained_after_mark [OF f(1), of work i v e]
    show "if \<exists>g \<in> set (f # work). chained_from fs g i
      then fu_ready (fs' ! i) \<and> fu_value (fs' ! i) = v \<and> fu_err (fs' ! i) = e \<and> \<not> fu_ready (fs ! i)
      else fs' ! i = fs ! i"
      using IH [OF i] f i unfolding iff
      by (cases "i = f") (auto split: if_splits)
  qed
qed simp

text \<open>
  Completing a future completes exactly the futures chained to it, directly or through others,
  with the same value and error; no other future, and nothing else of the execution, changes.
\<close>

lemma completion_follows_chains:
  assumes "set_future ex f v e = (ex', None)"
  shows "ex' = ex\<lparr>ex_futures := ex_futures ex'\<rparr> \<and> length (ex_futures ex') = length (ex_futures ex) \<and>
     (\<forall>i < length (ex_futures ex).
        if chained_from (ex_futures ex) f i
        then fu_ready (ex_futures ex' ! i) \<and> fu_value (ex_futures ex' ! i) = v \<and>
             fu_err (ex_futures ex' ! i) = e
        else ex_futures ex' ! i = ex_futures ex ! i)"
proof -
  obtain fs' where r: "set_futures v e [f] (ex_futures ex) = (fs', None)"
      and ex': "ex' = ex\<lparr>ex_futures := fs'\<rparr>"
    using assms by (auto simp: set_future_def simp del: set_futures.simps split: prod.splits)
  from set_futures_sets [OF r] ex' show ?thesis by auto
qed

text \<open>An execution with three futures, the third chained to the second, the second to the first.\<close>

definition chain_run :: "greeting_status execution" where
  "chain_run = (demo_execution (demo_workflow ''signal-greeting'' False signal_greeting) [])
     \<lparr>ex_futures := [\<lparr>fu_ready = False, fu_value = VNil, fu_err = None, fu_chained = [1]\<rparr>,
        \<lparr>fu_ready = False, fu_value = VNil, fu_err = None, fu_chained = [2]\<rparr>,
        \<lparr>fu_ready = False, fu_value = VNil, fu_err = None, fu_chained = []\<rparr>]\<rparr>"

lemma completion_follows_chains_witness:
  "\<exists>ex'. set_future chain_run 0 (VInt 7) None = (ex', None) \<and>
     fu_ready (ex_futures ex' ! 2) \<and> fu_value (ex_futures ex' ! 2) = VInt 7"
proof -
  have "snd (set_future chain_run 0 (VInt 7) None) = None" by code_simp
  then obtain ex' where s: "set_future chain_run 0 (VInt 7) None = (ex', None)"
    by (cases "set_future chain_run 0 (VInt 7) None") auto
  have fs: "ex_futures chain_run = [\<lparr>fu_ready = False, fu_value = VNil, fu_err = None, fu_chained = [1]\<rparr>,
        \<lparr>fu_ready = False, fu_value = VNil, fu_err = None, fu_chained = [2]\<rparr>,
        \<lparr>fu_ready = False, fu_value = VNil, fu_err = None, fu_chained = []\<rparr>]"
    by (simp add: chain_run_def)
  have "chained_from (ex_futures chain_run) 0 2"
    by (rule chained_from.link [OF chained_from.link [OF chained_from.self, of _ _ 1]])
      (simp_all add: fs)
  with completion_follows_chains [OF s] s show ?thesis by (auto simp: fs)
qed

end
