(* ===== verification/Run_Lanes.thy ===== *)
theory Run_Lanes
  imports Go_Prelude "HOL-Library.Multiset"
begin

text \<open>
  The turns of a workflow run: \<open>reserveRunTurn\<close>, \<open>wait\<close> and \<open>releaseRunTurn\<close> of
  \<open>internal/workflowworker/worker.go\<close>.

  Lanes and turns are shared objects, so both live in lists and a pointer is an index. A turn's
  \<open>done\<close> channel is named by the turn that made it; \<open>tn_done\<close> tells whether it is closed, and
  \<open>ready\<close> and \<open>tail\<close> are such names or nil. \<open>tn_run\<close> is the run a turn was reserved for, which the
  source keeps beside the turn. Each operation is one critical section of \<open>runsMu\<close>, closing the
  channel included.

  The lemmas show that the unreleased turns of a run are in one lane and form a queue: the first
  reserved, and only it, may proceed.
\<close>

section \<open>State and operations\<close>

record run_lane =
  ln_refs :: int
  ln_tail :: "nat option"

record run_turn =
  tn_run :: string
  tn_lane :: nat
  tn_ready :: "nat option"
  tn_done :: bool

record run_lanes =
  rl_locks :: "(string, nat) gomap"
  rl_lanes :: "run_lane list"
  rl_turns :: "run_turn list"

definition no_lanes :: run_lanes where
  "no_lanes = \<lparr>rl_locks = [], rl_lanes = [], rl_turns = []\<rparr>"

text \<open>The lane of a run, made when there is none.\<close>

definition ensure_lane :: "run_lanes \<Rightarrow> string \<Rightarrow> nat \<times> run_lanes" where
  "ensure_lane s run = (case map_of (rl_locks s) run of
     Some l \<Rightarrow> (l, s)
   | None \<Rightarrow>
       (length (rl_lanes s),
        s\<lparr>rl_locks := AList.update run (length (rl_lanes s)) (rl_locks s),
          rl_lanes := rl_lanes s @ [\<lparr>ln_refs = 0, ln_tail = None\<rparr>]\<rparr>))"

definition reserve_run_turn :: "run_lanes \<Rightarrow> string \<Rightarrow> nat \<times> run_lanes" where
  "reserve_run_turn s0 run = (case ensure_lane s0 run of
     (l, s) \<Rightarrow>
       let turn = length (rl_turns s); lane = rl_lanes s ! l in
       (turn,
        s\<lparr>rl_turns := rl_turns s @
             [\<lparr>tn_run = run, tn_lane = l, tn_ready = ln_tail lane, tn_done = False\<rparr>],
          rl_lanes := (rl_lanes s)[l := \<lparr>ln_refs = ln_refs lane + 1, ln_tail = Some turn\<rparr>]\<rparr>))"

text \<open>\<open>wait\<close> returns.\<close>

definition turn_ready :: "run_lanes \<Rightarrow> nat \<Rightarrow> bool" where
  "turn_ready s t = (case tn_ready (rl_turns s ! t) of
     None \<Rightarrow> True | Some r \<Rightarrow> tn_done (rl_turns s ! r))"

definition close_turn :: "run_turn list \<Rightarrow> nat \<Rightarrow> run_turn list" where
  "close_turn ts t = ts[t := (ts ! t)\<lparr>tn_done := True\<rparr>]"

definition unlock_lane :: "run_lanes \<Rightarrow> bool \<Rightarrow> string \<Rightarrow> nat \<Rightarrow> run_lanes" where
  "unlock_lane s cached run l =
     (let lane = rl_lanes s ! l;
          s1 = s\<lparr>rl_lanes := (rl_lanes s)[l := lane\<lparr>ln_refs := ln_refs lane - 1\<rparr>]\<rparr>
      in if ln_refs lane - 1 = 0 \<and> \<not> cached \<and> map_of (rl_locks s) run = Some l
         then s1\<lparr>rl_locks := AList.delete run (rl_locks s1)\<rparr> else s1)"

text \<open>\<open>cached\<close>: the run is in the worker's cache. \<open>None\<close>: the panic of closing a closed channel.\<close>

definition release_run_turn :: "run_lanes \<Rightarrow> bool \<Rightarrow> string \<Rightarrow> nat \<Rightarrow> run_lanes option" where
  "release_run_turn s cached run t =
     (let turn = rl_turns s ! t in
      if tn_done turn then None
      else Some (unlock_lane (s\<lparr>rl_turns := close_turn (rl_turns s) t\<rparr>) cached run (tn_lane turn)))"

section \<open>The queue of a lane\<close>

text \<open>The turns of a lane before position \<open>n\<close>, and the last of them.\<close>

definition lane_before :: "run_turn list \<Rightarrow> nat \<Rightarrow> nat \<Rightarrow> nat list" where
  "lane_before ts l n = filter (\<lambda>i. tn_lane (ts ! i) = l) [0..<n]"

definition last_opt :: "'a list \<Rightarrow> 'a option" where
  "last_opt xs = (if xs = [] then None else Some (last xs))"

definition unreleased :: "run_turn list \<Rightarrow> nat \<Rightarrow> nat list" where
  "unreleased ts l = filter (\<lambda>i. tn_lane (ts ! i) = l \<and> \<not> tn_done (ts ! i)) [0..<length ts]"

definition locks_ok :: "run_lanes \<Rightarrow> bool" where
  "locks_ok s \<longleftrightarrow>
     (\<forall>run l. map_of (rl_locks s) run = Some l \<longrightarrow> l < length (rl_lanes s) \<and>
        (\<forall>t < length (rl_turns s). tn_lane (rl_turns s ! t) = l \<longrightarrow> tn_run (rl_turns s ! t) = run)) \<and>
     (\<forall>run run' l. map_of (rl_locks s) run = Some l \<longrightarrow> map_of (rl_locks s) run' = Some l \<longrightarrow> run = run')"

definition turns_ok :: "run_lanes \<Rightarrow> bool" where
  "turns_ok s \<longleftrightarrow> (\<forall>t < length (rl_turns s).
     tn_lane (rl_turns s ! t) < length (rl_lanes s) \<and>
     (\<not> tn_done (rl_turns s ! t) \<longrightarrow>
        map_of (rl_locks s) (tn_run (rl_turns s ! t)) = Some (tn_lane (rl_turns s ! t))) \<and>
     tn_ready (rl_turns s ! t) = last_opt (lane_before (rl_turns s) (tn_lane (rl_turns s ! t)) t) \<and>
     (tn_done (rl_turns s ! t) \<longrightarrow> turn_ready s t))"

definition lane_counts :: "run_lanes \<Rightarrow> bool" where
  "lane_counts s \<longleftrightarrow> (\<forall>l < length (rl_lanes s).
     ln_refs (rl_lanes s ! l) = int (length (unreleased (rl_turns s) l)) \<and>
     ln_tail (rl_lanes s ! l) = last_opt (lane_before (rl_turns s) l (length (rl_turns s))))"

definition lanes_ok :: "run_lanes \<Rightarrow> bool" where
  "lanes_ok s \<longleftrightarrow> locks_ok s \<and> turns_ok s \<and> lane_counts s"

lemma lanes_okD [dest]:
  "lanes_ok s \<Longrightarrow> locks_ok s" "lanes_ok s \<Longrightarrow> turns_ok s" "lanes_ok s \<Longrightarrow> lane_counts s"
  by (simp_all add: lanes_ok_def)

lemma lane_before_append [simp]: "n \<le> length ts \<Longrightarrow> lane_before (ts @ xs) l n = lane_before ts l n"
  by (auto simp: lane_before_def nth_append intro!: filter_cong)

lemma lane_before_Suc:
  "lane_before ts l (Suc n) = lane_before ts l n @ (if tn_lane (ts ! n) = l then [n] else [])"
  by (simp add: lane_before_def)

lemma last_opt_simps [simp]: "last_opt [] = None" "last_opt (xs @ [x]) = Some x"
  by (simp_all add: last_opt_def)

lemma last_opt_SomeD: "last_opt xs = Some x \<Longrightarrow> x \<in> set xs"
  by (auto simp: last_opt_def split: if_splits)

lemma set_lane_before: "i \<in> set (lane_before ts l n) \<longleftrightarrow> i < n \<and> tn_lane (ts ! i) = l"
  by (auto simp: lane_before_def)

lemma last_opt_lane_before:
  assumes "last_opt (lane_before ts l n) = Some r"
  shows "r < n \<and> tn_lane (ts ! r) = l \<and> (\<forall>i < n. tn_lane (ts ! i) = l \<longrightarrow> i \<le> r)"
proof -
  from assms have mem: "r \<in> set (lane_before ts l n)" by (rule last_opt_SomeD)
  have "sorted (lane_before ts l n)" by (simp add: lane_before_def sorted_wrt_filter)
  moreover from assms have "r = last (lane_before ts l n)" "lane_before ts l n \<noteq> []"
    by (auto simp: last_opt_def split: if_splits)
  ultimately have "\<forall>i \<in> set (lane_before ts l n). i \<le> r"
    by (auto simp: in_set_conv_nth last_conv_nth intro!: sorted_nth_mono)
  with mem show ?thesis by (auto simp: set_lane_before)
qed

lemma last_opt_None: "last_opt (lane_before ts l n) = None \<longleftrightarrow> (\<forall>i < n. tn_lane (ts ! i) \<noteq> l)"
  by (auto simp: last_opt_def lane_before_def filter_empty_conv)

lemma unreleased_append:
  "unreleased (ts @ [t]) l =
     unreleased ts l @ (if tn_lane t = l \<and> \<not> tn_done t then [length ts] else [])"
  by (auto simp: unreleased_def nth_append intro!: filter_cong)


lemma close_turn_simps [simp]:
  "length (close_turn ts t) = length ts"
  "tn_lane (close_turn ts t ! i) = tn_lane (ts ! i)"
  "tn_run (close_turn ts t ! i) = tn_run (ts ! i)"
  "tn_ready (close_turn ts t ! i) = tn_ready (ts ! i)"
  "tn_done (close_turn ts t ! i) \<longleftrightarrow> i = t \<and> t < length ts \<or> tn_done (ts ! i)"
proof -
  show "length (close_turn ts t) = length ts" by (simp add: close_turn_def)
  have "close_turn ts t ! i = (if i = t \<and> t < length ts then (ts ! t)\<lparr>tn_done := True\<rparr> else ts ! i)"
    by (cases "t < length ts") (auto simp: close_turn_def nth_list_update list_update_beyond)
  then show "tn_lane (close_turn ts t ! i) = tn_lane (ts ! i)"
    "tn_run (close_turn ts t ! i) = tn_run (ts ! i)"
    "tn_ready (close_turn ts t ! i) = tn_ready (ts ! i)"
    "tn_done (close_turn ts t ! i) \<longleftrightarrow> i = t \<and> t < length ts \<or> tn_done (ts ! i)"
    by auto
qed

lemma lane_before_close [simp]: "lane_before (close_turn ts t) l n = lane_before ts l n"
  by (simp add: lane_before_def)

lemma distinct_unreleased: "distinct (unreleased ts l)"
  by (simp add: unreleased_def)

lemma set_unreleased: "i \<in> set (unreleased ts l) \<longleftrightarrow> i < length ts \<and> tn_lane (ts ! i) = l \<and> \<not> tn_done (ts ! i)"
  by (auto simp: unreleased_def)

lemma unreleased_close: "t < length ts \<Longrightarrow> unreleased (close_turn ts t) l = remove1 t (unreleased ts l)"
  unfolding distinct_remove1_removeAll [OF distinct_unreleased] removeAll_filter_not_eq
  by (auto simp: unreleased_def intro!: filter_cong)

lemma length_unreleased_close:
  assumes "t < length ts" and "\<not> tn_done (ts ! t)"
  shows "int (length (unreleased (close_turn ts t) l)) =
    int (length (unreleased ts l)) - (if l = tn_lane (ts ! t) then 1 else 0)"
proof -
  have mem: "t \<in> set (unreleased ts l) \<longleftrightarrow> l = tn_lane (ts ! t)" using assms by (auto simp: set_unreleased)
  show ?thesis
  proof (cases "l = tn_lane (ts ! t)")
    case True
    with mem obtain n where "length (unreleased ts l) = Suc n"
      by (cases "length (unreleased ts l)") auto
    with True mem show ?thesis by (simp add: unreleased_close [OF assms(1)] length_remove1)
  qed (use mem in \<open>simp add: unreleased_close [OF assms(1)] remove1_idem\<close>)
qed

section \<open>The invariant\<close>

lemma lanes_ok_no_lanes: "lanes_ok no_lanes"
  by (simp add: lanes_ok_def locks_ok_def turns_ok_def lane_counts_def no_lanes_def)

lemma ensure_lane_ok:
  assumes "lanes_ok s" and "ensure_lane s run = (l, s')"
  shows "lanes_ok s' \<and> map_of (rl_locks s') run = Some l \<and> l < length (rl_lanes s') \<and>
    rl_turns s' = rl_turns s"
proof (cases "map_of (rl_locks s) run")
  case (Some k)
  with assms show ?thesis by (auto simp: ensure_lane_def lanes_ok_def locks_ok_def)
next
  case None
  let ?n = "length (rl_lanes s)"
  from assms(2) None have l: "l = ?n" and s': "s' = s\<lparr>rl_locks := AList.update run ?n (rl_locks s),
      rl_lanes := rl_lanes s @ [\<lparr>ln_refs = 0, ln_tail = None\<rparr>]\<rparr>"
    by (auto simp: ensure_lane_def)
  from assms(1) have lane: "\<forall>t < length (rl_turns s). tn_lane (rl_turns s ! t) < ?n"
    by (auto simp: lanes_ok_def turns_ok_def)
  then have fresh: "\<forall>t < length (rl_turns s). tn_lane (rl_turns s ! t) \<noteq> ?n" by auto
  have "locks_ok s'"
    using assms(1) fresh unfolding lanes_ok_def locks_ok_def s'
    by (auto simp: update_conv' less_Suc_eq split: if_splits)
  moreover have "turns_ok s'"
    unfolding turns_ok_def
  proof (intro allI impI)
    fix i assume "i < length (rl_turns s')"
    then have i: "i < length (rl_turns s)" by (simp add: s')
    with assms(1) have "tn_lane (rl_turns s ! i) < ?n"
      "\<not> tn_done (rl_turns s ! i) \<longrightarrow>
        map_of (rl_locks s) (tn_run (rl_turns s ! i)) = Some (tn_lane (rl_turns s ! i))"
      "tn_ready (rl_turns s ! i) = last_opt (lane_before (rl_turns s) (tn_lane (rl_turns s ! i)) i)"
      "tn_done (rl_turns s ! i) \<longrightarrow> turn_ready s i"
      by (auto simp: lanes_ok_def turns_ok_def)
    with None show "tn_lane (rl_turns s' ! i) < length (rl_lanes s') \<and>
     (\<not> tn_done (rl_turns s' ! i) \<longrightarrow>
        map_of (rl_locks s') (tn_run (rl_turns s' ! i)) = Some (tn_lane (rl_turns s' ! i))) \<and>
     tn_ready (rl_turns s' ! i) = last_opt (lane_before (rl_turns s') (tn_lane (rl_turns s' ! i)) i) \<and>
     (tn_done (rl_turns s' ! i) \<longrightarrow> turn_ready s' i)"
      by (auto simp: s' update_conv' turn_ready_def split: option.splits)
  qed
  moreover have "unreleased (rl_turns s) ?n = []" "lane_before (rl_turns s) ?n (length (rl_turns s)) = []"
    using fresh by (auto simp: unreleased_def lane_before_def filter_empty_conv)
  then have "lane_counts s'"
    using assms(1) unfolding lanes_ok_def lane_counts_def s' by (auto simp: nth_append less_Suc_eq)
  ultimately show ?thesis by (simp add: lanes_ok_def l s' update_conv')
qed

lemma reserve_ok:
  assumes "lanes_ok s0" and "reserve_run_turn s0 run = (t, s')"
  shows "lanes_ok s' \<and> t = length (rl_turns s0) \<and>
    (\<exists>l r. rl_turns s' = rl_turns s0 @ [\<lparr>tn_run = run, tn_lane = l, tn_ready = r, tn_done = False\<rparr>])"
proof -
  obtain l s where e: "ensure_lane s0 run = (l, s)" by force
  from ensure_lane_ok [OF assms(1) this] have ok: "lanes_ok s" and lock: "map_of (rl_locks s) run = Some l"
    and l: "l < length (rl_lanes s)" and ts: "rl_turns s = rl_turns s0" by auto
  let ?n = "length (rl_turns s)" and ?lane = "rl_lanes s ! l"
  let ?turn = "\<lparr>tn_run = run, tn_lane = l, tn_ready = ln_tail ?lane, tn_done = False\<rparr>"
  from assms(2) e have t: "t = ?n" and s': "s' = s\<lparr>rl_turns := rl_turns s @ [?turn],
      rl_lanes := (rl_lanes s)[l := \<lparr>ln_refs = ln_refs ?lane + 1, ln_tail = Some ?n\<rparr>]\<rparr>"
    by (auto simp: reserve_run_turn_def Let_def)
  have "locks_ok s'"
    using ok lock unfolding lanes_ok_def locks_ok_def s' by (auto simp: less_Suc_eq nth_append)
  moreover have tail: "ln_tail ?lane = last_opt (lane_before (rl_turns s) l ?n)"
    using ok l by (auto simp: lanes_ok_def lane_counts_def)
  have ready: "turn_ready s' i" if "i < ?n" "turn_ready s i"
      "tn_ready (rl_turns s ! i) = last_opt (lane_before (rl_turns s) (tn_lane (rl_turns s ! i)) i)" for i
    using that by (auto simp: turn_ready_def s' nth_append dest!: last_opt_lane_before split: option.splits)
  have "turns_ok s'"
    unfolding turns_ok_def
  proof (intro allI impI)
    fix i assume "i < length (rl_turns s')"
    then consider "i < ?n" | "i = ?n" by (auto simp: s' less_Suc_eq)
    then show "tn_lane (rl_turns s' ! i) < length (rl_lanes s') \<and>
     (\<not> tn_done (rl_turns s' ! i) \<longrightarrow>
        map_of (rl_locks s') (tn_run (rl_turns s' ! i)) = Some (tn_lane (rl_turns s' ! i))) \<and>
     tn_ready (rl_turns s' ! i) = last_opt (lane_before (rl_turns s') (tn_lane (rl_turns s' ! i)) i) \<and>
     (tn_done (rl_turns s' ! i) \<longrightarrow> turn_ready s' i)"
    proof cases
      case 1
      with ok have "tn_lane (rl_turns s ! i) < length (rl_lanes s) \<and>
        (\<not> tn_done (rl_turns s ! i) \<longrightarrow>
          map_of (rl_locks s) (tn_run (rl_turns s ! i)) = Some (tn_lane (rl_turns s ! i))) \<and>
        tn_ready (rl_turns s ! i) = last_opt (lane_before (rl_turns s) (tn_lane (rl_turns s ! i)) i) \<and>
        (tn_done (rl_turns s ! i) \<longrightarrow> turn_ready s i)"
        by (auto simp: lanes_ok_def turns_ok_def)
      with 1 ready [of i] show ?thesis by (simp add: s' nth_append)
    next
      case 2
      with tail l lock show ?thesis by (simp add: s')
    qed
  qed
  moreover have "lane_counts s'"
    using ok l unfolding lanes_ok_def lane_counts_def s'
    by (auto simp: nth_list_update unreleased_append lane_before_Suc)
  ultimately show ?thesis by (simp add: lanes_ok_def t ts s')
qed

lemma release_ok:
  assumes "lanes_ok s" and t: "t < length (rl_turns s)" and undone: "\<not> tn_done (rl_turns s ! t)"
    and "turn_ready s t"
  shows "\<exists>s'. release_run_turn s cached (tn_run (rl_turns s ! t)) t = Some s' \<and> lanes_ok s' \<and>
    rl_turns s' = close_turn (rl_turns s) t"
proof -
  let ?ts = "rl_turns s" and ?l = "tn_lane (rl_turns s ! t)" and ?run = "tn_run (rl_turns s ! t)"
  let ?lane = "rl_lanes s ! ?l"
  let ?del = "ln_refs ?lane - 1 = 0 \<and> \<not> cached \<and> map_of (rl_locks s) ?run = Some ?l"
  define s' where "s' = s\<lparr>rl_turns := close_turn ?ts t,
    rl_lanes := (rl_lanes s)[?l := ?lane\<lparr>ln_refs := ln_refs ?lane - 1\<rparr>],
    rl_locks := (if ?del then AList.delete ?run (rl_locks s) else rl_locks s)\<rparr>"
  from assms(1) t have lane: "?l < length (rl_lanes s)"
    and lock: "map_of (rl_locks s) ?run = Some ?l"
    using undone by (auto simp: lanes_ok_def turns_ok_def)
  have r: "release_run_turn s cached ?run t = Some s'"
    using undone by (simp add: release_run_turn_def unlock_lane_def Let_def s'_def)
  have refs: "ln_refs ?lane = int (length (unreleased ?ts ?l))"
    using assms(1) lane by (auto simp: lanes_ok_def lane_counts_def)
  have tin: "t \<in> set (unreleased ?ts ?l)" using t undone by (simp add: set_unreleased)
  have kept: "i = t \<or> tn_lane (?ts ! i) \<noteq> ?l" if "?del" "i < length ?ts" "\<not> tn_done (?ts ! i)" for i
  proof -
    from that(1) refs have "length (unreleased ?ts ?l) = 1" by simp
    with tin have "set (unreleased ?ts ?l) = {t}" by (auto simp: length_Suc_conv)
    with that set_unreleased [of i ?ts ?l] show ?thesis by auto
  qed
  have sub: "map_of (rl_locks s') run = Some l \<Longrightarrow> map_of (rl_locks s) run = Some l" for run l
    by (auto simp: s'_def delete_conv' split: if_splits)
  have turns: "rl_turns s' = close_turn ?ts t" "length (rl_lanes s') = length (rl_lanes s)"
    by (simp_all add: s'_def)
  have "locks_ok s'"
    using assms(1) sub unfolding lanes_ok_def locks_ok_def turns close_turn_simps by blast
  moreover have "turns_ok s'"
    unfolding turns_ok_def turns close_turn_simps lane_before_close
  proof (intro allI impI)
    fix i assume i: "i < length ?ts"
    with assms(1) have old: "tn_lane (?ts ! i) < length (rl_lanes s)"
        "\<not> tn_done (?ts ! i) \<longrightarrow> map_of (rl_locks s) (tn_run (?ts ! i)) = Some (tn_lane (?ts ! i))"
        "tn_ready (?ts ! i) = last_opt (lane_before ?ts (tn_lane (?ts ! i)) i)"
        "tn_done (?ts ! i) \<longrightarrow> turn_ready s i"
      by (auto simp: lanes_ok_def turns_ok_def)
    have mono: "turn_ready s' i" if "turn_ready s i"
      using that by (auto simp: turn_ready_def turns split: option.splits)
    have "(i = t \<and> t < length ?ts \<or> tn_done (?ts ! i)) \<longrightarrow> turn_ready s' i"
      using mono old(4) assms(4) by auto
    moreover have "map_of (rl_locks s') (tn_run (?ts ! i)) = Some (tn_lane (?ts ! i))"
      if nd: "\<not> (i = t \<and> t < length ?ts \<or> tn_done (?ts ! i))"
    proof (cases ?del)
      case True
      with kept [OF True i] nd old(2) lock t have "tn_run (?ts ! i) \<noteq> ?run" by auto
      with True old(2) nd show ?thesis by (simp add: delete_conv' s'_def)
    next
      case False
      with old(2) nd show ?thesis by (simp add: s'_def)
    qed
    ultimately show "tn_lane (?ts ! i) < length (rl_lanes s) \<and>
     (\<not> (i = t \<and> t < length ?ts \<or> tn_done (?ts ! i)) \<longrightarrow>
        map_of (rl_locks s') (tn_run (?ts ! i)) = Some (tn_lane (?ts ! i))) \<and>
     tn_ready (?ts ! i) = last_opt (lane_before ?ts (tn_lane (?ts ! i)) i) \<and>
     (i = t \<and> t < length ?ts \<or> tn_done (?ts ! i) \<longrightarrow> turn_ready s' i)"
      using old(1,3) by blast
  qed
  moreover have "lane_counts s'"
    using assms(1) lane unfolding lanes_ok_def lane_counts_def turns
    by (auto simp: nth_list_update length_unreleased_close [OF t undone] s'_def)
  ultimately show ?thesis using r by (auto simp: lanes_ok_def turns)
qed

section \<open>Order and exclusion\<close>

lemma done_before:
  assumes "turns_ok s" and "i < length (rl_turns s)" and "tn_done (rl_turns s ! i)"
    and "j < i" and "tn_lane (rl_turns s ! j) = tn_lane (rl_turns s ! i)"
  shows "tn_done (rl_turns s ! j)"
  using assms(2-5)
proof (induction i rule: less_induct)
  case (less i)
  let ?ts = "rl_turns s"
  from assms(1) less.prems have r: "turn_ready s i"
    and eq: "tn_ready (?ts ! i) = last_opt (lane_before ?ts (tn_lane (?ts ! i)) i)"
    by (auto simp: turns_ok_def)
  show ?case
  proof (cases "tn_ready (?ts ! i)")
    case None
    with eq have "\<forall>k < i. tn_lane (?ts ! k) \<noteq> tn_lane (?ts ! i)" by (metis last_opt_None)
    with less.prems show ?thesis by blast
  next
    case (Some k)
    with eq have k: "k < i" "tn_lane (?ts ! k) = tn_lane (?ts ! i)" "j \<le> k"
      using last_opt_lane_before [of ?ts "tn_lane (?ts ! i)" i k] less.prems by auto
    from r Some have "tn_done (?ts ! k)" by (simp add: turn_ready_def)
    with less.IH [OF k(1)] k less.prems show ?thesis by (cases "j = k") auto
  qed
qed

text \<open>Of two unreleased turns of a run, the one reserved later has to wait.\<close>

lemma later_waits:
  assumes "lanes_ok s" and "i < j" and "j < length (rl_turns s)"
    and "\<not> tn_done (rl_turns s ! i)" and "\<not> tn_done (rl_turns s ! j)"
    and "tn_run (rl_turns s ! i) = tn_run (rl_turns s ! j)"
  shows "\<not> turn_ready s j"
proof -
  let ?ts = "rl_turns s"
  from assms have lane: "tn_lane (?ts ! i) = tn_lane (?ts ! j)"
    by (auto simp: lanes_ok_def turns_ok_def) (metis assms(3) less_trans option.inject)
  have eq: "tn_ready (?ts ! j) = last_opt (lane_before ?ts (tn_lane (?ts ! j)) j)"
    using assms(1,3) by (auto simp: lanes_ok_def turns_ok_def)
  show ?thesis
  proof (cases "tn_ready (?ts ! j)")
    case None
    with eq have "\<forall>k < j. tn_lane (?ts ! k) \<noteq> tn_lane (?ts ! j)" by (metis last_opt_None)
    with assms(2) lane show ?thesis by blast
  next
    case (Some k)
    with eq have k: "k < j" "tn_lane (?ts ! k) = tn_lane (?ts ! j)" "i \<le> k"
      using last_opt_lane_before [of ?ts "tn_lane (?ts ! j)" j k] assms(2) lane by auto
    have "\<not> tn_done (?ts ! k)"
    proof
      assume "tn_done (?ts ! k)"
      with done_before [of s k i] assms k lane show False by (cases "i = k") auto
    qed
    with Some show ?thesis by (simp add: turn_ready_def)
  qed
qed

text \<open>The first unreleased turn may proceed.\<close>

lemma first_proceeds:
  assumes "lanes_ok s" and "i < length (rl_turns s)" and "\<forall>j < i. tn_done (rl_turns s ! j)"
  shows "turn_ready s i"
proof -
  let ?ts = "rl_turns s"
  have "tn_ready (?ts ! i) = last_opt (lane_before ?ts (tn_lane (?ts ! i)) i)"
    using assms(1,2) by (auto simp: lanes_ok_def turns_ok_def)
  then show ?thesis using assms(3)
    by (auto simp: turn_ready_def dest!: last_opt_lane_before split: option.splits)
qed

section \<open>Who holds the turns\<close>

text \<open>
  \<open>H\<close>: the turns held, each with its run; \<open>P\<close>: those whose holder has stopped waiting. Every
  unreleased turn is held exactly once.
\<close>

definition undone :: "run_lanes \<Rightarrow> nat set" where
  "undone s = {t. t < length (rl_turns s) \<and> \<not> tn_done (rl_turns s ! t)}"

definition hold_ok :: "run_lanes \<Rightarrow> (string \<times> nat) multiset \<Rightarrow> (string \<times> nat) set \<Rightarrow> bool" where
  "hold_ok s H P \<longleftrightarrow>
     lanes_ok s \<and> image_mset snd H = mset_set (undone s) \<and>
     (\<forall>x \<in># H. tn_run (rl_turns s ! snd x) = fst x) \<and>
     (\<forall>x \<in> P. x \<in># H \<and> turn_ready s (snd x))"

lemma finite_undone [simp]: "finite (undone s)"
  by (simp add: undone_def)

lemma hold_ok_held:
  assumes "hold_ok s H P" and "x \<in># H"
  shows "snd x < length (rl_turns s)" "\<not> tn_done (rl_turns s ! snd x)" "tn_run (rl_turns s ! snd x) = fst x"
proof -
  have "snd x \<in># image_mset snd H" using assms(2) by simp
  with assms(1) have "snd x \<in># mset_set (undone s)" by (simp add: hold_ok_def)
  then show "snd x < length (rl_turns s)" "\<not> tn_done (rl_turns s ! snd x)"
    by (simp_all add: undone_def)
  show "tn_run (rl_turns s ! snd x) = fst x" using assms by (simp add: hold_ok_def)
qed

lemma hold_ok_mono: "hold_ok s H P \<Longrightarrow> P' \<subseteq> P \<Longrightarrow> hold_ok s H P'"
  by (auto simp: hold_ok_def)

lemma hold_ok_past:
  "hold_ok s H P \<Longrightarrow> x \<in># H \<Longrightarrow> turn_ready s (snd x) \<Longrightarrow> hold_ok s H (insert x P)"
  by (auto simp: hold_ok_def)

lemma hold_ok_reserve:
  assumes "hold_ok s H P" and "reserve_run_turn s run = (t, s')"
  shows "hold_ok s' (add_mset (run, t) H) P"
proof -
  from assms(1) have ok: "lanes_ok s" by (simp add: hold_ok_def)
  from reserve_ok [OF ok assms(2)] obtain l r where ok': "lanes_ok s'" and t: "t = length (rl_turns s)"
    and ts: "rl_turns s' = rl_turns s @ [\<lparr>tn_run = run, tn_lane = l, tn_ready = r, tn_done = False\<rparr>]"
    by blast
  have "undone s' = insert t (undone s)"
    by (auto simp: undone_def ts t nth_append less_Suc_eq)
  moreover have "t \<notin> undone s" by (simp add: undone_def t)
  moreover have old: "tn_run (rl_turns s' ! snd x) = fst x" if "x \<in># H" for x
    using hold_ok_held [OF assms(1) that] by (simp add: ts nth_append)
  moreover have "turn_ready s' (snd x)" if "x \<in> P" for x
  proof -
    from that assms(1) have x: "x \<in># H" "turn_ready s (snd x)" by (auto simp: hold_ok_def)
    note len = hold_ok_held(1) [OF assms(1) x(1)]
    then have "tn_ready (rl_turns s ! snd x) =
        last_opt (lane_before (rl_turns s) (tn_lane (rl_turns s ! snd x)) (snd x))"
      using ok by (auto simp: lanes_ok_def turns_ok_def)
    then have "\<forall>k. tn_ready (rl_turns s ! snd x) = Some k \<longrightarrow> k < snd x"
      using last_opt_lane_before by metis
    with x(2) len show ?thesis by (auto simp: turn_ready_def ts nth_append split: option.splits)
  qed
  ultimately show ?thesis using assms(1) ok' by (auto simp: hold_ok_def ts t)
qed

lemma hold_ok_release:
  assumes "hold_ok s H P" and "x \<in> P"
  shows "\<exists>s'. release_run_turn s cached (fst x) (snd x) = Some s' \<and> hold_ok s' (H - {#x#}) (P - {x})"
proof -
  from assms have x: "x \<in># H" "turn_ready s (snd x)" and ok: "lanes_ok s" by (auto simp: hold_ok_def)
  note held = hold_ok_held [OF assms(1) x(1)]
  from release_ok [OF ok held(1,2) x(2), of cached] obtain s' where
    r: "release_run_turn s cached (fst x) (snd x) = Some s'" and ok': "lanes_ok s'"
    and ts: "rl_turns s' = close_turn (rl_turns s) (snd x)"
    by (auto simp: held(3))
  have "undone s' = undone s - {snd x}" using held by (auto simp: undone_def ts)
  moreover have "snd x \<in> undone s" using held by (simp add: undone_def)
  ultimately have "image_mset snd (H - {#x#}) = mset_set (undone s')"
    using assms(1) x(1) by (simp add: hold_ok_def image_mset_Diff mset_set_Diff)
  moreover have "turn_ready s' i" if "turn_ready s i" for i
    using that by (auto simp: turn_ready_def ts split: option.splits)
  moreover have "y \<in># H - {#x#}" if "y \<in> P - {x}" for y
    using that assms(1) by (auto simp: hold_ok_def in_diff_count count_eq_zero_iff)
  ultimately have "hold_ok s' (H - {#x#}) (P - {x})"
    using assms(1) ok' by (auto simp: hold_ok_def ts dest: in_diffD)
  with r show ?thesis by blast
qed

text \<open>
  While a holder of a turn of a run has stopped waiting and not released it, every other holder of a turn
  of that run reserved it later and waits.
\<close>

lemma hold_ok_exclusive:
  assumes "hold_ok s H P" and "x \<in> P" and "y \<in># H" and "y \<noteq> x" and "fst y = fst x"
  shows "snd x < snd y \<and> \<not> turn_ready s (snd y)"
proof -
  from assms have ok: "lanes_ok s" and x: "x \<in># H" "turn_ready s (snd x)" by (auto simp: hold_ok_def)
  note hx = hold_ok_held [OF assms(1) x(1)] and hy = hold_ok_held [OF assms(1,3)]
  have "snd y \<noteq> snd x" using assms(4,5) by (auto simp: prod_eq_iff)
  moreover have "\<not> snd y < snd x"
    using later_waits [OF ok _ hx(1) hy(2) hx(2)] hx(3) hy(3) assms(5) x(2) by auto
  ultimately have "snd x < snd y" by simp
  with later_waits [OF ok _ hy(1) hx(2) hy(2)] hx(3) hy(3) assms(5) show ?thesis by auto
qed

text \<open>If turns are held, some holder need not wait.\<close>

lemma hold_ok_progress:
  assumes "hold_ok s H P" and "H \<noteq> {#}"
  shows "\<exists>x. x \<in># H \<and> turn_ready s (snd x)"
proof -
  from assms(2) obtain y where "y \<in># H" by blast
  from hold_ok_held [OF assms(1) this] have "undone s \<noteq> {}" by (auto simp: undone_def)
  then obtain m where m: "m \<in> undone s" and least: "\<And>k. k \<in> undone s \<Longrightarrow> m \<le> k"
    by (meson Min_in Min_le finite_undone)
  have "tn_done (rl_turns s ! j)" if "j < m" for j
    using least [of j] m that by (auto simp: undone_def)
  then have r: "turn_ready s m"
    using first_proceeds [of s m] assms(1) m by (simp add: hold_ok_def undone_def)
  have "m \<in># image_mset snd H" using assms(1) m by (simp add: hold_ok_def)
  then obtain x where "x \<in># H" "snd x = m" by auto
  with r show ?thesis by metis
qed

lemma hold_ok_idle:
  assumes "lanes_ok s" and "\<forall>turn \<in> set (rl_turns s). tn_done turn"
  shows "hold_ok s {#} {}"
proof -
  have "undone s = {}" using assms(2) by (auto simp: undone_def)
  with assms(1) show ?thesis by (simp add: hold_ok_def)
qed

lemma lanes_ok_unlock:
  assumes "lanes_ok s" and "undone s = {}"
  shows "lanes_ok (s\<lparr>rl_locks := []\<rparr>)"
proof -
  from assms(2) have "tn_done (rl_turns s ! t)" if "t < length (rl_turns s)" for t
    using that by (auto simp: undone_def)
  with assms(1) show ?thesis
    by (auto simp: lanes_ok_def locks_ok_def turns_ok_def lane_counts_def turn_ready_def
        split: option.splits)
qed

lemma hold_ok_unlock:
  assumes "hold_ok s {#} {}"
  shows "hold_ok (s\<lparr>rl_locks := []\<rparr>) {#} {}"
proof -
  from assms have "mset_set (undone s) = {#}" by (simp add: hold_ok_def)
  then have "undone s = {}" by (simp only: mset_set_empty_iff finite_undone) simp
  moreover have "undone (s\<lparr>rl_locks := []\<rparr>) = undone s" by (simp add: undone_def)
  ultimately show ?thesis using assms lanes_ok_unlock [of s] by (simp add: hold_ok_def)
qed

lemma hold_ok_once:
  assumes "hold_ok s (add_mset x H) P"
  shows "x \<notin># H"
proof
  assume "x \<in># H"
  then obtain H' where "H = add_mset x H'" by (blast dest: multi_member_split)
  with assms have "mset_set (undone s) = add_mset (snd x) (add_mset (snd x) (image_mset snd H'))"
    by (simp add: hold_ok_def)
  then have "count (mset_set (undone s)) (snd x) \<ge> 2" by simp
  moreover have "count (mset_set (undone s)) (snd x) \<le> 1" by (simp add: count_mset_set')
  ultimately show False by linarith
qed

end
