(* ===== verification/Workflow_Worker.thy ===== *)
theory Workflow_Worker
  imports Workflow_Activation Run_Lanes Payload_Codec
begin

text \<open>
  The workflow worker (\<open>Worker\<close> of \<open>internal/workflowworker/worker.go\<close>): its cache of executions,
  registration, option checks, and the handling of one activation.

  The worker's mutex protects the cache and the lanes; an execution is changed only by the goroutine
  that holds the turn of its run, so an activation is handled in one step. Workflow code starts with
  variables the caller of these definitions chooses. Whatever user code runs (in \<open>activate\<close> and
  \<open>stop\<close>) need not return, and the value is \<open>None\<close> then.
\<close>

section \<open>Options\<close>

record workflow_options =
  wo_max_executions :: int
  wo_max_pollers :: int
  wo_max_cached :: int
  wo_tls :: "string option"
  wo_api_key :: string

record workflow_core_options =
  wc_max_executions :: "32 word"
  wc_max_pollers :: "32 word"
  wc_max_cached :: "32 word"
  wc_tls :: "string option"
  wc_api_key :: string

definition default_max_executions :: "32 word" where "default_max_executions = 1000"
definition default_max_cached :: "32 word" where "default_max_cached = 32"
definition max_int32 :: int where "max_int32 = 2147483647"

definition executions_range_error :: goerr where
  "executions_range_error =
     ErrNew ''maximum concurrent workflow task executions must be between 1 and 2147483647''"

definition cached_range_error :: goerr where
  "cached_range_error = ErrNew ''maximum cached workflows must be between 1 and 2147483647''"

text \<open>The conversions to \<open>int32\<close> come before the checks; \<open>int\<close> is 64 bits wide.\<close>

definition normalize_workflow_options :: "workflow_options \<Rightarrow> goerr + workflow_core_options" where
  "normalize_workflow_options options =
     (let n = \<lparr>wc_max_executions = (if wo_max_executions options = 0 then default_max_executions
                                    else word_of_int (wo_max_executions options)),
               wc_max_pollers = word_of_int (wo_max_pollers options),
               wc_max_cached = (if wo_max_cached options = 0 then default_max_cached
                                else word_of_int (wo_max_cached options)),
               wc_tls = wo_tls options, wc_api_key = wo_api_key options\<rparr>
      in if wo_max_executions options < 0 \<or> wo_max_executions options > max_int32
         then Inl executions_range_error
         else if wo_max_pollers options < 0 \<or> wo_max_pollers options > max_int32
         then Inl (ErrNew ''maximum concurrent workflow task pollers must be between 0 and 2147483647'')
         else if wo_max_cached options < 0 \<or> wo_max_cached options > max_int32
         then Inl cached_range_error
         else if sint (wc_max_executions n) < 1 then Inl executions_range_error
         else if sint (wc_max_cached n) < 1 then Inl cached_range_error
         else if sint (wc_max_cached n) > 0 \<and> sint (wc_max_executions n) < 2
         then Inl (ErrNew ''maximum concurrent workflow task executions must be at least 2 when cached workflows are enabled'')
         else if sint (wc_max_cached n) > 0 \<and> sint (wc_max_pollers n) > 0 \<and> sint (wc_max_pollers n) < 2
         then Inl (ErrNew ''maximum concurrent workflow task pollers must be at least 2 when cached workflows are enabled'')
         else Inr n)"

section \<open>The worker\<close>

text \<open>\<open>ww_core\<close>: there is a Core worker. \<open>ww_shutdown\<close>: \<open>shutdownOnce\<close> is done, with the error kept.\<close>

record 'u workflow_worker =
  ww_namespace :: string
  ww_task_queue :: string
  ww_handlers :: "(string, 'u code reg_function) gomap"
  ww_codec :: "payload_codec option"
  ww_max_executions :: int
  ww_runs :: "(string, 'u execution) gomap"
  ww_lanes :: run_lanes
  ww_core :: bool
  ww_shutdown :: "goerr option option"

definition new_workflow_worker ::
    "string \<Rightarrow> string \<Rightarrow> payload_codec option \<Rightarrow> workflow_core_options \<Rightarrow> bool \<Rightarrow> 'u workflow_worker" where
  "new_workflow_worker namespace task_queue codec options core =
     \<lparr>ww_namespace = namespace, ww_task_queue = task_queue, ww_handlers = [], ww_codec = codec,
      ww_max_executions = sint (wc_max_executions options), ww_runs = [], ww_lanes = no_lanes,
      ww_core = core, ww_shutdown = None\<rparr>"

text \<open>\<open>NewWithCore\<close>.\<close>

definition new_worker_with_core ::
    "'cv \<Rightarrow> ('cv, payload_codec) connection \<Rightarrow> workflow_options \<Rightarrow> bool \<Rightarrow>
     goerr + 'cv option \<times> 'u workflow_worker" where
  "new_worker_with_core default_cv c options core =
     (case normalize_connection default_cv noop_codec ''workflow'' c of
        Inl e \<Rightarrow> Inl e
      | Inr cn \<Rightarrow>
          (case normalize_workflow_options options of
             Inl e \<Rightarrow> Inl e
           | Inr n \<Rightarrow> Inr (cn_payload_converter cn,
                           new_workflow_worker (cn_namespace cn) (cn_task_queue cn)
                             (cn_payload_codec cn) n core)))"

text \<open>\<open>New\<close>; the error of making the Core worker is a parameter.\<close>

definition new_worker ::
    "(('cv, payload_codec) connection \<Rightarrow> workflow_core_options \<Rightarrow> goerr option) \<Rightarrow> 'cv \<Rightarrow>
     ('cv, payload_codec) connection \<Rightarrow> workflow_options \<Rightarrow> goerr + 'cv option \<times> 'u workflow_worker" where
  "new_worker core_error default_cv c options =
     (case normalize_connection default_cv noop_codec ''workflow'' c of
        Inl e \<Rightarrow> Inl e
      | Inr cn \<Rightarrow>
          (case normalize_workflow_options options of
             Inl e \<Rightarrow> Inl e
           | Inr n \<Rightarrow>
               (case core_error cn n of
                  Some e \<Rightarrow> Inl e
                | None \<Rightarrow> Inr (cn_payload_converter cn,
                             new_workflow_worker (cn_namespace cn) (cn_task_queue cn)
                               (cn_payload_codec cn) n True))))"

text \<open>\<open>Register\<close>: the worker with the workflow, or the panic.\<close>

definition register_workflow ::
    "runtime \<Rightarrow> 'u workflow_worker \<Rightarrow> string \<Rightarrow> 'u code gofunc option \<Rightarrow> string + 'u workflow_worker" where
  "register_workflow rt w name function =
     (if map_of (ww_handlers w) name \<noteq> None then Inl (''workflow is already registered: '' @ name)
      else case new_registered_workflow rt name function of
        Inl e \<Rightarrow> Inl (err_msg e)
      | Inr f \<Rightarrow> Inr (w\<lparr>ww_handlers := AList.update name f (ww_handlers w)\<rparr>))"

definition get_run :: "'u workflow_worker \<Rightarrow> string \<Rightarrow> 'u execution option" where
  "get_run w run = map_of (ww_runs w) run"

definition set_run :: "'u workflow_worker \<Rightarrow> string \<Rightarrow> 'u execution \<Rightarrow> 'u workflow_worker" where
  "set_run w run ex = w\<lparr>ww_runs := AList.update run ex (ww_runs w)\<rparr>"

definition delete_run :: "'u workflow_worker \<Rightarrow> string \<Rightarrow> 'u workflow_worker" where
  "delete_run w run = w\<lparr>ww_runs := AList.delete run (ww_runs w)\<rparr>"

definition worker_codec :: "'u workflow_worker \<Rightarrow> payload_codec" where
  "worker_codec w = (case ww_codec w of None \<Rightarrow> noop_codec | Some c \<Rightarrow> c)"

definition workflow_completion_limit :: "'u workflow_worker \<Rightarrow> int" where
  "workflow_completion_limit w = (if ww_max_executions w > 0 then ww_max_executions w else 1000)"

section \<open>Activations\<close>

record activation =
  at_run_id :: string
  at_jobs :: "job list"

datatype completion_status = Successful "command list" | ActivationFailed failure

record completion =
  cp_run_id :: string
  cp_status :: completion_status

definition successful_activation :: "string \<Rightarrow> command list \<Rightarrow> completion" where
  "successful_activation run commands = \<lparr>cp_run_id = run, cp_status = Successful commands\<rparr>"

definition failed_activation :: "string \<Rightarrow> goerr \<Rightarrow> completion" where
  "failed_activation run e =
     \<lparr>cp_run_id = run, cp_status = ActivationFailed (new_failure e ''GoWasmWorkflowActivationError'' [])\<rparr>"

definition missing_run_id :: goerr where
  "missing_run_id = ErrNew ''workflow activation is missing a run ID''"

text \<open>\<open>execution.stop()\<close> followed by \<open>deleteRun\<close>.\<close>

definition evict_run :: "runtime \<Rightarrow> 'u workflow_worker \<Rightarrow> string \<Rightarrow> 'u execution \<Rightarrow> 'u workflow_worker option" where
  "evict_run rt w run ex = map_option (\<lambda>ex'. delete_run w run) (stop rt ex)"

text \<open>
  From \<open>execution.activate(jobs)\<close> on: the completion, or the message of a panic. The cached execution is
  the one \<open>activate\<close> changed.
\<close>

definition run_activation ::
    "runtime \<Rightarrow> 'u workflow_worker \<Rightarrow> string \<Rightarrow> 'u execution \<Rightarrow> job list \<Rightarrow>
     ('u workflow_worker \<times> (string + completion)) option" where
  "run_activation rt w run ex jobs =
     Option.bind (activate rt ex jobs) (\<lambda>r.
       case r of
         (ex', Commands cs) \<Rightarrow> Some (set_run w run ex', Inr (successful_activation run cs))
       | (ex', ActivateError e) \<Rightarrow>
           map_option (\<lambda>w'. (w', Inr (failed_activation run e))) (evict_run rt w run ex')
       | (ex', ActivatePanic m) \<Rightarrow> Some (set_run w run ex', Inl m))"

text \<open>The initialiser of the jobs, if the first is one: the workflow type and its arguments.\<close>

definition initializer :: "job list \<Rightarrow> (string \<times> payload option list) option" where
  "initializer jobs = (case jobs of InitializeWorkflow t a # js \<Rightarrow> Some (t, a) | _ \<Rightarrow> None)"

definition handle_activation_locked ::
    "runtime \<Rightarrow> 'u \<Rightarrow> 'u workflow_worker \<Rightarrow> activation \<Rightarrow>
     ('u workflow_worker \<times> (string + completion)) option" where
  "handle_activation_locked rt vars w act =
     (let run = at_run_id act in
      if at_jobs act = [RemoveFromCache]
      then map_option (\<lambda>w'. (w', Inr (successful_activation run [])))
             (case get_run w run of None \<Rightarrow> Some w | Some ex \<Rightarrow> evict_run rt w run ex)
      else case initializer (at_jobs act) of
        Some (t, args) \<Rightarrow>
          if get_run w run \<noteq> None
          then Some (w, Inr (failed_activation run (ErrNew (''workflow run '' @ go_quote run @
                               '' was initialized twice without eviction''))))
          else (case map_of (ww_handlers w) t of
            None \<Rightarrow>
              Some (w, Inr (failed_activation run
                              (ErrNew (''workflow '' @ go_quote t @ '' is not registered''))))
          | Some handler \<Rightarrow>
              let ex = start_execution
                         (new_execution (ww_namespace w) (ww_task_queue w) run vars) handler args
              in run_activation rt (set_run w run ex) run ex (tl (at_jobs act)))
      | None \<Rightarrow>
          (case get_run w run of
             None \<Rightarrow>
               Some (w, Inr (failed_activation run (ErrNew (''workflow run '' @ go_quote run @
                               '' is not cached and activation has no initializer''))))
           | Some ex \<Rightarrow> run_activation rt w run ex (at_jobs act)))"

text \<open>
  The body of \<open>processActivation\<close> once it has its turn: a panic becomes a failed completion. An
  activation without a run identifier has no turn.
\<close>

definition process_activation ::
    "runtime \<Rightarrow> 'u \<Rightarrow> 'u workflow_worker \<Rightarrow> activation \<Rightarrow> ('u workflow_worker \<times> completion) option" where
  "process_activation rt vars w act =
     (if at_run_id act = [] then Some (w, failed_activation [] missing_run_id)
      else map_option (\<lambda>(w', r).
             (w', case r of
                    Inr c \<Rightarrow> c
                  | Inl m \<Rightarrow> failed_activation (at_run_id act)
                      (panic_error rt (''workflow activation for run '' @ go_quote (at_run_id act)) m)))
           (handle_activation_locked rt vars w act))"

section \<open>Turns and shutdown\<close>

definition reserve_turn :: "'u workflow_worker \<Rightarrow> string \<Rightarrow> nat \<times> 'u workflow_worker" where
  "reserve_turn w run = (case reserve_run_turn (ww_lanes w) run of (t, s) \<Rightarrow> (t, w\<lparr>ww_lanes := s\<rparr>))"

text \<open>A release of a released turn panics; the worker then is as before the call.\<close>

definition release_turn :: "'u workflow_worker \<Rightarrow> string \<Rightarrow> nat \<Rightarrow> 'u workflow_worker" where
  "release_turn w run t =
     (case release_run_turn (ww_lanes w) (get_run w run \<noteq> None) run t of
        None \<Rightarrow> w | Some s \<Rightarrow> w\<lparr>ww_lanes := s\<rparr>)"

definition release_optional :: "'u workflow_worker \<Rightarrow> (string \<times> nat) option \<Rightarrow> 'u workflow_worker" where
  "release_optional w turn = (case turn of None \<Rightarrow> w | Some (run, t) \<Rightarrow> release_turn w run t)"

text \<open>
  \<open>handleActivation\<close> by a caller that is alone with the worker; \<open>None\<close> also when the turn does not come.
\<close>

definition handle_activation ::
    "runtime \<Rightarrow> 'u \<Rightarrow> 'u workflow_worker \<Rightarrow> activation \<Rightarrow>
     ('u workflow_worker \<times> (string + completion)) option" where
  "handle_activation rt vars w act =
     (let run = at_run_id act in
      if run = [] then Some (w, Inr (failed_activation [] missing_run_id))
      else case reserve_turn w run of
        (t, w1) \<Rightarrow>
          if turn_ready (ww_lanes w1) t
          then map_option (\<lambda>(w2, r). (release_turn w2 run t, r)) (handle_activation_locked rt vars w1 act)
          else None)"

fun stop_runs :: "runtime \<Rightarrow> (string \<times> 'u execution) list \<Rightarrow> unit option" where
  "stop_runs rt [] = Some ()"
| "stop_runs rt ((run, ex) # rest) = Option.bind (stop rt ex) (\<lambda>ex'. stop_runs rt rest)"

definition stop_all_runs :: "runtime \<Rightarrow> 'u workflow_worker \<Rightarrow> 'u workflow_worker option" where
  "stop_all_runs rt w =
     map_option (\<lambda>u. w\<lparr>ww_runs := [], ww_lanes := (ww_lanes w)\<lparr>rl_locks := []\<rparr>\<rparr>)
       (stop_runs rt (ww_runs w))"

text \<open>\<open>shutdownCore\<close>; the Core worker's answer is a parameter.\<close>

definition shutdown_core :: "goerr option \<Rightarrow> 'u workflow_worker \<Rightarrow> goerr option \<times> 'u workflow_worker" where
  "shutdown_core answer w = (case ww_shutdown w of
     Some e \<Rightarrow> (e, w)
   | None \<Rightarrow> let e = (if ww_core w then answer else None) in (e, w\<lparr>ww_shutdown := Some e\<rparr>))"

definition worker_shutdown ::
    "runtime \<Rightarrow> goerr option \<Rightarrow> 'u workflow_worker \<Rightarrow> (goerr option \<times> 'u workflow_worker) option" where
  "worker_shutdown rt answer w = map_option (shutdown_core answer) (stop_all_runs rt w)"

end
