(* ===== verification/Workflow_Cache.thy ===== *)
theory Workflow_Cache
  imports Workflow_Worker Workflow_Handlers
begin

text \<open>
  What the worker's cache of executions guarantees: every activation is answered under its own run
  identifier, only its own run is touched, failures and evictions leave the run out of the cache, and
  whatever is cached is an execution the interpreter's theorems speak about.
\<close>

section \<open>The identity of an execution\<close>

text \<open>What no activation changes: the run, its worker's names, and whether it is started or stopped.\<close>

definition identity_of :: "'u execution \<Rightarrow> string \<times> string \<times> string \<times> bool \<times> bool" where
  "identity_of ex = (ex_run_id ex, ex_namespace ex, ex_task_queue ex, ex_started ex, ex_stopped ex)"

lemma identity_update [simp]:
  "identity_of (ex\<lparr>ex_next_seq := n\<rparr>) = identity_of ex"
  "identity_of (ex\<lparr>ex_operations := os\<rparr>) = identity_of ex"
  "identity_of (ex\<lparr>ex_channels := chs\<rparr>) = identity_of ex"
  "identity_of (ex\<lparr>ex_queries := qs\<rparr>) = identity_of ex"
  "identity_of (ex\<lparr>ex_updates := us\<rparr>) = identity_of ex"
  "identity_of (ex\<lparr>ex_coroutines := cos\<rparr>) = identity_of ex"
  "identity_of (ex\<lparr>ex_current := cur\<rparr>) = identity_of ex"
  "identity_of (ex\<lparr>ex_commands := cs\<rparr>) = identity_of ex"
  "identity_of (ex\<lparr>ex_terminal := b\<rparr>) = identity_of ex"
  "identity_of (ex\<lparr>ex_bootstrapped := b\<rparr>) = identity_of ex"
  "identity_of (ex\<lparr>ex_futures := fs\<rparr>) = identity_of ex"
  "identity_of (ex\<lparr>ex_vars := u\<rparr>) = identity_of ex"
  by (simp_all add: identity_of_def)

lemma identity_primitives [simp]:
  "identity_of (snd (new_future ex)) = identity_of ex"
  "identity_of (fst (set_future ex f v e)) = identity_of ex"
  "identity_of (append_chained ex g f) = identity_of ex"
  "identity_of (add_coroutine ex name info frame body) = identity_of ex"
  "identity_of (update_coroutine ex i h) = identity_of ex"
  "identity_of (ensure_channel ex name) = identity_of ex"
  "identity_of (put_channel ex name ch) = identity_of ex"
  "identity_of (remove_waiter ex name w) = identity_of ex"
  "identity_of (emit ex c) = identity_of ex"
  by (simp_all add: new_future_def set_future_def append_chained_def add_coroutine_def
      update_coroutine_def ensure_channel_def put_channel_def remove_waiter_def emit_def
      split: prod.splits option.splits)

lemma identity_operations [simp]:
  "identity_of (add_waiter ex name ch) = identity_of ex"
  "identity_of (Workflow_Frames.schedule ex kind f started w c) = identity_of ex"
  "identity_of (set_waiting ex f) = identity_of ex"
  "identity_of (begin_coroutine ex i) = identity_of ex"
  "identity_of (fail_workflow ex e) = identity_of ex"
  "identity_of (delete_operation ex seq) = identity_of ex"
  by (simp_all add: add_waiter_def Workflow_Frames.schedule_def next_seq_def register_operation_def
      set_waiting_def begin_coroutine_def fail_workflow_def delete_operation_def split: option.splits)

lemma identity_settle [simp]: "identity_of (settle_coroutine rt ex i frame r) = identity_of ex"
  by (simp add: settle_coroutine_def finish_coroutine_def coroutine_panic_def
      split: run_end.splits frame.splits gores.splits)

lemma identity_deliver [simp]: "identity_of (fst (deliver ex name input)) = identity_of ex"
  by (rule deliver_cases [of ex name input]) simp_all

definition same_identity :: "'u execution \<Rightarrow> 'u execution \<Rightarrow> bool" where
  "same_identity ex ex' \<longleftrightarrow> identity_of ex' = identity_of ex"

interpretation identity_user: user_law same_identity
  by unfold_locales (simp_all add: same_identity_def)

interpretation identity_dispatch: dispatch_law same_identity
  by unfold_locales (simp_all add: same_identity_def)

interpretation identity: activation_law same_identity UNIV
  by unfold_locales (simp_all add: same_identity_def)

lemma activate_identity: "activate rt ex jobs = Some (ex', e) \<Longrightarrow> identity_of ex' = identity_of ex"
  using identity.activate [of rt ex jobs ex' e]
  by (cases e) (auto simp: handed_over_def same_identity_def)

section \<open>Handling an activation\<close>

text \<open>A change of one run of the cache.\<close>

definition only_run :: "string \<Rightarrow> 'u workflow_worker \<Rightarrow> 'u workflow_worker \<Rightarrow> bool" where
  "only_run run w w' \<longleftrightarrow>
     w' = w\<lparr>ww_runs := ww_runs w'\<rparr> \<and> (\<forall>r. r \<noteq> run \<longrightarrow> get_run w' r = get_run w r)"

lemma only_run_simps [simp]:
  "only_run run w w" "only_run run w (set_run w run ex)" "only_run run w (delete_run w run)"
  by (simp_all add: only_run_def set_run_def delete_run_def get_run_def update_conv' delete_conv')

lemma only_run_trans: "only_run run w w' \<Longrightarrow> only_run run w' w'' \<Longrightarrow> only_run run w w''"
  by (cases w; cases w'; cases w'') (simp add: only_run_def)

lemma get_run_simps [simp]:
  "get_run (set_run w run ex) r = (if r = run then Some ex else get_run w r)"
  "get_run (delete_run w run) r = (if r = run then None else get_run w r)"
  by (simp_all add: get_run_def set_run_def delete_run_def update_conv' delete_conv')

lemma evict_run_Some: "evict_run rt w run ex = Some w' \<Longrightarrow> w' = delete_run w run \<and> stop rt ex \<noteq> None"
  by (auto simp: evict_run_def)

text \<open>How a call of \<open>activate\<close> by the worker ends.\<close>

lemma run_activation_cases:
  assumes "run_activation rt w run ex jobs = Some (w', r)"
  obtains (commands) ex' cs where "activate rt ex jobs = Some (ex', Commands cs)"
      "w' = set_run w run ex'" "r = Inr (successful_activation run cs)"
  | (error) ex' e where "activate rt ex jobs = Some (ex', ActivateError e)"
      "w' = delete_run w run" "r = Inr (failed_activation run e)"
  | (panic) ex' m where "activate rt ex jobs = Some (ex', ActivatePanic m)"
      "w' = set_run w run ex'" "r = Inl m"
proof -
  from assms obtain ex' e where a: "activate rt ex jobs = Some (ex', e)"
    by (auto simp: run_activation_def split: bind_splits)
  with assms that show ?thesis
    by (cases e) (auto simp: run_activation_def dest: evict_run_Some)
qed

lemma run_activation_only: "run_activation rt w run ex jobs = Some (w', r) \<Longrightarrow> only_run run w w'"
  by (erule run_activation_cases) simp_all

text \<open>The cases of \<open>handleActivationLocked\<close>.\<close>

lemma handle_activation_cases:
  assumes "handle_activation_locked rt vars w act = Some (w', r)"
  obtains (evicted) "at_jobs act = [RemoveFromCache]" "get_run w' (at_run_id act) = None"
      "w' = w \<or> w' = delete_run w (at_run_id act)" "r = Inr (successful_activation (at_run_id act) [])"
  | (refused) e where "w' = w" "r = Inr (failed_activation (at_run_id act) e)"
      "initializer (at_jobs act) = None \<longleftrightarrow> get_run w (at_run_id act) = None"
  | (refused_type) t args e where "w' = w" "r = Inr (failed_activation (at_run_id act) e)"
      "initializer (at_jobs act) = Some (t, args)" "map_of (ww_handlers w) t = None"
      "get_run w (at_run_id act) = None"
  | (first) t args handler ex where "initializer (at_jobs act) = Some (t, args)"
      "get_run w (at_run_id act) = None" "map_of (ww_handlers w) t = Some handler"
      "ex = start_execution (new_execution (ww_namespace w) (ww_task_queue w) (at_run_id act) vars)
         handler args"
      "run_activation rt (set_run w (at_run_id act) ex) (at_run_id act) ex (tl (at_jobs act)) =
         Some (w', r)"
  | (later) ex where "at_jobs act \<noteq> [RemoveFromCache]" "initializer (at_jobs act) = None"
      "get_run w (at_run_id act) = Some ex"
      "run_activation rt w (at_run_id act) ex (at_jobs act) = Some (w', r)"
proof (cases "at_jobs act = [RemoveFromCache]")
  case True
  with assms evicted show ?thesis
    by (cases "get_run w (at_run_id act)") (auto simp: handle_activation_locked_def Let_def dest: evict_run_Some)
next
  case other: False
  show ?thesis
  proof (cases "initializer (at_jobs act)")
    case None
    with assms other refused later show ?thesis
      by (cases "get_run w (at_run_id act)") (auto simp: handle_activation_locked_def Let_def)
  next
    case (Some ta)
    obtain t args where ta: "ta = (t, args)" by force
    show ?thesis
    proof (cases "get_run w (at_run_id act)")
      case None
      with assms other Some ta refused_type first show ?thesis
        by (cases "map_of (ww_handlers w) t") (auto simp: handle_activation_locked_def Let_def)
    next
      case cached: (Some ex)
      with assms other Some ta refused show ?thesis by (auto simp: handle_activation_locked_def Let_def)
    qed
  qed
qed

lemma handle_activation_only:
  "handle_activation_locked rt vars w act = Some (w', r) \<Longrightarrow> only_run (at_run_id act) w w'"
  by (erule handle_activation_cases)
    (auto dest!: run_activation_only intro: only_run_trans [OF only_run_simps(2)])

lemma handle_activation_run_id:
  "handle_activation_locked rt vars w act = Some (w', Inr c) \<Longrightarrow> cp_run_id c = at_run_id act"
  by (erule handle_activation_cases)
    (auto elim: run_activation_cases simp: successful_activation_def failed_activation_def)

lemma process_activation_cases:
  assumes "process_activation rt vars w act = Some (w', c)"
  obtains (no_run) "at_run_id act = []" "w' = w" "c = failed_activation [] missing_run_id"
  | (completed) "at_run_id act \<noteq> []" "handle_activation_locked rt vars w act = Some (w', Inr c)"
  | (panicked) m where "at_run_id act \<noteq> []" "handle_activation_locked rt vars w act = Some (w', Inl m)"
      "c = failed_activation (at_run_id act)
         (panic_error rt (''workflow activation for run '' @ go_quote (at_run_id act)) m)"
proof (cases "at_run_id act = []")
  case True
  with assms no_run show ?thesis by (simp add: process_activation_def)
next
  case False
  with assms obtain r where h: "handle_activation_locked rt vars w act = Some (w', r)"
    and c: "c = (case r of Inr c \<Rightarrow> c | Inl m \<Rightarrow> failed_activation (at_run_id act)
       (panic_error rt (''workflow activation for run '' @ go_quote (at_run_id act)) m))"
    by (auto simp: process_activation_def)
  show ?thesis
  proof (cases r)
    case (Inl m)
    with panicked [OF False] h c show ?thesis by simp
  next
    case (Inr d)
    with completed [OF False] h c show ?thesis by simp
  qed
qed

lemma process_activation_only: "process_activation rt vars w act = Some (w', c) \<Longrightarrow> only_run (at_run_id act) w w'"
  by (erule process_activation_cases) (simp_all add: handle_activation_only)

lemma process_activation_run_id: "process_activation rt vars w act = Some (w', c) \<Longrightarrow> cp_run_id c = at_run_id act"
  by (erule process_activation_cases) (simp_all add: handle_activation_run_id failed_activation_def)

section \<open>The workers there can be\<close>

inductive worker_reachable :: "runtime \<Rightarrow> 'u workflow_worker \<Rightarrow> bool" for rt where
  created: "worker_reachable rt (new_workflow_worker namespace task_queue codec options core)"
| registered: "worker_reachable rt w \<Longrightarrow> register_workflow rt w name function = Inr w' \<Longrightarrow>
    worker_reachable rt w'"
| processed: "worker_reachable rt w \<Longrightarrow> process_activation rt vars w act = Some (w', c) \<Longrightarrow>
    worker_reachable rt w'"
| turns: "worker_reachable rt w \<Longrightarrow> worker_reachable rt (w\<lparr>ww_lanes := s\<rparr>)"
| all_stopped: "worker_reachable rt w \<Longrightarrow> stop_all_runs rt w = Some w' \<Longrightarrow> worker_reachable rt w'"
| shut_down: "worker_reachable rt w \<Longrightarrow> worker_reachable rt (snd (shutdown_core answer w))"

definition cached_ok :: "runtime \<Rightarrow> 'u workflow_worker \<Rightarrow> bool" where
  "cached_ok rt w \<longleftrightarrow> (\<forall>run ex. get_run w run = Some ex \<longrightarrow>
     execution_reachable rt ex \<and>
     identity_of ex = (run, ww_namespace w, ww_task_queue w, True, False))"

lemma cached_okI:
  "(\<And>run ex. get_run w run = Some ex \<Longrightarrow> execution_reachable rt ex \<and>
     identity_of ex = (run, ww_namespace w, ww_task_queue w, True, False)) \<Longrightarrow> cached_ok rt w"
  by (simp add: cached_ok_def)

lemma cached_okD:
  "cached_ok rt w \<Longrightarrow> get_run w run = Some ex \<Longrightarrow>
     execution_reachable rt ex \<and>
     identity_of ex = (run, ww_namespace w, ww_task_queue w, True, False)"
  by (simp add: cached_ok_def)

lemma cached_ok_same:
  "cached_ok rt w \<Longrightarrow> ww_runs w' = ww_runs w \<Longrightarrow> ww_namespace w' = ww_namespace w \<Longrightarrow>
   ww_task_queue w' = ww_task_queue w \<Longrightarrow> cached_ok rt w'"
  by (simp add: cached_ok_def get_run_def)

lemma cached_ok_delete: "cached_ok rt w \<Longrightarrow> cached_ok rt (delete_run w run)"
  by (auto simp: cached_ok_def delete_run_def get_run_def delete_conv' split: if_splits)

lemma cached_ok_set:
  assumes "cached_ok rt w" and "execution_reachable rt ex"
    and "identity_of ex = (run, ww_namespace w, ww_task_queue w, True, False)"
  shows "cached_ok rt (set_run w run ex)"
  using assms by (auto simp: cached_ok_def set_run_def get_run_def update_conv' split: if_splits)

lemma cached_ok_run:
  assumes "cached_ok rt w" and "get_run w run = Some ex"
    and "run_activation rt w run ex jobs = Some (w', r)"
  shows "cached_ok rt w'"
proof -
  note ex = cached_okD [OF assms(1,2)]
  have next_ex: "execution_reachable rt ex' \<and>
      identity_of ex' = (run, ww_namespace w, ww_task_queue w, True, False)"
    if "activate rt ex jobs = Some (ex', e)" for ex' e
    using execution_reachable.activated [OF _ that] activate_identity [OF that] ex by simp
  from assms(3) show ?thesis
    by (cases rule: run_activation_cases)
      (use assms(1) next_ex in \<open>auto intro: cached_ok_set cached_ok_delete\<close>)
qed

lemma identity_start_execution:
  "identity_of (start_execution (new_execution namespace task_queue run vars) handler input) =
     (run, namespace, task_queue, True, False)"
  by (simp add: identity_of_def start_execution_def new_execution_def add_coroutine_def)

lemma cached_ok_handle:
  assumes "cached_ok rt w" and "handle_activation_locked rt vars w act = Some (w', r)"
  shows "cached_ok rt w'"
  using assms(2)
proof (cases rule: handle_activation_cases)
  case evicted
  with assms(1) show ?thesis by (auto intro: cached_ok_delete)
next
  case (first t args handler ex)
  let ?w = "set_run w (at_run_id act) ex"
  have ok: "cached_ok rt ?w"
    using first(4) by (auto intro: cached_ok_set assms(1) execution_reachable.created
        simp: identity_start_execution)
  have "get_run ?w (at_run_id act) = Some ex" by simp
  from cached_ok_run [OF ok this first(5)] show ?thesis .
next
  case (later ex)
  from cached_ok_run [OF assms(1) later(3,4)] show ?thesis .
qed (use assms(1) in simp_all)

lemma stop_all_runs_Some:
  "stop_all_runs rt w = Some w' \<Longrightarrow>
     w' = w\<lparr>ww_runs := [], ww_lanes := (ww_lanes w)\<lparr>rl_locks := []\<rparr>\<rparr>"
  by (auto simp: stop_all_runs_def)

lemma worker_cached_ok: "worker_reachable rt w \<Longrightarrow> cached_ok rt w"
proof (induction rule: worker_reachable.induct)
  case (created namespace task_queue codec options core)
  show ?case by (simp add: cached_ok_def get_run_def new_workflow_worker_def)
next
  case (registered w name fn w')
  then have "\<exists>hs. w' = w\<lparr>ww_handlers := hs\<rparr>"
    by (auto simp: register_workflow_def split: if_splits sum.splits)
  with registered.IH show ?case by (auto intro: cached_ok_same)
next
  case (processed w vars act w' c)
  then show ?case by (auto simp: process_activation_def intro: cached_ok_handle split: if_splits)
next
  case (turns w s)
  then show ?case by (auto intro: cached_ok_same)
next
  case (all_stopped w w')
  then show ?case by (auto simp: cached_ok_def get_run_def dest: stop_all_runs_Some)
next
  case (shut_down w answer)
  then show ?case by (auto simp: shutdown_core_def Let_def intro: cached_ok_same split: option.splits)
qed

section \<open>Properties\<close>

text \<open>A worker with the demo's timer workflow, and the first activation of a run of it.\<close>

definition sample_worker :: "greeting_status workflow_worker" where
  "sample_worker =
     (let w = new_workflow_worker ''ns'' ''tq'' None
        \<lparr>wc_max_executions = 2, wc_max_pollers = 0, wc_max_cached = 1, wc_tls = None, wc_api_key = []\<rparr> True
      in case register_workflow sample_runtime w ''timer-greeting''
                (Some (greeting_function True (timer_greeting sample_lib))) of
        Inr w' \<Rightarrow> w' | Inl m \<Rightarrow> w)"

lemma sample_worker_reachable: "worker_reachable sample_runtime sample_worker"
  by (auto simp: sample_worker_def Let_def split: sum.splits
      intro: worker_reachable.created worker_reachable.registered)

definition first_activation :: "job list \<Rightarrow> activation" where
  "first_activation js = \<lparr>at_run_id = ''r1'',
     at_jobs = InitializeWorkflow ''timer-greeting'' [json_string ''Ada''] # js\<rparr>"

text \<open>
  Every activation the worker processes is answered by one completion under the activation's own
  run identifier, and nothing of the worker changes but the cache entry of that run: other runs, the
  handlers, the turns and the shutdown state are as before.
\<close>

lemma activation_answered:
  assumes "process_activation rt vars w act = Some (w', c)"
  shows "cp_run_id c = at_run_id act \<and> only_run (at_run_id act) w w'"
  using process_activation_only [OF assms] process_activation_run_id [OF assms] by blast

lemma activation_answered_witness:
  "\<exists>w' c. process_activation sample_runtime idle_status sample_worker (first_activation []) = Some (w', c) \<and>
     cp_run_id c = ''r1'' \<and> only_run ''r1'' sample_worker w'"
proof -
  have "map_option snd (process_activation sample_runtime idle_status sample_worker (first_activation [])) =
      Some (successful_activation ''r1'' [StartTimer 1 (seconds 5)])" by code_simp
  then obtain w' where p: "process_activation sample_runtime idle_status sample_worker
      (first_activation []) = Some (w', successful_activation ''r1'' [StartTimer 1 (seconds 5)])"
    by auto
  with activation_answered [OF p] show ?thesis by (auto simp: first_activation_def)
qed



text \<open>
  C21. Whatever sequence of registrations, activations, turns and shutdowns a worker has gone through,
  an execution in its cache is one the interpreter created and activated, belongs to the run it is
  cached under and to the worker's namespace and task queue, has been started, and has not been
  stopped; so what holds of every reachable execution holds of it.
\<close>

theorem cached_executions_sound:
  assumes "worker_reachable rt w" and "get_run w run = Some ex"
  shows "execution_reachable rt ex \<and> ex_run_id ex = run \<and> ex_namespace ex = ww_namespace w \<and>
    ex_task_queue ex = ww_task_queue w \<and> ex_started ex \<and> \<not> ex_stopped ex"
  using cached_okD [OF worker_cached_ok [OF assms(1)] assms(2)] by (simp add: identity_of_def)

theorem cached_executions_sound_witness:
  "\<exists>w c ex. process_activation sample_runtime idle_status sample_worker (first_activation []) = Some (w, c) \<and>
     get_run w ''r1'' = Some ex \<and> execution_reachable sample_runtime ex \<and> ex_run_id ex = ''r1'' \<and>
     ex_namespace ex = ww_namespace w \<and> ex_task_queue ex = ww_task_queue w \<and> ex_started ex \<and>
     \<not> ex_stopped ex"
proof -
  have "map_option (\<lambda>(w, c). get_run w ''r1'' = None)
      (process_activation sample_runtime idle_status sample_worker (first_activation [])) = Some False"
    by code_simp
  then obtain w c ex where p: "process_activation sample_runtime idle_status sample_worker
      (first_activation []) = Some (w, c)" and ex: "get_run w ''r1'' = Some ex"
    by auto
  from cached_executions_sound [OF worker_reachable.processed [OF sample_worker_reachable p] ex] p ex
  show ?thesis by blast
qed

text \<open>
  The workflow options are accepted exactly when every limit is in its range after defaulting:
  zero means the default of 1000 executions and 32 cached workflows, the executions are at least 2,
  a non-zero number of pollers is at least 2, and nothing exceeds the largest 32-bit integer; then the
  32-bit options hold the given numbers.
\<close>

lemma workflow_options_accepted:
  "normalize_workflow_options options = Inr n \<longleftrightarrow>
     (wo_max_executions options = 0 \<or> 2 \<le> wo_max_executions options \<and> wo_max_executions options \<le> max_int32) \<and>
     (wo_max_pollers options = 0 \<or> 2 \<le> wo_max_pollers options \<and> wo_max_pollers options \<le> max_int32) \<and>
     (0 \<le> wo_max_cached options \<and> wo_max_cached options \<le> max_int32) \<and>
     wc_tls n = wo_tls options \<and> wc_api_key n = wo_api_key options \<and>
     sint (wc_max_executions n) = (if wo_max_executions options = 0 then 1000 else wo_max_executions options) \<and>
     sint (wc_max_pollers n) = wo_max_pollers options \<and>
     sint (wc_max_cached n) = (if wo_max_cached options = 0 then 32 else wo_max_cached options)"
proof -
  have s [simp]: "sint (word_of_int i :: 32 word) = i" if "0 \<le> i" "i \<le> max_int32" for i
    using that by (simp add: sint_sbintrunc' signed_take_bit_int_eq_self max_int32_def)
  have d [simp]: "sint default_max_executions = 1000" "sint default_max_cached = 32"
    by (simp_all add: default_max_executions_def default_max_cached_def)
  have inj: "sint x = sint y \<Longrightarrow> x = y" for x y :: "32 word"
    using word_eq_iff_signed by blast
  have ext: "n' = n \<longleftrightarrow> sint (wc_max_executions n) = sint (wc_max_executions n') \<and>
      sint (wc_max_pollers n) = sint (wc_max_pollers n') \<and> sint (wc_max_cached n) = sint (wc_max_cached n') \<and>
      wc_tls n = wc_tls n' \<and> wc_api_key n = wc_api_key n'" for n' :: workflow_core_options
    by (cases n; cases n') (auto intro: inj)
  show ?thesis
    unfolding normalize_workflow_options_def Let_def
    by (auto simp: ext split: if_splits)
qed

end
