(* ===== verification/Pipe_Owner.thy ===== *)
theory Pipe_Owner
  imports Completion_Pipe
begin

text \<open>
  What a worker's run loop relies on when it owns a completion pipeline. A loop that changes its
  pipeline by the pipeline's own steps only (\<open>pipe_owner\<close>) keeps the pipeline's invariant and its limit;
  the loops of the two workers interpret the locale. Beside it: how a receive followed by \<open>Finalize\<close>
  acts on the pipeline, and which tickets each step moves.
\<close>

section \<open>Receiving a result\<close>

text \<open>The receive from the results channel, followed by \<open>Result.Finalize\<close>.\<close>

definition take_result :: "'a psys \<Rightarrow> 'a result \<Rightarrow> 'a result list \<Rightarrow> 'a psys" where
  "take_result s r rs =
     sys_finalize (s\<lparr>s_pipe := (s_pipe s)\<lparr>p_results := rs\<rparr>, s_taken := s_taken s @ [r]\<rparr>) (s_taken s) r []"

lemma take_result_steps:
  assumes "p_results (s_pipe s) = r # rs"
  shows "pipe_step\<^sup>*\<^sup>* s (take_result s r rs)"
proof -
  let ?s = "s\<lparr>s_pipe := (s_pipe s)\<lparr>p_results := rs\<rparr>, s_taken := s_taken s @ [r]\<rparr>"
  have first: "pipe_step s ?s" using assms by (intro pipe_step.internal pipe_internal.receive)
  have second: "pipe_step ?s (take_result s r rs)"
    unfolding take_result_def
    by (cases "r_finalized r") (simp_all add: pipe_step.finalize_again pipe_step.internal pipe_internal.finalize)
  show ?thesis
    by (rule converse_rtranclp_into_rtranclp, rule first, rule r_into_rtranclp, rule second)
qed

lemma take_result_frame:
  assumes "\<not> r_finalized r"
  shows "s_procs (take_result s r rs) = s_procs s" "s_accepted (take_result s r rs) = s_accepted s"
    "s_refused (take_result s r rs) = s_refused s" "p_queue (s_pipe (take_result s r rs)) = p_queue (s_pipe s)"
    "p_results (s_pipe (take_result s r rs)) = rs"
    "s_taken (take_result s r rs) = s_taken s @ [r\<lparr>r_finalized := True\<rparr>]"
    "s_finalized (take_result s r rs) = s_finalized s @ [r_entry r]"
  using assms by (simp_all add: take_result_def sys_finalize_def result_finalize_def release_outstanding_def)

section \<open>Enqueueing\<close>

lemma sys_enqueue_cases:
  obtains (refused) e f where "snd (enqueue (s_pipe s) t) = Refused e f"
      "sys_enqueue s t = s\<lparr>s_refused := s_refused s @ [(t, e)]\<rparr>"
  | (accepted) q where "\<And>e f. snd (enqueue (s_pipe s) t) \<noteq> Refused e f" "q_ticket q = t"
      "s_accepted (sys_enqueue s t) = s_accepted s @ [q]" "s_refused (sys_enqueue s t) = s_refused s"
      "s_taken (sys_enqueue s t) = s_taken s" "s_finalized (sys_enqueue s t) = s_finalized s"
      "p_results (s_pipe (sys_enqueue s t)) = p_results (s_pipe s)"
      "s_procs (sys_enqueue s t) = s_procs s @ [Submitting q] \<and>
         p_queue (s_pipe (sys_enqueue s t)) = p_queue (s_pipe s) \<or>
       s_procs (sys_enqueue s t) = s_procs s \<and>
         p_queue (s_pipe (sys_enqueue s t)) = p_queue (s_pipe s) @ [q]"
proof (cases rule: enqueue_cases [of "s_pipe s" t])
  case (refused e f)
  then show ?thesis by (intro that(1) [of e f]) (simp_all add: sys_enqueue_def)
next
  case (started w)
  then show ?thesis
    by (intro that(2) [of "\<lparr>q_ticket = t, q_weight = w\<rparr>"]) (simp_all add: sys_enqueue_def)
next
  case (queued w)
  then show ?thesis
    by (intro that(2) [of "\<lparr>q_ticket = t, q_weight = w\<rparr>"])
      (simp_all add: sys_enqueue_def entry_of_Inr)
qed

lemma pipe_inv_steps: "pipe_step\<^sup>*\<^sup>* s s' \<Longrightarrow> pipe_inv s \<Longrightarrow> pipe_inv s'"
  by (induction rule: rtranclp_induct) (auto intro: pipe_inv_step)

lemma pipe_limit_steps: "pipe_step\<^sup>*\<^sup>* s s' \<Longrightarrow> p_limit (s_pipe s') = p_limit (s_pipe s)"
  by (induction rule: rtranclp_induct) (auto dest: pipe_limit_constant)

section \<open>The owner's contract\<close>

locale pipe_owner =
  fixes pipe_of :: "'s \<Rightarrow> 'a psys" and starts :: "'s \<Rightarrow> bool" and step :: "'s \<Rightarrow> 's \<Rightarrow> bool"
  assumes start: "starts s \<Longrightarrow> \<exists>limit. pipe_of s = initial_psys limit []"
    and steps: "step s s' \<Longrightarrow> pipe_step\<^sup>*\<^sup>* (pipe_of s) (pipe_of s')"
begin

lemma inv_start: "starts s \<Longrightarrow> pipe_inv (pipe_of s)"
  using start pipe_inv_initial by metis

lemma inv_step: "step s s' \<Longrightarrow> pipe_inv (pipe_of s) \<Longrightarrow> pipe_inv (pipe_of s')"
  using steps pipe_inv_steps by blast

lemma limit_step: "step s s' \<Longrightarrow> p_limit (s_pipe (pipe_of s')) = p_limit (s_pipe (pipe_of s))"
  using steps pipe_limit_steps by blast

lemma inv_reachable:
  assumes "starts s" and "step\<^sup>*\<^sup>* s s'"
  shows "pipe_inv (pipe_of s') \<and> p_limit (s_pipe (pipe_of s')) = p_limit (s_pipe (pipe_of s))"
  using assms(2) by (induction rule: rtranclp_induct) (use assms(1) in \<open>auto simp: inv_start inv_step limit_step\<close>)

lemma many_steps: "step\<^sup>*\<^sup>* s s' \<Longrightarrow> pipe_step\<^sup>*\<^sup>* (pipe_of s) (pipe_of s')"
proof (induction rule: rtranclp_induct)
  case (step s' s'')
  from rtranclp_trans [OF step.IH steps [OF step.hyps(2)]] show ?case .
qed simp

text \<open>When nothing is outstanding, everything accepted was submitted and finalised.\<close>

lemma drained:
  assumes "starts s" and "step\<^sup>*\<^sup>* s s'" and "p_outstanding (s_pipe (pipe_of s')) = 0"
  shows "mset (s_submitted (pipe_of s')) = mset (s_accepted (pipe_of s'))"
  using no_outstanding_all_done [OF conjunct1 [OF inv_reachable [OF assms(1,2)]] assms(3)] by simp

end

section \<open>What moves next\<close>

text \<open>
  While something is outstanding, a goroutine of the pipeline can move or a result can be received; so a
  pipeline whose owner finalises what it receives is never stuck.
\<close>

lemma pipe_busy_cases:
  assumes inv: "pipe_inv s" and taken: "\<forall>r \<in> set (s_taken s). r_finalized r"
    and busy: "p_outstanding (s_pipe s) \<noteq> 0"
  obtains (submitting) ps q qs where "s_procs s = ps @ Submitting q # qs" "q \<in> set (s_accepted s)"
  | (after) ps q e qs where "s_procs s = ps @ AfterSubmitting q e # qs" "q \<in> set (s_accepted s)"
  | (sending) ps q e qs where "s_procs s = ps @ SendingResult q e # qs"
      "int (length (p_results (s_pipe s))) < p_limit (s_pipe s)"
  | (finishing) ps qs where "s_procs s = ps @ Finishing # qs"
  | (result) r rs where "p_results (s_pipe s) = r # rs"
proof (cases "p_results (s_pipe s)")
  case (Cons r rs)
  then show ?thesis by (rule result)
next
  case none: Nil
  have known: "q \<in> set (s_accepted s)" if "q \<in> set (concat (map held (s_procs s)))" for q
    using that pipe_invD(6) [OF inv] unfolding finalized_ok_def live_def
    by (metis in_multiset_in_set set_append Un_iff union_iff)
  show ?thesis
  proof (cases "s_procs s")
    case (Cons p qs)
    then have procs: "s_procs s = [] @ p # qs" by simp
    have "int (length (p_results (s_pipe s))) < p_limit (s_pipe s)"
      using none pipe_invD(1) [OF inv] by (simp add: limits_ok_def)
    note room = this
    show ?thesis
    proof (cases p)
      case (Submitting q)
      with procs known [of q] show ?thesis by (intro submitting) auto
    next
      case (AfterSubmitting q e)
      with procs known [of q] show ?thesis by (intro after) auto
    next
      case (SendingResult q e)
      with procs room show ?thesis by (intro sending) auto
    next
      case Finishing
      with procs show ?thesis by (intro finishing) auto
    qed
  next
    case Nil
    with pipe_invD(1,2) [OF inv] have "p_queue (s_pipe s) = []" by (auto simp: slots_ok_def limits_ok_def)
    moreover have "filter (\<lambda>r. \<not> r_finalized r) (s_taken s) = []" using taken by simp
    ultimately have "live s = []" using Nil none by (simp add: live_def)
    with busy pipe_invD(3) [OF inv] show ?thesis by (simp add: budget_ok_def)
  qed
qed

lemma work_left_enqueue: "work_left (sys_enqueue s t) \<le> work_left s + 6"
proof (cases rule: enqueue_cases [of "s_pipe s" t])
  case (refused e f)
  then show ?thesis by (simp add: sys_enqueue_def work_left_def)
next
  case (started w)
  then show ?thesis by (simp add: sys_enqueue_def work_left_def)
next
  case (queued w)
  then show ?thesis by (simp add: sys_enqueue_def work_left_def)
qed

lemma work_left_refused [simp]: "work_left (s\<lparr>s_refused := rf\<rparr>) = work_left s"
  by (simp add: work_left_def)

lemma work_left_take:
  "p_results (s_pipe s) = r # rs \<Longrightarrow> \<not> r_finalized r \<Longrightarrow> work_left (take_result s r rs) < work_left s"
  by (simp add: work_left_def take_result_frame)

section \<open>Tickets not yet past their submission\<close>

fun unafter :: "'a proc \<Rightarrow> 'a queued_ticket list" where
  "unafter (Submitting q) = [q]"
| "unafter (AfterSubmitting q e) = [q]"
| "unafter _ = []"

definition unreleased_entries :: "'a psys \<Rightarrow> 'a queued_ticket multiset" where
  "unreleased_entries s = mset (p_queue (s_pipe s)) + mset (concat (map unafter (s_procs s)))"

lemma unreleased_refused [simp]: "unreleased_entries (s\<lparr>s_refused := rf\<rparr>) = unreleased_entries s"
  by (simp add: unreleased_entries_def)

lemma unreleased_submit:
  "s_procs s = ps @ Submitting q # qs \<Longrightarrow>
   unreleased_entries (s\<lparr>s_procs := ps @ AfterSubmitting q e # qs, s_submitted := sub\<rparr>) = unreleased_entries s"
  by (simp add: unreleased_entries_def)

lemma unreleased_after:
  "s_procs s = ps @ AfterSubmitting q e # qs \<Longrightarrow>
   unreleased_entries s = add_mset q (unreleased_entries (s\<lparr>s_procs := ps @ SendingResult q e # qs\<rparr>))"
  by (simp add: unreleased_entries_def)

lemma unreleased_finish:
  "s_procs s = ps @ Finishing # qs \<Longrightarrow> unreleased_entries (sys_finish s ps qs) = unreleased_entries s"
  by (cases "p_queue (s_pipe s)")
    (simp_all add: unreleased_entries_def sys_finish_def finish_and_take_next_def Let_def)

lemma unreleased_take:
  "\<not> r_finalized r \<Longrightarrow> unreleased_entries (take_result s r rs) = unreleased_entries s"
  by (simp add: unreleased_entries_def take_result_frame)

lemma sys_finish_frame [simp]:
  "s_accepted (sys_finish s ps qs) = s_accepted s" "s_refused (sys_finish s ps qs) = s_refused s"
  "s_taken (sys_finish s ps qs) = s_taken s" "s_finalized (sys_finish s ps qs) = s_finalized s"
  "p_results (s_pipe (sys_finish s ps qs)) = p_results (s_pipe s)"
  by (cases "p_queue (s_pipe s)"; simp add: sys_finish_def finish_and_take_next_def Let_def)+

end
