(* ===== verification/Activity_Worker.thy ===== *)
theory Activity_Worker
  imports Invoker Payload_Codec Pipe_Owner
begin

text \<open>
  The activity worker (\<open>Worker\<close> of \<open>internal/activityworker/worker.go\<close> and \<open>activity.go\<close>): option
  checks, registration, the execution of one activity function with its recovered panics, the
  completions, and the recording of heartbeats.

  What an activity function does when it is called is a parameter, \<open>call\<close>: it may return a result and
  an error, or panic. What the generated Protobuf code and the Protobuf runtime do is a parameter,
  \<open>activity_wire\<close>.
\<close>

section \<open>Options\<close>

record activity_worker_options =
  ao_max_executions :: int
  ao_max_pollers :: int

record activity_core_options =
  av_max_executions :: "32 word"
  av_max_pollers :: "32 word"

definition default_max_activity_executions :: int where
  "default_max_activity_executions = 1000"

definition max_int32_activity :: int where
  "max_int32_activity = 2147483647"

text \<open>The checks shared by \<open>New\<close> and \<open>NewWithCore\<close>: the number of executions after defaulting.\<close>

definition check_activity_options :: "activity_worker_options \<Rightarrow> goerr + int" where
  "check_activity_options options =
     (let n = (if ao_max_executions options = 0 then default_max_activity_executions
               else ao_max_executions options)
      in if n < 0 \<or> n > max_int32_activity
         then Inl (ErrNew ''maximum concurrent activity executions must be between 1 and 2147483647'')
         else if ao_max_pollers options < 0 \<or> ao_max_pollers options > max_int32_activity
         then Inl (ErrNew ''maximum concurrent activity task pollers must be between 0 and 2147483647'')
         else Inr n)"

section \<open>The worker\<close>

record 'b activity_worker =
  aw_converter :: "converter option"
  aw_codec :: "payload_codec option"
  aw_handlers :: "(string, 'b reg_function) gomap"
  aw_max_executions :: int

definition new_activity_worker :: "(converter, payload_codec) connection \<Rightarrow> int \<Rightarrow> 'b activity_worker" where
  "new_activity_worker c n =
     \<lparr>aw_converter = cn_payload_converter c, aw_codec = cn_payload_codec c, aw_handlers = [],
      aw_max_executions = n\<rparr>"

definition new_activity_worker_with_core ::
    "converter \<Rightarrow> (converter, payload_codec) connection \<Rightarrow> activity_worker_options \<Rightarrow> goerr + 'b activity_worker" where
  "new_activity_worker_with_core default_cv c options =
     (case normalize_connection default_cv noop_codec ''activity'' c of
        Inl e \<Rightarrow> Inl e
      | Inr cn \<Rightarrow>
          (case check_activity_options options of
             Inl e \<Rightarrow> Inl e | Inr n \<Rightarrow> Inr (new_activity_worker cn n)))"

text \<open>\<open>New\<close>; the error of making the Core worker is a parameter.\<close>

definition create_activity_worker ::
    "((converter, payload_codec) connection \<Rightarrow> activity_core_options \<Rightarrow> goerr option) \<Rightarrow> converter \<Rightarrow>
     (converter, payload_codec) connection \<Rightarrow> activity_worker_options \<Rightarrow> goerr + 'b activity_worker" where
  "create_activity_worker core_error default_cv c options =
     (case normalize_connection default_cv noop_codec ''activity'' c of
        Inl e \<Rightarrow> Inl e
      | Inr cn \<Rightarrow>
          (case check_activity_options options of
             Inl e \<Rightarrow> Inl e
           | Inr n \<Rightarrow>
               (case core_error cn \<lparr>av_max_executions = word_of_int n,
                                    av_max_pollers = word_of_int (ao_max_pollers options)\<rparr> of
                  Some e \<Rightarrow> Inl e
                | None \<Rightarrow> Inr (new_activity_worker cn n))))"

definition new_registered_activity ::
    "codec_lib \<Rightarrow> string \<Rightarrow> 'b gofunc option \<Rightarrow> goerr + 'b reg_function" where
  "new_registered_activity lib name function =
     new_function lib ''activity'' name function (Some TGoContext) False ''context.Context''"

text \<open>\<open>Register\<close>: the worker with the activity, or the panic.\<close>

definition register_activity ::
    "codec_lib \<Rightarrow> 'b activity_worker \<Rightarrow> string \<Rightarrow> 'b gofunc option \<Rightarrow> string + 'b activity_worker" where
  "register_activity lib w name function =
     (if map_of (aw_handlers w) name \<noteq> None then Inl (''activity is already registered: '' @ name)
      else case new_registered_activity lib name function of
        Inl e \<Rightarrow> Inl (err_msg e)
      | Inr f \<Rightarrow> Inr (w\<lparr>aw_handlers := AList.update name f (aw_handlers w)\<rparr>))"

definition payload_converter_or_default :: "codec_lib \<Rightarrow> 'b activity_worker \<Rightarrow> converter" where
  "payload_converter_or_default lib w =
     (case aw_converter w of None \<Rightarrow> default_payload_converter lib | Some c \<Rightarrow> c)"

definition activity_codec :: "'b activity_worker \<Rightarrow> payload_codec" where
  "activity_codec w = (case aw_codec w of None \<Rightarrow> noop_codec | Some c \<Rightarrow> c)"

definition activity_completion_limit :: "'b activity_worker \<Rightarrow> int" where
  "activity_completion_limit w =
     (if aw_max_executions w > 0 then aw_max_executions w else default_max_activity_executions)"

section \<open>Tasks and completions\<close>

record activity_start =
  as_type :: string
  as_input :: "payload option list"

text \<open>A cancellation carries the rendered reason.\<close>

datatype activity_variant = StartTask activity_start | CancelTask string | NoVariant

record activity_task =
  ak_token :: bytes
  ak_variant :: activity_variant

datatype activity_failure_info = ApplicationFailure string | CanceledFailure

record activity_failure =
  af_message :: string
  af_source :: string
  af_stack_trace :: string
  af_info :: activity_failure_info

datatype activity_status =
    ActivityCompleted "payload option"
  | ActivityFailed activity_failure
  | ActivityCancelled activity_failure

record activity_completion =
  ac_token :: bytes
  ac_status :: activity_status

definition activity_failure_source :: string where
  "activity_failure_source = ''Go SDK on WASM Core prototype''"

definition failed_activity_details :: "bytes \<Rightarrow> goerr \<Rightarrow> string \<Rightarrow> string \<Rightarrow> activity_completion" where
  "failed_activity_details token e failure_type stack =
     \<lparr>ac_token = token, ac_status = ActivityFailed
        \<lparr>af_message = err_msg e, af_source = activity_failure_source, af_stack_trace = stack,
         af_info = ApplicationFailure failure_type\<rparr>\<rparr>"

definition failed_activity :: "bytes \<Rightarrow> goerr \<Rightarrow> activity_completion" where
  "failed_activity token e = failed_activity_details token e ''GoWasmActivityError'' []"

definition panic_activity :: "bytes \<Rightarrow> string \<Rightarrow> string \<Rightarrow> string \<Rightarrow> activity_completion" where
  "panic_activity token activity_type panic_value stack =
     failed_activity_details token
       (ErrNew (''activity '' @ go_quote activity_type @ '' panicked: '' @ panic_value)) ''PanicError'' stack"

definition cancelled_activity :: "bytes \<Rightarrow> string \<Rightarrow> activity_completion" where
  "cancelled_activity token message =
     \<lparr>ac_token = token, ac_status = ActivityCancelled
        \<lparr>af_message = message, af_source = activity_failure_source, af_stack_trace = [],
         af_info = CanceledFailure\<rparr>\<rparr>"

section \<open>Execution\<close>

text \<open>What the call of an activity function comes to; a panic has the rendered value.\<close>

datatype activity_outcome = ActReturned goval "goerr option" | ActPanicked string

text \<open>\<open>execute\<close>, with \<open>registeredActivity.execute\<close> and \<open>invoker.Function.Execute\<close>.\<close>

definition run_activity_function ::
    "codec_lib \<Rightarrow> 'b activity_worker \<Rightarrow> ('b \<Rightarrow> goval list \<Rightarrow> activity_outcome) \<Rightarrow> 'b reg_function \<Rightarrow>
     payload option list \<Rightarrow> payload option gores" where
  "run_activity_function lib w call f input =
     (let conv = payload_converter_or_default lib w in
      case decode_input conv f input of
        Inl e \<Rightarrow> Err e
      | Inr args \<Rightarrow>
          (case f_function f of
             GoFunc ins outs (Some body) \<Rightarrow>
               (case call body args of
                  ActPanicked v \<Rightarrow> Panic v
                | ActReturned v err \<Rightarrow> encode_result conv f v err)
           | _ \<Rightarrow> Panic ''reflect: call of a nil function''))"

definition execute_registered_activity ::
    "codec_lib \<Rightarrow> 'b activity_worker \<Rightarrow> ('b \<Rightarrow> goval list \<Rightarrow> activity_outcome) \<Rightarrow> bytes \<Rightarrow>
     activity_start \<Rightarrow> activity_completion gores" where
  "execute_registered_activity lib w call token start =
     (case map_of (aw_handlers w) (as_type start) of
        None \<Rightarrow> Ok (failed_activity token
                  (ErrNew (''activity '' @ go_quote (as_type start) @ '' is not registered'')))
      | Some f \<Rightarrow>
          (case run_activity_function lib w call f (as_input start) of
             Ok r \<Rightarrow> Ok \<lparr>ac_token = token, ac_status = ActivityCompleted r\<rparr>
           | Err e \<Rightarrow> Ok (failed_activity token e)
           | Panic v \<Rightarrow> Panic v))"

text \<open>\<open>executeSafely\<close>, given the text of \<open>debug.Stack\<close>.\<close>

definition execute_safely ::
    "codec_lib \<Rightarrow> 'b activity_worker \<Rightarrow> ('b \<Rightarrow> goval list \<Rightarrow> activity_outcome) \<Rightarrow> string \<Rightarrow> bytes \<Rightarrow>
     activity_start \<Rightarrow> activity_completion" where
  "execute_safely lib w call stack token start =
     (case execute_registered_activity lib w call token start of
        Ok c \<Rightarrow> c
      | Err e \<Rightarrow> failed_activity token e
      | Panic v \<Rightarrow> panic_activity token (as_type start) v stack)"

section \<open>Messages\<close>

record activity_wire =
  xw_unmarshal :: "bytes \<Rightarrow> goerr + activity_task"
  xw_task_view :: "activity_task \<Rightarrow> pmessage"
  xw_task_of :: "pmessage \<Rightarrow> activity_task"
  xw_completion_view :: "activity_completion \<Rightarrow> pmessage"
  xw_heartbeat_view :: "bytes \<Rightarrow> payload option list \<Rightarrow> pmessage"
  xw_size :: "pmessage \<Rightarrow> int"
  xw_marshal :: "pmessage \<Rightarrow> goerr + bytes"

record activity_poll =
  ap_task :: "activity_task option"
  ap_codec_err :: "goerr option"
  ap_err :: "goerr option"

text \<open>One turn of the loop of \<open>pollActivities\<close>: the event made of Core's answer.\<close>

definition activity_poll_of :: "activity_wire \<Rightarrow> payload_codec \<Rightarrow> goerr + bytes \<Rightarrow> activity_poll" where
  "activity_poll_of wire codec answer = (case answer of
     Inl e \<Rightarrow> \<lparr>ap_task = None, ap_codec_err = None, ap_err = Some e\<rparr>
   | Inr encoded \<Rightarrow>
       (case xw_unmarshal wire encoded of
          Inl e \<Rightarrow> \<lparr>ap_task = None, ap_codec_err = None,
                    ap_err = Some (ErrWrap ''decode Core activity task: '' e [])\<rparr>
        | Inr task \<Rightarrow>
            (case decode_payloads (Some (xw_task_view wire task)) (Some codec) of
               (e, m) \<Rightarrow>
                 \<lparr>ap_task = Some (case m of None \<Rightarrow> task | Some msg \<Rightarrow> xw_task_of wire msg),
                  ap_codec_err = map_option (\<lambda>e. ErrWrap ''decode activity task payloads: '' e []) e,
                  ap_err = None\<rparr>)))"

text \<open>\<open>complete\<close>, given Core's answer to \<open>CompleteActivity\<close>.\<close>

definition complete_activity ::
    "activity_wire \<Rightarrow> (bytes \<Rightarrow> goerr option) \<Rightarrow> pmessage \<Rightarrow> goerr option" where
  "complete_activity wire core m = (case xw_marshal wire m of
     Inl e \<Rightarrow> Some (ErrWrap ''encode activity completion: '' e [])
   | Inr encoded \<Rightarrow> core encoded)"

definition encoded_activity_completion ::
    "activity_wire \<Rightarrow> payload_codec \<Rightarrow> activity_completion \<Rightarrow> pmessage" where
  "encoded_activity_completion wire codec c =
     (case encode_payloads (Some (xw_completion_view wire c)) (Some codec) of
        (None, Some m) \<Rightarrow> m
      | (None, None) \<Rightarrow> xw_completion_view wire c
      | (Some e, m) \<Rightarrow> xw_completion_view wire (failed_activity (ac_token c)
          (ErrWrap ''encode activity completion payloads: '' e [])))"

section \<open>Heartbeats\<close>

text \<open>
  \<open>Worker.recordHeartbeat\<close>: the bytes given to Core's \<open>RecordActivityHeartbeat\<close>, or the error before it.
\<close>

definition heartbeat_bytes ::
    "activity_wire \<Rightarrow> payload_codec \<Rightarrow> bytes \<Rightarrow> payload option list \<Rightarrow> goerr + bytes" where
  "heartbeat_bytes wire codec token details =
     (case encode_payloads (Some (xw_heartbeat_view wire token details)) (Some codec) of
        (Some e, m) \<Rightarrow> Inl (ErrWrap ''encode activity heartbeat payloads: '' e [])
      | (None, m) \<Rightarrow>
          (case xw_marshal wire (case m of None \<Rightarrow> xw_heartbeat_view wire token details | Some msg \<Rightarrow> msg) of
             Inl e \<Rightarrow> Inl (ErrWrap ''encode activity heartbeat: '' e [])
           | Inr encoded \<Rightarrow> Inr encoded))"

record running_activity =
  ra_token :: bytes
  ra_stopped :: bool
  ra_terminal :: bool

text \<open>
  What a context passed to \<open>RecordHeartbeat\<close> holds: the recorder (by its activity) and the converter.
\<close>

record activity_context =
  ax_recorder :: "nat option"
  ax_converter :: "converter option"

text \<open>
  \<open>runningActivity.recordHeartbeat\<close> around \<open>heartbeat_bytes\<close>: the mutex of the activity is held, so a
  heartbeat is one step.
\<close>

definition activity_heartbeat ::
    "activity_wire \<Rightarrow> payload_codec \<Rightarrow> running_activity \<Rightarrow> payload option list \<Rightarrow> goerr + bytes" where
  "activity_heartbeat wire codec a details =
     (if ra_stopped a then Inl (ErrNew ''activity is no longer running'')
      else heartbeat_bytes wire codec (ra_token a) details)"

text \<open>\<open>RecordHeartbeat\<close>: the details converted, and the recorder called.\<close>

definition record_heartbeat ::
    "activity_wire \<Rightarrow> payload_codec \<Rightarrow> running_activity list \<Rightarrow> activity_context \<Rightarrow> goval list \<Rightarrow>
     bytes gores" where
  "record_heartbeat wire codec activities context details =
     (case ax_recorder context of
        None \<Rightarrow> Err (ErrNew ''activity heartbeat called outside an activity handler'')
      | Some n \<Rightarrow>
          (case ax_converter context of
             None \<Rightarrow> Err (ErrNew ''activity payload converter is missing from context'')
           | Some conv \<Rightarrow>
               (case cv_to_payloads conv details of
                  Panic m \<Rightarrow> Panic m
                | Err e \<Rightarrow> Err (ErrWrap ''encode activity heartbeat: '' e [])
                | Ok ps \<Rightarrow>
                    (case activity_heartbeat wire codec (activities ! n)
                            (case ps of None \<Rightarrow> [] | Some xs \<Rightarrow> xs) of
                       Inl e \<Rightarrow> Err e | Inr encoded \<Rightarrow> Ok encoded))))"

end
