(* ===== verification/Activity_Loop.thy ===== *)
theory Activity_Loop
  imports Activity_Worker
begin

text \<open>
  The run loop of the activity worker (\<open>internal/activityworker/runloop.go\<close>, with \<open>Run\<close>,
  \<open>startActivity\<close>, the cancellation functions and \<open>enqueueActivityCompletion\<close> of \<open>worker.go\<close>): the
  goroutine that owns the loop, the poller, one goroutine per activity, and the completion pipeline.

  The \<open>runningActivity\<close> objects are shared by pointer, so they live in a list and a pointer is an
  index; the map \<open>running\<close> leads from task tokens to indices. A channel without buffer is the state of
  its sender. Go visits a map in an order of its own choosing: \<open>ord\<close> is that choice, any function
  that permutes its argument. Core and the activity functions are the environment.
\<close>

section \<open>State\<close>

text \<open>The labels of a ticket's closures: \<open>Submit\<close> with the message, \<open>Finalize\<close> with the activity.\<close>

datatype activity_effect = SubmitActivity bytes pmessage | ForgetActivity nat

datatype activity_poller = PollerWaits | PollerOffers activity_poll | PollerLeft

text \<open>The goroutine of an activity: its function runs, or its event is offered to the loop.\<close>

datatype activity_goroutine = Executing nat activity_start | EventReady nat activity_completion

record 'b activity_loop =
  al_worker :: "'b activity_worker"
  al_cancelled :: bool
  al_poll_stopped :: bool
  al_poller :: activity_poller
  al_poll_open :: bool
  al_ctx_watched :: bool
  al_draining :: bool
  al_first_err :: "goerr option"
  al_later_err :: "goerr option"
  al_active :: int
  al_running :: "(bytes, nat) gomap"
  al_activities :: "running_activity list"
  al_goroutines :: "activity_goroutine list"
  al_pipe :: "activity_effect psys"
  al_heartbeats :: "(nat \<times> bytes) list"
  al_returned :: "goerr option option"

text \<open>
  \<open>al_heartbeats\<close> records the heartbeats Core was given. \<open>Run\<close> up to the loop, with
  \<open>newActivityRunLoop\<close> and the poller started.
\<close>

definition new_activity_loop :: "'b activity_worker \<Rightarrow> 'b activity_loop" where
  "new_activity_loop w =
     \<lparr>al_worker = w, al_cancelled = False, al_poll_stopped = False, al_poller = PollerWaits,
      al_poll_open = True, al_ctx_watched = True, al_draining = False, al_first_err = None,
      al_later_err = None, al_active = 0, al_running = [], al_activities = [], al_goroutines = [],
      al_pipe = initial_psys (activity_completion_limit w) [], al_heartbeats = [], al_returned = None\<rparr>"

section \<open>Completions\<close>

definition activity_ticket ::
    "activity_wire \<Rightarrow> payload_codec \<Rightarrow> activity_completion \<Rightarrow> nat option \<Rightarrow> activity_effect ticket" where
  "activity_ticket wire codec c finalizer =
     (let m = encoded_activity_completion wire codec c in
      \<lparr>tk_submit = Some (SubmitActivity (ac_token c) m), tk_after_submit = None,
       tk_finalize = map_option ForgetActivity finalizer, tk_weight = xw_size wire m\<rparr>)"

text \<open>The finalizer \<open>enqueueActivityCompletion\<close> builds, and the run of a ticket's finalizer, if any.\<close>

definition forget_activity :: "nat \<Rightarrow> 'b activity_loop \<Rightarrow> 'b activity_loop" where
  "forget_activity n l =
     (let key = ra_token (al_activities l ! n) in
      if map_of (al_running l) key = Some n
      then l\<lparr>al_running := AList.delete key (al_running l)\<rparr> else l)"

definition run_finalizer :: "activity_effect option \<Rightarrow> 'b activity_loop \<Rightarrow> 'b activity_loop" where
  "run_finalizer f l = (case f of Some (ForgetActivity n) \<Rightarrow> forget_activity n l | _ \<Rightarrow> l)"

definition enqueue_completion ::
    "activity_wire \<Rightarrow> activity_completion option \<Rightarrow> nat option \<Rightarrow> 'b activity_loop \<Rightarrow>
     'b activity_loop \<times> goerr option" where
  "enqueue_completion wire completion finalizer l = (case completion of
     None \<Rightarrow> (run_finalizer (map_option ForgetActivity finalizer) l,
              Some (ErrNew ''activity execution produced no completion''))
   | Some c \<Rightarrow>
      (let t = activity_ticket wire (activity_codec (al_worker l)) c finalizer;
           l1 = l\<lparr>al_pipe := sys_enqueue (al_pipe l) t\<rparr>
       in case snd (enqueue (s_pipe (al_pipe l)) t) of
            Refused e f \<Rightarrow> (run_finalizer f l1, Some e)
          | _ \<Rightarrow> (l1, None)))"

text \<open>\<open>queueTerminal\<close> with \<open>stopLocked\<close>: the activity changed, or nothing when it had been terminal.\<close>

definition queue_terminal :: "running_activity \<Rightarrow> running_activity option" where
  "queue_terminal a =
     (if ra_terminal a then None
      else let a1 = a\<lparr>ra_terminal := True\<rparr> in
        Some (if ra_stopped a1 then a1 else a1\<lparr>ra_stopped := True\<rparr>))"

definition enqueue_activity_completion ::
    "activity_wire \<Rightarrow> nat \<Rightarrow> activity_completion option \<Rightarrow> 'b activity_loop \<Rightarrow>
     'b activity_loop \<times> goerr option" where
  "enqueue_activity_completion wire n completion l =
     (case queue_terminal (al_activities l ! n) of
        None \<Rightarrow> (l, None)
      | Some a \<Rightarrow>
          enqueue_completion wire completion (Some n)
            (l\<lparr>al_activities := (al_activities l)[n := a], al_active := al_active l - 1\<rparr>))"

definition cancel_running_activity ::
    "activity_wire \<Rightarrow> bytes \<Rightarrow> string \<Rightarrow> 'b activity_loop \<Rightarrow> 'b activity_loop \<times> goerr option" where
  "cancel_running_activity wire token message l =
     (case map_of (al_running l) token of
        None \<Rightarrow> (l, None)
      | Some n \<Rightarrow>
          enqueue_activity_completion wire n
            (Some (cancelled_activity token
               (if message = [] then ''activity cancellation requested'' else message))) l)"

text \<open>The loop of \<open>cancelRunningActivities\<close>, with the errors it collects.\<close>

fun cancel_each ::
    "activity_wire \<Rightarrow> string \<Rightarrow> nat list \<Rightarrow> 'b activity_loop \<Rightarrow> 'b activity_loop \<times> goerr option list" where
  "cancel_each wire message [] l = (l, [])"
| "cancel_each wire message (n # ns) l =
     (case enqueue_activity_completion wire n
             (Some (cancelled_activity (ra_token (al_activities l ! n)) message)) l of
        (l1, e) \<Rightarrow> (case cancel_each wire message ns l1 of (l2, es) \<Rightarrow> (l2, e # es)))"

definition cancel_running_activities ::
    "activity_wire \<Rightarrow> (nat list \<Rightarrow> nat list) \<Rightarrow> string \<Rightarrow> 'b activity_loop \<Rightarrow>
     'b activity_loop \<times> goerr option" where
  "cancel_running_activities wire ord message l =
     (case cancel_each wire message (ord (map snd (al_running l))) l of
        (l1, es) \<Rightarrow> (l1, errors_join es))"

section \<open>The loop's handlers\<close>

definition activity_should_finish :: "'b activity_loop \<Rightarrow> bool" where
  "activity_should_finish l \<longleftrightarrow>
     al_draining l \<and> \<not> al_poll_open l \<and> p_outstanding (s_pipe (al_pipe l)) = 0"

definition activity_record_error :: "goerr option \<Rightarrow> 'b activity_loop \<Rightarrow> 'b activity_loop" where
  "activity_record_error err l = (case err of
     None \<Rightarrow> l
   | Some e \<Rightarrow>
       if al_first_err l = None then l\<lparr>al_first_err := Some e\<rparr>
       else l\<lparr>al_later_err := errors_join [al_later_err l, Some e]\<rparr>)"

definition shutting_down :: string where
  "shutting_down = ''activity worker is shutting down''"

definition activity_start_draining ::
    "activity_wire \<Rightarrow> (nat list \<Rightarrow> nat list) \<Rightarrow> goerr option \<Rightarrow> 'b activity_loop \<Rightarrow> 'b activity_loop" where
  "activity_start_draining wire ord err l =
     (let l1 = activity_record_error err l in
      if al_draining l1 then l1
      else
        (case cancel_running_activities wire ord shutting_down
                (l1\<lparr>al_draining := True, al_poll_stopped := True, al_ctx_watched := False\<rparr>) of
           (l2, e) \<Rightarrow> activity_record_error e l2))"

definition activity_drain_on ::
    "activity_wire \<Rightarrow> (nat list \<Rightarrow> nat list) \<Rightarrow> 'b activity_loop \<times> goerr option \<Rightarrow> 'b activity_loop" where
  "activity_drain_on wire ord r = (case r of
     (l, None) \<Rightarrow> l | (l, Some e) \<Rightarrow> activity_start_draining wire ord (Some e) l)"

definition start_activity ::
    "bytes \<Rightarrow> activity_start \<Rightarrow> 'b activity_loop \<Rightarrow> 'b activity_loop \<times> goerr option" where
  "start_activity token start l =
     (if al_active l \<ge> activity_completion_limit (al_worker l)
      then (l, Some (ErrNew (''core exceeded the configured maximum of '' @
                 show_int (activity_completion_limit (al_worker l)) @ '' concurrent activity executions'')))
      else if map_of (al_running l) token \<noteq> None
      then (l, Some (ErrNew ''core delivered a duplicate activity task token''))
      else let n = length (al_activities l) in
        (l\<lparr>al_activities := al_activities l @ [\<lparr>ra_token = token, ra_stopped = False, ra_terminal = False\<rparr>],
           al_running := AList.update token n (al_running l), al_active := al_active l + 1,
           al_goroutines := al_goroutines l @ [Executing n start]\<rparr>, None))"

definition handle_polled_task ::
    "activity_wire \<Rightarrow> activity_task \<Rightarrow> 'b activity_loop \<Rightarrow> 'b activity_loop \<times> goerr option" where
  "handle_polled_task wire task l = (case ak_variant task of
     StartTask start \<Rightarrow>
       if \<not> al_draining l then start_activity (ak_token task) start l
       else enqueue_completion wire (Some (cancelled_activity (ak_token task) shutting_down)) None l
   | CancelTask reason \<Rightarrow> cancel_running_activity wire (ak_token task) reason l
   | NoVariant \<Rightarrow>
       (l, Some (ErrNew ''core delivered an activity task without a start or cancellation'')))"

text \<open>\<open>handlePollEvent\<close> on a closed channel, and on an event.\<close>

definition handle_activity_closed ::
    "activity_wire \<Rightarrow> (nat list \<Rightarrow> nat list) \<Rightarrow> 'b activity_loop \<Rightarrow> 'b activity_loop" where
  "handle_activity_closed wire ord l =
     (let l1 = l\<lparr>al_poll_open := False\<rparr> in
      if al_draining l1 then l1
      else activity_start_draining wire ord
        (if al_cancelled l1 then None else Some (ErrNew ''activity poll loop stopped unexpectedly'')) l1)"

definition handle_activity_poll ::
    "activity_wire \<Rightarrow> (nat list \<Rightarrow> nat list) \<Rightarrow> activity_poll \<Rightarrow> 'b activity_loop \<Rightarrow> 'b activity_loop" where
  "handle_activity_poll wire ord event l = (case ap_err event of
     Some e \<Rightarrow>
       activity_start_draining wire ord (if al_cancelled l \<and> is_context_error e then None else Some e) l
   | None \<Rightarrow>
       (case ap_task event of
          None \<Rightarrow> activity_start_draining wire ord
                    (Some (ErrNew ''activity poll loop returned an empty task'')) l
        | Some task \<Rightarrow>
            (case ap_codec_err event of
               Some e \<Rightarrow> activity_drain_on wire ord
                           (enqueue_completion wire (Some (failed_activity (ak_token task) e)) None l)
             | None \<Rightarrow> activity_drain_on wire ord (handle_polled_task wire task l))))"

definition handle_activity_event ::
    "activity_wire \<Rightarrow> (nat list \<Rightarrow> nat list) \<Rightarrow> nat \<Rightarrow> activity_completion \<Rightarrow> 'b activity_loop \<Rightarrow>
     'b activity_loop" where
  "handle_activity_event wire ord n c l =
     (if map_of (al_running l) (ra_token (al_activities l ! n)) \<noteq> Some n then l
      else activity_drain_on wire ord (enqueue_activity_completion wire n (Some c) l))"

text \<open>\<open>result.Finalize()\<close> runs the ticket's finalizer; then the error is looked at.\<close>

definition handle_activity_result ::
    "activity_wire \<Rightarrow> (nat list \<Rightarrow> nat list) \<Rightarrow> activity_effect result \<Rightarrow> activity_effect result list \<Rightarrow>
     'b activity_loop \<Rightarrow> 'b activity_loop" where
  "handle_activity_result wire ord r rs l =
     activity_drain_on wire ord
       (run_finalizer (snd (snd (result_finalize (s_pipe (al_pipe l)) (Some r))))
          (l\<lparr>al_pipe := take_result (al_pipe l) r rs\<rparr>), r_err r)"

text \<open>The end of \<open>Run\<close>: the deferred shutdown, given Core's answer to it.\<close>

definition activity_finish :: "goerr option \<Rightarrow> 'b activity_loop \<Rightarrow> 'b activity_loop" where
  "activity_finish answer l =
     l\<lparr>al_poll_stopped := True,
       al_returned := Some (errors_join [errors_join [al_first_err l, al_later_err l], answer])\<rparr>"

section \<open>The running system\<close>

definition reorders :: "(nat list \<Rightarrow> nat list) \<Rightarrow> bool" where
  "reorders ord \<longleftrightarrow> (\<forall>ns. mset (ord ns) = mset ns)"

text \<open>
  \<open>activity_internal\<close> has the steps of the loop and of the goroutines it started, but for what
  activity functions do; \<open>activity_external\<close> has what comes from outside: the caller cancels the
  context, Core answers a poll, an activity function returns or panics, or whoever has its context records a heartbeat.
\<close>

inductive activity_internal :: "activity_wire \<Rightarrow> 'b activity_loop \<Rightarrow> 'b activity_loop \<Rightarrow> bool"
  for wire where
  act_ctx_done: "al_returned l = None \<Longrightarrow> \<not> activity_should_finish l \<Longrightarrow> al_ctx_watched l \<Longrightarrow>
    al_cancelled l \<Longrightarrow> reorders ord \<Longrightarrow>
    activity_internal wire l (activity_start_draining wire ord None l)"
| act_poll_event: "al_returned l = None \<Longrightarrow> \<not> activity_should_finish l \<Longrightarrow> al_poll_open l \<Longrightarrow>
    al_poller l = PollerOffers event \<Longrightarrow> reorders ord \<Longrightarrow>
    activity_internal wire l (handle_activity_poll wire ord event
      (l\<lparr>al_poller := (if ap_err event = None then PollerWaits else PollerLeft)\<rparr>))"
| act_poll_closed: "al_returned l = None \<Longrightarrow> \<not> activity_should_finish l \<Longrightarrow> al_poll_open l \<Longrightarrow>
    al_poller l = PollerLeft \<Longrightarrow> reorders ord \<Longrightarrow>
    activity_internal wire l (handle_activity_closed wire ord l)"
| act_event: "al_returned l = None \<Longrightarrow> \<not> activity_should_finish l \<Longrightarrow>
    al_goroutines l = gs @ EventReady n c # hs \<Longrightarrow> reorders ord \<Longrightarrow>
    activity_internal wire l (handle_activity_event wire ord n c (l\<lparr>al_goroutines := gs @ hs\<rparr>))"
| act_result: "al_returned l = None \<Longrightarrow> \<not> activity_should_finish l \<Longrightarrow>
    p_results (s_pipe (al_pipe l)) = r # rs \<Longrightarrow> reorders ord \<Longrightarrow>
    activity_internal wire l (handle_activity_result wire ord r rs l)"
| act_finished: "al_returned l = None \<Longrightarrow> activity_should_finish l \<Longrightarrow>
    activity_internal wire l (activity_finish answer l)"
| act_event_dropped: "al_goroutines l = gs @ EventReady n c # hs \<Longrightarrow>
    ra_stopped (al_activities l ! n) \<Longrightarrow>
    activity_internal wire l (l\<lparr>al_goroutines := gs @ hs\<rparr>)"
| act_submitted: "s_procs (al_pipe l) = ps @ Submitting q # qs \<Longrightarrow>
    tk_submit (q_ticket q) = Some (SubmitActivity token m) \<Longrightarrow>
    activity_internal wire l
      (l\<lparr>al_pipe := (al_pipe l)\<lparr>s_procs := ps @ AfterSubmitting q (complete_activity wire core m) # qs,
         s_submitted := s_submitted (al_pipe l) @ [q]\<rparr>\<rparr>)"
| act_after_submitted: "s_procs (al_pipe l) = ps @ AfterSubmitting q e # qs \<Longrightarrow>
    tk_after_submit (q_ticket q) = None \<Longrightarrow>
    activity_internal wire l (l\<lparr>al_pipe := (al_pipe l)\<lparr>s_procs := ps @ SendingResult q e # qs\<rparr>\<rparr>)"
| act_result_sent: "s_procs (al_pipe l) = ps @ SendingResult q e # qs \<Longrightarrow>
    int (length (p_results (s_pipe (al_pipe l)))) < p_limit (s_pipe (al_pipe l)) \<Longrightarrow>
    activity_internal wire l
      (l\<lparr>al_pipe := (al_pipe l)\<lparr>s_procs := ps @ Finishing # qs,
         s_pipe := (s_pipe (al_pipe l))\<lparr>p_results := p_results (s_pipe (al_pipe l)) @
                      [\<lparr>r_err = e, r_entry = q, r_finalized = False\<rparr>]\<rparr>\<rparr>\<rparr>)"
| act_slot_freed: "s_procs (al_pipe l) = ps @ Finishing # qs \<Longrightarrow>
    activity_internal wire l (l\<lparr>al_pipe := sys_finish (al_pipe l) ps qs\<rparr>)"
| act_poller_left: "al_poller l = PollerOffers event \<Longrightarrow> ap_err event \<noteq> None \<Longrightarrow>
    al_cancelled l \<or> al_poll_stopped l \<Longrightarrow>
    activity_internal wire l (l\<lparr>al_poller := PollerLeft\<rparr>)"

inductive activity_external :: "codec_lib \<Rightarrow> activity_wire \<Rightarrow> 'b activity_loop \<Rightarrow> 'b activity_loop \<Rightarrow> bool"
  for lib wire where
  act_cancelled: "activity_external lib wire l (l\<lparr>al_cancelled := True\<rparr>)"
| act_polled: "al_poller l = PollerWaits \<Longrightarrow>
    activity_external lib wire l
      (l\<lparr>al_poller := PollerOffers (activity_poll_of wire (activity_codec (al_worker l)) answer)\<rparr>)"
| act_executed: "al_goroutines l = gs @ Executing n start # hs \<Longrightarrow>
    activity_external lib wire l
      (l\<lparr>al_goroutines := gs @ EventReady n
           (execute_safely lib (al_worker l) call stack (ra_token (al_activities l ! n)) start) # hs\<rparr>)"
| act_heartbeat: "n < length (al_activities l) \<Longrightarrow>
    record_heartbeat wire (activity_codec (al_worker l)) (al_activities l)
      \<lparr>ax_recorder = Some n, ax_converter = Some (payload_converter_or_default lib (al_worker l))\<rparr>
      details = Ok encoded \<Longrightarrow>
    activity_external lib wire l (l\<lparr>al_heartbeats := al_heartbeats l @ [(n, encoded)]\<rparr>)"

inductive activity_reachable :: "codec_lib \<Rightarrow> activity_wire \<Rightarrow> 'b activity_loop \<Rightarrow> bool" for lib wire where
  act_started: "activity_reachable lib wire (new_activity_loop w)"
| act_internal: "activity_reachable lib wire l \<Longrightarrow> activity_internal wire l l' \<Longrightarrow>
    activity_reachable lib wire l'"
| act_external: "activity_reachable lib wire l \<Longrightarrow> activity_external lib wire l l' \<Longrightarrow>
    activity_reachable lib wire l'"

end
