(* ===== verification/Activity_Loop_Laws.thy ===== *)
theory Activity_Loop_Laws
  imports Activity_Loop
begin

text \<open>
  The invariants of the activity worker's run loop: which activities are running, that each is
  completed once, and how the pipeline, the flags and the errors of the loop agree; each with its
  preservation by every step.
\<close>

section \<open>Frames\<close>

lemma run_finalizer_form:
  "\<exists>m. run_finalizer f l = l\<lparr>al_running := m\<rparr> \<and>
     (\<forall>k n. map_of m k = Some n \<longrightarrow> map_of (al_running l) k = Some n) \<and>
     (\<forall>k n. map_of (al_running l) k = Some n \<longrightarrow> f \<noteq> Some (ForgetActivity n) \<longrightarrow> map_of m k = Some n) \<and>
     (gomap_ok (al_running l) \<longrightarrow> gomap_ok m)"
  by (cases l)
    (auto simp: run_finalizer_def forget_activity_def Let_def delete_conv' split: option.splits
      activity_effect.splits)

lemma run_finalizer_frame [simp]:
  "al_worker (run_finalizer f l) = al_worker l" "al_cancelled (run_finalizer f l) = al_cancelled l"
  "al_poll_stopped (run_finalizer f l) = al_poll_stopped l" "al_poller (run_finalizer f l) = al_poller l"
  "al_poll_open (run_finalizer f l) = al_poll_open l" "al_ctx_watched (run_finalizer f l) = al_ctx_watched l"
  "al_draining (run_finalizer f l) = al_draining l" "al_first_err (run_finalizer f l) = al_first_err l"
  "al_later_err (run_finalizer f l) = al_later_err l" "al_active (run_finalizer f l) = al_active l"
  "al_activities (run_finalizer f l) = al_activities l" "al_goroutines (run_finalizer f l) = al_goroutines l"
  "al_pipe (run_finalizer f l) = al_pipe l" "al_heartbeats (run_finalizer f l) = al_heartbeats l"
  "al_returned (run_finalizer f l) = al_returned l" "run_finalizer None l = l"
  by (simp_all add: run_finalizer_def forget_activity_def Let_def split: option.splits activity_effect.splits)

lemma activity_record_error_frame [simp]:
  "al_worker (activity_record_error e l) = al_worker l" "al_cancelled (activity_record_error e l) = al_cancelled l"
  "al_poll_stopped (activity_record_error e l) = al_poll_stopped l"
  "al_poller (activity_record_error e l) = al_poller l" "al_poll_open (activity_record_error e l) = al_poll_open l"
  "al_ctx_watched (activity_record_error e l) = al_ctx_watched l"
  "al_draining (activity_record_error e l) = al_draining l" "al_active (activity_record_error e l) = al_active l"
  "al_running (activity_record_error e l) = al_running l"
  "al_activities (activity_record_error e l) = al_activities l"
  "al_goroutines (activity_record_error e l) = al_goroutines l" "al_pipe (activity_record_error e l) = al_pipe l"
  "al_heartbeats (activity_record_error e l) = al_heartbeats l"
  "al_returned (activity_record_error e l) = al_returned l"
  "al_first_err (activity_record_error e l) = (if al_first_err l = None then e else al_first_err l)"
  "al_later_err (activity_record_error e l) =
     (if al_first_err l = None \<or> e = None then al_later_err l else errors_join [al_later_err l, e])"
  by (simp_all add: activity_record_error_def split: option.splits)

lemma activity_ticket_simps [simp]:
  "tk_submit (activity_ticket wire codec c fin) =
     Some (SubmitActivity (ac_token c) (encoded_activity_completion wire codec c))"
  "tk_after_submit (activity_ticket wire codec c fin) = None"
  "tk_finalize (activity_ticket wire codec c fin) = map_option ForgetActivity fin"
  by (simp_all add: activity_ticket_def Let_def)

text \<open>What enqueueing a completion does.\<close>

lemma enqueue_completion_cases:
  fixes wire c fin and l :: "'b activity_loop"
  defines "t \<equiv> activity_ticket wire (activity_codec (al_worker l)) c fin"
  obtains (refused) e where
      "enqueue_completion wire (Some c) fin l = (run_finalizer (map_option ForgetActivity fin)
         (l\<lparr>al_pipe := (al_pipe l)\<lparr>s_refused := s_refused (al_pipe l) @ [(t, e)]\<rparr>\<rparr>), Some e)"
      "sys_enqueue (al_pipe l) t = (al_pipe l)\<lparr>s_refused := s_refused (al_pipe l) @ [(t, e)]\<rparr>"
  | (accepted) q where
      "enqueue_completion wire (Some c) fin l = (l\<lparr>al_pipe := sys_enqueue (al_pipe l) t\<rparr>, None)"
      "q_ticket q = t" "s_accepted (sys_enqueue (al_pipe l) t) = s_accepted (al_pipe l) @ [q]"
      "s_refused (sys_enqueue (al_pipe l) t) = s_refused (al_pipe l)"
      "s_taken (sys_enqueue (al_pipe l) t) = s_taken (al_pipe l)"
      "s_finalized (sys_enqueue (al_pipe l) t) = s_finalized (al_pipe l)"
proof (cases rule: sys_enqueue_cases [of "al_pipe l" t])
  case (refused e f)
  have "f = tk_finalize t"
    using refused(1)
    by (auto simp: enqueue_def reject_def t_def Let_def split: if_splits sum.splits)
  with refused that(1) [of e] show ?thesis
    by (simp add: enqueue_completion_def t_def [symmetric] Let_def) (simp add: t_def)
next
  case (accepted q)
  with that(2) [of q] show ?thesis
    by (simp add: enqueue_completion_def t_def [symmetric] Let_def split: enqueue_outcome.splits)
qed

lemma enqueue_completion_frame [simp]:
  "al_worker (fst (enqueue_completion wire (Some c) fin l)) = al_worker l"
  "al_cancelled (fst (enqueue_completion wire (Some c) fin l)) = al_cancelled l"
  "al_poll_stopped (fst (enqueue_completion wire (Some c) fin l)) = al_poll_stopped l"
  "al_poller (fst (enqueue_completion wire (Some c) fin l)) = al_poller l"
  "al_poll_open (fst (enqueue_completion wire (Some c) fin l)) = al_poll_open l"
  "al_ctx_watched (fst (enqueue_completion wire (Some c) fin l)) = al_ctx_watched l"
  "al_draining (fst (enqueue_completion wire (Some c) fin l)) = al_draining l"
  "al_first_err (fst (enqueue_completion wire (Some c) fin l)) = al_first_err l"
  "al_later_err (fst (enqueue_completion wire (Some c) fin l)) = al_later_err l"
  "al_active (fst (enqueue_completion wire (Some c) fin l)) = al_active l"
  "al_activities (fst (enqueue_completion wire (Some c) fin l)) = al_activities l"
  "al_goroutines (fst (enqueue_completion wire (Some c) fin l)) = al_goroutines l"
  "al_returned (fst (enqueue_completion wire (Some c) fin l)) = al_returned l"
  "al_heartbeats (fst (enqueue_completion wire (Some c) fin l)) = al_heartbeats l"
  by (cases rule: enqueue_completion_cases [of wire c fin l]; simp)+

lemma queue_terminal_simps [simp]:
  "ra_terminal a \<Longrightarrow> queue_terminal a = None"
  "\<not> ra_terminal a \<Longrightarrow> queue_terminal a = Some (a\<lparr>ra_terminal := True, ra_stopped := True\<rparr>)"
  by (cases a; simp add: queue_terminal_def Let_def)+

section \<open>Running activities\<close>

definition finalizers :: "activity_effect psys \<Rightarrow> activity_effect option list" where
  "finalizers p = map (\<lambda>q. tk_finalize (q_ticket q)) (s_accepted p) @
     map (\<lambda>te. tk_finalize (fst te)) (s_refused p)"

text \<open>The completions of an activity that were handed to the pipeline.\<close>

definition completions_of :: "activity_effect psys \<Rightarrow> nat \<Rightarrow> nat" where
  "completions_of p n = count_list (finalizers p) (Some (ForgetActivity n))"

definition activities_ok :: "'b activity_loop \<Rightarrow> bool" where
  "activities_ok l \<longleftrightarrow>
     gomap_ok (al_running l) \<and>
     (\<forall>k n. map_of (al_running l) k = Some n \<longrightarrow>
        n < length (al_activities l) \<and> ra_token (al_activities l ! n) = k) \<and>
     (\<forall>n < length (al_activities l). ra_stopped (al_activities l ! n) = ra_terminal (al_activities l ! n) \<and>
        (\<not> ra_terminal (al_activities l ! n) \<longrightarrow>
           map_of (al_running l) (ra_token (al_activities l ! n)) = Some n)) \<and>
     al_active l = int (length (filter (\<lambda>a. \<not> ra_terminal a) (al_activities l))) \<and>
     al_active l \<le> activity_completion_limit (al_worker l) \<and>
     (\<forall>n. completions_of (al_pipe l) n =
        (if n < length (al_activities l) \<and> ra_terminal (al_activities l ! n) then 1 else 0))"

lemma activities_ok_frame:
  "al_running l' = al_running l \<Longrightarrow> al_activities l' = al_activities l \<Longrightarrow> al_active l' = al_active l \<Longrightarrow>
   al_worker l' = al_worker l \<Longrightarrow> finalizers (al_pipe l') = finalizers (al_pipe l) \<Longrightarrow>
   activities_ok l \<Longrightarrow> activities_ok l'"
  by (simp add: activities_ok_def completions_of_def)

lemma length_filter_update:
  "n < length xs \<Longrightarrow> P (xs ! n) \<Longrightarrow> \<not> P y \<Longrightarrow>
   Suc (length (filter P (xs[n := y]))) = length (filter P xs)"
  by (induction xs arbitrary: n) (auto split: nat.splits simp: nth_Cons')

text \<open>A finalizer only forgets; whoever is forgotten is not counted as running.\<close>

lemma completions_of_enqueue:
  "completions_of (al_pipe (fst (enqueue_completion wire (Some c) fin l))) n =
     completions_of (al_pipe l) n + (if fin = Some n then 1 else 0)"
  by (cases rule: enqueue_completion_cases [of wire c fin l])
    (auto simp: completions_of_def finalizers_def)

lemma running_enqueue:
  "(\<forall>k n. map_of (al_running (fst (enqueue_completion wire (Some c) fin l))) k = Some n \<longrightarrow>
      map_of (al_running l) k = Some n) \<and>
   (\<forall>k n. map_of (al_running l) k = Some n \<longrightarrow> fin \<noteq> Some n \<longrightarrow>
      map_of (al_running (fst (enqueue_completion wire (Some c) fin l))) k = Some n) \<and>
   (gomap_ok (al_running l) \<longrightarrow> gomap_ok (al_running (fst (enqueue_completion wire (Some c) fin l))))"
proof (cases rule: enqueue_completion_cases [of wire c fin l])
  case (refused e)
  let ?l = "l\<lparr>al_pipe := (al_pipe l)\<lparr>s_refused := s_refused (al_pipe l) @
     [(activity_ticket wire (activity_codec (al_worker l)) c fin, e)]\<rparr>\<rparr>"
  from run_finalizer_form [of "map_option ForgetActivity fin" ?l] obtain m where
    m: "run_finalizer (map_option ForgetActivity fin) ?l = ?l\<lparr>al_running := m\<rparr>"
    and sub: "\<And>k n. map_of m k = Some n \<Longrightarrow> map_of (al_running l) k = Some n"
    and kept: "\<And>k n. map_of (al_running l) k = Some n \<Longrightarrow> map_option ForgetActivity fin \<noteq> Some (ForgetActivity n) \<Longrightarrow>
      map_of m k = Some n" and dist: "gomap_ok (al_running l) \<longrightarrow> gomap_ok m" by simp blast
  have r: "al_running (fst (enqueue_completion wire (Some c) fin l)) = m" by (simp only: refused(1) m fst_conv) simp
  have "map_of m k = Some n" if "map_of (al_running l) k = Some n" "fin \<noteq> Some n" for k n
    using kept [OF that(1)] that(2) by (cases fin) simp_all
  with sub dist show ?thesis unfolding r by blast
qed simp

lemma activities_okD:
  assumes "activities_ok l"
  shows "map_of (al_running l) k = Some n \<Longrightarrow> n < length (al_activities l) \<and> ra_token (al_activities l ! n) = k"
    and "n < length (al_activities l) \<Longrightarrow> ra_stopped (al_activities l ! n) = ra_terminal (al_activities l ! n)"
    and "n < length (al_activities l) \<Longrightarrow> \<not> ra_terminal (al_activities l ! n) \<Longrightarrow>
      map_of (al_running l) (ra_token (al_activities l ! n)) = Some n"
    and "al_active l = int (length (filter (\<lambda>a. \<not> ra_terminal a) (al_activities l)))"
    and "al_active l \<le> activity_completion_limit (al_worker l)"
    and "completions_of (al_pipe l) n =
        (if n < length (al_activities l) \<and> ra_terminal (al_activities l ! n) then 1 else 0)"
    and "gomap_ok (al_running l)"
  using assms unfolding activities_ok_def by blast+

text \<open>Forgetting terminal activities keeps the invariant.\<close>

lemma activities_ok_forget:
  assumes ok: "activities_ok l" and same: "al_activities l' = al_activities l" "al_active l' = al_active l"
      "al_worker l' = al_worker l" "\<And>n. completions_of (al_pipe l') n = completions_of (al_pipe l) n"
    and dist: "gomap_ok (al_running l')"
    and sub: "\<And>k n. map_of (al_running l') k = Some n \<Longrightarrow> map_of (al_running l) k = Some n"
    and kept: "\<And>k n. map_of (al_running l) k = Some n \<Longrightarrow> \<not> ra_terminal (al_activities l ! n) \<Longrightarrow>
      map_of (al_running l') k = Some n"
  shows "activities_ok l'"
proof -
  note D = activities_okD [OF ok]
  show ?thesis
    unfolding activities_ok_def same
  proof (intro conjI)
    show "\<forall>k n. map_of (al_running l') k = Some n \<longrightarrow>
        n < length (al_activities l) \<and> ra_token (al_activities l ! n) = k"
      using sub D(1) by blast
    show "\<forall>n < length (al_activities l). ra_stopped (al_activities l ! n) = ra_terminal (al_activities l ! n) \<and>
        (\<not> ra_terminal (al_activities l ! n) \<longrightarrow>
           map_of (al_running l') (ra_token (al_activities l ! n)) = Some n)"
      using D(2,3) kept by blast
  qed (use D(4-6) dist in simp_all)
qed

lemma activities_ok_enqueue:
  assumes "activities_ok l"
  shows "activities_ok (fst (enqueue_completion wire (Some c) None l))"
proof (rule activities_ok_forget [OF assms])
  note run = running_enqueue [where wire = wire and c = c and fin = None and l = l]
  fix k n
  show "map_of (al_running (fst (enqueue_completion wire (Some c) None l))) k = Some n \<Longrightarrow>
      map_of (al_running l) k = Some n" using run by blast
  show "map_of (al_running l) k = Some n \<Longrightarrow>
      map_of (al_running (fst (enqueue_completion wire (Some c) None l))) k = Some n" using run by blast
  show "gomap_ok (al_running (fst (enqueue_completion wire (Some c) None l)))"
    using run activities_okD(7) [OF assms] by blast
qed (simp_all add: completions_of_enqueue)

lemma activities_ok_complete:
  assumes ok: "activities_ok l" and n: "n < length (al_activities l)"
  shows "activities_ok (fst (enqueue_activity_completion wire n (Some c) l))"
proof (cases "ra_terminal (al_activities l ! n)")
  case True
  with ok show ?thesis by (simp add: enqueue_activity_completion_def)
next
  case False
  let ?a = "(al_activities l ! n)\<lparr>ra_terminal := True, ra_stopped := True\<rparr>"
  let ?l = "l\<lparr>al_activities := (al_activities l)[n := ?a], al_active := al_active l - 1\<rparr>"
  let ?r = "fst (enqueue_completion wire (Some c) (Some n) ?l)"
  have r: "fst (enqueue_activity_completion wire n (Some c) l) = ?r"
    using False by (simp add: enqueue_activity_completion_def)
  have "Suc (length (filter (\<lambda>a. \<not> ra_terminal a) ((al_activities l)[n := ?a]))) =
      length (filter (\<lambda>a. \<not> ra_terminal a) (al_activities l))"
    using n False by (intro length_filter_update) simp_all
  then have count: "al_active ?r = int (length (filter (\<lambda>a. \<not> ra_terminal a) (al_activities ?r)))"
    using ok by (simp add: activities_ok_def)
  note run = running_enqueue [where wire = wire and c = c and fin = "Some n" and l = ?l]
  have runs: "map_of (al_running ?r) k = Some m \<Longrightarrow> map_of (al_running l) k = Some m"
    "map_of (al_running l) k = Some m \<Longrightarrow> m \<noteq> n \<Longrightarrow> map_of (al_running ?r) k = Some m" for k m
    using conjunct1 [OF run, rule_format, of k m] conjunct1 [OF conjunct2 [OF run], rule_format, of k m] by simp_all
  note D = activities_okD [OF ok]
  show ?thesis
    unfolding r activities_ok_def
  proof (intro conjI allI impI)
    fix k m assume "map_of (al_running ?r) k = Some m"
    from D(1) [OF runs(1) [OF this]] n
    show "m < length (al_activities ?r)" "ra_token (al_activities ?r ! m) = k"
      by (auto simp: nth_list_update)
  next
    fix m assume m: "m < length (al_activities ?r)"
    with D(2) [of m] show "ra_stopped (al_activities ?r ! m) = ra_terminal (al_activities ?r ! m)"
      by (cases "m = n") simp_all
    assume "\<not> ra_terminal (al_activities ?r ! m)"
    with m n have "m \<noteq> n" "m < length (al_activities l)" "\<not> ra_terminal (al_activities l ! m)"
      by (cases "m = n"; simp)+
    with runs(2) [OF D(3) [of m]] show "map_of (al_running ?r) (ra_token (al_activities ?r ! m)) = Some m"
      by simp
  next
    show "completions_of (al_pipe ?r) m =
        (if m < length (al_activities ?r) \<and> ra_terminal (al_activities ?r ! m) then 1 else 0)" for m
      using D(6) [of m] n False by (auto simp: completions_of_enqueue nth_list_update)
    show "al_active ?r \<le> activity_completion_limit (al_worker ?r)" using D(5) by simp
    show "gomap_ok (al_running ?r)" using run D(7) by simp
  qed (rule count)
qed

section \<open>Cancelling what runs\<close>

lemma enqueue_completion_form:
  "\<exists>m p. fst (enqueue_completion wire (Some c) fin l) = l\<lparr>al_running := m, al_pipe := p\<rparr>"
proof (cases rule: enqueue_completion_cases [of wire c fin l])
  case (refused e)
  let ?l = "l\<lparr>al_pipe := (al_pipe l)\<lparr>s_refused := s_refused (al_pipe l) @
     [(activity_ticket wire (activity_codec (al_worker l)) c fin, e)]\<rparr>\<rparr>"
  from run_finalizer_form [of "map_option ForgetActivity fin" ?l] obtain m where
    "run_finalizer (map_option ForgetActivity fin) ?l = ?l\<lparr>al_running := m\<rparr>" by blast
  then have "fst (enqueue_completion wire (Some c) fin l) = l\<lparr>al_running := m, al_pipe := al_pipe ?l\<rparr>"
    by (simp add: refused(1))
  then show ?thesis by blast
next
  case (accepted q)
  have "fst (enqueue_completion wire (Some c) fin l) = l\<lparr>al_running := al_running l,
      al_pipe := sys_enqueue (al_pipe l) (activity_ticket wire (activity_codec (al_worker l)) c fin)\<rparr>"
    by (simp add: accepted(1))
  then show ?thesis by blast
qed

lemma enqueue_activity_form:
  "\<exists>m as k p. fst (enqueue_activity_completion wire n (Some c) l) =
     l\<lparr>al_running := m, al_activities := as, al_active := k, al_pipe := p\<rparr>"
proof (cases "ra_terminal (al_activities l ! n)")
  case True
  then have "fst (enqueue_activity_completion wire n (Some c) l) = l\<lparr>al_running := al_running l,
      al_activities := al_activities l, al_active := al_active l, al_pipe := al_pipe l\<rparr>"
    by (simp add: enqueue_activity_completion_def)
  then show ?thesis by blast
next
  case False
  let ?l = "l\<lparr>al_activities := (al_activities l)[n := (al_activities l ! n)\<lparr>ra_terminal := True, ra_stopped := True\<rparr>],
    al_active := al_active l - 1\<rparr>"
  from enqueue_completion_form [of wire c "Some n" ?l] obtain m p where
    "fst (enqueue_completion wire (Some c) (Some n) ?l) = ?l\<lparr>al_running := m, al_pipe := p\<rparr>" by blast
  with False have "fst (enqueue_activity_completion wire n (Some c) l) =
      l\<lparr>al_running := m, al_activities := al_activities ?l, al_active := al_active l - 1, al_pipe := p\<rparr>"
    by (simp add: enqueue_activity_completion_def)
  then show ?thesis by blast
qed

lemma cancel_each_form:
  "\<exists>m as k p. fst (cancel_each wire msg ns l) =
     l\<lparr>al_running := m, al_activities := as, al_active := k, al_pipe := p\<rparr>"
proof (induction ns arbitrary: l)
  case Nil
  have "fst (cancel_each wire msg [] l) = l\<lparr>al_running := al_running l, al_activities := al_activities l,
      al_active := al_active l, al_pipe := al_pipe l\<rparr>" by simp
  then show ?case by blast
next
  case (Cons n ns)
  let ?c = "cancelled_activity (ra_token (al_activities l ! n)) msg"
  let ?l = "fst (enqueue_activity_completion wire n (Some ?c) l)"
  from enqueue_activity_form [of wire n ?c l] obtain m as k p where
    "?l = l\<lparr>al_running := m, al_activities := as, al_active := k, al_pipe := p\<rparr>" by blast
  moreover from Cons.IH [of ?l] obtain m' as' k' p' where
    "fst (cancel_each wire msg ns ?l) =
       ?l\<lparr>al_running := m', al_activities := as', al_active := k', al_pipe := p'\<rparr>" by blast
  ultimately have "fst (cancel_each wire msg (n # ns) l) =
      l\<lparr>al_running := m', al_activities := as', al_active := k', al_pipe := p'\<rparr>"
    by (simp add: case_prod_unfold)
  then show ?case by blast
qed

lemma complete_terminal:
  assumes "n < length (al_activities l)"
  shows "length (al_activities (fst (enqueue_activity_completion wire n (Some c) l))) = length (al_activities l) \<and>
    ra_terminal (al_activities (fst (enqueue_activity_completion wire n (Some c) l)) ! n) \<and>
    (\<forall>m. ra_terminal (al_activities l ! m) \<longrightarrow>
       ra_terminal (al_activities (fst (enqueue_activity_completion wire n (Some c) l)) ! m))"
  using assms
  by (cases "ra_terminal (al_activities l ! n)")
    (auto simp: enqueue_activity_completion_def nth_list_update)

lemma cancel_each_ok:
  assumes "activities_ok l" and "\<forall>n \<in> set ns. n < length (al_activities l)"
  shows "activities_ok (fst (cancel_each wire msg ns l)) \<and>
    length (al_activities (fst (cancel_each wire msg ns l))) = length (al_activities l) \<and>
    (\<forall>n. n \<in> set ns \<or> ra_terminal (al_activities l ! n) \<longrightarrow>
       ra_terminal (al_activities (fst (cancel_each wire msg ns l)) ! n))"
  using assms
proof (induction ns arbitrary: l)
  case (Cons n ns)
  let ?c = "cancelled_activity (ra_token (al_activities l ! n)) msg"
  let ?l = "fst (enqueue_activity_completion wire n (Some ?c) l)"
  have n: "n < length (al_activities l)" using Cons.prems(2) by simp
  note one = complete_terminal [OF n, of wire ?c]
  have "activities_ok ?l" by (rule activities_ok_complete [OF Cons.prems(1) n])
  moreover have "\<forall>m \<in> set ns. m < length (al_activities ?l)" using one Cons.prems(2) by simp
  ultimately have "activities_ok (fst (cancel_each wire msg ns ?l)) \<and>
    length (al_activities (fst (cancel_each wire msg ns ?l))) = length (al_activities ?l) \<and>
    (\<forall>m. m \<in> set ns \<or> ra_terminal (al_activities ?l ! m) \<longrightarrow>
       ra_terminal (al_activities (fst (cancel_each wire msg ns ?l)) ! m))" by (rule Cons.IH)
  with one show ?case by (auto simp: case_prod_unfold)
qed simp

text \<open>Without an error, nothing was refused; and only the history of acceptance changes.\<close>

lemma enqueue_completion_log:
  "s_taken (al_pipe (fst (enqueue_completion wire (Some c) fin l))) = s_taken (al_pipe l) \<and>
   s_finalized (al_pipe (fst (enqueue_completion wire (Some c) fin l))) = s_finalized (al_pipe l) \<and>
   (snd (enqueue_completion wire (Some c) fin l) = None \<longrightarrow>
      s_refused (al_pipe (fst (enqueue_completion wire (Some c) fin l))) = s_refused (al_pipe l))"
  by (cases rule: enqueue_completion_cases [of wire c fin l]) simp_all

lemma enqueue_activity_log:
  "s_taken (al_pipe (fst (enqueue_activity_completion wire n (Some c) l))) = s_taken (al_pipe l) \<and>
   s_finalized (al_pipe (fst (enqueue_activity_completion wire n (Some c) l))) = s_finalized (al_pipe l) \<and>
   (snd (enqueue_activity_completion wire n (Some c) l) = None \<longrightarrow>
      s_refused (al_pipe (fst (enqueue_activity_completion wire n (Some c) l))) = s_refused (al_pipe l))"
proof (cases "ra_terminal (al_activities l ! n)")
  case False
  let ?l = "l\<lparr>al_activities := (al_activities l)[n := (al_activities l ! n)\<lparr>ra_terminal := True, ra_stopped := True\<rparr>],
    al_active := al_active l - 1\<rparr>"
  from enqueue_completion_log [of wire c "Some n" ?l] False show ?thesis
    by (simp add: enqueue_activity_completion_def)
qed (simp add: enqueue_activity_completion_def)

lemma cancel_each_log:
  "s_taken (al_pipe (fst (cancel_each wire msg ns l))) = s_taken (al_pipe l) \<and>
   s_finalized (al_pipe (fst (cancel_each wire msg ns l))) = s_finalized (al_pipe l) \<and>
   ((\<forall>e \<in> set (snd (cancel_each wire msg ns l)). e = None) \<longrightarrow>
      s_refused (al_pipe (fst (cancel_each wire msg ns l))) = s_refused (al_pipe l))"
proof (induction ns arbitrary: l)
  case (Cons n ns)
  let ?c = "cancelled_activity (ra_token (al_activities l ! n)) msg"
  let ?l = "fst (enqueue_activity_completion wire n (Some ?c) l)"
  from enqueue_activity_log [of wire n ?c l] Cons.IH [of ?l] show ?case
    by (simp add: case_prod_unfold)
qed simp

section \<open>Draining\<close>

text \<open>The loop after its flags have been set, and after the activities have been cancelled.\<close>

definition drained :: "goerr option \<Rightarrow> 'b activity_loop \<Rightarrow> 'b activity_loop" where
  "drained e l =
     (activity_record_error e l)\<lparr>al_draining := True, al_poll_stopped := True, al_ctx_watched := False\<rparr>"

lemma start_draining_cases:
  obtains (again) "al_draining l" "activity_start_draining wire ord e l = activity_record_error e l"
  | (first) es m as k p where "\<not> al_draining l"
      "cancel_each wire shutting_down (ord (map snd (al_running l))) (drained e l) =
         ((drained e l)\<lparr>al_running := m, al_activities := as, al_active := k, al_pipe := p\<rparr>, es)"
      "activity_start_draining wire ord e l = activity_record_error (errors_join es)
         ((drained e l)\<lparr>al_running := m, al_activities := as, al_active := k, al_pipe := p\<rparr>)"
proof (cases "al_draining l")
  case True
  then show ?thesis by (intro again) (simp_all add: activity_start_draining_def Let_def)
next
  case False
  let ?r = "cancel_each wire shutting_down (ord (map snd (al_running l))) (drained e l)"
  from cancel_each_form [of wire shutting_down "ord (map snd (al_running l))" "drained e l"] obtain m as k p where
    c: "fst ?r = (drained e l)\<lparr>al_running := m, al_activities := as, al_active := k, al_pipe := p\<rparr>" by blast
  have s: "activity_start_draining wire ord e l = activity_record_error (errors_join (snd ?r)) (fst ?r)"
    using False
    by (simp add: activity_start_draining_def cancel_running_activities_def Let_def case_prod_unfold drained_def)
  show ?thesis
  proof (rule first [OF False])
    show "?r = ((drained e l)\<lparr>al_running := m, al_activities := as, al_active := k, al_pipe := p\<rparr>, snd ?r)"
      using c by (metis prod.collapse)
    show "activity_start_draining wire ord e l = activity_record_error (errors_join (snd ?r))
        ((drained e l)\<lparr>al_running := m, al_activities := as, al_active := k, al_pipe := p\<rparr>)"
      using s by (simp only: c)
  qed
qed

lemma start_draining_frame_activity [simp]:
  "al_worker (activity_start_draining wire ord e l) = al_worker l"
  "al_cancelled (activity_start_draining wire ord e l) = al_cancelled l"
  "al_poller (activity_start_draining wire ord e l) = al_poller l"
  "al_poll_open (activity_start_draining wire ord e l) = al_poll_open l"
  "al_goroutines (activity_start_draining wire ord e l) = al_goroutines l"
  "al_heartbeats (activity_start_draining wire ord e l) = al_heartbeats l"
  "al_returned (activity_start_draining wire ord e l) = al_returned l"
  "al_draining (activity_start_draining wire ord e l)"
  "al_ctx_watched (activity_start_draining wire ord e l) = (al_draining l \<and> al_ctx_watched l)"
  "al_poll_stopped (activity_start_draining wire ord e l) = (al_draining l \<longrightarrow> al_poll_stopped l)"
  by (cases rule: start_draining_cases [of l wire ord e]; simp add: drained_def)+

text \<open>The drained activities, and the errors.\<close>

definition all_terminal :: "'b activity_loop \<Rightarrow> bool" where
  "all_terminal l \<longleftrightarrow> (\<forall>a \<in> set (al_activities l). ra_terminal a)"

lemma start_draining_activities:
  assumes "activities_ok l" and "al_draining l \<longrightarrow> all_terminal l" and "reorders ord"
  shows "activities_ok (activity_start_draining wire ord e l) \<and> all_terminal (activity_start_draining wire ord e l)"
proof (cases rule: start_draining_cases [of l wire ord e])
  case again
  have "activities_ok (activity_record_error e l)"
    by (rule activities_ok_frame [OF _ _ _ _ _ assms(1)]) simp_all
  with again assms(2) show ?thesis by (simp add: all_terminal_def)
next
  case (first es m as k p)
  let ?ns = "ord (map snd (al_running l))"
  let ?l = "(drained e l)\<lparr>al_running := m, al_activities := as, al_active := k, al_pipe := p\<rparr>"
  note D = activities_okD [OF assms(1)]
  have d: "activities_ok (drained e l)"
    by (rule activities_ok_frame [OF _ _ _ _ _ assms(1)]) (simp_all add: drained_def)
  have ns: "set ?ns = snd ` set (al_running l)"
    using assms(3) unfolding reorders_def by (metis set_mset_mset set_map)
  have "n < length (al_activities (drained e l))" if "n \<in> set ?ns" for n
  proof -
    from that ns obtain k where "(k, n) \<in> set (al_running l)" by force
    with D(7) D(1) [of k n] show ?thesis by (simp add: drained_def)
  qed
  with cancel_each_ok [OF d, of ?ns wire shutting_down] first(2)
  have ok: "activities_ok ?l" "length as = length (al_activities l)"
    and stopped: "\<And>n. n \<in> set ?ns \<or> ra_terminal (al_activities l ! n) \<Longrightarrow> ra_terminal (as ! n)"
    by (auto simp: drained_def)
  have "ra_terminal (as ! n)" if "n < length as" for n
  proof (cases "ra_terminal (al_activities l ! n)")
    case False
    with D(3) [of n] that ok(2) have "n \<in> set ?ns" unfolding ns by (force dest: map_of_SomeD)
    then show ?thesis by (rule stopped [OF disjI1])
  qed (rule stopped [OF disjI2])
  moreover have "activities_ok (activity_record_error (errors_join es) ?l)"
    by (rule activities_ok_frame [OF _ _ _ _ _ ok(1)]) simp_all
  ultimately show ?thesis unfolding first(3) by (auto simp: all_terminal_def in_set_conv_nth)
qed

section \<open>Flags, errors, and what every step keeps\<close>

definition activity_flags :: "'b activity_loop \<Rightarrow> bool" where
  "activity_flags l \<longleftrightarrow>
     (al_ctx_watched l \<longleftrightarrow> \<not> al_draining l) \<and> (al_poll_stopped l \<longleftrightarrow> al_draining l) \<and>
     (al_first_err l \<noteq> None \<longrightarrow> al_draining l) \<and>
     (al_later_err l \<noteq> None \<longrightarrow> al_first_err l \<noteq> None) \<and>
     (al_poll_open l \<or> al_poller l = PollerLeft)"

definition activity_base :: "'b activity_loop \<Rightarrow> bool" where
  "activity_base l \<longleftrightarrow> activities_ok l \<and> (al_draining l \<longrightarrow> all_terminal l) \<and> activity_flags l"

text \<open>What went wrong in the pipeline is known, if \<open>known\<close>.\<close>

definition failures_known :: "bool \<Rightarrow> 'b activity_loop \<Rightarrow> bool" where
  "failures_known known l \<longleftrightarrow>
     (s_refused (al_pipe l) \<noteq> [] \<longrightarrow> known) \<and>
     (\<forall>r \<in> set (s_taken (al_pipe l)). r_finalized r \<and> (r_err r \<noteq> None \<longrightarrow> known)) \<and>
     map r_entry (s_taken (al_pipe l)) = s_finalized (al_pipe l)"

definition activity_inv :: "'b activity_loop \<Rightarrow> bool" where
  "activity_inv l \<longleftrightarrow> activity_base l \<and> (al_poll_open l \<or> al_draining l) \<and>
     failures_known (al_first_err l \<noteq> None) l"

lemma start_draining_inv:
  assumes "activity_base l" and "failures_known (al_first_err l \<noteq> None \<or> e \<noteq> None) l" and "reorders ord"
  shows "activity_inv (activity_start_draining wire ord e l)"
proof -
  let ?r = "activity_start_draining wire ord e l"
  have acts: "activities_ok ?r" "all_terminal ?r"
    using start_draining_activities [OF _ _ assms(3)] assms(1) by (auto simp: activity_base_def)
  have flags: "activity_flags l" using assms(1) by (simp add: activity_base_def)
  have "(al_later_err ?r \<noteq> None \<longrightarrow> al_first_err ?r \<noteq> None) \<and> failures_known (al_first_err ?r \<noteq> None) ?r"
  proof (cases rule: start_draining_cases [of l wire ord e])
    case again
    with flags assms(2) show ?thesis by (auto simp: activity_flags_def failures_known_def)
  next
    case (first es m as k p)
    let ?l = "(drained e l)\<lparr>al_running := m, al_activities := as, al_active := k, al_pipe := p\<rparr>"
    from cancel_each_log [of wire shutting_down "ord (map snd (al_running l))" "drained e l"] first(2)
    have log: "s_taken p = s_taken (al_pipe l)" "s_finalized p = s_finalized (al_pipe l)"
      "(\<forall>e \<in> set es. e = None) \<longrightarrow> s_refused p = s_refused (al_pipe l)"
      by (simp_all add: drained_def)
    have f: "al_first_err ?r = (if al_first_err l = None then if e = None then errors_join es else e
        else al_first_err l)"
      unfolding first(3) by (simp add: drained_def)
    have "al_first_err l = None" "al_later_err l = None" using flags first(1) by (auto simp: activity_flags_def)
    then have g: "al_later_err ?r \<noteq> None \<longrightarrow> e \<noteq> None" unfolding first(3) by (simp add: drained_def)
    have p: "al_pipe ?r = p" unfolding first(3) by simp
    have "s_refused p \<noteq> [] \<longrightarrow> al_first_err ?r \<noteq> None"
    proof
      assume ne: "s_refused p \<noteq> []"
      show "al_first_err ?r \<noteq> None"
      proof (cases "\<forall>e \<in> set es. e = None")
        case True
        with ne log(3) assms(2) show ?thesis by (auto simp: f failures_known_def)
      next
        case False
        then obtain j where "errors_join es = Some j" by (cases "errors_join es") auto
        then show ?thesis by (simp add: f)
      qed
    qed
    moreover have "al_first_err l \<noteq> None \<or> e \<noteq> None \<Longrightarrow> al_first_err ?r \<noteq> None" by (auto simp: f)
    moreover have "al_later_err ?r \<noteq> None \<longrightarrow> al_first_err ?r \<noteq> None" using g by (auto simp: f)
    ultimately show ?thesis using assms(2) by (auto simp: failures_known_def p log)
  qed
  with acts flags show ?thesis by (auto simp: activity_inv_def activity_base_def activity_flags_def)
qed

lemma drain_on_inv:
  assumes "activity_base (fst r)" and "al_poll_open (fst r) \<or> al_draining (fst r)"
    and "failures_known (al_first_err (fst r) \<noteq> None \<or> snd r \<noteq> None) (fst r)" and "reorders ord"
  shows "activity_inv (activity_drain_on wire ord r)"
proof (cases "snd r")
  case None
  with assms show ?thesis by (cases r) (simp add: activity_drain_on_def activity_inv_def)
next
  case (Some e)
  with start_draining_inv [OF assms(1) _ assms(4), of "Some e" wire] assms(3) show ?thesis
    by (cases r) (simp add: activity_drain_on_def)
qed

lemma base_enqueue:
  assumes "activity_base l"
  shows "activity_base (fst (enqueue_completion wire (Some c) None l))"
  using assms activities_ok_enqueue [of l wire c]
  by (simp add: activity_base_def activity_flags_def all_terminal_def)

lemma base_complete:
  assumes "activity_base l" and "n < length (al_activities l)"
  shows "activity_base (fst (enqueue_activity_completion wire n (Some c) l))"
proof -
  from enqueue_activity_form [of wire n c l] obtain m as k p where
    s: "fst (enqueue_activity_completion wire n (Some c) l) =
     l\<lparr>al_running := m, al_activities := as, al_active := k, al_pipe := p\<rparr>" by blast
  have "all_terminal (fst (enqueue_activity_completion wire n (Some c) l))" if "all_terminal l"
  proof -
    from that assms(2) have "ra_terminal (al_activities l ! n)" by (simp add: all_terminal_def)
    with that show ?thesis by (simp add: enqueue_activity_completion_def)
  qed
  with activities_ok_complete [OF _ assms(2), of wire c] assms(1) show ?thesis
    unfolding s by (simp add: activity_base_def activity_flags_def)
qed

lemma failures_enqueue:
  "failures_known known l \<Longrightarrow>
   failures_known (known \<or> snd (enqueue_completion wire (Some c) fin l) \<noteq> None)
     (fst (enqueue_completion wire (Some c) fin l))"
  using enqueue_completion_log [of wire c fin l] by (auto simp: failures_known_def)

lemma failures_complete:
  "failures_known known l \<Longrightarrow>
   failures_known (known \<or> snd (enqueue_activity_completion wire n (Some c) l) \<noteq> None)
     (fst (enqueue_activity_completion wire n (Some c) l))"
  using enqueue_activity_log [of wire n c l] by (auto simp: failures_known_def)

lemma start_activity_base:
  assumes "activity_base l" and "\<not> al_draining l"
  shows "activity_base (fst (start_activity token start l))"
proof (cases "al_active l \<ge> activity_completion_limit (al_worker l) \<or> map_of (al_running l) token \<noteq> None")
  case True
  with assms show ?thesis by (auto simp: start_activity_def)
next
  case False
  let ?n = "length (al_activities l)"
  let ?r = "fst (start_activity token start l)"
  from assms have ok: "activities_ok l" by (simp add: activity_base_def)
  note D = activities_okD [OF ok]
  from False have r: "al_activities ?r = al_activities l @ [\<lparr>ra_token = token, ra_stopped = False, ra_terminal = False\<rparr>]"
    "al_running ?r = AList.update token ?n (al_running l)" "al_active ?r = al_active l + 1"
    "al_pipe ?r = al_pipe l" "al_worker ?r = al_worker l"
    by (simp_all add: start_activity_def Let_def)
  have "activities_ok ?r"
    unfolding activities_ok_def r
  proof (intro conjI allI impI)
    fix k n assume "map_of (AList.update token ?n (al_running l)) k = Some n"
    with D(1) [of k n] show "n < length (al_activities l @ [\<lparr>ra_token = token, ra_stopped = False, ra_terminal = False\<rparr>])"
      "ra_token ((al_activities l @ [\<lparr>ra_token = token, ra_stopped = False, ra_terminal = False\<rparr>]) ! n) = k"
      by (auto simp: update_conv' nth_append split: if_splits)
  next
    fix n assume n: "n < length (al_activities l @ [\<lparr>ra_token = token, ra_stopped = False, ra_terminal = False\<rparr>])"
    then show "ra_stopped ((al_activities l @ [\<lparr>ra_token = token, ra_stopped = False, ra_terminal = False\<rparr>]) ! n) =
        ra_terminal ((al_activities l @ [\<lparr>ra_token = token, ra_stopped = False, ra_terminal = False\<rparr>]) ! n)"
      using D(2) [of n] by (auto simp: nth_append less_Suc_eq)
    assume "\<not> ra_terminal ((al_activities l @ [\<lparr>ra_token = token, ra_stopped = False, ra_terminal = False\<rparr>]) ! n)"
    with n D(3) [of n] False show "map_of (AList.update token ?n (al_running l))
        (ra_token ((al_activities l @ [\<lparr>ra_token = token, ra_stopped = False, ra_terminal = False\<rparr>]) ! n)) = Some n"
      by (auto simp: update_conv' nth_append less_Suc_eq)
  next
    show "completions_of (al_pipe l) n =
        (if n < length (al_activities l @ [\<lparr>ra_token = token, ra_stopped = False, ra_terminal = False\<rparr>]) \<and>
            ra_terminal ((al_activities l @ [\<lparr>ra_token = token, ra_stopped = False, ra_terminal = False\<rparr>]) ! n)
         then 1 else 0)" for n
      using D(6) [of n] by (auto simp: nth_append)
  qed (use D(4,5,7) False in auto)
  with False assms show ?thesis
    by (auto simp: activity_base_def activity_flags_def start_activity_def Let_def)
qed

text \<open>The guarded operations of the loop, as one.\<close>

definition step_ok :: "'b activity_loop \<Rightarrow> 'b activity_loop \<times> goerr option \<Rightarrow> bool" where
  "step_ok l r \<longleftrightarrow> activity_base (fst r) \<and> al_poll_open (fst r) = al_poll_open l \<and>
     al_draining (fst r) = al_draining l \<and> al_first_err (fst r) = al_first_err l \<and>
     failures_known (al_first_err l \<noteq> None \<or> snd r \<noteq> None) (fst r)"

lemma step_ok_drain:
  "activity_inv l \<Longrightarrow> step_ok l r \<Longrightarrow> reorders ord \<Longrightarrow> activity_inv (activity_drain_on wire ord r)"
  by (intro drain_on_inv) (auto simp: step_ok_def activity_inv_def)

lemma step_ok_enqueue:
  "activity_inv l \<Longrightarrow> step_ok l (enqueue_completion wire (Some c) None l)"
  using base_enqueue [of l wire c] failures_enqueue [of _ l wire c None]
  by (auto simp: step_ok_def activity_inv_def)

lemma step_ok_complete:
  assumes "activity_inv l" and "n < length (al_activities l)"
  shows "step_ok l (enqueue_activity_completion wire n (Some c) l)"
proof -
  from enqueue_activity_form [of wire n c l] obtain m as k p where
    "fst (enqueue_activity_completion wire n (Some c) l) =
     l\<lparr>al_running := m, al_activities := as, al_active := k, al_pipe := p\<rparr>" by blast
  with base_complete [OF _ assms(2), of wire c] failures_complete [of _ l wire n c] assms(1) show ?thesis
    by (auto simp: step_ok_def activity_inv_def)
qed

lemma step_ok_start:
  assumes "activity_inv l" and "\<not> al_draining l"
  shows "step_ok l (start_activity token start l)"
proof -
  have "activity_base (fst (start_activity token start l))"
    using assms by (intro start_activity_base) (simp_all add: activity_inv_def)
  with assms show ?thesis
    by (auto simp: step_ok_def start_activity_def Let_def activity_inv_def failures_known_def)
qed

lemma step_ok_task:
  assumes "activity_inv l"
  shows "step_ok l (handle_polled_task wire task l)"
proof (cases "ak_variant task")
  case (StartTask start)
  with assms show ?thesis
    by (simp add: handle_polled_task_def step_ok_start step_ok_enqueue)
next
  case (CancelTask reason)
  show ?thesis
  proof (cases "map_of (al_running l) (ak_token task)")
    case None
    with CancelTask assms show ?thesis
      by (auto simp: handle_polled_task_def cancel_running_activity_def step_ok_def activity_inv_def
          failures_known_def)
  next
    case (Some n)
    with assms have "n < length (al_activities l)"
      using activities_okD(1) by (auto simp: activity_inv_def activity_base_def)
    with CancelTask Some assms show ?thesis
      by (simp add: handle_polled_task_def cancel_running_activity_def step_ok_complete)
  qed
next
  case NoVariant
  with assms show ?thesis
    by (auto simp: handle_polled_task_def step_ok_def activity_inv_def failures_known_def)
qed

section \<open>The goroutines and the pipeline\<close>

text \<open>
  Goroutines and heartbeats belong to activities; a goroutine of the pipeline finds the labels the loop
  put on its ticket.
\<close>

fun goroutine_activity :: "activity_goroutine \<Rightarrow> nat" where
  "goroutine_activity (Executing n start) = n"
| "goroutine_activity (EventReady n c) = n"

definition goroutines_ok :: "'b activity_loop \<Rightarrow> bool" where
  "goroutines_ok l \<longleftrightarrow> (\<forall>g \<in> set (al_goroutines l). goroutine_activity g < length (al_activities l))"

definition activity_labels :: "'b activity_loop \<Rightarrow> bool" where
  "activity_labels l \<longleftrightarrow> (\<forall>q \<in> set (s_accepted (al_pipe l)).
     (\<exists>token m. tk_submit (q_ticket q) = Some (SubmitActivity token m)) \<and> tk_after_submit (q_ticket q) = None)"

text \<open>What the handlers do to the pipeline and the list of activities.\<close>

definition extends :: "'b activity_loop \<Rightarrow> 'b activity_loop \<Rightarrow> bool" where
  "extends l l' \<longleftrightarrow> pipe_step\<^sup>*\<^sup>* (al_pipe l) (al_pipe l') \<and> (activity_labels l \<longrightarrow> activity_labels l') \<and>
     length (al_activities l) \<le> length (al_activities l') \<and>
     (goroutines_ok l \<longrightarrow> goroutines_ok l') \<and> al_heartbeats l' = al_heartbeats l \<and> al_returned l' = al_returned l \<and> al_worker l' = al_worker l \<and>
     (al_draining l \<longrightarrow> al_draining l') \<and> (\<forall>e. al_first_err l = Some e \<longrightarrow> al_first_err l' = Some e)"

lemma extends_refl [simp, intro]: "extends l l"
  by (simp add: extends_def)

lemma extends_trans: "extends l l' \<Longrightarrow> extends l' l'' \<Longrightarrow> extends l l''"
  unfolding extends_def by (auto intro: rtranclp_trans)

lemma extends_enqueue: "extends l (fst (enqueue_completion wire (Some c) fin l))"
proof (cases rule: enqueue_completion_cases [of wire c fin l])
  case (refused e)
  have "pipe_step (al_pipe l) (sys_enqueue (al_pipe l) (activity_ticket wire (activity_codec (al_worker l)) c fin))"
    by (rule pipe_step.enqueue)
  with refused show ?thesis
    by (auto simp: extends_def activity_labels_def goroutines_ok_def)
next
  case (accepted q)
  have "pipe_step (al_pipe l) (sys_enqueue (al_pipe l) (activity_ticket wire (activity_codec (al_worker l)) c fin))"
    by (rule pipe_step.enqueue)
  with accepted show ?thesis
    by (auto simp: extends_def activity_labels_def goroutines_ok_def)
qed

lemma extends_complete: "extends l (fst (enqueue_activity_completion wire n (Some c) l))"
proof (cases "ra_terminal (al_activities l ! n)")
  case True
  then show ?thesis by (simp add: enqueue_activity_completion_def)
next
  case False
  let ?l = "l\<lparr>al_activities := (al_activities l)[n := (al_activities l ! n)\<lparr>ra_terminal := True, ra_stopped := True\<rparr>],
    al_active := al_active l - 1\<rparr>"
  have "extends l ?l" by (simp add: extends_def activity_labels_def goroutines_ok_def)
  from extends_trans [OF this extends_enqueue [of ?l wire c "Some n"]] False show ?thesis
    by (simp add: enqueue_activity_completion_def)
qed

lemma extends_cancel: "extends l (fst (cancel_each wire msg ns l))"
proof (induction ns arbitrary: l)
  case (Cons n ns)
  let ?c = "cancelled_activity (ra_token (al_activities l ! n)) msg"
  from extends_trans [OF extends_complete [of l wire n ?c] Cons.IH] show ?case
    by (simp add: case_prod_unfold)
qed simp

lemma extends_error: "extends l (activity_record_error e l)"
  by (simp add: extends_def activity_labels_def goroutines_ok_def)

lemma extends_drain: "extends l (activity_start_draining wire ord e l)"
proof (cases "al_draining l")
  case True
  then show ?thesis by (simp add: activity_start_draining_def extends_error)
next
  case False
  let ?r = "cancel_each wire shutting_down (ord (map snd (al_running l))) (drained e l)"
  have "activity_start_draining wire ord e l = activity_record_error (errors_join (snd ?r)) (fst ?r)"
    using False
    by (simp add: activity_start_draining_def cancel_running_activities_def Let_def case_prod_unfold drained_def)
  moreover have "extends l (drained e l)"
    by (simp add: extends_def drained_def activity_labels_def goroutines_ok_def)
  ultimately show ?thesis by (metis extends_trans extends_cancel extends_error)
qed

lemma extends_drain_on: "extends l (fst r) \<Longrightarrow> extends l (activity_drain_on wire ord r)"
  by (cases r) (auto simp: activity_drain_on_def intro: extends_trans extends_drain split: option.splits)

lemma extends_task: "extends l (fst (handle_polled_task wire task l))"
proof -
  have "extends l (fst (start_activity token start l))" for token start
    by (auto simp: start_activity_def Let_def extends_def activity_labels_def goroutines_ok_def)
  then show ?thesis
    by (auto simp: handle_polled_task_def cancel_running_activity_def extends_enqueue extends_complete
        split: activity_variant.splits option.splits)
qed

lemma extends_poll: "extends l (handle_activity_poll wire ord event l)"
  by (simp add: handle_activity_poll_def extends_drain extends_drain_on extends_enqueue extends_task
      split: option.splits)

lemma extends_event: "extends l (handle_activity_event wire ord n c l)"
  by (simp add: handle_activity_event_def extends_drain_on extends_complete)

text \<open>What the finalisation of a result does.\<close>

lemma handle_result_cases:
  fixes l :: "'b activity_loop"
  assumes "p_results (s_pipe (al_pipe l)) = r # rs" and "pipe_inv (al_pipe l)"
  defines "p \<equiv> take_result (al_pipe l) r rs"
  obtains m where
    "handle_activity_result wire ord r rs l =
       activity_drain_on wire ord (l\<lparr>al_running := m, al_pipe := p\<rparr>, r_err r)"
    "\<And>k n. map_of m k = Some n \<Longrightarrow> map_of (al_running l) k = Some n"
    "\<And>k n. map_of (al_running l) k = Some n \<Longrightarrow>
       tk_finalize (q_ticket (r_entry r)) \<noteq> Some (ForgetActivity n) \<Longrightarrow> map_of m k = Some n"
    "gomap_ok (al_running l) \<Longrightarrow> gomap_ok m" "r_entry r \<in> set (s_accepted (al_pipe l))"
    "s_accepted p = s_accepted (al_pipe l)" "s_refused p = s_refused (al_pipe l)"
    "s_taken p = s_taken (al_pipe l) @ [r\<lparr>r_finalized := True\<rparr>]"
    "s_finalized p = s_finalized (al_pipe l) @ [r_entry r]"
proof -
  have fresh: "\<not> r_finalized r"
    using pipe_invD(2) [OF assms(2)] assms(1) by (simp add: slots_ok_def)
  have "r_entry r \<in> set (live (al_pipe l))" using assms(1) by (simp add: live_def)
  then have acc: "r_entry r \<in> set (s_accepted (al_pipe l))"
    using pipe_invD(6) [OF assms(2)] unfolding finalized_ok_def
    by (metis in_multiset_in_set union_iff)
  have f: "snd (snd (result_finalize (s_pipe (al_pipe l)) (Some r))) = tk_finalize (q_ticket (r_entry r))"
    using fresh by (simp add: result_finalize_def)
  let ?l = "l\<lparr>al_pipe := p\<rparr>"
  from run_finalizer_form [of "tk_finalize (q_ticket (r_entry r))" ?l] obtain m where
    m: "run_finalizer (tk_finalize (q_ticket (r_entry r))) ?l = ?l\<lparr>al_running := m\<rparr>"
      "\<And>k n. map_of m k = Some n \<Longrightarrow> map_of (al_running l) k = Some n"
      "\<And>k n. map_of (al_running l) k = Some n \<Longrightarrow>
         tk_finalize (q_ticket (r_entry r)) \<noteq> Some (ForgetActivity n) \<Longrightarrow> map_of m k = Some n"
      "gomap_ok (al_running l) \<Longrightarrow> gomap_ok m" by auto
  have "handle_activity_result wire ord r rs l =
      activity_drain_on wire ord (l\<lparr>al_running := m, al_pipe := p\<rparr>, r_err r)"
    unfolding handle_activity_result_def f p_def [symmetric] m(1)
    by (rule arg_cong [of _ _ "\<lambda>x. activity_drain_on wire ord (x, r_err r)"])
      (rule activity_loop.equality, simp_all)
  from that [OF this m(2-4) acc] show ?thesis by (simp add: p_def take_result_frame [OF fresh])
qed

lemma terminal_if_completed:
  assumes "activities_ok l" and "q \<in> set (s_accepted (al_pipe l))"
    and "tk_finalize (q_ticket q) = Some (ForgetActivity n)"
  shows "n < length (al_activities l) \<and> ra_terminal (al_activities l ! n)"
proof -
  from assms(2,3) have "Some (ForgetActivity n) \<in> set (finalizers (al_pipe l))"
    by (auto simp: finalizers_def rev_image_eqI)
  then have "completions_of (al_pipe l) n \<noteq> 0" by (simp add: completions_of_def count_list_0_iff)
  with activities_okD(6) [OF assms(1), of n] show ?thesis by (auto split: if_splits)
qed

lemma step_ok_result:
  assumes "activity_inv l" and "p_results (s_pipe (al_pipe l)) = r # rs" and "pipe_inv (al_pipe l)"
    and "reorders ord"
  shows "activity_inv (handle_activity_result wire ord r rs l) \<and> extends l (handle_activity_result wire ord r rs l)"
proof (cases rule: handle_result_cases [OF assms(2,3), of wire ord])
  case (1 m)
  let ?p = "take_result (al_pipe l) r rs"
  let ?l = "l\<lparr>al_running := m, al_pipe := ?p\<rparr>"
  have ok: "activities_ok l" using assms(1) by (simp add: activity_inv_def activity_base_def)
  have "activities_ok ?l"
  proof (rule activities_ok_forget [OF ok])
    show "completions_of (al_pipe ?l) n = completions_of (al_pipe l) n" for n
      using 1(6,7) by (simp add: completions_of_def finalizers_def)
    show "gomap_ok (al_running ?l)" using 1(4) activities_okD(7) [OF ok] by simp
    show "map_of (al_running ?l) k = Some n" if "map_of (al_running l) k = Some n"
      "\<not> ra_terminal (al_activities l ! n)" for k n
      using 1(3) [OF that(1)] terminal_if_completed [OF ok 1(5)] that(2) by auto
  qed (use 1(2) in simp_all)
  with assms(1) have "step_ok l (?l, r_err r)"
    by (auto simp: step_ok_def activity_inv_def activity_base_def activity_flags_def all_terminal_def
        failures_known_def 1(7-9))
  moreover have "extends l ?l"
    using take_result_steps [OF assms(2)]
    by (simp add: extends_def activity_labels_def goroutines_ok_def 1(6))
  ultimately show ?thesis
    unfolding 1(1) using step_ok_drain assms(1,4) extends_drain_on [of l "(?l, r_err r)"] by auto
qed

lemma closed_inv:
  assumes "activity_inv l" and "reorders ord" and "al_poller l = PollerLeft"
  shows "activity_inv (handle_activity_closed wire ord l)"
proof (cases "al_draining l")
  case True
  have "activities_ok (l\<lparr>al_poll_open := False\<rparr>)" if "activities_ok l"
    using that by (rule activities_ok_frame [rotated -1]) simp_all
  with True assms show ?thesis
    by (simp add: handle_activity_closed_def activity_inv_def activity_base_def activity_flags_def
        all_terminal_def failures_known_def)
next
  case False
  have "activities_ok (l\<lparr>al_poll_open := False\<rparr>)" if "activities_ok l"
    using that by (rule activities_ok_frame [rotated -1]) simp_all
  with False assms have "activity_base (l\<lparr>al_poll_open := False\<rparr>)"
    by (auto simp: activity_inv_def activity_base_def activity_flags_def)
  moreover have "failures_known (al_first_err l \<noteq> None) (l\<lparr>al_poll_open := False\<rparr>)"
    using assms(1) by (simp add: activity_inv_def failures_known_def)
  ultimately show ?thesis
    using False start_draining_inv [of "l\<lparr>al_poll_open := False\<rparr>" _ ord wire] assms(2)
    by (auto simp: handle_activity_closed_def failures_known_def)
qed

lemma extends_closed: "extends l (handle_activity_closed wire ord l)"
proof -
  have "extends l (l\<lparr>al_poll_open := False\<rparr>)"
    by (simp add: extends_def activity_labels_def goroutines_ok_def)
  then show ?thesis
    by (auto simp: handle_activity_closed_def Let_def intro: extends_trans extends_drain)
qed

end
