(* ===== verification/Activity_Loop_Properties.thy ===== *)
theory Activity_Loop_Properties
  imports Activity_Loop_Laws
begin

text \<open>
  What the activity worker promises in every interleaving of its loop, the poller, the activities and
  the pipeline: each activity is completed once, its heartbeats end before that, draining cancels what
  runs and does not wait for user code, and the loop reports its errors.
\<close>

section \<open>The pipeline is the worker's\<close>

definition activity_step :: "codec_lib \<Rightarrow> activity_wire \<Rightarrow> 'b activity_loop \<Rightarrow> 'b activity_loop \<Rightarrow> bool" where
  "activity_step lib wire l l' \<longleftrightarrow> activity_internal wire l l' \<or> activity_external lib wire l l'"

lemma pipe_internal_activity: "activity_internal wire l l' \<Longrightarrow> pipe_step\<^sup>*\<^sup>* (al_pipe l) (al_pipe l')"
proof (induction rule: activity_internal.induct)
  case (act_ctx_done l ord)
  show ?case using extends_drain [of l] by (simp add: extends_def)
next
  case (act_poll_event l event ord)
  show ?case
    using extends_poll [of "l\<lparr>al_poller := (if ap_err event = None then PollerWaits else PollerLeft)\<rparr>" wire ord event]
    by (simp add: extends_def)
next
  case (act_poll_closed l ord)
  show ?case using extends_closed [of l] by (simp add: extends_def)
next
  case (act_event l gs n c hs ord)
  show ?case using extends_event [of "l\<lparr>al_goroutines := gs @ hs\<rparr>"] by (simp add: extends_def)
next
  case (act_result l r rs ord)
  let ?l = "run_finalizer (snd (snd (result_finalize (s_pipe (al_pipe l)) (Some r))))
      (l\<lparr>al_pipe := take_result (al_pipe l) r rs\<rparr>)"
  have "pipe_step\<^sup>*\<^sup>* (al_pipe ?l) (al_pipe (handle_activity_result wire ord r rs l))"
    using extends_drain_on [of ?l "(?l, r_err r)" wire ord]
    by (simp add: extends_def handle_activity_result_def)
  moreover have "pipe_step\<^sup>*\<^sup>* (al_pipe l) (al_pipe ?l)"
    using take_result_steps [OF act_result(3)] by simp
  ultimately show ?case by (rule rtranclp_trans [rotated])
next
  case (act_submitted l ps q qs token m core)
  then show ?case by (auto intro!: pipe_step.internal pipe_internal.submit)
next
  case (act_after_submitted l ps q e qs)
  then show ?case by (auto intro!: pipe_step.internal pipe_internal.after_submit)
next
  case (act_result_sent l ps q e qs)
  then show ?case by (auto intro!: pipe_step.internal pipe_internal.send)
next
  case (act_slot_freed l ps qs)
  then show ?case by (auto intro!: pipe_step.internal pipe_internal.finish)
qed (simp_all add: activity_finish_def)

interpretation activity_pipe: pipe_owner al_pipe "\<lambda>l. \<exists>w. l = new_activity_loop w" "activity_step lib wire"
  for lib wire
proof
  show "\<exists>w. l = new_activity_loop w \<Longrightarrow> \<exists>limit. al_pipe l = initial_psys limit []" for l :: "'a activity_loop"
    by (auto simp: new_activity_loop_def)
  show "activity_step lib wire l l' \<Longrightarrow> pipe_step\<^sup>*\<^sup>* (al_pipe l) (al_pipe l')" for l l' :: "'a activity_loop"
    by (auto simp: activity_step_def pipe_internal_activity elim: activity_external.cases)
qed

lemma activity_reachable_steps:
  "activity_reachable lib wire l \<Longrightarrow>
     \<exists>l0. (\<exists>w. l0 = new_activity_loop w) \<and> (activity_step lib wire)\<^sup>*\<^sup>* l0 l"
proof (induction rule: activity_reachable.induct)
  case (act_internal l l')
  then show ?case by (metis activity_step_def rtranclp.rtrancl_into_rtrancl)
next
  case (act_external l l')
  then show ?case by (metis activity_step_def rtranclp.rtrancl_into_rtrancl)
qed blast

lemma activity_pipe_inv: "activity_reachable lib wire l \<Longrightarrow> pipe_inv (al_pipe l)"
  using activity_reachable_steps activity_pipe.inv_reachable by metis

section \<open>The invariant\<close>

lemma activity_inv_frame:
  assumes "activity_inv l" and "al_running l' = al_running l" "al_activities l' = al_activities l"
    "al_active l' = al_active l" "al_worker l' = al_worker l" "s_accepted (al_pipe l') = s_accepted (al_pipe l)"
    "s_refused (al_pipe l') = s_refused (al_pipe l)" "s_taken (al_pipe l') = s_taken (al_pipe l)"
    "s_finalized (al_pipe l') = s_finalized (al_pipe l)" "al_ctx_watched l' = al_ctx_watched l"
    "al_draining l' = al_draining l" "al_poll_stopped l' = al_poll_stopped l"
    "al_first_err l' = al_first_err l" "al_later_err l' = al_later_err l" "al_poll_open l' = al_poll_open l"
    "al_poll_open l \<or> al_poller l' = PollerLeft"
  shows "activity_inv l'"
proof -
  have "activities_ok l'" if "activities_ok l"
    using that by (rule activities_ok_frame [rotated -1]) (simp_all add: assms finalizers_def)
  with assms show ?thesis
    by (auto simp: activity_inv_def activity_base_def activity_flags_def all_terminal_def failures_known_def)
qed

lemma activity_inv_poll:
  assumes "activity_inv l" and "reorders ord"
  shows "activity_inv (handle_activity_poll wire ord event l)"
proof -
  have "activity_inv (activity_start_draining wire ord e l)" for e
    using assms by (intro start_draining_inv) (auto simp: activity_inv_def failures_known_def)
  with assms show ?thesis
    by (simp add: handle_activity_poll_def step_ok_drain step_ok_enqueue step_ok_task split: option.splits)
qed

lemma activity_inv_internal:
  assumes "activity_internal wire l l'" and "activity_inv l" and "pipe_inv (al_pipe l)"
  shows "activity_inv l'"
  using assms
proof (induction rule: activity_internal.induct)
  case (act_ctx_done l ord)
  then show ?case
    by (intro start_draining_inv) (auto simp: activity_inv_def)
next
  case (act_poll_event l event ord)
  let ?l = "l\<lparr>al_poller := (if ap_err event = None then PollerWaits else PollerLeft)\<rparr>"
  have inv: "activity_inv ?l"
    by (rule activity_inv_frame [OF act_poll_event.prems(1)]) (simp_all add: act_poll_event.hyps)
  from activity_inv_poll [OF this act_poll_event.hyps(5)] show ?case .
next
  case (act_poll_closed l ord)
  then show ?case by (intro closed_inv) simp_all
next
  case (act_event l gs n c hs ord)
  let ?l = "l\<lparr>al_goroutines := gs @ hs\<rparr>"
  have inv: "activity_inv ?l"
    by (rule activity_inv_frame [OF act_event.prems(1)])
      (use act_event.prems(1) in \<open>auto simp: activity_inv_def activity_base_def activity_flags_def\<close>)
  show ?case
  proof (cases "map_of (al_running l) (ra_token (al_activities l ! n)) = Some n")
    case True
    with act_event.prems(1) have "n < length (al_activities ?l)"
      using activities_okD(1) by (auto simp: activity_inv_def activity_base_def)
    from step_ok_drain [OF inv step_ok_complete [OF inv this] act_event.hyps(4)] True show ?thesis
      by (simp add: handle_activity_event_def)
  qed (use inv in \<open>simp add: handle_activity_event_def\<close>)
next
  case (act_result l r rs ord)
  then show ?case using step_ok_result by blast
next
  case (act_finished l answer)
  then show ?case
    by (intro activity_inv_frame [OF act_finished.prems(1)])
      (auto simp: activity_finish_def activity_should_finish_def activity_inv_def activity_base_def
        activity_flags_def)
next
  case (act_poller_left l event)
  show ?case
    by (rule activity_inv_frame [OF act_poller_left.prems(1)]) simp_all
qed (rule activity_inv_frame; auto simp: activity_inv_def activity_base_def activity_flags_def)+

lemma activity_labels_frame:
  "s_accepted (al_pipe l') = s_accepted (al_pipe l) \<Longrightarrow> activity_labels l' = activity_labels l"
  by (simp add: activity_labels_def)

lemma extends_internal:
  assumes "activity_internal wire l l'" and "activity_inv l" and "pipe_inv (al_pipe l)"
  shows "(activity_labels l \<longrightarrow> activity_labels l') \<and> (goroutines_ok l \<longrightarrow> goroutines_ok l')"
  using assms
proof (induction rule: activity_internal.induct)
  case (act_ctx_done l ord)
  show ?case using extends_drain [of l] by (simp add: extends_def)
next
  case (act_poll_event l event ord)
  let ?l = "l\<lparr>al_poller := (if ap_err event = None then PollerWaits else PollerLeft)\<rparr>"
  have "activity_labels ?l = activity_labels l" "goroutines_ok ?l = goroutines_ok l"
    by (simp_all add: activity_labels_def goroutines_ok_def)
  with extends_poll [of ?l wire ord event] show ?case unfolding extends_def by blast
next
  case (act_poll_closed l ord)
  show ?case using extends_closed [of l wire ord] unfolding extends_def by blast
next
  case (act_event l gs n c hs ord)
  let ?l = "l\<lparr>al_goroutines := gs @ hs\<rparr>"
  have "activity_labels ?l = activity_labels l" "goroutines_ok l \<longrightarrow> goroutines_ok ?l"
    using act_event.hyps(3) by (simp_all add: activity_labels_def goroutines_ok_def)
  with extends_event [of ?l wire ord n c] show ?case unfolding extends_def by blast
next
  case (act_result l r rs ord)
  from conjunct2 [OF step_ok_result [OF act_result.prems(1) act_result.hyps(3) act_result.prems(2)
      act_result.hyps(4)], of wire] show ?case unfolding extends_def by blast
qed (simp_all add: activity_labels_def goroutines_ok_def activity_finish_def)

text \<open>A loop that has returned had finished, and stays so.\<close>

definition activity_ended :: "'b activity_loop \<Rightarrow> bool" where
  "activity_ended l \<longleftrightarrow> (\<forall>answer. al_returned l = Some answer \<longrightarrow> activity_should_finish l \<and>
     (\<exists>e. answer = errors_join [errors_join [al_first_err l, al_later_err l], e]))"

lemma activity_ended_internal:
  assumes "activity_internal wire l l'" and "activity_ended l" and "pipe_inv (al_pipe l)"
    and "activity_inv l"
  shows "activity_ended l'"
proof (cases "al_returned l")
  case None
  from assms(1) None assms(3,4) show ?thesis
  proof (induction rule: activity_internal.induct)
    case (act_poll_event l event ord)
    let ?l = "l\<lparr>al_poller := (if ap_err event = None then PollerWaits else PollerLeft)\<rparr>"
    have "al_returned (handle_activity_poll wire ord event ?l) = al_returned ?l"
      using extends_poll [of ?l wire ord event] by (simp add: extends_def)
    with act_poll_event show ?case by (simp add: activity_ended_def)
  next
    case (act_poll_closed l ord)
    then show ?case using extends_closed [of l wire ord] by (simp add: activity_ended_def extends_def)
  next
    case (act_event l gs n c hs ord)
    then show ?case using extends_event [of "l\<lparr>al_goroutines := gs @ hs\<rparr>" wire ord n c]
      by (simp add: activity_ended_def extends_def)
  next
    case (act_result l r rs ord)
    then show ?case using step_ok_result [of l r rs ord wire] by (simp add: activity_ended_def extends_def)
  next
    case (act_finished l answer)
    then show ?case by (auto simp: activity_ended_def activity_finish_def activity_should_finish_def)
  qed (simp_all add: activity_ended_def)
next
  case (Some res)
  with assms(2) have fin: "activity_should_finish l"
    and res: "\<exists>e. res = errors_join [errors_join [al_first_err l, al_later_err l], e]"
    by (simp_all add: activity_ended_def)
  have idle: "concat (map held (s_procs (al_pipe l))) = []"
  proof -
    from pipe_invD(3) [OF assms(3)] fin have "live (al_pipe l) = []"
      by (simp add: budget_ok_def activity_should_finish_def)
    then show ?thesis by (simp add: live_def)
  qed
  have left: "al_poller l = PollerLeft"
    using fin assms(4) by (auto simp: activity_should_finish_def activity_inv_def activity_base_def activity_flags_def)
  from assms(1) idle left fin Some res show ?thesis
    by (induction rule: activity_internal.induct)
      (auto simp: activity_ended_def activity_should_finish_def sys_finish_def finish_and_take_next_def Let_def
        split: prod.splits option.splits list.splits)
qed

lemma activity_inv_start: "activity_inv (new_activity_loop w)"
  by (simp add: activity_inv_def activity_base_def activity_flags_def all_terminal_def failures_known_def
      activities_ok_def new_activity_loop_def initial_psys_def completions_of_def finalizers_def
      activity_completion_limit_def default_max_activity_executions_def)

lemma activity_reachable_inv:
  assumes "activity_reachable lib wire l"
  shows "activity_inv l \<and> activity_labels l \<and> goroutines_ok l \<and> activity_ended l"
  using assms
proof (induction rule: activity_reachable.induct)
  case (act_started w)
  show ?case
    using activity_inv_start [of w]
    by (simp add: activity_labels_def goroutines_ok_def activity_ended_def new_activity_loop_def initial_psys_def)
next
  case (act_internal l l')
  note pipe = activity_pipe_inv [OF act_internal.hyps(1)]
  from act_internal pipe activity_inv_internal [OF act_internal.hyps(2)]
    extends_internal [OF act_internal.hyps(2)] activity_ended_internal [OF act_internal.hyps(2)]
  show ?case by blast
next
  case (act_external l l')
  have "activity_inv l'"
    using act_external.hyps(2)
  proof (cases rule: activity_external.cases)
    case (act_polled answer)
    have "al_poll_open l"
      using act_external.IH act_polled(2) by (auto simp: activity_inv_def activity_base_def activity_flags_def)
    then show ?thesis
      unfolding act_polled(1) by (intro activity_inv_frame [OF conjunct1 [OF act_external.IH]]) simp_all
  qed (intro activity_inv_frame [OF conjunct1 [OF act_external.IH]];
    use act_external.IH in \<open>auto simp: activity_inv_def activity_base_def activity_flags_def\<close>)+
  with act_external.hyps(2) act_external.IH show ?case
    by (cases rule: activity_external.cases)
      (auto simp: activity_labels_def goroutines_ok_def activity_ended_def activity_should_finish_def)
qed

lemma activity_reachableD:
  assumes "activity_reachable lib wire l"
  shows "activity_inv l" "activities_ok l" "al_draining l \<Longrightarrow> all_terminal l" "activity_labels l"
    "goroutines_ok l" "activity_ended l" "al_poll_open l \<or> al_poller l = PollerLeft \<and> al_draining l"
    "failures_known (al_first_err l \<noteq> None) l"
  using activity_reachable_inv [OF assms]
  by (auto simp: activity_inv_def activity_base_def activity_flags_def)

section \<open>Work left\<close>

fun is_ready :: "activity_goroutine \<Rightarrow> bool" where
  "is_ready (Executing n start) = False"
| "is_ready (EventReady n c) = True"

definition activity_left :: "'b activity_loop \<Rightarrow> nat" where
  "activity_left l =
     (case al_poller l of PollerOffers event \<Rightarrow> 10 | _ \<Rightarrow> 0) +
     7 * length (filter (\<lambda>a. \<not> ra_terminal a) (al_activities l)) + length (filter is_ready (al_goroutines l)) +
     work_left (al_pipe l) + (if al_ctx_watched l then 1 else 0) + (if al_poll_open l then 1 else 0) +
     (if al_returned l = None then 1 else 0)"

lemma left_enqueue_completion:
  "activity_left (fst (enqueue_completion wire (Some c) fin l)) \<le> activity_left l + 6"
proof (cases rule: enqueue_completion_cases [of wire c fin l])
  case (refused e)
  then show ?thesis by (simp add: activity_left_def)
next
  case (accepted q)
  then show ?thesis
    using work_left_enqueue [of "al_pipe l" "activity_ticket wire (activity_codec (al_worker l)) c fin"]
    by (simp add: activity_left_def)
qed

lemma left_complete:
  assumes "n < length (al_activities l)"
  shows "activity_left (fst (enqueue_activity_completion wire n (Some c) l)) \<le> activity_left l"
proof (cases "ra_terminal (al_activities l ! n)")
  case True
  then show ?thesis by (simp add: enqueue_activity_completion_def)
next
  case False
  let ?a = "(al_activities l ! n)\<lparr>ra_terminal := True, ra_stopped := True\<rparr>"
  let ?l = "l\<lparr>al_activities := (al_activities l)[n := ?a], al_active := al_active l - 1\<rparr>"
  have "Suc (length (filter (\<lambda>a. \<not> ra_terminal a) ((al_activities l)[n := ?a]))) =
      length (filter (\<lambda>a. \<not> ra_terminal a) (al_activities l))"
    using assms False by (intro length_filter_update) simp_all
  then have "activity_left ?l + 7 = activity_left l" by (simp add: activity_left_def)
  with left_enqueue_completion [of wire c "Some n" ?l] False show ?thesis
    by (simp add: enqueue_activity_completion_def)
qed

lemma left_cancel:
  assumes "\<forall>n \<in> set ns. n < length (al_activities l)"
  shows "activity_left (fst (cancel_each wire msg ns l)) \<le> activity_left l"
  using assms
proof (induction ns arbitrary: l)
  case (Cons n ns)
  let ?c = "cancelled_activity (ra_token (al_activities l ! n)) msg"
  let ?l = "fst (enqueue_activity_completion wire n (Some ?c) l)"
  have n: "n < length (al_activities l)" using Cons.prems by simp
  have "\<forall>m \<in> set ns. m < length (al_activities ?l)"
    using Cons.prems complete_terminal [OF n, of wire ?c] by simp
  from Cons.IH [OF this] left_complete [OF n, of wire ?c] show ?case
    by (simp add: case_prod_unfold)
qed simp

lemma left_drain:
  assumes "activities_ok l" and "reorders ord"
  shows "activity_left (activity_start_draining wire ord e l) \<le> activity_left l \<and>
    (al_ctx_watched l \<and> \<not> al_draining l \<longrightarrow> activity_left (activity_start_draining wire ord e l) < activity_left l)"
proof (cases rule: start_draining_cases [of l wire ord e])
  case again
  then show ?thesis by (simp add: activity_left_def)
next
  case (first es m as k p)
  let ?ns = "ord (map snd (al_running l))"
  have "set ?ns = snd ` set (al_running l)"
    using assms(2) unfolding reorders_def by (metis set_mset_mset set_map)
  moreover have "n < length (al_activities l)" if "(j, n) \<in> set (al_running l)" for j n
    using that activities_okD(1,7) [OF assms(1)] by simp
  ultimately have "\<forall>n \<in> set ?ns. n < length (al_activities (drained e l))"
    by (auto simp: drained_def)
  from left_cancel [OF this, of wire shutting_down] first(2)
  have "activity_left (activity_start_draining wire ord e l) \<le> activity_left (drained e l)"
    unfolding first(3) by (simp add: activity_left_def)
  moreover have "activity_left (drained e l) \<le> activity_left l \<and>
      (al_ctx_watched l \<longrightarrow> activity_left (drained e l) < activity_left l)"
    by (simp add: activity_left_def drained_def)
  ultimately show ?thesis by auto
qed

lemma left_drain_on:
  assumes "activities_ok (fst r)" and "reorders ord"
  shows "activity_left (activity_drain_on wire ord r) \<le> activity_left (fst r)"
  using left_drain [OF assms(1) assms(2), of wire]
  by (cases r) (simp add: activity_drain_on_def split: option.splits)

lemma left_poll:
  assumes "activity_inv l" and "reorders ord"
  shows "activity_left (handle_activity_poll wire ord event l) \<le> activity_left l + 7"
proof -
  have ok: "activities_ok l" using assms(1) by (simp add: activity_inv_def activity_base_def)
  have drain: "activity_left (activity_start_draining wire ord e l) \<le> activity_left l + 7" for e
    using left_drain [OF ok assms(2), of wire e] by simp
  have enq: "activity_left (fst (enqueue_completion wire (Some c) None l)) \<le> activity_left l + 7" for c
    using left_enqueue_completion [of wire c None l] by simp
  have task: "activity_left (fst (handle_polled_task wire task l)) \<le> activity_left l + 7" for task
  proof (cases "ak_variant task")
    case (StartTask start)
    have "activity_left (fst (start_activity (ak_token task) start l)) \<le> activity_left l + 7"
      by (simp add: start_activity_def Let_def activity_left_def)
    with enq StartTask show ?thesis by (simp add: handle_polled_task_def)
  next
    case (CancelTask reason)
    have "activity_left (fst (cancel_running_activity wire (ak_token task) reason l)) \<le> activity_left l"
      using activities_okD(1) [OF ok]
      by (auto simp: cancel_running_activity_def left_complete split: option.splits)
    with CancelTask show ?thesis by (simp add: handle_polled_task_def)
  qed (simp add: handle_polled_task_def)
  have "activity_left (activity_drain_on wire ord r) \<le> activity_left l + 7"
    if "step_ok l r" "activity_left (fst r) \<le> activity_left l + 7" for r
    using left_drain_on [of r ord wire] that assms(2) by (auto simp: step_ok_def activity_base_def)
  with drain enq task show ?thesis
    by (simp add: handle_activity_poll_def step_ok_enqueue step_ok_task assms split: option.splits)
qed

lemma activity_decreases:
  assumes "activity_internal wire l l'" and "activity_inv l" and "pipe_inv (al_pipe l)"
  shows "activity_left l' < activity_left l"
  using assms
proof (induction rule: activity_internal.induct)
  case (act_ctx_done l ord)
  then show ?case
    using left_drain [of l ord wire None] by (auto simp: activity_inv_def activity_base_def activity_flags_def)
next
  case (act_poll_event l event ord)
  let ?l = "l\<lparr>al_poller := (if ap_err event = None then PollerWaits else PollerLeft)\<rparr>"
  have inv: "activity_inv ?l"
    by (rule activity_inv_frame [OF act_poll_event.prems(1)]) (simp_all add: act_poll_event.hyps)
  have "activity_left ?l + 10 = activity_left l" using act_poll_event.hyps(4) by (simp add: activity_left_def)
  with left_poll [OF inv act_poll_event.hyps(5), of wire event] show ?case by simp
next
  case (act_poll_closed l ord)
  let ?l = "l\<lparr>al_poll_open := False\<rparr>"
  have ok: "activities_ok ?l"
    by (rule activities_ok_frame [of _ l])
      (use act_poll_closed.prems in \<open>simp_all add: activity_inv_def activity_base_def\<close>)
  have "activity_left ?l < activity_left l" using act_poll_closed.hyps(3) by (simp add: activity_left_def)
  with left_drain [OF ok act_poll_closed.hyps(5), of wire] show ?case
    by (auto simp: handle_activity_closed_def Let_def intro: le_less_trans)
next
  case (act_event l gs n c hs ord)
  let ?l = "l\<lparr>al_goroutines := gs @ hs\<rparr>"
  have inv: "activity_inv ?l"
    by (rule activity_inv_frame [OF act_event.prems(1)])
      (use act_event.prems(1) in \<open>auto simp: activity_inv_def activity_base_def activity_flags_def\<close>)
  have less: "activity_left ?l < activity_left l"
    using act_event.hyps(3) by (simp add: activity_left_def)
  show ?case
  proof (cases "map_of (al_running l) (ra_token (al_activities l ! n)) = Some n")
    case True
    with act_event.prems(1) have n: "n < length (al_activities ?l)"
      using activities_okD(1) by (auto simp: activity_inv_def activity_base_def)
    from step_ok_complete [OF inv n, of wire c]
    have "activity_left (activity_drain_on wire ord (enqueue_activity_completion wire n (Some c) ?l)) \<le>
        activity_left (fst (enqueue_activity_completion wire n (Some c) ?l))"
      by (intro left_drain_on act_event.hyps(4)) (simp add: step_ok_def activity_base_def)
    with left_complete [OF n, of wire c] less True show ?thesis by (simp add: handle_activity_event_def)
  qed (use less in \<open>simp add: handle_activity_event_def\<close>)
next
  case (act_result l r rs ord)
  show ?case
  proof (cases rule: handle_result_cases [OF act_result.hyps(3) act_result.prems(2), of wire ord])
    case (1 m)
    let ?l = "l\<lparr>al_running := m, al_pipe := take_result (al_pipe l) r rs\<rparr>"
    have fresh: "\<not> r_finalized r"
      using pipe_invD(2) [OF act_result.prems(2)] act_result.hyps(3) by (simp add: slots_ok_def)
    have ok: "activities_ok l" using act_result.prems(1) by (simp add: activity_inv_def activity_base_def)
    have "activities_ok ?l"
    proof (rule activities_ok_forget [OF ok])
      show "map_of (al_running ?l) k = Some n" if "map_of (al_running l) k = Some n"
        "\<not> ra_terminal (al_activities l ! n)" for k n
        using 1(3) [OF that(1)] terminal_if_completed [OF ok 1(5)] that(2) by auto
    qed (use 1 activities_okD(7) [OF ok] in \<open>simp_all add: completions_of_def finalizers_def\<close>)
    with left_drain_on [of "(?l, r_err r)" ord wire] act_result.hyps(4)
    have "activity_left (handle_activity_result wire ord r rs l) \<le> activity_left ?l" unfolding 1(1) by simp
    with work_left_take [OF act_result.hyps(3) fresh] show ?thesis by (simp add: activity_left_def)
  qed
next
  case (act_submitted l ps q qs token m core)
  from internal_decreases [OF pipe_internal.submit [OF act_submitted.hyps(1)]] show ?case
    by (simp add: activity_left_def)
next
  case (act_after_submitted l ps q e qs)
  from internal_decreases [OF pipe_internal.after_submit [OF act_after_submitted.hyps(1)]] show ?case
    by (simp add: activity_left_def)
next
  case (act_result_sent l ps q e qs)
  from internal_decreases [OF pipe_internal.send [OF act_result_sent.hyps]] show ?case
    by (simp add: activity_left_def)
next
  case (act_slot_freed l ps qs)
  from internal_decreases [OF pipe_internal.finish [OF act_slot_freed.hyps]] show ?case
    by (simp add: activity_left_def)
qed (simp_all add: activity_left_def activity_finish_def)

end
