(* ===== verification/Activity_Properties.thy ===== *)
theory Activity_Properties
  imports Activity_Loop_Properties
begin

text \<open>
  The properties of the activity worker: its options, the outcome of an activity, and the promises of
  its run loop.
\<close>

section \<open>Progress\<close>

lemma reorders_id: "reorders (\<lambda>ns. ns)"
  by (simp add: reorders_def)

lemma activity_progress:
  assumes "activity_reachable lib wire l" and "al_returned l = None" and "al_poller l \<noteq> PollerWaits"
  shows "\<exists>l'. activity_internal wire l l'"
proof -
  note D = activity_reachableD [OF assms(1)]
  show ?thesis
  proof (cases "activity_should_finish l")
    case True
    with assms(2) show ?thesis by (blast intro: activity_internal.act_finished)
  next
    case unfinished: False
    show ?thesis
    proof (cases "al_poll_open l")
      case True
      show ?thesis
      proof (cases "al_poller l")
        case (PollerOffers event)
        from activity_internal.act_poll_event [OF assms(2) unfinished True this reorders_id]
        show ?thesis by blast
      next
        case PollerLeft
        from activity_internal.act_poll_closed [OF assms(2) unfinished True this reorders_id]
        show ?thesis by blast
      qed (use assms(3) in simp)
    next
      case False
      with D(7) unfinished have busy: "p_outstanding (s_pipe (al_pipe l)) \<noteq> 0"
        by (auto simp: activity_should_finish_def)
      have taken: "\<forall>r \<in> set (s_taken (al_pipe l)). r_finalized r" using D(8) by (simp add: failures_known_def)
      have labels: "(\<exists>token m. tk_submit (q_ticket q) = Some (SubmitActivity token m)) \<and>
          tk_after_submit (q_ticket q) = None" if "q \<in> set (s_accepted (al_pipe l))" for q
        using that D(4) by (simp add: activity_labels_def)
      from activity_pipe_inv [OF assms(1)] taken busy show ?thesis
      proof (cases rule: pipe_busy_cases)
        case (submitting ps q qs)
        with labels [of q] show ?thesis by (metis activity_internal.act_submitted)
      next
        case (after ps q e qs)
        with labels [of q] show ?thesis by (metis activity_internal.act_after_submitted)
      next
        case (sending ps q e qs)
        then show ?thesis by (metis activity_internal.act_result_sent)
      next
        case (finishing ps qs)
        then show ?thesis by (metis activity_internal.act_slot_freed)
      next
        case (result r rs)
        from activity_internal.act_result [OF assms(2) unfinished this reorders_id] show ?thesis by blast
      qed
    qed
  qed
qed

section \<open>Histories only grow\<close>

lemma pipe_step_log:
  "pipe_step s s' \<Longrightarrow> \<exists>xs ys. s_accepted s' = s_accepted s @ xs \<and> s_refused s' = s_refused s @ ys"
proof (induction rule: pipe_step.induct)
  case (internal s s')
  then show ?case
    by (induction rule: pipe_internal.induct) (auto simp: sys_finalize_def split: prod.splits)
next
  case (enqueue s t)
  show ?case by (cases rule: sys_enqueue_cases [of s t]) auto
next
  case (finalize_again s rs r ts)
  then show ?case by (auto simp: sys_finalize_def split: prod.splits)
qed

lemma completions_of_mono:
  "pipe_step\<^sup>*\<^sup>* s s' \<Longrightarrow> completions_of s n \<le> completions_of s' n"
proof (induction rule: rtranclp_induct)
  case (step s' s'')
  from pipe_step_log [OF step.hyps(2)] have "completions_of s' n \<le> completions_of s'' n"
    by (auto simp: completions_of_def finalizers_def)
  with step.IH show ?case by simp
qed simp

lemma heartbeats_internal: "activity_internal wire l l' \<Longrightarrow> pipe_inv (al_pipe l) \<Longrightarrow> activity_inv l \<Longrightarrow>
   al_heartbeats l' = al_heartbeats l"
proof (induction rule: activity_internal.induct)
  case (act_poll_event l event ord)
  show ?case
    using extends_poll [of "l\<lparr>al_poller := (if ap_err event = None then PollerWaits else PollerLeft)\<rparr>" wire ord event]
    by (simp add: extends_def)
next
  case (act_poll_closed l ord)
  then show ?case using extends_closed [of l wire ord] by (simp add: extends_def)
next
  case (act_event l gs n c hs ord)
  then show ?case using extends_event [of "l\<lparr>al_goroutines := gs @ hs\<rparr>" wire ord n c]
    by (simp add: extends_def)
next
  case (act_result l r rs ord)
  then show ?case using step_ok_result [of l r rs ord wire] by (simp add: extends_def)
qed (simp_all add: activity_finish_def)

lemma activity_steps_reachable:
  "(activity_step lib wire)\<^sup>*\<^sup>* l l' \<Longrightarrow> activity_reachable lib wire l \<Longrightarrow> activity_reachable lib wire l'"
proof (induction rule: rtranclp_induct)
  case (step l' l'')
  then have r: "activity_reachable lib wire l'" by simp
  from step.hyps(2) show ?case
    unfolding activity_step_def
    using activity_reachable.act_internal [OF r] activity_reachable.act_external [OF r] by blast
qed simp

text \<open>A stopped activity records no heartbeat.\<close>

lemma heartbeats_external:
  assumes "activity_external lib wire l l'" and "ra_stopped (al_activities l ! n)"
  shows "filter (\<lambda>h. fst h = n) (al_heartbeats l') = filter (\<lambda>h. fst h = n) (al_heartbeats l)"
  using assms(1)
proof (cases rule: activity_external.cases)
  case (act_heartbeat m details encoded)
  have "m \<noteq> n"
    using act_heartbeat(3) assms(2)
    by (auto simp: record_heartbeat_def activity_heartbeat_def split: gores.splits)
  with act_heartbeat(1) show ?thesis by simp
qed simp_all

lemma draining_none_active:
  assumes "activity_reachable lib wire l" and "al_draining l"
  shows "al_active l = 0"
proof -
  from activity_reachableD(3) [OF assms] have none: "filter (\<lambda>a. \<not> ra_terminal a) (al_activities l) = []"
    unfolding all_terminal_def filter_empty_conv by blast
  note count = activities_okD(4) [OF activity_reachableD(2) [OF assms(1)]]
  show ?thesis using none unfolding count by simp
qed

lemma active_tokens_distinct:
  assumes "activity_reachable lib wire l" and "m < length (al_activities l)" and "n < length (al_activities l)"
    and "\<not> ra_terminal (al_activities l ! m)" and "\<not> ra_terminal (al_activities l ! n)"
    and same: "ra_token (al_activities l ! m) = ra_token (al_activities l ! n)"
  shows "m = n"
proof -
  note A = activities_okD(3) [OF activity_reachableD(2) [OF assms(1)]]
  have "map_of (al_running l) (ra_token (al_activities l ! m)) = Some m" by (rule A [OF assms(2,4)])
  moreover have "map_of (al_running l) (ra_token (al_activities l ! n)) = Some n" by (rule A [OF assms(3,5)])
  ultimately show ?thesis unfolding same by simp
qed

section \<open>Registered activities\<close>

inductive activity_worker_reachable :: "codec_lib \<Rightarrow> 'b activity_worker \<Rightarrow> bool" for lib where
  made: "activity_worker_reachable lib (new_activity_worker c n)"
| registered: "activity_worker_reachable lib w \<Longrightarrow> register_activity lib w name function = Inr w' \<Longrightarrow>
    activity_worker_reachable lib w'"

lemma registered_valid:
  "activity_worker_reachable lib w \<Longrightarrow> map_of (aw_handlers w) name = Some f \<Longrightarrow>
     f_name f = name \<and> valid_function ''activity'' f (Some TGoContext) False"
proof (induction arbitrary: name f rule: activity_worker_reachable.induct)
  case (made c n)
  then show ?case by (simp add: new_activity_worker_def)
next
  case (registered w name' func w')
  from registered.hyps(2) obtain g where
    g: "new_function lib ''activity'' name' func (Some TGoContext) False ''context.Context'' = Inr g"
    and w': "w' = w\<lparr>aw_handlers := AList.update name' g (aw_handlers w)\<rparr>"
    by (auto simp: register_activity_def new_registered_activity_def split: if_splits sum.splits)
  show ?case
  proof (cases "name = name'")
    case True
    with registered.prems w' have "f = g" by (simp add: update_conv')
    with new_function_valid [OF g] True show ?thesis by simp
  next
    case False
    with registered.prems w' have "map_of (aw_handlers w) name = Some f" by (simp add: update_conv')
    then show ?thesis by (rule registered.IH)
  qed
qed

section \<open>Sample runs\<close>

lemma from_payloads_length: "length (snd (from_payloads_from c i ps ts)) = length ts"
  by (induction c i ps ts rule: from_payloads_from.induct) (auto split: prod.splits option.splits)

definition sample_activity_worker :: "nat activity_worker" where
  "sample_activity_worker =
     (case register_activity sample_lib
         \<lparr>aw_converter = None, aw_codec = None, aw_handlers = [], aw_max_executions = 1\<rparr> ''greet''
         (Some (GoFunc [TGoContext, TString] [TString, TError] (Some 0))) of
        Inr w \<Rightarrow> w | Inl m \<Rightarrow> \<lparr>aw_converter = None, aw_codec = None, aw_handlers = [], aw_max_executions = 1\<rparr>)"

definition sample_task :: activity_task where
  "sample_task = \<lparr>ak_token = ''t1'', ak_variant = StartTask \<lparr>as_type = ''greet'', as_input = []\<rparr>\<rparr>"

definition sample_activity_wire :: activity_wire where
  "sample_activity_wire = \<lparr>xw_unmarshal = (\<lambda>b. Inr sample_task),
     xw_task_view = (\<lambda>t. PMessage ''task'' []), xw_task_of = (\<lambda>m. sample_task),
     xw_completion_view = (\<lambda>c. PMessage ''completion'' []),
     xw_heartbeat_view = (\<lambda>token details. PMessage ''heartbeat'' []),
     xw_size = (\<lambda>m. 10), xw_marshal = (\<lambda>m. Inr [])\<rparr>"

lemma sample_worker_made: "activity_worker_reachable sample_lib sample_activity_worker"
proof -
  let ?c = "\<lparr>cn_address = [], cn_namespace = [], cn_task_queue = [], cn_identity = [],
    cn_payload_converter = None, cn_payload_codec = None, cn_tls = None, cn_api_key = []\<rparr>"
  have w: "new_activity_worker ?c 1 =
      \<lparr>aw_converter = None, aw_codec = None, aw_handlers = [], aw_max_executions = 1\<rparr>"
    by (simp add: new_activity_worker_def)
  have "activity_worker_reachable sample_lib
      (\<lparr>aw_converter = None, aw_codec = None, aw_handlers = [], aw_max_executions = 1\<rparr> :: nat activity_worker)"
    using activity_worker_reachable.made [of sample_lib ?c 1] unfolding w .
  then show ?thesis
    by (auto simp: sample_activity_worker_def split: sum.splits
        intro: activity_worker_reachable.registered)
qed

text \<open>An activity is started, then the context is cancelled.\<close>

definition offered_loop :: "bool \<Rightarrow> goerr + bytes \<Rightarrow> nat activity_loop" where
  "offered_loop cancelled answer =
     (new_activity_loop sample_activity_worker)\<lparr>al_cancelled := cancelled,
        al_poller := PollerOffers (activity_poll_of sample_activity_wire
          (activity_codec sample_activity_worker) answer)\<rparr>"

definition taken_loop :: "bool \<Rightarrow> goerr + bytes \<Rightarrow> nat activity_loop" where
  "taken_loop cancelled answer =
     (let event = activity_poll_of sample_activity_wire (activity_codec sample_activity_worker) answer in
      handle_activity_poll sample_activity_wire (\<lambda>ns. ns) event
        ((offered_loop cancelled answer)\<lparr>al_poller := (if ap_err event = None then PollerWaits else PollerLeft)\<rparr>))"

definition draining_loop :: "nat activity_loop" where
  "draining_loop = activity_start_draining sample_activity_wire (\<lambda>ns. ns) None
     ((taken_loop False (Inr []))\<lparr>al_cancelled := True\<rparr>)"

definition ended_loop :: "nat activity_loop" where
  "ended_loop = activity_finish None (handle_activity_closed sample_activity_wire (\<lambda>ns. ns)
     (taken_loop True (Inl context_canceled)))"

lemma offered_reachable: "activity_reachable sample_lib sample_activity_wire (offered_loop cancelled answer)"
proof -
  let ?l = "(new_activity_loop sample_activity_worker)\<lparr>al_cancelled := cancelled\<rparr>"
  have l: "activity_reachable sample_lib sample_activity_wire ?l"
  proof (cases cancelled)
    case True
    then show ?thesis
      using activity_reachable.act_external [OF activity_reachable.act_started activity_external.act_cancelled]
      by simp
  next
    case False
    then have "?l = new_activity_loop sample_activity_worker" by (simp add: new_activity_loop_def)
    then show ?thesis by (simp add: activity_reachable.act_started)
  qed
  have "al_poller ?l = PollerWaits" by (simp add: new_activity_loop_def)
  from activity_reachable.act_external [OF l activity_external.act_polled [OF this, of _ _ answer]]
  show ?thesis by (simp add: offered_loop_def new_activity_loop_def)
qed

lemma taken_reachable: "activity_reachable sample_lib sample_activity_wire (taken_loop cancelled answer)"
  unfolding taken_loop_def Let_def
  by (rule activity_reachable.act_internal [OF offered_reachable],
      rule activity_internal.act_poll_event [OF _ _ _ _ reorders_id])
    (simp_all add: offered_loop_def new_activity_loop_def activity_should_finish_def)

lemma taken_loop_runs:
  "al_returned (taken_loop False (Inr [])) = None \<and> \<not> al_draining (taken_loop False (Inr [])) \<and>
   al_ctx_watched (taken_loop False (Inr [])) \<and> al_poll_open (taken_loop False (Inr [])) \<and>
   length (al_activities (taken_loop False (Inr []))) = 1 \<and> al_active (taken_loop False (Inr [])) = 1 \<and>
   al_heartbeats (taken_loop False (Inr [])) = [] \<and>
   ra_stopped (al_activities (taken_loop False (Inr [])) ! 0) = False"
  by code_simp

lemma draining_reachable: "activity_reachable sample_lib sample_activity_wire draining_loop"
  unfolding draining_loop_def
  by (rule activity_reachable.act_internal [OF activity_reachable.act_external
        [OF taken_reachable activity_external.act_cancelled]],
      rule activity_internal.act_ctx_done [OF _ _ _ _ reorders_id])
    (use taken_loop_runs in \<open>simp_all add: activity_should_finish_def\<close>)

lemma ended_loop_ended:
  "al_returned (taken_loop True (Inl context_canceled)) = None \<and>
   al_draining (taken_loop True (Inl context_canceled)) \<and> al_poll_open (taken_loop True (Inl context_canceled)) \<and>
   al_poller (taken_loop True (Inl context_canceled)) = PollerLeft \<and>
   al_returned (handle_activity_closed sample_activity_wire (\<lambda>ns. ns) (taken_loop True (Inl context_canceled))) = None \<and>
   activity_should_finish (handle_activity_closed sample_activity_wire (\<lambda>ns. ns)
     (taken_loop True (Inl context_canceled))) \<and>
   al_returned ended_loop = Some None"
  by code_simp

lemma ended_reachable: "activity_reachable sample_lib sample_activity_wire ended_loop"
  unfolding ended_loop_def
  by (rule activity_reachable.act_internal [OF activity_reachable.act_internal [OF taken_reachable]],
      rule activity_internal.act_poll_closed [OF _ _ _ _ reorders_id])
    (use ended_loop_ended in \<open>auto simp: activity_should_finish_def intro: activity_internal.act_finished\<close>)

section \<open>Properties\<close>

text \<open>
  The activity worker accepts its options exactly when both limits are between 0 and the largest
  32-bit integer; zero executions means 1000. The number of executions is then positive, and the
  conversions to 32 bits that Core's options go through change neither number.
\<close>

lemma activity_options_accepted:
  "(check_activity_options options = Inr n \<longleftrightarrow>
     0 \<le> ao_max_executions options \<and> ao_max_executions options \<le> max_int32_activity \<and>
     0 \<le> ao_max_pollers options \<and> ao_max_pollers options \<le> max_int32_activity \<and>
     n = (if ao_max_executions options = 0 then 1000 else ao_max_executions options)) \<and>
   (check_activity_options options = Inr n \<longrightarrow>
     1 \<le> n \<and> sint (word_of_int n :: 32 word) = n \<and>
     sint (word_of_int (ao_max_pollers options) :: 32 word) = ao_max_pollers options)"
proof -
  have s [simp]: "sint (word_of_int i :: 32 word) = i" if "0 \<le> i" "i \<le> max_int32_activity" for i
    using that by (simp add: sint_sbintrunc' signed_take_bit_int_eq_self max_int32_activity_def)
  have d: "0 \<le> (1000 :: int) \<and> (1000 :: int) \<le> max_int32_activity" by (simp add: max_int32_activity_def)
  have iff: "check_activity_options options = Inr n \<longleftrightarrow>
     0 \<le> ao_max_executions options \<and> ao_max_executions options \<le> max_int32_activity \<and>
     0 \<le> ao_max_pollers options \<and> ao_max_pollers options \<le> max_int32_activity \<and>
     n = (if ao_max_executions options = 0 then 1000 else ao_max_executions options)"
    using d by (auto simp: check_activity_options_def default_max_activity_executions_def Let_def)
  then show ?thesis using d by auto
qed

lemma completion_token [simp]:
  "ac_token (failed_activity token e) = token" "ac_token (panic_activity token t v stack) = token"
  by (simp_all add: failed_activity_def panic_activity_def failed_activity_details_def)

lemma execute_safely_token: "ac_token (execute_safely lib w call stack token start) = token"
  by (auto simp: execute_safely_def execute_registered_activity_def split: gores.splits option.splits)

text \<open>The completion of a task whose input decodes.\<close>

lemma executed_completion:
  assumes "map_of (aw_handlers w) (as_type start) = Some f" and "f_function f = GoFunc ins outs (Some body)"
    and "decode_input (payload_converter_or_default lib w) f (as_input start) = Inr args"
  shows "execute_safely lib w call stack token start =
    (case call body args of
       ActPanicked v \<Rightarrow> panic_activity token (as_type start) v stack
     | ActReturned v (Some e) \<Rightarrow> failed_activity token e
     | ActReturned v None \<Rightarrow>
         (case encode_result (payload_converter_or_default lib w) f v None of
            Ok r \<Rightarrow> \<lparr>ac_token = token, ac_status = ActivityCompleted r\<rparr>
          | Err e \<Rightarrow> failed_activity token e
          | Panic m \<Rightarrow> panic_activity token (as_type start) m stack))"
proof -
  note run = execute_safely_def execute_registered_activity_def run_activity_function_def
  show ?thesis
  proof (cases "call body args")
    case (ActReturned v err)
    show ?thesis
    proof (cases err)
      case None
      with assms ActReturned show ?thesis
        by (cases "encode_result (payload_converter_or_default lib w) f v None") (simp_all add: run)
    next
      case (Some e)
      with assms ActReturned show ?thesis by (simp add: run encode_result_def)
    qed
  qed (use assms in \<open>simp add: run\<close>)
qed



text \<open>
  C7. The activity worker's loop never stops halfway, whatever activity functions do. Its steps and those
  of its goroutines are finitely many in every schedule between two inputs from outside, and where none
  is left although \<open>Run\<close> has not returned, the poller waits for Core. So once Core has ended the
  poll, \<open>Run\<close> returns, even if an activity function never does.
\<close>

theorem activity_loop_settles:
  assumes "activity_reachable lib wire l"
  shows "wfp (\<lambda>l'' l'. activity_reachable lib wire l' \<and> activity_internal wire l' l'') \<and>
    ((\<forall>l'. \<not> activity_internal wire l l') \<longrightarrow> al_returned l \<noteq> None \<or> al_poller l = PollerWaits)"
proof (intro conjI impI)
  show "wfp (\<lambda>l'' l'. activity_reachable lib wire l' \<and> activity_internal wire l' l'')"
    by (rule wfp_if_convertible_to_nat [of _ activity_left])
      (metis activity_decreases activity_pipe_inv activity_reachableD(1))
  show "al_returned l \<noteq> None \<or> al_poller l = PollerWaits" if "\<forall>l'. \<not> activity_internal wire l l'"
    using activity_progress [OF assms] that by blast
qed

lemma activity_loop_settles_witness:
  "\<exists>l'. activity_internal sample_activity_wire (offered_loop False (Inr [])) l'"
proof -
  have "al_returned (offered_loop False (Inr [])) = None" "al_poller (offered_loop False (Inr [])) \<noteq> PollerWaits"
    by (simp_all add: offered_loop_def new_activity_loop_def)
  with activity_loop_settles [OF offered_reachable [of False "Inr []"]] show ?thesis by auto
qed

text \<open>
  C26. The loop's count of active executions is the number of activities whose completion has not been
  handed over; it never exceeds the limit, and is zero once the loop drains. Two such activities never
  have the same task token.
\<close>

theorem active_activities_bounded:
  assumes "activity_reachable lib wire l"
  shows "al_active l = int (length (filter (\<lambda>a. \<not> ra_terminal a) (al_activities l))) \<and>
    al_active l \<le> activity_completion_limit (al_worker l) \<and> (al_draining l \<longrightarrow> al_active l = 0) \<and>
    (\<forall>m n. m < length (al_activities l) \<longrightarrow> n < length (al_activities l) \<longrightarrow>
       \<not> ra_terminal (al_activities l ! m) \<longrightarrow> \<not> ra_terminal (al_activities l ! n) \<longrightarrow>
       ra_token (al_activities l ! m) = ra_token (al_activities l ! n) \<longrightarrow> m = n)"
proof (intro conjI allI impI)
qed (rule activities_okD(4,5) [OF activity_reachableD(2) [OF assms]] draining_none_active [OF assms]
    active_tokens_distinct [OF assms]; assumption?)+

lemma active_activities_bounded_witness:
  "length (filter (\<lambda>a. \<not> ra_terminal a) (al_activities (taken_loop False (Inr [])))) = 1"
  using active_activities_bounded [OF taken_reachable [of False "Inr []"]] taken_loop_runs by simp

text \<open>
  C5. An activity is completed exactly once. At most one completion of it is handed to the pipeline, and
  one is exactly when the activity is stopped; a loop that drains has handed over one for every activity
  it started; and when \<open>Run\<close> returns, everything the pipeline accepted has been submitted once.
\<close>

theorem activity_completed_once:
  assumes "activity_reachable lib wire l" and "n < length (al_activities l)"
  shows "completions_of (al_pipe l) n = (if ra_stopped (al_activities l ! n) then 1 else 0) \<and>
    (al_draining l \<longrightarrow> completions_of (al_pipe l) n = 1) \<and>
    (al_returned l \<noteq> None \<longrightarrow> al_draining l \<and>
       mset (s_submitted (al_pipe l)) = mset (s_accepted (al_pipe l)))"
proof -
  note D = activity_reachableD [OF assms(1)] and A = activities_okD [OF activity_reachableD(2) [OF assms(1)]]
  have count: "completions_of (al_pipe l) n = (if ra_stopped (al_activities l ! n) then 1 else 0)"
    using A(2) [OF assms(2)] A(6) [of n] assms(2) by simp
  moreover have "ra_stopped (al_activities l ! n)" if "al_draining l"
    using D(3) [OF that] A(2) [OF assms(2)] assms(2) by (simp add: all_terminal_def)
  moreover have "al_draining l \<and> mset (s_submitted (al_pipe l)) = mset (s_accepted (al_pipe l))"
    if "al_returned l \<noteq> None"
    using that D(6) no_outstanding_all_done(2) [OF activity_pipe_inv [OF assms(1)]]
    by (auto simp: activity_ended_def activity_should_finish_def)
  ultimately show ?thesis by simp
qed

lemma draining_loop_stops:
  "length (al_activities draining_loop) = 1 \<and> al_draining draining_loop \<and> al_heartbeats draining_loop = [] \<and>
   ra_stopped (al_activities draining_loop ! 0)"
  by code_simp

lemma activity_completed_once_witness:
  "completions_of (al_pipe (taken_loop False (Inr []))) 0 = 0 \<and> completions_of (al_pipe draining_loop) 0 = 1"
  using activity_completed_once [OF taken_reachable [of False "Inr []"], of 0]
    activity_completed_once [OF draining_reachable, of 0] taken_loop_runs draining_loop_stops by simp

text \<open>
  C19. Once a completion of an activity has been handed over, no heartbeat of that activity reaches
  Core any more, in whatever way the system goes on.
\<close>

theorem heartbeats_stop:
  assumes "activity_reachable lib wire l" and "completions_of (al_pipe l) n \<noteq> 0"
    and "(activity_step lib wire)\<^sup>*\<^sup>* l l'"
  shows "filter (\<lambda>h. fst h = n) (al_heartbeats l') = filter (\<lambda>h. fst h = n) (al_heartbeats l)"
  using assms(3)
proof (induction rule: rtranclp_induct)
  case (step k k')
  have k: "activity_reachable lib wire k"
    by (rule activity_steps_reachable [OF step.hyps(1) assms(1)])
  note D = activity_reachableD [OF k] and A = activities_okD [OF activity_reachableD(2) [OF k]]
  have "pipe_step\<^sup>*\<^sup>* (al_pipe l) (al_pipe k)"
    by (rule activity_pipe.many_steps [OF step.hyps(1)])
  from completions_of_mono [OF this, of n] assms(2) have "completions_of (al_pipe k) n \<noteq> 0" by simp
  then have stopped: "ra_stopped (al_activities k ! n)"
    using A(2,6) [of n] by metis
  from step.hyps(2) have "filter (\<lambda>h. fst h = n) (al_heartbeats k') = filter (\<lambda>h. fst h = n) (al_heartbeats k)"
    unfolding activity_step_def
  proof
    assume "activity_internal wire k k'"
    from heartbeats_internal [OF this activity_pipe_inv [OF k] D(1)] show ?thesis by simp
  next
    assume "activity_external lib wire k k'"
    from heartbeats_external [OF this stopped] show ?thesis .
  qed
  with step.IH show ?case by simp
qed simp

lemma heartbeats_stop_witness:
  "filter (\<lambda>h. fst h = 0) (al_heartbeats (draining_loop\<lparr>al_cancelled := True\<rparr>)) = []"
proof -
  have stopped: "0 < length (al_activities draining_loop)" "ra_stopped (al_activities draining_loop ! 0)"
    using draining_loop_stops by auto
  note A = activities_okD [OF activity_reachableD(2) [OF draining_reachable]]
  from A(2) [OF stopped(1)] A(6) [of 0] stopped have "completions_of (al_pipe draining_loop) 0 \<noteq> 0" by simp
  moreover have "(activity_step sample_lib sample_activity_wire)\<^sup>*\<^sup>* draining_loop (draining_loop\<lparr>al_cancelled := True\<rparr>)"
    by (rule r_into_rtranclp) (simp add: activity_step_def activity_external.act_cancelled)
  ultimately show ?thesis
    using heartbeats_stop [OF draining_reachable, of 0] draining_loop_stops by simp
qed



end
