(* ===== verification/Workflow_Run_Loop.thy ===== *)
theory Workflow_Run_Loop
  imports Workflow_Cache Pipe_Owner
begin

text \<open>
  The run loop of the workflow worker (\<open>internal/workflowworker/runloop.go\<close>, with \<open>pollWorkflows\<close>,
  \<open>processActivation\<close>, \<open>enqueueWorkflowCompletion\<close> and \<open>submitCompletion\<close> of \<open>worker.go\<close>): the
  goroutine that owns the loop, the poller, one processor per activation, and the completion pipeline.

  Each body of the loop's \<open>select\<close> is one definition; \<open>loop_step\<close> interleaves the loop, the
  goroutines and the pipeline. A channel without buffer is the state of its sender. Core is the
  environment: its answers to polls and submissions are arbitrary. What the generated Protobuf code
  and the Protobuf runtime do is a parameter, \<open>wire\<close>. \<open>Shutdown\<close> called by another goroutine while
  \<open>Run\<close> runs is not represented.
\<close>

section \<open>Messages\<close>

text \<open>
  \<open>proto.Unmarshal\<close>, the \<open>protoreflect\<close> view of an activation and of a completion, \<open>proto.Size\<close> and
  \<open>proto.Marshal\<close>.
\<close>

record wire =
  wr_unmarshal :: "bytes \<Rightarrow> goerr + activation"
  wr_activation_view :: "activation \<Rightarrow> pmessage"
  wr_activation_of :: "pmessage \<Rightarrow> activation"
  wr_completion_view :: "completion \<Rightarrow> pmessage"
  wr_size :: "pmessage \<Rightarrow> int"
  wr_marshal :: "pmessage \<Rightarrow> goerr + bytes"

record poll_event =
  pe_activation :: "activation option"
  pe_codec_err :: "goerr option"
  pe_err :: "goerr option"

text \<open>One turn of the loop of \<open>pollWorkflows\<close>: the event made of Core's answer.\<close>

definition poll_event_of :: "wire \<Rightarrow> payload_codec \<Rightarrow> goerr + bytes \<Rightarrow> poll_event" where
  "poll_event_of wire codec answer = (case answer of
     Inl e \<Rightarrow> \<lparr>pe_activation = None, pe_codec_err = None, pe_err = Some e\<rparr>
   | Inr encoded \<Rightarrow>
       (case wr_unmarshal wire encoded of
          Inl e \<Rightarrow> \<lparr>pe_activation = None, pe_codec_err = None,
                    pe_err = Some (ErrWrap ''decode Core workflow activation: '' e [])\<rparr>
        | Inr act \<Rightarrow>
            (case decode_payloads (Some (wr_activation_view wire act)) (Some codec) of
               (e, m) \<Rightarrow>
                 \<lparr>pe_activation = Some (case m of None \<Rightarrow> act | Some msg \<Rightarrow> wr_activation_of wire msg),
                  pe_codec_err = map_option (\<lambda>e. ErrWrap ''decode workflow activation payloads: '' e []) e,
                  pe_err = None\<rparr>)))"

text \<open>The labels of a ticket's closures: \<open>Submit\<close> with the message, \<open>AfterSubmit\<close> with the turn, if any.\<close>

type_synonym held_turn = "(string \<times> nat) option"

datatype effect = SubmitCompletion string pmessage | AfterSubmission held_turn

definition encoded_completion :: "wire \<Rightarrow> payload_codec \<Rightarrow> completion \<Rightarrow> pmessage" where
  "encoded_completion wire codec c =
     (case encode_payloads (Some (wr_completion_view wire c)) (Some codec) of
        (None, Some m) \<Rightarrow> m
      | (None, None) \<Rightarrow> wr_completion_view wire c
      | (Some e, m) \<Rightarrow> wr_completion_view wire (failed_activation (cp_run_id c)
          (ErrWrap ''encode workflow activation completion payloads: '' e [])))"

definition completion_ticket :: "wire \<Rightarrow> payload_codec \<Rightarrow> completion \<Rightarrow> held_turn \<Rightarrow> effect ticket" where
  "completion_ticket wire codec c turn =
     (let m = encoded_completion wire codec c in
      \<lparr>tk_submit = Some (SubmitCompletion (cp_run_id c) m),
       tk_after_submit = Some (AfterSubmission turn), tk_finalize = None, tk_weight = wr_size wire m\<rparr>)"

text \<open>\<open>submitCompletion\<close>, given Core's answer to \<open>CompleteWorkflow\<close>.\<close>

definition submit_completion ::
    "wire \<Rightarrow> (bytes \<Rightarrow> goerr option) \<Rightarrow> string \<Rightarrow> pmessage \<Rightarrow> goerr option" where
  "submit_completion wire complete run m =
     map_option (\<lambda>e. ErrWrap (''submit workflow activation completion for run '' @ go_quote run @ '': '') e [])
       (case wr_marshal wire m of Inl e \<Rightarrow> Some e | Inr encoded \<Rightarrow> complete encoded)"

section \<open>State\<close>

datatype poller = Polling | Offering poll_event | PollEnded

text \<open>
  A processor waits for its turn (if the activation has a run identifier) or offers its result. The
  turn is held with its run.
\<close>

datatype processor =
    Waiting activation held_turn
  | Reporting "completion option" string held_turn

record 'u run_loop =
  rn_worker :: "'u workflow_worker"
  rn_cancelled :: bool
  rn_poll_stopped :: bool
  rn_poller :: poller
  rn_poll_open :: bool
  rn_ctx_watched :: bool
  rn_draining :: bool
  rn_first_err :: "goerr option"
  rn_later_err :: "goerr option"
  rn_active :: int
  rn_processors :: "processor list"
  rn_pipe :: "effect psys"
  rn_received :: "activation list"
  rn_returned :: "goerr option option"

text \<open>
  \<open>rn_received\<close> records the activations the loop took from the poller. \<open>newWorkflowRunLoop\<close>, with the
  poller started.
\<close>

definition new_run_loop :: "'u workflow_worker \<Rightarrow> 'u run_loop" where
  "new_run_loop w =
     \<lparr>rn_worker = w, rn_cancelled = False, rn_poll_stopped = False, rn_poller = Polling,
      rn_poll_open = True, rn_ctx_watched = True, rn_draining = False, rn_first_err = None,
      rn_later_err = None, rn_active = 0, rn_processors = [],
      rn_pipe = initial_psys (workflow_completion_limit w) [], rn_received = [], rn_returned = None\<rparr>"

section \<open>The loop's handlers\<close>

definition should_finish :: "'u run_loop \<Rightarrow> bool" where
  "should_finish l \<longleftrightarrow>
     rn_draining l \<and> \<not> rn_poll_open l \<and> rn_active l = 0 \<and> p_outstanding (s_pipe (rn_pipe l)) = 0"

definition record_error :: "goerr option \<Rightarrow> 'u run_loop \<Rightarrow> 'u run_loop" where
  "record_error err l = (case err of
     None \<Rightarrow> l
   | Some e \<Rightarrow>
       if rn_first_err l = None then l\<lparr>rn_first_err := Some e\<rparr>
       else l\<lparr>rn_later_err := errors_join [rn_later_err l, Some e]\<rparr>)"

definition start_draining :: "goerr option \<Rightarrow> 'u run_loop \<Rightarrow> 'u run_loop" where
  "start_draining err l =
     (let l1 = record_error err l in
      if rn_draining l1 then l1
      else l1\<lparr>rn_draining := True, rn_poll_stopped := True, rn_ctx_watched := False\<rparr>)"

definition drain_on :: "goerr option \<Rightarrow> 'u run_loop \<Rightarrow> 'u run_loop" where
  "drain_on err l = (case err of None \<Rightarrow> l | Some e \<Rightarrow> start_draining (Some e) l)"

definition release_held :: "held_turn \<Rightarrow> 'u run_loop \<Rightarrow> 'u run_loop" where
  "release_held turn l = l\<lparr>rn_worker := release_optional (rn_worker l) turn\<rparr>"

definition enqueue_workflow_completion ::
    "wire \<Rightarrow> completion option \<Rightarrow> held_turn \<Rightarrow> 'u run_loop \<Rightarrow> 'u run_loop \<times> goerr option" where
  "enqueue_workflow_completion wire completion turn l = (case completion of
     None \<Rightarrow> (release_held turn l, Some (ErrNew ''workflow activation produced no completion''))
   | Some c \<Rightarrow>
      (let t = completion_ticket wire (worker_codec (rn_worker l)) c turn;
           l1 = l\<lparr>rn_pipe := sys_enqueue (rn_pipe l) t\<rparr>
       in case snd (enqueue (s_pipe (rn_pipe l)) t) of
            Refused e f \<Rightarrow> (release_held turn l1, Some e)
          | _ \<Rightarrow> (l1, None)))"

text \<open>Enqueueing, draining if it fails: what the handlers do with the error.\<close>

definition enqueue_or_drain :: "wire \<Rightarrow> completion option \<Rightarrow> held_turn \<Rightarrow> 'u run_loop \<Rightarrow> 'u run_loop" where
  "enqueue_or_drain wire completion turn l =
     (case enqueue_workflow_completion wire completion turn l of (l1, err) \<Rightarrow> drain_on err l1)"

definition over_limit_error :: "'u run_loop \<Rightarrow> goerr" where
  "over_limit_error l =
     ErrNew (''core exceeded the configured maximum of '' @
             show_int (workflow_completion_limit (rn_worker l)) @
             '' concurrent workflow task executions'')"

definition dispatch_activation :: "wire \<Rightarrow> activation \<Rightarrow> 'u run_loop \<Rightarrow> 'u run_loop" where
  "dispatch_activation wire act l =
     (if rn_active l \<ge> workflow_completion_limit (rn_worker l)
      then let e = over_limit_error l in
        enqueue_or_drain wire (Some (failed_activation (at_run_id act) e)) None
          (start_draining (Some e) l)
      else
        let l1 = l\<lparr>rn_active := rn_active l + 1\<rparr> in
        if at_run_id act = []
        then l1\<lparr>rn_processors := rn_processors l1 @ [Waiting act None]\<rparr>
        else case reserve_turn (rn_worker l1) (at_run_id act) of
          (t, w) \<Rightarrow>
            l1\<lparr>rn_worker := w,
               rn_processors := rn_processors l1 @ [Waiting act (Some (at_run_id act, t))]\<rparr>)"

definition stopped_unexpectedly :: goerr where
  "stopped_unexpectedly = ErrNew ''workflow poll loop stopped unexpectedly''"

definition empty_activation_error :: goerr where
  "empty_activation_error = ErrNew ''workflow poll loop returned an empty activation''"

text \<open>\<open>handlePollEvent\<close> on a closed channel, and on an event.\<close>

definition handle_poll_closed :: "'u run_loop \<Rightarrow> 'u run_loop" where
  "handle_poll_closed l =
     (let l1 = l\<lparr>rn_poll_open := False\<rparr> in
      if rn_draining l1 then l1
      else start_draining (if rn_cancelled l1 then None else Some stopped_unexpectedly) l1)"

definition handle_poll_event :: "wire \<Rightarrow> poll_event \<Rightarrow> 'u run_loop \<Rightarrow> 'u run_loop" where
  "handle_poll_event wire event l = (case pe_err event of
     Some e \<Rightarrow> start_draining (if rn_cancelled l \<and> is_context_error e then None else Some e) l
   | None \<Rightarrow>
       (case pe_activation event of
          None \<Rightarrow> start_draining (Some empty_activation_error) l
        | Some act \<Rightarrow>
            (case pe_codec_err event of
               Some e \<Rightarrow> enqueue_or_drain wire (Some (failed_activation (at_run_id act) e)) None l
             | None \<Rightarrow> dispatch_activation wire act l)))"

definition handle_processor_result ::
    "wire \<Rightarrow> completion option \<Rightarrow> held_turn \<Rightarrow> 'u run_loop \<Rightarrow> 'u run_loop" where
  "handle_processor_result wire completion turn l =
     enqueue_or_drain wire completion turn (l\<lparr>rn_active := rn_active l - 1\<rparr>)"

definition handle_completion_result ::
    "effect result \<Rightarrow> effect result list \<Rightarrow> 'u run_loop \<Rightarrow> 'u run_loop" where
  "handle_completion_result r rs l =
     drain_on (r_err r) (l\<lparr>rn_pipe := take_result (rn_pipe l) r rs\<rparr>)"

definition finish :: "runtime \<Rightarrow> goerr option \<Rightarrow> 'u run_loop \<Rightarrow> 'u run_loop option" where
  "finish rt answer l =
     map_option (\<lambda>(e, w). l\<lparr>rn_worker := w, rn_returned :=
                    Some (errors_join [rn_first_err l, rn_later_err l, e])\<rparr>)
       (worker_shutdown rt answer (rn_worker l))"

section \<open>The running system\<close>

definition turn_available :: "'u workflow_worker \<Rightarrow> held_turn \<Rightarrow> bool" where
  "turn_available w turn = (case turn of None \<Rightarrow> True | Some (run, t) \<Rightarrow> turn_ready (ww_lanes w) t)"

definition received :: "poll_event \<Rightarrow> activation list" where
  "received event = (if pe_err event = None then case pe_activation event of
     None \<Rightarrow> [] | Some act \<Rightarrow> [act] else [])"

text \<open>
  \<open>loop_internal\<close> has the steps of the loop and of the goroutines it started; \<open>loop_external\<close> what
  comes from outside: the caller cancels the context, Core answers a poll.
\<close>

inductive loop_internal :: "runtime \<Rightarrow> 'u \<Rightarrow> wire \<Rightarrow> 'u run_loop \<Rightarrow> 'u run_loop \<Rightarrow> bool"
  for rt vars wire where
  ctx_done: "rn_returned l = None \<Longrightarrow> \<not> should_finish l \<Longrightarrow> rn_ctx_watched l \<Longrightarrow> rn_cancelled l \<Longrightarrow>
    loop_internal rt vars wire l (start_draining None l)"
| poll_event: "rn_returned l = None \<Longrightarrow> \<not> should_finish l \<Longrightarrow> rn_poll_open l \<Longrightarrow>
    rn_poller l = Offering event \<Longrightarrow>
    loop_internal rt vars wire l (handle_poll_event wire event
      (l\<lparr>rn_poller := (if pe_err event = None then Polling else PollEnded),
         rn_received := rn_received l @ received event\<rparr>))"
| poll_closed: "rn_returned l = None \<Longrightarrow> \<not> should_finish l \<Longrightarrow> rn_poll_open l \<Longrightarrow>
    rn_poller l = PollEnded \<Longrightarrow> loop_internal rt vars wire l (handle_poll_closed l)"
| processor_result: "rn_returned l = None \<Longrightarrow> \<not> should_finish l \<Longrightarrow>
    rn_processors l = ps @ Reporting c run turn # qs \<Longrightarrow>
    loop_internal rt vars wire l
      (handle_processor_result wire c turn (l\<lparr>rn_processors := ps @ qs\<rparr>))"
| completion_result: "rn_returned l = None \<Longrightarrow> \<not> should_finish l \<Longrightarrow>
    p_results (s_pipe (rn_pipe l)) = r # rs \<Longrightarrow>
    loop_internal rt vars wire l (handle_completion_result r rs l)"
| finished: "rn_returned l = None \<Longrightarrow> should_finish l \<Longrightarrow> finish rt answer l = Some l' \<Longrightarrow>
    loop_internal rt vars wire l l'"
| processed: "rn_processors l = ps @ Waiting act turn # qs \<Longrightarrow> turn_available (rn_worker l) turn \<Longrightarrow>
    process_activation rt vars (rn_worker l) act = Some (w, c) \<Longrightarrow>
    loop_internal rt vars wire l
      (l\<lparr>rn_worker := w, rn_processors := ps @ Reporting (Some c) (at_run_id act) turn # qs\<rparr>)"
| submitted: "s_procs (rn_pipe l) = ps @ Submitting q # qs \<Longrightarrow>
    tk_submit (q_ticket q) = Some (SubmitCompletion run m) \<Longrightarrow>
    loop_internal rt vars wire l
      (l\<lparr>rn_pipe := (rn_pipe l)\<lparr>s_procs := ps @ AfterSubmitting q (submit_completion wire complete run m) # qs,
         s_submitted := s_submitted (rn_pipe l) @ [q]\<rparr>\<rparr>)"
| after_submitted: "s_procs (rn_pipe l) = ps @ AfterSubmitting q e # qs \<Longrightarrow>
    tk_after_submit (q_ticket q) = Some (AfterSubmission turn) \<Longrightarrow>
    loop_internal rt vars wire l
      (release_held turn (l\<lparr>rn_pipe := (rn_pipe l)\<lparr>s_procs := ps @ SendingResult q e # qs\<rparr>\<rparr>))"
| result_sent: "s_procs (rn_pipe l) = ps @ SendingResult q e # qs \<Longrightarrow>
    int (length (p_results (s_pipe (rn_pipe l)))) < p_limit (s_pipe (rn_pipe l)) \<Longrightarrow>
    loop_internal rt vars wire l
      (l\<lparr>rn_pipe := (rn_pipe l)\<lparr>s_procs := ps @ Finishing # qs,
         s_pipe := (s_pipe (rn_pipe l))\<lparr>p_results := p_results (s_pipe (rn_pipe l)) @
                      [\<lparr>r_err = e, r_entry = q, r_finalized = False\<rparr>]\<rparr>\<rparr>\<rparr>)"
| slot_freed: "s_procs (rn_pipe l) = ps @ Finishing # qs \<Longrightarrow>
    loop_internal rt vars wire l (l\<lparr>rn_pipe := sys_finish (rn_pipe l) ps qs\<rparr>)"
| poller_left: "rn_poller l = Offering event \<Longrightarrow> pe_err event \<noteq> None \<Longrightarrow>
    rn_cancelled l \<or> rn_poll_stopped l \<Longrightarrow>
    loop_internal rt vars wire l (l\<lparr>rn_poller := PollEnded\<rparr>)"

inductive loop_external :: "wire \<Rightarrow> 'u run_loop \<Rightarrow> 'u run_loop \<Rightarrow> bool" for wire where
  cancelled: "loop_external wire l (l\<lparr>rn_cancelled := True\<rparr>)"
| polled: "rn_poller l = Polling \<Longrightarrow>
    loop_external wire l
      (l\<lparr>rn_poller := Offering (poll_event_of wire (worker_codec (rn_worker l)) answer)\<rparr>)"

text \<open>\<open>Run\<close> is called on a worker that is not running, all of whose turns have been released.\<close>

definition idle_worker :: "runtime \<Rightarrow> 'u workflow_worker \<Rightarrow> bool" where
  "idle_worker rt w \<longleftrightarrow>
     worker_reachable rt w \<and> lanes_ok (ww_lanes w) \<and> (\<forall>turn \<in> set (rl_turns (ww_lanes w)). tn_done turn)"

inductive loop_reachable :: "runtime \<Rightarrow> 'u \<Rightarrow> wire \<Rightarrow> 'u run_loop \<Rightarrow> bool" for rt vars wire where
  started: "idle_worker rt w \<Longrightarrow> loop_reachable rt vars wire (new_run_loop w)"
| internal: "loop_reachable rt vars wire l \<Longrightarrow> loop_internal rt vars wire l l' \<Longrightarrow>
    loop_reachable rt vars wire l'"
| external: "loop_reachable rt vars wire l \<Longrightarrow> loop_external wire l l' \<Longrightarrow>
    loop_reachable rt vars wire l'"

end
