(* ===== verification/Public_Worker.thy ===== *)
theory Public_Worker
  imports Activity_Loop Workflow_Run_Loop
begin

text \<open>
  The public worker (\<open>worker/worker.go\<close>): its options and their checks, the Core worker that the
  workflow and the activity worker share, \<open>New\<close> with its cleanup, and registration.

  \<open>newCombinedCoreWorker\<close> and its siblings are variables of the package: the one that makes the combined
  Core is a parameter, \<open>default_factory\<close> its initial value. What Core answers to a shutdown is a parameter.
\<close>

section \<open>Options\<close>

text \<open>\<open>Options\<close>: the connection fields first. Go's \<open>int\<close> is 64 bits wide; an interval counts nanoseconds.\<close>

record public_options = "(converter, payload_codec) connection" +
  po_max_activities :: int
  po_max_activity_pollers :: int
  po_max_workflow_tasks :: int
  po_max_workflow_pollers :: int
  po_max_cached :: int
  po_max_eager :: int
  po_heartbeat_interval :: int
  po_disable_heartbeat :: bool

definition connection_of :: "public_options \<Rightarrow> (converter, payload_codec) connection" where
  "connection_of options = connection.truncate options"

definition workflow_options_of :: "public_options \<Rightarrow> workflow_options" where
  "workflow_options_of options =
     \<lparr>wo_max_executions = po_max_workflow_tasks options, wo_max_pollers = po_max_workflow_pollers options,
      wo_max_cached = po_max_cached options, wo_tls = cn_tls options, wo_api_key = cn_api_key options\<rparr>"

definition activity_options_of :: "public_options \<Rightarrow> activity_worker_options" where
  "activity_options_of options =
     \<lparr>ao_max_executions = po_max_activities options, ao_max_pollers = po_max_activity_pollers options\<rparr>"

text \<open>\<open>normalizeCombinedCoreOptions\<close>: the defaults, then the loop over the named values.\<close>

fun first_out_of_range :: "(string \<times> int \<times> bool) list \<Rightarrow> goerr option" where
  "first_out_of_range [] = None"
| "first_out_of_range ((name, value, allow_zero) # rest) =
     (let minimum = (if allow_zero then 0 else 1) in
      if value < minimum \<or> value > max_int32
      then Some (ErrNew (name @ '' must be between '' @ show_int minimum @ '' and 2147483647''))
      else first_out_of_range rest)"

definition normalize_combined_core_options ::
    "activity_worker_options \<Rightarrow> workflow_options \<Rightarrow> goerr + activity_worker_options \<times> workflow_options" where
  "normalize_combined_core_options a w =
     (let a1 = (if ao_max_executions a = 0 then a\<lparr>ao_max_executions := 1000\<rparr> else a);
          w1 = (if wo_max_executions w = 0 then w\<lparr>wo_max_executions := 1000\<rparr> else w);
          w2 = (if wo_max_cached w1 = 0 then w1\<lparr>wo_max_cached := 32\<rparr> else w1)
      in case first_out_of_range
           [(''maximum concurrent activity executions'', ao_max_executions a1, False),
            (''maximum concurrent activity task pollers'', ao_max_pollers a1, True),
            (''maximum concurrent workflow task executions'', wo_max_executions w2, False),
            (''maximum concurrent workflow task pollers'', wo_max_pollers w2, True),
            (''maximum cached workflows'', wo_max_cached w2, False)] of
           Some e \<Rightarrow> Inl e
         | None \<Rightarrow> Inr (a1, w2))"

definition default_max_eager :: int where "default_max_eager = 3"

definition normalize_max_eager :: "int \<Rightarrow> goerr + 32 word" where
  "normalize_max_eager value =
     (let v = (if value = 0 then default_max_eager else value) in
      if v < 1 \<or> v > max_int32
      then Inl (ErrNew (''maximum eager activity reservations per workflow task '' @
                        ''must be between 1 and 2147483647''))
      else Inr (word_of_int v))"

definition go_second :: int where "go_second = 1000000000"
definition go_minute :: int where "go_minute = 60 * go_second"
definition go_millisecond :: int where "go_millisecond = 1000000"

definition default_heartbeat_interval :: int where "default_heartbeat_interval = go_minute"
definition min_heartbeat_interval :: int where "min_heartbeat_interval = go_second"
definition max_heartbeat_interval :: int where "max_heartbeat_interval = go_minute"

text \<open>\<open>Milliseconds\<close> divides towards zero; the interval it is applied to is positive.\<close>

definition normalize_heartbeat_interval :: "int \<Rightarrow> bool \<Rightarrow> goerr + 32 word" where
  "normalize_heartbeat_interval interval disabled =
     (if disabled then Inr 0
      else let i = (if interval = 0 then default_heartbeat_interval else interval) in
        if i < min_heartbeat_interval \<or> i > max_heartbeat_interval
        then Inl (ErrNew ''worker heartbeat interval must be between 1s and 1m0s'')
        else Inr (word_of_int (i div go_millisecond)))"

section \<open>The shared Core\<close>

text \<open>
  \<open>sharedCombinedCore\<close>. \<open>sharedWorkflowCore\<close> and \<open>sharedActivityCore\<close> are handles on it that shut down
  alike: a pointer to a handle is an index into \<open>sc_handles\<close>, whose entry is the error its
  \<open>shutdownOnce\<close> kept, if it is done. \<open>sc_shutdowns\<close> counts the calls of Core's \<open>Shutdown\<close>.
\<close>

record shared_core =
  sc_refs :: int
  sc_err :: "goerr option"
  sc_handles :: "goerr option option list"
  sc_shutdowns :: nat

definition new_shared_core :: shared_core where
  "new_shared_core = \<lparr>sc_refs = 0, sc_err = None, sc_handles = [], sc_shutdowns = 0\<rparr>"

text \<open>\<open>workflow\<close> and \<open>activity\<close>.\<close>

definition open_handle :: "shared_core \<Rightarrow> nat \<times> shared_core" where
  "open_handle c =
     (length (sc_handles c), c\<lparr>sc_refs := sc_refs c + 1, sc_handles := sc_handles c @ [None]\<rparr>)"

text \<open>\<open>release\<close>, given Core's answers to the calls of \<open>Shutdown\<close>.\<close>

definition release_shared :: "(nat \<Rightarrow> goerr option) \<Rightarrow> shared_core \<Rightarrow> goerr option \<times> shared_core" where
  "release_shared answers c =
     (if sc_refs c = 0 then (sc_err c, c)
      else
        let c1 = c\<lparr>sc_refs := sc_refs c - 1\<rparr> in
        let c2 = (if sc_refs c1 = 0
                  then c1\<lparr>sc_err := answers (sc_shutdowns c1), sc_shutdowns := sc_shutdowns c1 + 1\<rparr>
                  else c1)
        in (sc_err c2, c2))"

text \<open>\<open>Shutdown\<close> of the handle \<open>n\<close>.\<close>

definition handle_shutdown ::
    "(nat \<Rightarrow> goerr option) \<Rightarrow> nat \<Rightarrow> shared_core \<Rightarrow> goerr option \<times> shared_core" where
  "handle_shutdown answers n c =
     (case sc_handles c ! n of
        Some e \<Rightarrow> (e, c)
      | None \<Rightarrow>
          (case release_shared answers c of
             (e, c1) \<Rightarrow> (e, c1\<lparr>sc_handles := (sc_handles c1)[n := Some e]\<rparr>)))"

section \<open>The worker\<close>

text \<open>
  \<open>Worker\<close>: its two components, with the shared Core and the payload converter of the workflow worker
  (which \<open>Workflow_Worker\<close> keeps apart from the worker).
\<close>

record ('u, 'b) public_worker =
  pw_workflow :: "'u workflow_worker"
  pw_converter :: "converter option"
  pw_activity :: "'b activity_worker"

text \<open>The Core options \<open>newCombinedCoreWorker\<close> hands to \<open>corebridge.NewCombined\<close>.\<close>

record combined_core_config =
  kc_address :: string
  kc_namespace :: string
  kc_task_queue :: string
  kc_identity :: string
  kc_max_activities :: "32 word"
  kc_max_activity_pollers :: "32 word"
  kc_max_workflow_tasks :: "32 word"
  kc_max_workflow_pollers :: "32 word"
  kc_max_cached :: "32 word"
  kc_max_eager :: "32 word"
  kc_heartbeat_millis :: "32 word"
  kc_tls :: "string option"
  kc_api_key :: string

text \<open>A factory returns an error or a Core worker, which may be nil (\<open>False\<close>).\<close>

type_synonym combined_factory =
  "public_options \<Rightarrow> activity_worker_options \<Rightarrow> workflow_options \<Rightarrow> 32 word \<Rightarrow> 32 word \<Rightarrow> goerr + bool"

definition default_factory :: "(combined_core_config \<Rightarrow> goerr option) \<Rightarrow> combined_factory" where
  "default_factory new_combined options a w eager heartbeat =
     (case new_combined
        \<lparr>kc_address = cn_address options, kc_namespace = cn_namespace options,
         kc_task_queue = cn_task_queue options, kc_identity = cn_identity options,
         kc_max_activities = word_of_int (ao_max_executions a),
         kc_max_activity_pollers = word_of_int (ao_max_pollers a),
         kc_max_workflow_tasks = word_of_int (wo_max_executions w),
         kc_max_workflow_pollers = word_of_int (wo_max_pollers w),
         kc_max_cached = word_of_int (wo_max_cached w),
         kc_max_eager = eager, kc_heartbeat_millis = heartbeat,
         kc_tls = cn_tls options, kc_api_key = cn_api_key options\<rparr> of
        Some e \<Rightarrow> Inl e
      | None \<Rightarrow> Inr True)"

text \<open>
  \<open>workflow.Shutdown\<close> of a workflow worker that holds the handle \<open>n\<close>. It stops the cached runs, so it need
  not return; Core's handle is shut down once.
\<close>

definition workflow_shutdown ::
    "runtime \<Rightarrow> (nat \<Rightarrow> goerr option) \<Rightarrow> nat \<Rightarrow> 'u workflow_worker \<Rightarrow> shared_core \<Rightarrow>
     (goerr option \<times> 'u workflow_worker \<times> shared_core) option" where
  "workflow_shutdown rt answers n w c =
     (case (if ww_shutdown w = None \<and> ww_core w then handle_shutdown answers n c else (None, c)) of
        (answer, c1) \<Rightarrow> map_option (\<lambda>(e, w1). (e, w1, c1)) (worker_shutdown rt answer w))"

text \<open>
  \<open>newWorker\<close> with a factory: the workers or the error, with the shared Core when one was made.
  The assignments that copy the normalized connection into the three options become \<open>cn\<close>.
\<close>

definition new_with_shared_core ::
    "runtime \<Rightarrow> (nat \<Rightarrow> goerr option) \<Rightarrow> converter \<Rightarrow> (converter, payload_codec) connection \<Rightarrow>
     activity_worker_options \<Rightarrow> workflow_options \<Rightarrow>
     ((goerr + ('u, 'b) public_worker) \<times> shared_core) option" where
  "new_with_shared_core rt answers default_cv cn a w =
     (case open_handle new_shared_core of (h, c) \<Rightarrow>
        (case new_worker_with_core default_cv cn w True of
           Inl e \<Rightarrow> Some (Inl e, snd (handle_shutdown answers h c))
         | Inr (cv, ww) \<Rightarrow>
             (case open_handle c of (h', c1) \<Rightarrow>
                (case new_activity_worker_with_core default_cv cn a of
                   Inr aw \<Rightarrow> Some (Inr \<lparr>pw_workflow = ww, pw_converter = cv, pw_activity = aw\<rparr>, c1)
                 | Inl e \<Rightarrow>
                     (case handle_shutdown answers h' c1 of (e1, c2) \<Rightarrow>
                        map_option (\<lambda>(e2, ww1, c3). (Inl (the (errors_join [Some e, e1, e2])), c3))
                          (workflow_shutdown rt answers h ww c2))))))"

definition new_combined_worker ::
    "runtime \<Rightarrow> (nat \<Rightarrow> goerr option) \<Rightarrow> combined_factory \<Rightarrow> converter \<Rightarrow> public_options \<Rightarrow>
     ((goerr + ('u, 'b) public_worker) \<times> shared_core option) option" where
  "new_combined_worker rt answers factory default_cv options =
     (case normalize_connection default_cv noop_codec ''worker'' (connection_of options) of
        Inl e \<Rightarrow> Some (Inl e, None)
      | Inr cn \<Rightarrow>
          (let options1 = options\<lparr>cn_address := cn_address cn, cn_namespace := cn_namespace cn,
                 cn_task_queue := cn_task_queue cn, cn_identity := cn_identity cn,
                 cn_payload_converter := cn_payload_converter cn,
                 cn_payload_codec := cn_payload_codec cn\<rparr>
           in case normalize_combined_core_options (activity_options_of options1)
                     (workflow_options_of options1) of
                Inl e \<Rightarrow> Some (Inl e, None)
              | Inr (a, w) \<Rightarrow>
                  (case normalize_max_eager (po_max_eager options1) of
                     Inl e \<Rightarrow> Some (Inl e, None)
                   | Inr eager \<Rightarrow>
                       (case normalize_heartbeat_interval (po_heartbeat_interval options1)
                               (po_disable_heartbeat options1) of
                          Inl e \<Rightarrow> Some (Inl e, None)
                        | Inr heartbeat \<Rightarrow>
                            (case factory options1 a w eager heartbeat of
                               Inl e \<Rightarrow> Some (Inl e, None)
                             | Inr False \<Rightarrow>
                                 Some (Inl (ErrNew ''combined core worker factory returned nil''), None)
                             | Inr True \<Rightarrow>
                                 map_option (\<lambda>(r, c). (r, Some c))
                                   (new_with_shared_core rt answers default_cv cn a w))))))"

text \<open>
  \<open>newWorker\<close> without a factory: two Core workers; \<open>answer\<close> is what the first answers to a shutdown.
\<close>

definition new_separate_worker ::
    "runtime \<Rightarrow> goerr option \<Rightarrow>
     ((converter, payload_codec) connection \<Rightarrow> workflow_core_options \<Rightarrow> goerr option) \<Rightarrow>
     ((converter, payload_codec) connection \<Rightarrow> activity_core_options \<Rightarrow> goerr option) \<Rightarrow>
     converter \<Rightarrow> public_options \<Rightarrow> (goerr + ('u, 'b) public_worker) option" where
  "new_separate_worker rt answer workflow_core activity_core default_cv options =
     (case new_worker workflow_core default_cv (connection_of options) (workflow_options_of options) of
        Inl e \<Rightarrow> Some (Inl e)
      | Inr (cv, ww) \<Rightarrow>
          (case create_activity_worker activity_core default_cv (connection_of options)
                  (activity_options_of options) of
             Inr aw \<Rightarrow> Some (Inr \<lparr>pw_workflow = ww, pw_converter = cv, pw_activity = aw\<rparr>)
           | Inl e \<Rightarrow>
               map_option (\<lambda>(e1, ww1). Inl (the (errors_join [Some e, e1])))
                 (worker_shutdown rt answer ww)))"

section \<open>Registration\<close>

text \<open>
  \<open>RegisterWorkflowUntyped\<close>, \<open>RegisterWorkflow\<close> and their siblings for activities: the worker, or the
  panic.
\<close>

definition register_workflow_untyped ::
    "runtime \<Rightarrow> ('u, 'b) public_worker \<Rightarrow> string \<Rightarrow> 'u code gofunc option \<Rightarrow>
     string + ('u, 'b) public_worker" where
  "register_workflow_untyped rt w name f =
     map_sum id (\<lambda>ww. w\<lparr>pw_workflow := ww\<rparr>) (register_workflow rt (pw_workflow w) name f)"

definition register_named_workflow ::
    "runtime \<Rightarrow> codec_lib \<Rightarrow> ('u code \<Rightarrow> string option) \<Rightarrow> ('u, 'b) public_worker \<Rightarrow>
     'u code gofunc option \<Rightarrow> string + ('u, 'b) public_worker" where
  "register_named_workflow rt lib runtime_name w f =
     (case function_name lib runtime_name ''workflow'' f of
        Inl e \<Rightarrow> Inl (err_msg e)
      | Inr name \<Rightarrow> register_workflow_untyped rt w name f)"

definition register_activity_untyped ::
    "codec_lib \<Rightarrow> ('u, 'b) public_worker \<Rightarrow> string \<Rightarrow> 'b gofunc option \<Rightarrow>
     string + ('u, 'b) public_worker" where
  "register_activity_untyped lib w name f =
     map_sum id (\<lambda>aw. w\<lparr>pw_activity := aw\<rparr>) (register_activity lib (pw_activity w) name f)"

definition register_named_activity ::
    "codec_lib \<Rightarrow> ('b \<Rightarrow> string option) \<Rightarrow> ('u, 'b) public_worker \<Rightarrow> 'b gofunc option \<Rightarrow>
     string + ('u, 'b) public_worker" where
  "register_named_activity lib runtime_name w f =
     (case function_name lib runtime_name ''activity'' f of
        Inl e \<Rightarrow> Inl (err_msg e)
      | Inr name \<Rightarrow> register_activity_untyped lib w name f)"

text \<open>\<open>Shutdown\<close> of a worker made with a shared Core, whose handles are 0 and 1.\<close>

definition public_shutdown ::
    "runtime \<Rightarrow> (nat \<Rightarrow> goerr option) \<Rightarrow> ('u, 'b) public_worker \<Rightarrow> shared_core \<Rightarrow>
     (goerr option \<times> ('u, 'b) public_worker \<times> shared_core) option" where
  "public_shutdown rt answers w c =
     map_option (\<lambda>(e, ww, c1).
         case handle_shutdown answers 1 c1 of
           (e1, c2) \<Rightarrow> (errors_join [e, e1], w\<lparr>pw_workflow := ww\<rparr>, c2))
       (workflow_shutdown rt answers 0 (pw_workflow w) c)"

section \<open>The shared Core refines a set of holders\<close>

text \<open>
  What a shared Core promises: it is shut down whenever the last of its holders lets go of it. The
  abstract state is the set of holders with the number of shutdowns.
\<close>

definition holders_of :: "shared_core \<Rightarrow> nat set \<times> nat" where
  "holders_of c = ({n. n < length (sc_handles c) \<and> sc_handles c ! n = None}, sc_shutdowns c)"

definition let_go :: "nat \<Rightarrow> nat set \<times> nat \<Rightarrow> nat set \<times> nat" where
  "let_go n a = (case a of (H, k) \<Rightarrow> (H - {n}, if H = {n} then k + 1 else k))"

inductive shared_reachable :: "(nat \<Rightarrow> goerr option) \<Rightarrow> shared_core \<Rightarrow> bool" for answers where
  shared_new: "shared_reachable answers new_shared_core"
| shared_opened: "shared_reachable answers c \<Longrightarrow> shared_reachable answers (snd (open_handle c))"
| shared_shut: "shared_reachable answers c \<Longrightarrow> n < length (sc_handles c) \<Longrightarrow>
    shared_reachable answers (snd (handle_shutdown answers n c))"

text \<open>The reference count is the number of handles that have not been shut down.\<close>

definition shared_ok :: "shared_core \<Rightarrow> bool" where
  "shared_ok c \<longleftrightarrow> sc_refs c = int (card (fst (holders_of c)))"

lemma holders_finite [simp]: "finite (fst (holders_of c))"
  by (simp add: holders_of_def)

lemma open_handle_holders:
  "holders_of (snd (open_handle c)) = (insert (length (sc_handles c)) (fst (holders_of c)), sc_shutdowns c)"
  "length (sc_handles c) \<notin> fst (holders_of c)"
  by (auto simp: holders_of_def open_handle_def nth_append less_Suc_eq)

lemma shared_ok_open: "shared_ok c \<Longrightarrow> shared_ok (snd (open_handle c))"
  unfolding shared_ok_def open_handle_holders
  using open_handle_holders(2) [of c] by (simp add: open_handle_def)

lemma handle_shutdown_again:
  "sc_handles c ! n = Some e \<Longrightarrow> handle_shutdown answers n c = (e, c)"
  by (simp add: handle_shutdown_def)

lemma handle_shutdown_last:
  assumes "shared_ok c" and "fst (holders_of c) = {n}"
  shows "handle_shutdown answers n c =
    (answers (sc_shutdowns c),
     c\<lparr>sc_refs := 0, sc_err := answers (sc_shutdowns c), sc_shutdowns := sc_shutdowns c + 1,
       sc_handles := (sc_handles c)[n := Some (answers (sc_shutdowns c))]\<rparr>)"
proof -
  from assms(2) have "sc_handles c ! n = None" by (auto simp: holders_of_def)
  moreover from assms have "sc_refs c = 1" by (simp add: shared_ok_def)
  ultimately show ?thesis
    by (simp add: handle_shutdown_def release_shared_def Let_def)
qed

lemma handle_shutdown_other:
  assumes "shared_ok c" and "n \<in> fst (holders_of c)" and "fst (holders_of c) \<noteq> {n}"
  shows "handle_shutdown answers n c =
    (sc_err c, c\<lparr>sc_refs := sc_refs c - 1, sc_handles := (sc_handles c)[n := Some (sc_err c)]\<rparr>)"
proof -
  from assms(2) have "sc_handles c ! n = None" by (simp add: holders_of_def)
  moreover have "sc_refs c \<noteq> 0" using assms(1,2) by (auto simp: shared_ok_def)
  moreover have "sc_refs c \<noteq> 1"
    using assms by (auto simp: shared_ok_def card_1_singleton_iff)
  ultimately show ?thesis
    by (simp add: handle_shutdown_def release_shared_def Let_def)
qed

lemma open_set_update:
  "{m. m < length hs \<and> hs[n := Some e] ! m = None} = {m. m < length hs \<and> hs ! m = None} - {n}"
  by (cases "n < length hs") (auto simp: nth_list_update_cases split: if_splits)

text \<open>Each operation on a shared Core is the operation on the set of holders.\<close>

lemma handle_shutdown_holders:
  assumes "shared_ok c" and "n < length (sc_handles c)"
  shows "holders_of (snd (handle_shutdown answers n c)) = let_go n (holders_of c)"
    "shared_ok (snd (handle_shutdown answers n c))"
proof -
  consider (again) e where "sc_handles c ! n = Some e"
    | (final) "fst (holders_of c) = {n}"
    | (other) "n \<in> fst (holders_of c)" "fst (holders_of c) \<noteq> {n}"
    using assms(2) by (cases "sc_handles c ! n") (auto simp: holders_of_def)
  then have "holders_of (snd (handle_shutdown answers n c)) = let_go n (holders_of c) \<and>
      shared_ok (snd (handle_shutdown answers n c))"
  proof cases
    case again
    then have "n \<notin> fst (holders_of c)" by (simp add: holders_of_def)
    moreover from this have "fst (holders_of c) \<noteq> {n}" by blast
    ultimately show ?thesis
      using assms(1) again by (cases "holders_of c") (auto simp: handle_shutdown_again let_go_def)
  next
    case final
    then have "{m. m < length (sc_handles c) \<and> sc_handles c ! m = None} = {n}" by (simp add: holders_of_def)
    then have "holders_of (snd (handle_shutdown answers n c)) = ({}, sc_shutdowns c + 1)"
      by (simp add: handle_shutdown_last [OF assms(1) final] holders_of_def open_set_update)
    moreover have "sc_refs (snd (handle_shutdown answers n c)) = 0"
      by (simp add: handle_shutdown_last [OF assms(1) final])
    ultimately show ?thesis
      using final by (auto simp: let_go_def shared_ok_def holders_of_def)
  next
    case other
    have "holders_of (snd (handle_shutdown answers n c)) = (fst (holders_of c) - {n}, sc_shutdowns c)"
      by (simp add: handle_shutdown_other [OF assms(1) other] holders_of_def open_set_update)
    moreover have "int (card (fst (holders_of c) - {n})) = sc_refs c - 1"
      using assms(1) other(1) card_Suc_Diff1 [OF holders_finite other(1)] by (simp add: shared_ok_def)
    moreover have "sc_refs (snd (handle_shutdown answers n c)) = sc_refs c - 1"
      by (simp add: handle_shutdown_other [OF assms(1) other])
    ultimately show ?thesis
      using other by (auto simp: let_go_def shared_ok_def holders_of_def)
  qed
  then show "holders_of (snd (handle_shutdown answers n c)) = let_go n (holders_of c)"
    "shared_ok (snd (handle_shutdown answers n c))" by simp_all
qed

lemma shared_reachable_ok: "shared_reachable answers c \<Longrightarrow> shared_ok c"
  by (induction rule: shared_reachable.induct)
    (simp_all add: shared_ok_open handle_shutdown_holders, simp add: shared_ok_def holders_of_def new_shared_core_def)

text \<open>
  C17. The Core worker shared by the workflow worker and the activity worker is shut down exactly when the last
  of its holders lets go of it: the reference count implements the set of holders. Opening a handle
  adds a fresh holder; shutting a handle down removes it, whatever was called before, and calls Core's
  \<open>Shutdown\<close> if it was the only holder, and then returns Core's answer; shutting it down again does
  nothing and returns the same error.
\<close>

theorem shared_core_refines:
  assumes "shared_reachable answers c" and "n < length (sc_handles c)"
  shows "holders_of (snd (open_handle c)) =
      (insert (fst (open_handle c)) (fst (holders_of c)), snd (holders_of c)) \<and>
    fst (open_handle c) \<notin> fst (holders_of c) \<and>
    holders_of (snd (handle_shutdown answers n c)) = let_go n (holders_of c) \<and>
    (fst (holders_of c) = {n} \<longrightarrow> fst (handle_shutdown answers n c) = answers (snd (holders_of c))) \<and>
    handle_shutdown answers n (snd (handle_shutdown answers n c)) = handle_shutdown answers n c"
proof -
  have ok: "shared_ok c" by (rule shared_reachable_ok [OF assms(1)])
  have opened: "fst (open_handle c) = length (sc_handles c)" by (simp add: open_handle_def)
  have "sc_handles (snd (handle_shutdown answers n c)) ! n = Some (fst (handle_shutdown answers n c))"
    using assms(2) by (auto simp: handle_shutdown_def release_shared_def Let_def split: option.splits)
  then have "handle_shutdown answers n (snd (handle_shutdown answers n c)) = handle_shutdown answers n c"
    by (simp add: handle_shutdown_again)
  moreover have "fst (handle_shutdown answers n c) = answers (snd (holders_of c))"
    if "fst (holders_of c) = {n}"
    using handle_shutdown_last [OF ok that] by (simp add: holders_of_def)
  moreover have "snd (holders_of c) = sc_shutdowns c" by (simp add: holders_of_def)
  ultimately show ?thesis
    using handle_shutdown_holders(1) [OF ok assms(2)] open_handle_holders [of c] opened by auto
qed

lemma shared_core_refines_witness:
  "holders_of (snd (handle_shutdown (\<lambda>k. Some (ErrNew ''boom'')) 0 (snd (open_handle new_shared_core)))) =
     ({}, 1)"
proof -
  let ?c = "snd (open_handle new_shared_core)"
  have "length (sc_handles ?c) = 1" and h: "holders_of ?c = ({0}, 0)"
    by (auto simp: open_handle_def new_shared_core_def holders_of_def)
  then have "holders_of (snd (handle_shutdown (\<lambda>k. Some (ErrNew ''boom'')) 0 ?c)) = let_go 0 ({0}, 0)"
    using shared_core_refines [OF shared_opened [OF shared_new], of 0 "\<lambda>k. Some (ErrNew ''boom'')"]
    by simp
  then show ?thesis by (simp add: let_go_def)
qed

end
