(* ===== verification/Public_Run.thy ===== *)
theory Public_Run
  imports Public_Worker
begin

text \<open>
  \<open>Run\<close> of the public worker: the run loops of both workers side by side over one shared Core, the
  channel with their results, and the goroutine that cancels the other worker once the first has ended.

  The steps are those of the two loops, the shutdowns that end them, and the three kinds of step of
  \<open>Run\<close> itself. A cancellation of the run's context reaches each worker in a step of its own. The
  worker keeps its answer to a shutdown, and Core's answers to shutdowns are a parameter.
\<close>

section \<open>The running worker\<close>

record ('u, 'b) public_run =
  pu_workflow :: "'u run_loop"
  pu_activity :: "'b activity_loop"
  pu_core :: shared_core
  pu_cancelled :: bool
  pu_workflow_sent :: bool
  pu_activity_sent :: bool
  pu_results :: "goerr option list"
  pu_first :: bool
  pu_returned :: "goerr option option"

definition start_run :: "('u, 'b) public_worker \<Rightarrow> shared_core \<Rightarrow> ('u, 'b) public_run" where
  "start_run w c =
     \<lparr>pu_workflow = new_run_loop (pw_workflow w), pu_activity = new_activity_loop (pw_activity w),
      pu_core = c, pu_cancelled = False, pu_workflow_sent = False, pu_activity_sent = False,
      pu_results = [], pu_first = False, pu_returned = None\<rparr>"

text \<open>The ends of the two loops, with the shutdown of their handles on Core.\<close>

definition finish_workflow ::
    "runtime \<Rightarrow> (nat \<Rightarrow> goerr option) \<Rightarrow> ('u, 'b) public_run \<Rightarrow> ('u, 'b) public_run option" where
  "finish_workflow rt answers s =
     (let w = rn_worker (pu_workflow s) in
      case (if ww_shutdown w = None \<and> ww_core w then handle_shutdown answers 0 (pu_core s)
            else (None, pu_core s)) of
        (answer, c) \<Rightarrow> map_option (\<lambda>l. s\<lparr>pu_workflow := l, pu_core := c\<rparr>) (finish rt answer (pu_workflow s)))"

definition finish_activity :: "(nat \<Rightarrow> goerr option) \<Rightarrow> ('u, 'b) public_run \<Rightarrow> ('u, 'b) public_run" where
  "finish_activity answers s =
     (case handle_shutdown answers 1 (pu_core s) of
        (answer, c) \<Rightarrow> s\<lparr>pu_activity := activity_finish answer (pu_activity s), pu_core := c\<rparr>)"

text \<open>The bodies of the two goroutines, and of \<open>Run\<close> after it started them.\<close>

definition send_workflow :: "goerr option \<Rightarrow> ('u, 'b) public_run \<Rightarrow> ('u, 'b) public_run" where
  "send_workflow e s = s\<lparr>pu_workflow_sent := True, pu_results := pu_results s @ [e]\<rparr>"

definition send_activity :: "goerr option \<Rightarrow> ('u, 'b) public_run \<Rightarrow> ('u, 'b) public_run" where
  "send_activity e s = s\<lparr>pu_activity_sent := True, pu_results := pu_results s @ [e]\<rparr>"

definition receive_first :: "('u, 'b) public_run \<Rightarrow> ('u, 'b) public_run" where
  "receive_first s = s\<lparr>pu_first := True, pu_cancelled := True\<rparr>"

definition receive_second :: "('u, 'b) public_run \<Rightarrow> ('u, 'b) public_run" where
  "receive_second s = s\<lparr>pu_returned := Some (errors_join (pu_results s))\<rparr>"

inductive public_internal ::
    "runtime \<Rightarrow> 'u \<Rightarrow> wire \<Rightarrow> activity_wire \<Rightarrow> (nat \<Rightarrow> goerr option) \<Rightarrow>
     ('u, 'b) public_run \<Rightarrow> ('u, 'b) public_run \<Rightarrow> bool"
  for rt vars wire awire answers where
  workflow_runs: "loop_internal rt vars wire (pu_workflow s) l \<Longrightarrow> rn_returned l = rn_returned (pu_workflow s) \<Longrightarrow>
    public_internal rt vars wire awire answers s (s\<lparr>pu_workflow := l\<rparr>)"
| workflow_ends: "rn_returned (pu_workflow s) = None \<Longrightarrow> should_finish (pu_workflow s) \<Longrightarrow>
    finish_workflow rt answers s = Some s' \<Longrightarrow> public_internal rt vars wire awire answers s s'"
| activity_runs: "activity_internal awire (pu_activity s) l \<Longrightarrow> al_returned l = al_returned (pu_activity s) \<Longrightarrow>
    public_internal rt vars wire awire answers s (s\<lparr>pu_activity := l\<rparr>)"
| activity_ends: "al_returned (pu_activity s) = None \<Longrightarrow> activity_should_finish (pu_activity s) \<Longrightarrow>
    public_internal rt vars wire awire answers s (finish_activity answers s)"
| workflow_sends: "rn_returned (pu_workflow s) = Some e \<Longrightarrow> \<not> pu_workflow_sent s \<Longrightarrow>
    public_internal rt vars wire awire answers s (send_workflow e s)"
| activity_sends: "al_returned (pu_activity s) = Some e \<Longrightarrow> \<not> pu_activity_sent s \<Longrightarrow>
    public_internal rt vars wire awire answers s (send_activity e s)"
| first_received: "pu_results s \<noteq> [] \<Longrightarrow> \<not> pu_first s \<Longrightarrow>
    public_internal rt vars wire awire answers s (receive_first s)"
| second_received: "length (pu_results s) = 2 \<Longrightarrow> pu_first s \<Longrightarrow> pu_returned s = None \<Longrightarrow>
    public_internal rt vars wire awire answers s (receive_second s)"
| workflow_cancelled: "pu_cancelled s \<Longrightarrow> \<not> rn_cancelled (pu_workflow s) \<Longrightarrow>
    public_internal rt vars wire awire answers s
      (s\<lparr>pu_workflow := (pu_workflow s)\<lparr>rn_cancelled := True\<rparr>\<rparr>)"
| activity_cancelled: "pu_cancelled s \<Longrightarrow> \<not> al_cancelled (pu_activity s) \<Longrightarrow>
    public_internal rt vars wire awire answers s
      (s\<lparr>pu_activity := (pu_activity s)\<lparr>al_cancelled := True\<rparr>\<rparr>)"

inductive public_external ::
    "codec_lib \<Rightarrow> wire \<Rightarrow> activity_wire \<Rightarrow> ('u, 'b) public_run \<Rightarrow> ('u, 'b) public_run \<Rightarrow> bool"
  for lib wire awire where
  caller_cancels: "public_external lib wire awire s (s\<lparr>pu_cancelled := True\<rparr>)"
| workflow_polled: "loop_external wire (pu_workflow s) l \<Longrightarrow>
    rn_cancelled l = rn_cancelled (pu_workflow s) \<Longrightarrow>
    public_external lib wire awire s (s\<lparr>pu_workflow := l\<rparr>)"
| activity_served: "activity_external lib awire (pu_activity s) l \<Longrightarrow>
    al_cancelled l = al_cancelled (pu_activity s) \<Longrightarrow>
    public_external lib wire awire s (s\<lparr>pu_activity := l\<rparr>)"

text \<open>A worker as \<open>New\<close> made it, and after registrations.\<close>

inductive worker_made ::
    "runtime \<Rightarrow> codec_lib \<Rightarrow> (nat \<Rightarrow> goerr option) \<Rightarrow> ('u, 'b) public_worker \<Rightarrow> shared_core \<Rightarrow> bool"
  for rt lib answers where
  new: "new_combined_worker rt answers factory default_cv options = Some (Inr w, Some c) \<Longrightarrow>
    worker_made rt lib answers w c"
| workflow: "worker_made rt lib answers w c \<Longrightarrow> register_workflow_untyped rt w name f = Inr w' \<Longrightarrow>
    worker_made rt lib answers w' c"
| activity: "worker_made rt lib answers w c \<Longrightarrow> register_activity_untyped lib w name g = Inr w' \<Longrightarrow>
    worker_made rt lib answers w' c"

inductive public_reachable ::
    "runtime \<Rightarrow> 'u \<Rightarrow> codec_lib \<Rightarrow> wire \<Rightarrow> activity_wire \<Rightarrow> (nat \<Rightarrow> goerr option) \<Rightarrow>
     ('u, 'b) public_run \<Rightarrow> bool"
  for rt vars lib wire awire answers where
  run: "worker_made rt lib answers w c \<Longrightarrow>
    public_reachable rt vars lib wire awire answers (start_run w c)"
| inner: "public_reachable rt vars lib wire awire answers s \<Longrightarrow>
    public_internal rt vars wire awire answers s s' \<Longrightarrow>
    public_reachable rt vars lib wire awire answers s'"
| outer: "public_reachable rt vars lib wire awire answers s \<Longrightarrow>
    public_external lib wire awire s s' \<Longrightarrow> public_reachable rt vars lib wire awire answers s'"

end
