(* ===== verification/Public_Options.thy ===== *)
theory Public_Options
  imports Public_Worker Activity_Properties
begin

text \<open>
  Which options \<open>New\<close> of the public worker accepts, what it asks of Core for them, and what becomes of
  the Core worker when it fails after making it.
\<close>

section \<open>The options that are accepted\<close>

definition options_in_range :: "public_options \<Rightarrow> bool" where
  "options_in_range options \<longleftrightarrow>
     cn_task_queue options \<noteq> [] \<and>
     0 \<le> po_max_activities options \<and> po_max_activities options \<le> max_int32 \<and>
     0 \<le> po_max_activity_pollers options \<and> po_max_activity_pollers options \<le> max_int32 \<and>
     (po_max_workflow_tasks options = 0 \<or>
        2 \<le> po_max_workflow_tasks options \<and> po_max_workflow_tasks options \<le> max_int32) \<and>
     (po_max_workflow_pollers options = 0 \<or>
        2 \<le> po_max_workflow_pollers options \<and> po_max_workflow_pollers options \<le> max_int32) \<and>
     0 \<le> po_max_cached options \<and> po_max_cached options \<le> max_int32 \<and>
     0 \<le> po_max_eager options \<and> po_max_eager options \<le> max_int32 \<and>
     (po_disable_heartbeat options \<or> po_heartbeat_interval options = 0 \<or>
        1000000000 \<le> po_heartbeat_interval options \<and> po_heartbeat_interval options \<le> 60000000000)"

text \<open>The Core options for given options: each number as it is, or its default.\<close>

definition config_for :: "public_options \<Rightarrow> combined_core_config \<Rightarrow> bool" where
  "config_for options k \<longleftrightarrow>
     kc_address k = or_default (cn_address options) ''localhost:7233'' \<and>
     kc_namespace k = or_default (cn_namespace options) ''default'' \<and>
     kc_task_queue k = cn_task_queue options \<and>
     kc_identity k = or_default (cn_identity options) ''go-sdk-on-wasm-core'' \<and>
     sint (kc_max_activities k) = (if po_max_activities options = 0 then 1000 else po_max_activities options) \<and>
     sint (kc_max_activity_pollers k) = po_max_activity_pollers options \<and>
     sint (kc_max_workflow_tasks k) =
       (if po_max_workflow_tasks options = 0 then 1000 else po_max_workflow_tasks options) \<and>
     sint (kc_max_workflow_pollers k) = po_max_workflow_pollers options \<and>
     sint (kc_max_cached k) = (if po_max_cached options = 0 then 32 else po_max_cached options) \<and>
     sint (kc_max_eager k) = (if po_max_eager options = 0 then 3 else po_max_eager options) \<and>
     sint (kc_heartbeat_millis k) =
       (if po_disable_heartbeat options then 0
        else if po_heartbeat_interval options = 0 then 60000
        else po_heartbeat_interval options div 1000000) \<and>
     kc_tls k = cn_tls options \<and> kc_api_key k = cn_api_key options"

lemma sint_int32: "0 \<le> v \<Longrightarrow> v \<le> max_int32 \<Longrightarrow> sint (word_of_int v :: 32 word) = v"
  by (simp add: sint_sbintrunc' signed_take_bit_int_eq_self max_int32_def)

lemma config_for_unique: "config_for options k \<Longrightarrow> config_for options k' \<Longrightarrow> k = k'"
proof -
  assume k: "config_for options k" and k': "config_for options k'"
  have inj: "sint x = sint y \<Longrightarrow> x = y" for x y :: "32 word"
    using word_eq_iff_signed by blast
  have words: "sint (kc_max_activities k) = sint (kc_max_activities k')"
    "sint (kc_max_activity_pollers k) = sint (kc_max_activity_pollers k')"
    "sint (kc_max_workflow_tasks k) = sint (kc_max_workflow_tasks k')"
    "sint (kc_max_workflow_pollers k) = sint (kc_max_workflow_pollers k')"
    "sint (kc_max_cached k) = sint (kc_max_cached k')" "sint (kc_max_eager k) = sint (kc_max_eager k')"
    "sint (kc_heartbeat_millis k) = sint (kc_heartbeat_millis k')"
    using k k' unfolding config_for_def by (elim conjE, simp only:)+
  show "k = k'"
    by (rule combined_core_config.equality)
      (use k k' in \<open>simp_all add: config_for_def words [THEN inj]\<close>)
qed

section \<open>The checks\<close>

lemma normalize_combined_Inr:
  "normalize_combined_core_options a w = Inr (a', w') \<longleftrightarrow>
     0 \<le> ao_max_executions a \<and> ao_max_executions a \<le> max_int32 \<and>
     0 \<le> ao_max_pollers a \<and> ao_max_pollers a \<le> max_int32 \<and>
     0 \<le> wo_max_executions w \<and> wo_max_executions w \<le> max_int32 \<and>
     0 \<le> wo_max_pollers w \<and> wo_max_pollers w \<le> max_int32 \<and>
     0 \<le> wo_max_cached w \<and> wo_max_cached w \<le> max_int32 \<and>
     a' = a\<lparr>ao_max_executions := (if ao_max_executions a = 0 then 1000 else ao_max_executions a)\<rparr> \<and>
     w' = w\<lparr>wo_max_executions := (if wo_max_executions w = 0 then 1000 else wo_max_executions w),
            wo_max_cached := (if wo_max_cached w = 0 then 32 else wo_max_cached w)\<rparr>"
  unfolding normalize_combined_core_options_def Let_def
  by (auto simp: max_int32_def split: if_splits option.splits)

lemma normalize_max_eager_Inr:
  "normalize_max_eager v = Inr n \<longleftrightarrow>
     0 \<le> v \<and> v \<le> max_int32 \<and> n = word_of_int (if v = 0 then 3 else v)"
  by (auto simp: normalize_max_eager_def default_max_eager_def max_int32_def Let_def split: if_splits)

lemma normalize_heartbeat_Inr:
  "normalize_heartbeat_interval i d = Inr n \<longleftrightarrow>
     (d \<or> i = 0 \<or> 1000000000 \<le> i \<and> i \<le> 60000000000) \<and>
     n = word_of_int (if d then 0 else if i = 0 then 60000 else i div 1000000)"
  by (auto simp: normalize_heartbeat_interval_def Let_def default_heartbeat_interval_def
      min_heartbeat_interval_def max_heartbeat_interval_def go_minute_def go_second_def
      go_millisecond_def split: if_splits)

lemma normalize_connection_Inr:
  "normalize_connection cv cc kind c = Inr cn \<longleftrightarrow>
     cn_task_queue c \<noteq> [] \<and>
     cn = c\<lparr>cn_address := or_default (cn_address c) default_address,
            cn_namespace := or_default (cn_namespace c) default_namespace,
            cn_identity := or_default (cn_identity c) default_identity,
            cn_payload_converter := Some (case cn_payload_converter c of None \<Rightarrow> cv | Some v \<Rightarrow> v),
            cn_payload_codec := Some (case cn_payload_codec c of None \<Rightarrow> cc | Some v \<Rightarrow> v)\<rparr>"
  by (auto simp: normalize_connection_def Let_def)

text \<open>A normalized connection is normal.\<close>

lemma normalize_connection_again:
  assumes "normalize_connection cv cc kind c = Inr cn"
  shows "normalize_connection cv' cc' kind' cn = Inr (cn :: ('a, 'b) connection)"
  using assms unfolding normalize_connection_Inr
  by (cases c) (auto simp: or_default_def default_address_def default_namespace_def default_identity_def)

text \<open>With a normal connection and activity options in range, only the workflow options can be refused.\<close>

lemma new_with_shared_core_result:
  assumes "\<And>cv cc kind. normalize_connection cv cc kind cn = Inr cn" and "check_activity_options a = Inr m"
  shows "new_with_shared_core rt answers cv cn a w =
    Some (case normalize_workflow_options w of
            Inl e \<Rightarrow> (Inl e, snd (handle_shutdown answers 0 (snd (open_handle new_shared_core))))
          | Inr n \<Rightarrow>
              (Inr \<lparr>pw_workflow = new_workflow_worker (cn_namespace cn) (cn_task_queue cn)
                                  (cn_payload_codec cn) n True,
                    pw_converter = cn_payload_converter cn, pw_activity = new_activity_worker cn m\<rparr>,
               snd (open_handle (snd (open_handle new_shared_core)))))"
proof -
  obtain c where "open_handle new_shared_core = (0, c)" by (simp add: open_handle_def new_shared_core_def)
  then show ?thesis
    by (cases "normalize_workflow_options w")
      (simp_all add: new_with_shared_core_def new_worker_with_core_def new_activity_worker_with_core_def
        assms split: prod.splits)
qed

lemma opened_holders:
  "holders_of (snd (handle_shutdown answers 0 (snd (open_handle new_shared_core)))) = ({}, 1)"
  "holders_of (snd (open_handle (snd (open_handle new_shared_core)))) = ({0, 1}, 0)"
proof -
  let ?c = "snd (open_handle new_shared_core)"
  have c: "length (sc_handles ?c) = 1" "holders_of ?c = ({0}, 0)"
    by (auto simp: open_handle_def new_shared_core_def holders_of_def)
  have ok: "shared_ok ?c"
    using c(2) by (simp add: shared_ok_def) (simp add: open_handle_def new_shared_core_def)
  show "holders_of (snd (handle_shutdown answers 0 ?c)) = ({}, 1)"
    using handle_shutdown_holders(1) [OF ok, of 0] c by (simp add: let_go_def)
  show "holders_of (snd (open_handle ?c)) = ({0, 1}, 0)"
    by (auto simp: open_handle_def new_shared_core_def holders_of_def less_Suc_eq)
qed

section \<open>The whole constructor\<close>

lemma connection_of_simps [simp]:
  "cn_address (connection_of options) = cn_address options"
  "cn_namespace (connection_of options) = cn_namespace options"
  "cn_task_queue (connection_of options) = cn_task_queue options"
  "cn_identity (connection_of options) = cn_identity options"
  "cn_tls (connection_of options) = cn_tls options"
  "cn_api_key (connection_of options) = cn_api_key options"
  by (simp_all add: connection_of_def connection.defs)

text \<open>What \<open>newWorker\<close> computes when every check before the factory passes.\<close>

lemma new_combined_worker_made:
  assumes "normalize_connection default_cv noop_codec ''worker'' (connection_of options) = Inr cn"
    and "normalize_combined_core_options (activity_options_of options) (workflow_options_of options) = Inr (a, w)"
    and "normalize_max_eager (po_max_eager options) = Inr eager"
    and "normalize_heartbeat_interval (po_heartbeat_interval options) (po_disable_heartbeat options) = Inr millis"
  shows "\<exists>k. new_combined_worker rt answers (default_factory core_error) default_cv options =
      (case core_error k of
         Some e \<Rightarrow> Some (Inl e, None)
       | None \<Rightarrow> map_option (\<lambda>(r, c). (r, Some c)) (new_with_shared_core rt answers default_cv cn a w)) \<and>
    config_for options k"
proof -
  let ?k = "\<lparr>kc_address = cn_address cn, kc_namespace = cn_namespace cn,
    kc_task_queue = cn_task_queue cn, kc_identity = cn_identity cn,
    kc_max_activities = word_of_int (ao_max_executions a),
    kc_max_activity_pollers = word_of_int (ao_max_pollers a),
    kc_max_workflow_tasks = word_of_int (wo_max_executions w),
    kc_max_workflow_pollers = word_of_int (wo_max_pollers w),
    kc_max_cached = word_of_int (wo_max_cached w), kc_max_eager = eager, kc_heartbeat_millis = millis,
    kc_tls = cn_tls cn, kc_api_key = cn_api_key cn\<rparr>"
  have fields: "cn_task_queue cn = cn_task_queue options" "cn_tls cn = cn_tls options"
      "cn_api_key cn = cn_api_key options" "cn_address cn = or_default (cn_address options) ''localhost:7233''"
      "cn_namespace cn = or_default (cn_namespace options) ''default''"
      "cn_identity cn = or_default (cn_identity options) ''go-sdk-on-wasm-core''"
    using assms(1) unfolding normalize_connection_Inr
    by (simp_all add: default_address_def default_namespace_def default_identity_def)
  have a: "sint (word_of_int (ao_max_executions a) :: 32 word) =
        (if po_max_activities options = 0 then 1000 else po_max_activities options)"
      "sint (word_of_int (ao_max_pollers a) :: 32 word) = po_max_activity_pollers options"
      "sint (word_of_int (wo_max_executions w) :: 32 word) =
        (if po_max_workflow_tasks options = 0 then 1000 else po_max_workflow_tasks options)"
      "sint (word_of_int (wo_max_pollers w) :: 32 word) = po_max_workflow_pollers options"
      "sint (word_of_int (wo_max_cached w) :: 32 word) =
        (if po_max_cached options = 0 then 32 else po_max_cached options)"
    using assms(2) unfolding normalize_combined_Inr
    by (simp_all add: sint_int32 activity_options_of_def workflow_options_of_def)
  have eager: "sint eager = (if po_max_eager options = 0 then 3 else po_max_eager options)"
    using assms(3) by (simp add: sint_int32 normalize_max_eager_Inr)
  have "sint millis = (if po_disable_heartbeat options then 0
      else if po_heartbeat_interval options = 0 then 60000 else po_heartbeat_interval options div 1000000)"
    using assms(4) by (auto simp: normalize_heartbeat_Inr max_int32_def intro!: sint_int32)
  with a eager have "config_for options ?k"
    unfolding config_for_def by (simp add: fields)
  moreover have "new_combined_worker rt answers (default_factory core_error) default_cv options =
      (case core_error ?k of
         Some e \<Rightarrow> Some (Inl e, None)
       | None \<Rightarrow> map_option (\<lambda>(r, c). (r, Some c)) (new_with_shared_core rt answers default_cv cn a w))"
    using assms(2-4)
    by (simp add: new_combined_worker_def assms(1) Let_def default_factory_def activity_options_of_def
        workflow_options_of_def connection.defs public_options.defs fields(2,3) split: option.splits)
  ultimately show ?thesis by blast
qed

lemma workflow_options_accepted_iff:
  "(\<exists>n. normalize_workflow_options w = Inr n) \<longleftrightarrow>
     (wo_max_executions w = 0 \<or> 2 \<le> wo_max_executions w \<and> wo_max_executions w \<le> max_int32) \<and>
     (wo_max_pollers w = 0 \<or> 2 \<le> wo_max_pollers w \<and> wo_max_pollers w \<le> max_int32) \<and>
     0 \<le> wo_max_cached w \<and> wo_max_cached w \<le> max_int32"
  (is "_ \<longleftrightarrow> ?ranges")
proof
  assume ?ranges
  then have "normalize_workflow_options w = Inr
      \<lparr>wc_max_executions = word_of_int (if wo_max_executions w = 0 then 1000 else wo_max_executions w),
       wc_max_pollers = word_of_int (wo_max_pollers w),
       wc_max_cached = word_of_int (if wo_max_cached w = 0 then 32 else wo_max_cached w),
       wc_tls = wo_tls w, wc_api_key = wo_api_key w\<rparr>"
    unfolding workflow_options_accepted
    by (auto simp: sint_int32)
  then show "\<exists>n. normalize_workflow_options w = Inr n" by blast
qed (auto simp: workflow_options_accepted)

lemma options_in_range_iff:
  "options_in_range options \<longleftrightarrow>
     (\<exists>cn a w n eager millis.
        normalize_connection default_cv noop_codec ''worker'' (connection_of options) = Inr cn \<and>
        normalize_combined_core_options (activity_options_of options) (workflow_options_of options) = Inr (a, w) \<and>
        normalize_max_eager (po_max_eager options) = Inr eager \<and>
        normalize_heartbeat_interval (po_heartbeat_interval options) (po_disable_heartbeat options) = Inr millis \<and>
        normalize_workflow_options w = Inr n)"
  (is "_ = ?accepted")
proof
  assume r: "options_in_range options"
  let ?w = "\<lparr>wo_max_executions = (if po_max_workflow_tasks options = 0 then 1000
                                 else po_max_workflow_tasks options),
      wo_max_pollers = po_max_workflow_pollers options,
      wo_max_cached = (if po_max_cached options = 0 then 32 else po_max_cached options),
      wo_tls = cn_tls options, wo_api_key = cn_api_key options\<rparr>"
  from r obtain a where a: "normalize_combined_core_options (activity_options_of options)
      (workflow_options_of options) = Inr (a, ?w)"
    by (auto simp: normalize_combined_Inr options_in_range_def activity_options_of_def
        workflow_options_of_def)
  from r obtain n where "normalize_workflow_options ?w = Inr n"
    using workflow_options_accepted_iff [of ?w] by (auto simp: options_in_range_def max_int32_def)
  with a r show ?accepted
    by (auto simp: options_in_range_def normalize_connection_Inr normalize_max_eager_Inr
        normalize_heartbeat_Inr)
next
  assume ?accepted
  then obtain a w where ok: "cn_task_queue options \<noteq> []"
      "normalize_combined_core_options (activity_options_of options) (workflow_options_of options) = Inr (a, w)"
      "0 \<le> po_max_eager options \<and> po_max_eager options \<le> max_int32"
      "po_disable_heartbeat options \<or> po_heartbeat_interval options = 0 \<or>
        1000000000 \<le> po_heartbeat_interval options \<and> po_heartbeat_interval options \<le> 60000000000"
      and w: "\<exists>n. normalize_workflow_options w = Inr n"
    by (auto simp: normalize_connection_Inr normalize_max_eager_Inr normalize_heartbeat_Inr)
  from w ok show "options_in_range options"
    unfolding workflow_options_accepted_iff
    by (simp add: options_in_range_def normalize_combined_Inr activity_options_of_def
        workflow_options_of_def split: if_splits)
qed

text \<open>The checks look at the given options only: normalizing the connection leaves the rest alone.\<close>

lemma new_combined_worker_checks:
  assumes "normalize_connection default_cv noop_codec ''worker'' (connection_of options) = Inr cn"
  shows "\<exists>options1. new_combined_worker rt answers factory default_cv options =
    (case normalize_combined_core_options (activity_options_of options) (workflow_options_of options) of
       Inl e \<Rightarrow> Some (Inl e, None)
     | Inr (a, w) \<Rightarrow>
         (case normalize_max_eager (po_max_eager options) of
            Inl e \<Rightarrow> Some (Inl e, None)
          | Inr eager \<Rightarrow>
              (case normalize_heartbeat_interval (po_heartbeat_interval options)
                      (po_disable_heartbeat options) of
                 Inl e \<Rightarrow> Some (Inl e, None)
               | Inr heartbeat \<Rightarrow>
                   (case factory options1 a w eager heartbeat of
                      Inl e \<Rightarrow> Some (Inl e, None)
                    | Inr False \<Rightarrow> Some (Inl (ErrNew ''combined core worker factory returned nil''), None)
                    | Inr True \<Rightarrow> map_option (\<lambda>(r, c). (r, Some c))
                        (new_with_shared_core rt answers default_cv cn a w)))))"
proof -
  let ?o = "options\<lparr>cn_address := cn_address cn, cn_namespace := cn_namespace cn,
    cn_task_queue := cn_task_queue cn, cn_identity := cn_identity cn,
    cn_payload_converter := cn_payload_converter cn, cn_payload_codec := cn_payload_codec cn\<rparr>"
  have same: "activity_options_of ?o = activity_options_of options"
      "workflow_options_of ?o = workflow_options_of options" "po_max_eager ?o = po_max_eager options"
      "po_heartbeat_interval ?o = po_heartbeat_interval options"
      "po_disable_heartbeat ?o = po_disable_heartbeat options"
    by (simp_all add: activity_options_of_def workflow_options_of_def)
  show ?thesis
    unfolding new_combined_worker_def assms sum.case Let_def same by (rule exI, rule refl)
qed

text \<open>Before the factory is called there is no Core worker to clean up.\<close>

lemma new_combined_worker_early:
  obtains (early) e where
      "new_combined_worker rt answers factory default_cv options =
         (Some (Inl e, None) :: ((goerr + ('u, 'b) public_worker) \<times> shared_core option) option)"
      "\<not> options_in_range options"
  | (checked) cn a w eager millis where
      "normalize_connection default_cv noop_codec ''worker'' (connection_of options) = Inr cn"
      "normalize_combined_core_options (activity_options_of options) (workflow_options_of options) = Inr (a, w)"
      "normalize_max_eager (po_max_eager options) = Inr eager"
      "normalize_heartbeat_interval (po_heartbeat_interval options) (po_disable_heartbeat options) = Inr millis"
proof (cases "options_in_range options")
  case True
  then show ?thesis unfolding options_in_range_iff [of _ default_cv] by (blast intro: checked)
next
  case False
  show ?thesis
  proof (cases "normalize_connection default_cv noop_codec ''worker'' (connection_of options)")
    case (Inl e)
    with False show ?thesis by (intro early [of e]) (simp_all add: new_combined_worker_def)
  next
    case cn: (Inr cn)
    from new_combined_worker_checks [OF cn, of rt answers factory] obtain options1 where
      checks: "(new_combined_worker rt answers factory default_cv options ::
          ((goerr + ('u, 'b) public_worker) \<times> shared_core option) option) =
        (case normalize_combined_core_options (activity_options_of options) (workflow_options_of options) of
           Inl e \<Rightarrow> Some (Inl e, None)
         | Inr (a, w) \<Rightarrow>
             (case normalize_max_eager (po_max_eager options) of
                Inl e \<Rightarrow> Some (Inl e, None)
              | Inr eager \<Rightarrow>
                  (case normalize_heartbeat_interval (po_heartbeat_interval options)
                          (po_disable_heartbeat options) of
                     Inl e \<Rightarrow> Some (Inl e, None)
                   | Inr heartbeat \<Rightarrow>
                       (case factory options1 a w eager heartbeat of
                          Inl e \<Rightarrow> Some (Inl e, None)
                        | Inr False \<Rightarrow> Some (Inl (ErrNew ''combined core worker factory returned nil''), None)
                        | Inr True \<Rightarrow> map_option (\<lambda>(r, c). (r, Some c))
                            (new_with_shared_core rt answers default_cv cn a w)))))" by blast
    show ?thesis
    proof (cases "normalize_combined_core_options (activity_options_of options) (workflow_options_of options)")
      case (Inl e)
      with False show ?thesis by (intro early [of e]) (simp_all add: checks)
    next
      case aw: (Inr aw)
      obtain a w where pair: "aw = (a, w)" by force
      show ?thesis
      proof (cases "normalize_max_eager (po_max_eager options)")
        case (Inl e)
        with False aw pair show ?thesis by (intro early [of e]) (simp_all add: checks)
      next
        case eager: (Inr eager)
        show ?thesis
        proof (cases "normalize_heartbeat_interval (po_heartbeat_interval options)
            (po_disable_heartbeat options)")
          case (Inl e)
          with False aw pair eager show ?thesis by (intro early [of e]) (simp_all add: checks)
        next
          case (Inr millis)
          with aw pair show ?thesis by (intro checked [OF cn _ eager]) simp_all
        qed
      qed
    qed
  qed
qed

text \<open>
  A worker with one workflow task at a time, or one workflow poller, passes the checks whose messages ask
  for a value between 1 (or 0) and the largest 32-bit integer; it is refused later, when the Core worker has been made.
\<close>

lemma one_workflow_task_refused:
  "normalize_combined_core_options a w = Inr (a', w') \<Longrightarrow>
     wo_max_executions w = 1 \<or> wo_max_pollers w = 1 \<Longrightarrow> \<nexists>n. normalize_workflow_options w' = Inr n"
  unfolding workflow_options_accepted_iff by (auto simp: normalize_combined_Inr)

text \<open>
  C39. \<open>New\<close> accepts options exactly when every one of them is in its range (after the defaults) and Core
  accepts them. Core is asked with the given numbers, none of them truncated to 32 bits. The worker
  made has a Core worker with two holders that has not been shut down; when \<open>New\<close> fails, the Core
  worker, if it was made, has been shut down once and has no holder left. \<open>New\<close> always returns.
\<close>

theorem public_worker_accepted:
  "\<exists>r c. new_combined_worker rt answers (default_factory core_error) default_cv options = Some (r, c) \<and>
    ((\<exists>w. r = Inr w) \<longleftrightarrow>
       options_in_range options \<and> (\<exists>k. config_for options k \<and> core_error k = None)) \<and>
    (case r of
       Inr w \<Rightarrow> \<exists>core. c = Some core \<and> holders_of core = ({0, 1}, 0)
     | Inl e \<Rightarrow> c = None \<or> (\<exists>core. c = Some core \<and> holders_of core = ({}, 1)))"
  (is "\<exists>r c. ?new = Some (r, c) \<and> (_ \<longleftrightarrow> ?ok) \<and> ?core r c")
proof -
  have refused: ?thesis if "?new = Some (Inl e, None)" "\<not> ?ok" for e
    using that by (intro exI [of _ "Inl e"] exI [of _ None]) simp
  consider (early) e where "?new = Some (Inl e, None)" "\<not> options_in_range options"
    | (checked) cn a w eager millis where
      "normalize_connection default_cv noop_codec ''worker'' (connection_of options) = Inr cn"
      "normalize_combined_core_options (activity_options_of options) (workflow_options_of options) = Inr (a, w)"
      "normalize_max_eager (po_max_eager options) = Inr eager"
      "normalize_heartbeat_interval (po_heartbeat_interval options) (po_disable_heartbeat options) = Inr millis"
    by (rule new_combined_worker_early)
  then show ?thesis
  proof cases
    case early
    then show ?thesis by (intro refused) simp_all
  next
    case checked
    from new_combined_worker_made [OF checked, of rt answers core_error] obtain k where
      new: "?new = (case core_error k of Some e \<Rightarrow> Some (Inl e, None)
         | None \<Rightarrow> map_option (\<lambda>(r, c). (r, Some c)) (new_with_shared_core rt answers default_cv cn a w))"
      and k: "config_for options k" by blast
    have only: "k' = k" if "config_for options k'" for k' using config_for_unique [OF that k] .
    have act: "\<exists>m. check_activity_options a = Inr m"
      using checked(2) unfolding normalize_combined_Inr
      by (auto simp: check_activity_options_def Let_def max_int32_activity_def max_int32_def)
    then obtain m where m: "check_activity_options a = Inr m" by blast
    have range: "options_in_range options \<longleftrightarrow> (\<exists>n. normalize_workflow_options w = Inr n)"
      using checked by (auto simp: options_in_range_iff [of _ default_cv])
    show ?thesis
    proof (cases "core_error k")
      case (Some e)
      with only new show ?thesis by (intro refused) auto
    next
      case None
      note result = new_with_shared_core_result [OF normalize_connection_again [OF checked(1)] m]
      show ?thesis
      proof (cases "normalize_workflow_options w")
        case (Inl e)
        with new None range show ?thesis by (simp add: result opened_holders)
      next
        case (Inr n)
        with new None range k show ?thesis by (auto simp: result opened_holders)
      qed
    qed
  qed
qed

end
