(* ===== verification/Workflow_Loop_Laws.thy ===== *)
theory Workflow_Loop_Laws
  imports Workflow_Run_Loop
begin

text \<open>
  The invariants of the workflow worker's run loop: who holds the turns of the runs, where every
  received activation is, and what the loop's flags mean; each with its preservation by every step.
\<close>

section \<open>Turns\<close>

definition held_list :: "held_turn \<Rightarrow> (string \<times> nat) list" where
  "held_list turn = (case turn of None \<Rightarrow> [] | Some x \<Rightarrow> [x])"

lemma held_list_simps [simp]: "held_list None = []" "held_list (Some x) = [x]"
  by (simp_all add: held_list_def)

definition ticket_turns :: "effect ticket \<Rightarrow> (string \<times> nat) list" where
  "ticket_turns t = (case tk_after_submit t of Some (AfterSubmission turn) \<Rightarrow> held_list turn | _ \<Rightarrow> [])"

definition turns_in :: "effect queued_ticket multiset \<Rightarrow> (string \<times> nat) multiset" where
  "turns_in E = \<Sum>\<^sub># (image_mset (\<lambda>q. mset (ticket_turns (q_ticket q))) E)"

lemma turns_in_simps [simp]:
  "turns_in {#} = {#}"
  "turns_in (add_mset q E) = mset (ticket_turns (q_ticket q)) + turns_in E"
  "turns_in (E + E') = turns_in E + turns_in E'"
  by (simp_all add: turns_in_def)

fun proc_turns :: "processor \<Rightarrow> (string \<times> nat) list" where
  "proc_turns (Waiting act turn) = held_list turn"
| "proc_turns (Reporting c run turn) = held_list turn"

fun reporting_turns :: "processor \<Rightarrow> (string \<times> nat) list" where
  "reporting_turns (Waiting act turn) = []"
| "reporting_turns (Reporting c run turn) = held_list turn"

text \<open>The holders of turns, and those that have stopped waiting for theirs.\<close>

definition holders :: "'u run_loop \<Rightarrow> (string \<times> nat) multiset" where
  "holders l = mset (concat (map proc_turns (rn_processors l))) +
     turns_in (unreleased_entries (rn_pipe l))"

definition past_waiting :: "'u run_loop \<Rightarrow> (string \<times> nat) set" where
  "past_waiting l = set (concat (map reporting_turns (rn_processors l))) \<union>
     set_mset (turns_in (unreleased_entries (rn_pipe l)))"

definition turns_held :: "'u run_loop \<Rightarrow> bool" where
  "turns_held l \<longleftrightarrow> hold_ok (ww_lanes (rn_worker l)) (holders l) (past_waiting l)"

lemma release_optional_ok:
  assumes "hold_ok (ww_lanes w) (H + mset (held_list turn)) (P \<union> set (held_list turn))"
    and "P \<subseteq> set_mset H"
  shows "\<exists>s. release_optional w turn = w\<lparr>ww_lanes := s\<rparr> \<and> hold_ok s H P"
proof (cases turn)
  case None
  with assms(1) show ?thesis by (intro exI [of _ "ww_lanes w"]) (simp add: release_optional_def)
next
  case (Some x)
  with assms(1) have h: "hold_ok (ww_lanes w) (add_mset x H) (insert x P)" by simp
  from hold_ok_release [OF h, of x "get_run w (fst x) \<noteq> None"] obtain s where
    "release_run_turn (ww_lanes w) (get_run w (fst x) \<noteq> None) (fst x) (snd x) = Some s"
    "hold_ok s H (insert x P - {x})" by auto
  moreover have "insert x P - {x} = P" using hold_ok_once [OF h] assms(2) by auto
  ultimately show ?thesis using Some by (auto simp: release_optional_def release_turn_def split: prod.splits)
qed

lemma past_held: "past_waiting l \<subseteq> set_mset (holders l)"
proof -
  have "set (reporting_turns p) \<subseteq> set (proc_turns p)" for p by (cases p) auto
  then show ?thesis by (fastforce simp: past_waiting_def holders_def)
qed

section \<open>Frames of the handlers\<close>

lemma record_error_frame [simp]:
  "rn_worker (record_error e l) = rn_worker l" "rn_processors (record_error e l) = rn_processors l"
  "rn_pipe (record_error e l) = rn_pipe l" "rn_active (record_error e l) = rn_active l"
  "rn_received (record_error e l) = rn_received l" "rn_poller (record_error e l) = rn_poller l"
  "rn_poll_open (record_error e l) = rn_poll_open l" "rn_cancelled (record_error e l) = rn_cancelled l"
  "rn_returned (record_error e l) = rn_returned l" "rn_draining (record_error e l) = rn_draining l"
  "rn_ctx_watched (record_error e l) = rn_ctx_watched l"
  "rn_poll_stopped (record_error e l) = rn_poll_stopped l"
  by (simp_all add: record_error_def split: option.splits)

lemma start_draining_frame [simp]:
  "rn_worker (start_draining e l) = rn_worker l" "rn_processors (start_draining e l) = rn_processors l"
  "rn_pipe (start_draining e l) = rn_pipe l" "rn_active (start_draining e l) = rn_active l"
  "rn_received (start_draining e l) = rn_received l" "rn_poller (start_draining e l) = rn_poller l"
  "rn_poll_open (start_draining e l) = rn_poll_open l" "rn_cancelled (start_draining e l) = rn_cancelled l"
  "rn_returned (start_draining e l) = rn_returned l" "rn_draining (start_draining e l)"
  "rn_ctx_watched (start_draining e l) = (rn_draining l \<and> rn_ctx_watched l)"
  "rn_poll_stopped (start_draining e l) = (rn_draining l \<longrightarrow> rn_poll_stopped l)"
  by (simp_all add: start_draining_def Let_def)

lemma drain_on_frame [simp]:
  "rn_worker (drain_on e l) = rn_worker l" "rn_processors (drain_on e l) = rn_processors l"
  "rn_pipe (drain_on e l) = rn_pipe l" "rn_active (drain_on e l) = rn_active l"
  "rn_received (drain_on e l) = rn_received l" "rn_poller (drain_on e l) = rn_poller l"
  "rn_poll_open (drain_on e l) = rn_poll_open l" "rn_cancelled (drain_on e l) = rn_cancelled l"
  "rn_returned (drain_on e l) = rn_returned l"
  by (simp_all add: drain_on_def split: option.splits)

text \<open>What enqueueing a completion does.\<close>

lemma enqueue_or_drain_cases:
  obtains (missing) "completion = None"
      "enqueue_or_drain wire completion turn l = start_draining
         (Some (ErrNew ''workflow activation produced no completion'')) (release_held turn l)"
  | (refused) c e where "completion = Some c"
      "enqueue_or_drain wire completion turn l = start_draining (Some e) (release_held turn
         (l\<lparr>rn_pipe := (rn_pipe l)\<lparr>s_refused := s_refused (rn_pipe l) @
             [(completion_ticket wire (worker_codec (rn_worker l)) c turn, e)]\<rparr>\<rparr>))"
      "sys_enqueue (rn_pipe l) (completion_ticket wire (worker_codec (rn_worker l)) c turn) =
         (rn_pipe l)\<lparr>s_refused := s_refused (rn_pipe l) @
            [(completion_ticket wire (worker_codec (rn_worker l)) c turn, e)]\<rparr>"
  | (accepted) c where "completion = Some c"
      "\<And>e f. snd (enqueue (s_pipe (rn_pipe l))
         (completion_ticket wire (worker_codec (rn_worker l)) c turn)) \<noteq> Refused e f"
      "enqueue_or_drain wire completion turn l = l\<lparr>rn_pipe := sys_enqueue (rn_pipe l)
         (completion_ticket wire (worker_codec (rn_worker l)) c turn)\<rparr>"
proof (cases completion)
  case None
  with missing show ?thesis
    by (simp add: enqueue_or_drain_def enqueue_workflow_completion_def drain_on_def)
next
  case (Some c)
  let ?t = "completion_ticket wire (worker_codec (rn_worker l)) c turn"
  show ?thesis
  proof (cases rule: sys_enqueue_cases [of "rn_pipe l" ?t])
    case (refused e f)
    with Some that(2) [of c e] show ?thesis
      by (simp add: enqueue_or_drain_def enqueue_workflow_completion_def drain_on_def Let_def)
  next
    case (accepted q)
    with Some that(3) [of c] show ?thesis
      by (simp add: enqueue_or_drain_def enqueue_workflow_completion_def drain_on_def Let_def
          split: enqueue_outcome.splits)
  qed
qed

lemma release_held_frame [simp]:
  "rn_processors (release_held t l) = rn_processors l" "rn_pipe (release_held t l) = rn_pipe l"
  "rn_active (release_held t l) = rn_active l" "rn_received (release_held t l) = rn_received l"
  "rn_poller (release_held t l) = rn_poller l" "rn_poll_open (release_held t l) = rn_poll_open l"
  "rn_cancelled (release_held t l) = rn_cancelled l" "rn_returned (release_held t l) = rn_returned l"
  "rn_draining (release_held t l) = rn_draining l" "rn_ctx_watched (release_held t l) = rn_ctx_watched l"
  "rn_poll_stopped (release_held t l) = rn_poll_stopped l" "rn_first_err (release_held t l) = rn_first_err l"
  "rn_later_err (release_held t l) = rn_later_err l"
  "rn_worker (release_held t l) = release_optional (rn_worker l) t"
  by (simp_all add: release_held_def)

lemma enqueue_or_drain_frame [simp]:
  "rn_processors (enqueue_or_drain wire c turn l) = rn_processors l"
  "rn_active (enqueue_or_drain wire c turn l) = rn_active l"
  "rn_received (enqueue_or_drain wire c turn l) = rn_received l"
  "rn_poller (enqueue_or_drain wire c turn l) = rn_poller l"
  "rn_poll_open (enqueue_or_drain wire c turn l) = rn_poll_open l"
  "rn_cancelled (enqueue_or_drain wire c turn l) = rn_cancelled l"
  "rn_returned (enqueue_or_drain wire c turn l) = rn_returned l"
  by (cases rule: enqueue_or_drain_cases [of c wire turn l]; simp)+

lemma ticket_turns_completion [simp]: "ticket_turns (completion_ticket wire codec c turn) = held_list turn"
  by (simp add: ticket_turns_def completion_ticket_def Let_def)

text \<open>The turn passes from the caller to the ticket, or is released.\<close>

lemma enqueue_or_drain_turns:
  assumes "hold_ok (ww_lanes (rn_worker l)) (holders l + mset (held_list turn))
     (past_waiting l \<union> set (held_list turn))"
  shows "turns_held (enqueue_or_drain wire completion turn l)"
proof -
  from release_optional_ok [OF assms past_held] obtain s where
    s: "release_optional (rn_worker l) turn = (rn_worker l)\<lparr>ww_lanes := s\<rparr>"
    and h: "hold_ok s (holders l) (past_waiting l)" by blast
  show ?thesis
  proof (cases rule: enqueue_or_drain_cases [of completion wire turn l])
    case missing
    with s h show ?thesis by (simp add: turns_held_def holders_def past_waiting_def)
  next
    case (refused c e)
    with s h show ?thesis by (simp add: turns_held_def holders_def past_waiting_def)
  next
    case (accepted c)
    let ?t = "completion_ticket wire (worker_codec (rn_worker l)) c turn"
    have "turns_in (unreleased_entries (sys_enqueue (rn_pipe l) ?t)) =
        turns_in (unreleased_entries (rn_pipe l)) + mset (held_list turn)"
      using accepted(2)
      by (cases rule: sys_enqueue_cases [of "rn_pipe l" ?t]) (auto simp: unreleased_entries_def)
    with assms show ?thesis
      by (simp add: accepted(3) turns_held_def holders_def past_waiting_def ac_simps Un_assoc)
  qed
qed

lemma turns_held_frame:
  "ww_lanes (rn_worker l') = ww_lanes (rn_worker l) \<Longrightarrow>
   mset (concat (map proc_turns (rn_processors l'))) = mset (concat (map proc_turns (rn_processors l))) \<Longrightarrow>
   set (concat (map reporting_turns (rn_processors l'))) = set (concat (map reporting_turns (rn_processors l))) \<Longrightarrow>
   unreleased_entries (rn_pipe l') = unreleased_entries (rn_pipe l) \<Longrightarrow> turns_held l \<Longrightarrow> turns_held l'"
  by (simp add: turns_held_def holders_def past_waiting_def)

lemma dispatch_turns:
  assumes "turns_held l"
  shows "turns_held (dispatch_activation wire act l)"
proof (cases "rn_active l \<ge> workflow_completion_limit (rn_worker l)")
  case True
  then show ?thesis
    using enqueue_or_drain_turns [of "start_draining (Some (over_limit_error l)) l" None] assms
    by (simp add: dispatch_activation_def Let_def turns_held_def holders_def past_waiting_def)
next
  case False
  show ?thesis
  proof (cases "at_run_id act = []")
    case True
    with False assms show ?thesis
      by (simp add: dispatch_activation_def Let_def turns_held_def holders_def past_waiting_def)
  next
    case run: False
    obtain t s where r: "reserve_run_turn (ww_lanes (rn_worker l)) (at_run_id act) = (t, s)" by force
    from hold_ok_reserve [OF _ r] assms
    have "hold_ok s (add_mset (at_run_id act, t) (holders l)) (past_waiting l)"
      by (simp add: turns_held_def)
    with False run r show ?thesis
      by (simp add: dispatch_activation_def Let_def turns_held_def holders_def past_waiting_def
          reserve_turn_def)
  qed
qed

lemma handle_poll_event_turns: "turns_held l \<Longrightarrow> turns_held (handle_poll_event wire event l)"
  using enqueue_or_drain_turns [of l None] dispatch_turns [of l wire]
  by (auto simp: handle_poll_event_def turns_held_def holders_def past_waiting_def split: option.splits)

text \<open>Once nothing is outstanding, no ticket holds a turn.\<close>

lemma no_entries:
  assumes "pipe_inv s" and "p_outstanding (s_pipe s) = 0"
  shows "unreleased_entries s = {#}" "p_queue (s_pipe s) = []" "concat (map held (s_procs s)) = []"
proof -
  from pipe_invD(3) [OF assms(1)] assms(2) have live: "live s = []" by (simp add: budget_ok_def)
  then show q: "p_queue (s_pipe s) = []" and h: "concat (map held (s_procs s)) = []"
    by (simp_all add: live_def)
  have "unafter p = []" if "held p = []" for p :: "'a proc" using that by (cases p) auto
  with h have "concat (map unafter (s_procs s)) = []" by auto
  with q show "unreleased_entries s = {#}" by (simp add: unreleased_entries_def)
qed

lemma handle_poll_closed_frame [simp]:
  "rn_worker (handle_poll_closed l) = rn_worker l"
  "rn_processors (handle_poll_closed l) = rn_processors l" "rn_pipe (handle_poll_closed l) = rn_pipe l"
  "rn_active (handle_poll_closed l) = rn_active l" "rn_received (handle_poll_closed l) = rn_received l"
  "rn_poller (handle_poll_closed l) = rn_poller l" "\<not> rn_poll_open (handle_poll_closed l)"
  "rn_cancelled (handle_poll_closed l) = rn_cancelled l"
  "rn_returned (handle_poll_closed l) = rn_returned l" "rn_draining (handle_poll_closed l)"
  by (simp_all add: handle_poll_closed_def Let_def)

lemma handle_completion_result_frame [simp]:
  "rn_worker (handle_completion_result r rs l) = rn_worker l"
  "rn_processors (handle_completion_result r rs l) = rn_processors l"
  "rn_pipe (handle_completion_result r rs l) = take_result (rn_pipe l) r rs"
  "rn_active (handle_completion_result r rs l) = rn_active l"
  "rn_received (handle_completion_result r rs l) = rn_received l"
  "rn_poller (handle_completion_result r rs l) = rn_poller l"
  "rn_poll_open (handle_completion_result r rs l) = rn_poll_open l"
  "rn_cancelled (handle_completion_result r rs l) = rn_cancelled l"
  "rn_returned (handle_completion_result r rs l) = rn_returned l"
  by (simp_all add: handle_completion_result_def)

lemma process_activation_lanes:
  assumes "process_activation rt vars w act = Some (w', c)"
  shows "ww_lanes w' = ww_lanes w" "ww_codec w' = ww_codec w" "ww_max_executions w' = ww_max_executions w"
    "cp_run_id c = at_run_id act"
proof -
  have only: "only_run (at_run_id act) w w'" by (rule process_activation_only [OF assms])
  from only have "w' = w\<lparr>ww_runs := ww_runs w'\<rparr>" by (simp add: only_run_def)
  then show "ww_lanes w' = ww_lanes w" "ww_codec w' = ww_codec w" "ww_max_executions w' = ww_max_executions w"
    by (metis workflow_worker.ext_inject workflow_worker.surjective workflow_worker.update_convs(6))+
  show "cp_run_id c = at_run_id act" by (rule process_activation_run_id [OF assms])
qed

text \<open>The results in the channel have not been finalised; what finishes is done.\<close>

lemma results_fresh: "pipe_inv s \<Longrightarrow> p_results (s_pipe s) = r # rs \<Longrightarrow> \<not> r_finalized r"
  using pipe_invD(2) [of s] by (simp add: slots_ok_def)

lemma finish_Some:
  "finish rt answer l = Some l' \<Longrightarrow> \<exists>w e. worker_shutdown rt answer (rn_worker l) = Some (e, w) \<and>
     l' = l\<lparr>rn_worker := w, rn_returned := Some (errors_join [rn_first_err l, rn_later_err l, e])\<rparr>"
  by (auto simp: finish_def)

lemma worker_shutdown_Some:
  assumes "worker_shutdown rt answer w = Some (e, w')"
  shows "\<exists>s. w' = w\<lparr>ww_runs := [], ww_lanes := (ww_lanes w)\<lparr>rl_locks := []\<rparr>, ww_shutdown := s\<rparr>"
proof -
  from assms obtain w1 where s: "stop_all_runs rt w = Some w1" and d: "shutdown_core answer w1 = (e, w')"
    by (auto simp: worker_shutdown_def)
  from d have "w' = w1\<lparr>ww_shutdown := Some e\<rparr>"
    by (cases w1) (auto simp: shutdown_core_def Let_def split: option.splits)
  with stop_all_runs_Some [OF s] show ?thesis by auto
qed

lemma turns_held_internal:
  assumes "loop_internal rt vars wire l l'" and "turns_held l" and "pipe_inv (rn_pipe l)"
    and "rn_active l = int (length (rn_processors l))"
  shows "turns_held l'"
  using assms
proof (induction rule: loop_internal.induct)
  case (ctx_done l)
  then show ?case by (auto intro: turns_held_frame [of _ l])
next
  case (poll_event l event)
  then show ?case by (intro handle_poll_event_turns) (auto intro: turns_held_frame [of _ l])
next
  case (poll_closed l)
  then show ?case by (auto intro: turns_held_frame [of _ l])
next
  case (processor_result l ps c run turn qs)
  have "hold_ok (ww_lanes (rn_worker l))
      (holders (l\<lparr>rn_processors := ps @ qs, rn_active := rn_active l - 1\<rparr>) + mset (held_list turn))
      (past_waiting (l\<lparr>rn_processors := ps @ qs, rn_active := rn_active l - 1\<rparr>) \<union> set (held_list turn))"
    using processor_result.hyps(3) processor_result.prems(1)
    by (simp add: turns_held_def holders_def past_waiting_def ac_simps Un_ac)
  with enqueue_or_drain_turns [of "l\<lparr>rn_processors := ps @ qs, rn_active := rn_active l - 1\<rparr>" turn]
  show ?case by (simp add: handle_processor_result_def)
next
  case (completion_result l r rs)
  with results_fresh [OF completion_result.prems(2) completion_result.hyps(3)]
  show ?case by (auto intro!: turns_held_frame [of _ l] simp: unreleased_take)
next
  case (finished l answer l')
  then have "rn_processors l = []" and out: "p_outstanding (s_pipe (rn_pipe l)) = 0"
    by (simp_all add: should_finish_def)
  with no_entries(1) [OF finished.prems(2) out]
  have none: "holders l = {#}" "past_waiting l = {}" by (simp_all add: holders_def past_waiting_def)
  from finish_Some [OF finished.hyps(3)] obtain w e where
    s: "worker_shutdown rt answer (rn_worker l) = Some (e, w)" and
    l: "l' = l\<lparr>rn_worker := w, rn_returned := Some (errors_join [rn_first_err l, rn_later_err l, e])\<rparr>"
    by blast
  from worker_shutdown_Some [OF s] l have
    l': "rn_pipe l' = rn_pipe l" "rn_processors l' = rn_processors l"
      "ww_lanes (rn_worker l') = (ww_lanes (rn_worker l))\<lparr>rl_locks := []\<rparr>" by auto
  have same: "holders l' = holders l" "past_waiting l' = past_waiting l"
    using l' by (simp_all add: holders_def past_waiting_def)
  show ?case using finished.prems(1) none hold_ok_unlock by (simp add: turns_held_def same l'(3))
next
  case (processed l ps act turn qs w c)
  have h: "hold_ok (ww_lanes (rn_worker l)) (holders l) (past_waiting l)"
    using processed.prems(1) by (simp add: turns_held_def)
  have "hold_ok (ww_lanes (rn_worker l)) (holders l) (past_waiting l \<union> set (held_list turn))"
  proof (cases turn)
    case (Some x)
    then have "x \<in># holders l" using processed.hyps(1) by (simp add: holders_def)
    moreover have "turn_ready (ww_lanes (rn_worker l)) (snd x)"
      using processed.hyps(2) Some by (cases x) (simp add: turn_available_def)
    ultimately show ?thesis using hold_ok_past [OF h] Some by simp
  qed (use h in simp)
  with processed.hyps(1) process_activation_lanes(1) [OF processed.hyps(3)] show ?case
    by (simp add: turns_held_def holders_def past_waiting_def Un_ac)
next
  case (submitted l ps q qs run m complete)
  then show ?case by (auto intro!: turns_held_frame [of _ l] simp: unreleased_submit)
next
  case (after_submitted l ps q e qs turn)
  let ?l = "l\<lparr>rn_pipe := (rn_pipe l)\<lparr>s_procs := ps @ SendingResult q e # qs\<rparr>\<rparr>"
  have tt: "ticket_turns (q_ticket q) = held_list turn"
    using after_submitted.hyps(2) by (simp add: ticket_turns_def)
  have "hold_ok (ww_lanes (rn_worker ?l)) (holders ?l + mset (held_list turn))
      (past_waiting ?l \<union> set (held_list turn))"
    using after_submitted.prems(1) unreleased_after [OF after_submitted.hyps(1)] tt
    by (simp add: turns_held_def holders_def past_waiting_def ac_simps Un_ac)
  from release_optional_ok [OF this past_held] show ?case
    by (auto simp: turns_held_def holders_def past_waiting_def)
next
  case (result_sent l ps q e qs)
  then have "unreleased_entries (rn_pipe l) = mset (p_queue (s_pipe (rn_pipe l))) +
      mset (concat (map unafter (ps @ qs)))"
    by (simp add: unreleased_entries_def)
  with result_sent show ?case
    by (auto intro!: turns_held_frame [of _ l] simp: unreleased_entries_def)
next
  case (slot_freed l ps qs)
  then show ?case by (auto intro!: turns_held_frame [of _ l] simp: unreleased_finish)
next
  case (poller_left l event)
  then show ?case by (auto intro: turns_held_frame [of _ l])
qed

end
