(* ===== verification/Workflow_Loop_Books.thy ===== *)
theory Workflow_Loop_Books
  imports Workflow_Loop_Laws
begin

text \<open>
  The bookkeeping of the workflow worker's run loop: its pipeline is only changed by the pipeline's
  steps, every activation it received is being processed or has been answered, and its flags and
  errors agree with each other.
\<close>

section \<open>The pipeline\<close>

lemma pipe_enqueue_or_drain: "pipe_step\<^sup>*\<^sup>* (rn_pipe l) (rn_pipe (enqueue_or_drain wire c turn l))"
proof (cases rule: enqueue_or_drain_cases [of c wire turn l])
  case (refused d e)
  show ?thesis unfolding refused(2)
    by (simp add: refused(3) [symmetric]) (auto intro: pipe_step.enqueue)
qed (auto intro: pipe_step.enqueue)

lemma pipe_dispatch: "pipe_step\<^sup>*\<^sup>* (rn_pipe l) (rn_pipe (dispatch_activation wire act l))"
  using pipe_enqueue_or_drain [of "start_draining (Some (over_limit_error l)) l"]
  by (auto simp: dispatch_activation_def Let_def split: prod.splits)

lemma pipe_poll_event: "pipe_step\<^sup>*\<^sup>* (rn_pipe l) (rn_pipe (handle_poll_event wire event l))"
  using pipe_enqueue_or_drain pipe_dispatch by (auto simp: handle_poll_event_def split: option.splits)

lemma pipe_internal_step: "loop_internal rt vars wire l l' \<Longrightarrow> pipe_step\<^sup>*\<^sup>* (rn_pipe l) (rn_pipe l')"
proof (induction rule: loop_internal.induct)
  case (poll_event l event)
  then show ?case using pipe_poll_event [of "l\<lparr>rn_poller := _, rn_received := _\<rparr>"] by fastforce
next
  case (processor_result l ps c run turn qs)
  then show ?case
    using pipe_enqueue_or_drain [of "l\<lparr>rn_processors := ps @ qs, rn_active := rn_active l - 1\<rparr>"]
    by (simp add: handle_processor_result_def)
next
  case (completion_result l r rs)
  then show ?case using take_result_steps by simp
next
  case (finished l answer l')
  then show ?case by (auto dest: finish_Some)
next
  case (submitted l ps q qs run m complete)
  then show ?case by (auto intro!: pipe_step.internal pipe_internal.submit)
next
  case (after_submitted l ps q e qs turn)
  then show ?case by (auto intro!: pipe_step.internal pipe_internal.after_submit)
next
  case (result_sent l ps q e qs)
  then show ?case by (auto intro!: pipe_step.internal pipe_internal.send)
next
  case (slot_freed l ps qs)
  then show ?case by (auto intro!: pipe_step.internal pipe_internal.finish)
qed auto

definition loop_step :: "runtime \<Rightarrow> 'u \<Rightarrow> wire \<Rightarrow> 'u run_loop \<Rightarrow> 'u run_loop \<Rightarrow> bool" where
  "loop_step rt vars wire l l' \<longleftrightarrow> loop_internal rt vars wire l l' \<or> loop_external wire l l'"

interpretation workflow_pipe: pipe_owner rn_pipe "\<lambda>l. \<exists>w. idle_worker rt w \<and> l = new_run_loop w"
  "loop_step rt vars wire" for rt vars wire
proof
  show "\<exists>w. idle_worker rt w \<and> l = new_run_loop w \<Longrightarrow> \<exists>limit. rn_pipe l = initial_psys limit []"
    for l :: "'a run_loop"
    by (auto simp: new_run_loop_def)
  show "loop_step rt vars wire l l' \<Longrightarrow> pipe_step\<^sup>*\<^sup>* (rn_pipe l) (rn_pipe l')"
    for l l' :: "'a run_loop"
    by (auto simp: loop_step_def pipe_internal_step elim: loop_external.cases)
qed

lemma loop_reachable_steps:
  "loop_reachable rt vars wire l \<Longrightarrow>
     \<exists>l0. (\<exists>w. idle_worker rt w \<and> l0 = new_run_loop w) \<and> (loop_step rt vars wire)\<^sup>*\<^sup>* l0 l"
proof (induction rule: loop_reachable.induct)
  case (started w)
  then show ?case by blast
next
  case (internal l l')
  then show ?case by (metis loop_step_def rtranclp.rtrancl_into_rtrancl)
next
  case (external l l')
  then show ?case by (metis loop_step_def rtranclp.rtrancl_into_rtrancl)
qed

lemma loop_pipe_inv: "loop_reachable rt vars wire l \<Longrightarrow> pipe_inv (rn_pipe l)"
  using loop_reachable_steps workflow_pipe.inv_reachable by metis

section \<open>Processors\<close>

lemma limit_frame:
  "ww_max_executions w' = ww_max_executions w \<Longrightarrow> workflow_completion_limit w' = workflow_completion_limit w"
  by (simp add: workflow_completion_limit_def)

lemma release_optional_limit [simp]: "ww_max_executions (release_optional w turn) = ww_max_executions w"
  by (auto simp: release_optional_def release_turn_def split: option.splits)

lemma enqueue_or_drain_limit [simp]:
  "ww_max_executions (rn_worker (enqueue_or_drain wire c turn l)) = ww_max_executions (rn_worker l)"
  by (cases rule: enqueue_or_drain_cases [of c wire turn l]) simp_all

lemma loop_limit: "loop_internal rt vars wire l l' \<Longrightarrow>
   workflow_completion_limit (rn_worker l') = workflow_completion_limit (rn_worker l)"
proof (rule limit_frame, induction rule: loop_internal.induct)
  case (poll_event l event)
  show ?case
    by (auto simp: handle_poll_event_def dispatch_activation_def Let_def reserve_turn_def
        split: option.splits prod.splits)
next
  case (processor_result l ps c run turn qs)
  show ?case by (simp add: handle_processor_result_def)
next
  case (finished l answer l')
  then show ?case by (auto dest!: finish_Some worker_shutdown_Some)
next
  case (processed l ps act turn qs w c)
  then show ?case using process_activation_lanes(3) by auto
qed simp_all

definition processors_ok :: "'u run_loop \<Rightarrow> bool" where
  "processors_ok l \<longleftrightarrow>
     rn_active l = int (length (rn_processors l)) \<and>
     rn_active l \<le> workflow_completion_limit (rn_worker l) \<and>
     (\<forall>run turn. Reporting None run turn \<notin> set (rn_processors l))"

lemma processors_ok_frame:
  "rn_active l' = rn_active l \<Longrightarrow> rn_processors l' = rn_processors l \<Longrightarrow>
   workflow_completion_limit (rn_worker l') = workflow_completion_limit (rn_worker l) \<Longrightarrow>
   processors_ok l \<Longrightarrow> processors_ok l'"
  by (simp add: processors_ok_def)

lemma processors_ok_event:
  assumes "processors_ok l"
  shows "processors_ok (handle_poll_event wire event l)"
  using assms
  by (auto simp: handle_poll_event_def dispatch_activation_def Let_def reserve_turn_def processors_ok_def
      workflow_completion_limit_def split: option.splits prod.splits)

lemma processors_ok_internal:
  assumes "loop_internal rt vars wire l l'" and "processors_ok l"
  shows "processors_ok l'"
  using assms loop_limit [OF assms(1)]
proof (induction rule: loop_internal.induct)
  case (poll_event l event)
  then show ?case
    by (intro processors_ok_event) (simp add: processors_ok_def)
next
  case (processor_result l ps c run turn qs)
  then show ?case
    by (simp add: processors_ok_def handle_processor_result_def workflow_completion_limit_def)
next
  case (finished l answer l')
  then show ?case by (auto simp: processors_ok_def dest!: finish_Some)
next
  case (processed l ps act turn qs w c)
  then show ?case by (auto simp: processors_ok_def)
qed (auto intro: processors_ok_frame)

section \<open>Answers\<close>

definition ticket_run :: "effect ticket \<Rightarrow> string" where
  "ticket_run t = (case tk_submit t of Some (SubmitCompletion run m) \<Rightarrow> run | _ \<Rightarrow> [])"

fun proc_run :: "processor \<Rightarrow> string" where
  "proc_run (Waiting act turn) = at_run_id act"
| "proc_run (Reporting c run turn) = (case c of None \<Rightarrow> run | Some d \<Rightarrow> cp_run_id d)"

text \<open>
  Every activation received, by its run: in a processor, answered by an accepted ticket, or answered by
  a ticket the pipeline refused.
\<close>

definition answers_ok :: "'u run_loop \<Rightarrow> bool" where
  "answers_ok l \<longleftrightarrow>
     mset (map at_run_id (rn_received l)) =
       mset (map proc_run (rn_processors l)) +
       mset (map (\<lambda>q. ticket_run (q_ticket q)) (s_accepted (rn_pipe l))) +
       mset (map (\<lambda>te. ticket_run (fst te)) (s_refused (rn_pipe l)))"

lemma answers_ok_frame:
  "rn_received l' = rn_received l \<Longrightarrow> mset (map proc_run (rn_processors l')) = mset (map proc_run (rn_processors l)) \<Longrightarrow>
   s_accepted (rn_pipe l') = s_accepted (rn_pipe l) \<Longrightarrow> s_refused (rn_pipe l') = s_refused (rn_pipe l) \<Longrightarrow>
   answers_ok l \<Longrightarrow> answers_ok l'"
  by (simp add: answers_ok_def)

lemma ticket_run_completion [simp]: "ticket_run (completion_ticket wire codec c turn) = cp_run_id c"
  by (simp add: ticket_run_def completion_ticket_def Let_def)

text \<open>Enqueueing a completion answers one activation of its run.\<close>

lemma answers_ok_enqueue:
  assumes "mset (map at_run_id (rn_received l)) = add_mset (cp_run_id c)
       (mset (map proc_run (rn_processors l)) +
        mset (map (\<lambda>q. ticket_run (q_ticket q)) (s_accepted (rn_pipe l))) +
        mset (map (\<lambda>te. ticket_run (fst te)) (s_refused (rn_pipe l))))"
  shows "answers_ok (enqueue_or_drain wire (Some c) turn l)"
proof (cases rule: enqueue_or_drain_cases [of "Some c" wire turn l])
  case (refused d e)
  with assms show ?thesis by (simp add: answers_ok_def)
next
  case (accepted d)
  let ?t = "completion_ticket wire (worker_codec (rn_worker l)) d turn"
  show ?thesis
    by (cases rule: sys_enqueue_cases [of "rn_pipe l" ?t])
      (use assms accepted in \<open>auto simp: answers_ok_def\<close>)
qed simp

lemma answers_ok_event:
  assumes "mset (map at_run_id (rn_received l)) = mset (map at_run_id (received event)) +
       (mset (map proc_run (rn_processors l)) +
        mset (map (\<lambda>q. ticket_run (q_ticket q)) (s_accepted (rn_pipe l))) +
        mset (map (\<lambda>te. ticket_run (fst te)) (s_refused (rn_pipe l))))"
  shows "answers_ok (handle_poll_event wire event l)"
proof (cases "pe_err event")
  case (Some e)
  with assms show ?thesis by (simp add: handle_poll_event_def answers_ok_def received_def)
next
  case ok: None
  show ?thesis
  proof (cases "pe_activation event")
    case None
    with ok assms show ?thesis by (simp add: handle_poll_event_def answers_ok_def received_def)
  next
    case (Some act)
    with assms ok have one: "mset (map at_run_id (rn_received l)) = add_mset (at_run_id act)
       (mset (map proc_run (rn_processors l)) +
        mset (map (\<lambda>q. ticket_run (q_ticket q)) (s_accepted (rn_pipe l))) +
        mset (map (\<lambda>te. ticket_run (fst te)) (s_refused (rn_pipe l))))"
      by (simp add: received_def)
    show ?thesis
    proof (cases "pe_codec_err event")
      case (Some e)
      with \<open>pe_activation event = Some act\<close> ok show ?thesis
        using answers_ok_enqueue [of l "failed_activation (at_run_id act) e"] one
        by (simp add: handle_poll_event_def failed_activation_def)
    next
      case None
      have "answers_ok (dispatch_activation wire act l)"
        using answers_ok_enqueue [of "start_draining (Some (over_limit_error l)) l"
            "failed_activation (at_run_id act) (over_limit_error l)"] one
        by (auto simp: dispatch_activation_def Let_def answers_ok_def failed_activation_def split: prod.splits)
      with \<open>pe_activation event = Some act\<close> ok None show ?thesis by (simp add: handle_poll_event_def)
    qed
  qed
qed

lemma answers_ok_internal:
  assumes "loop_internal rt vars wire l l'" and "answers_ok l" and "processors_ok l"
    and "pipe_inv (rn_pipe l)"
  shows "answers_ok l'"
  using assms
proof (induction rule: loop_internal.induct)
  case (poll_event l event)
  then show ?case by (intro answers_ok_event) (simp add: answers_ok_def)
next
  case (processor_result l ps c run turn qs)
  then obtain d where d: "c = Some d" by (cases c) (auto simp: processors_ok_def)
  with processor_result show ?case
    unfolding handle_processor_result_def d
    by (intro answers_ok_enqueue) (simp add: answers_ok_def ac_simps)
next
  case (completion_result l r rs)
  with results_fresh [OF completion_result.prems(3) completion_result.hyps(3)] show ?case
    by (simp add: answers_ok_def take_result_frame)
next
  case (finished l answer l')
  then show ?case by (auto simp: answers_ok_def dest!: finish_Some)
next
  case (processed l ps act turn qs w c)
  with process_activation_lanes(4) [OF processed.hyps(3)] show ?case by (simp add: answers_ok_def)
qed (auto simp: answers_ok_def)

section \<open>Flags and errors\<close>

definition drain_ok :: "'u run_loop \<Rightarrow> bool" where
  "drain_ok l \<longleftrightarrow>
     (rn_ctx_watched l \<longleftrightarrow> \<not> rn_draining l) \<and> (rn_poll_stopped l \<longleftrightarrow> rn_draining l) \<and>
     (rn_first_err l \<noteq> None \<longrightarrow> rn_draining l) \<and>
     (rn_later_err l \<noteq> None \<longrightarrow> rn_first_err l \<noteq> None) \<and>
     (s_refused (rn_pipe l) \<noteq> [] \<longrightarrow> rn_first_err l \<noteq> None) \<and>
     (rn_poll_open l \<or> rn_poller l = PollEnded \<and> rn_draining l) \<and>
     (\<forall>r \<in> set (s_taken (rn_pipe l)). r_finalized r \<and> (r_err r \<noteq> None \<longrightarrow> rn_first_err l \<noteq> None)) \<and>
     map r_entry (s_taken (rn_pipe l)) = s_finalized (rn_pipe l)"

lemma start_draining_errors [simp]:
  "rn_first_err (start_draining e l) = (if rn_first_err l = None then e else rn_first_err l)"
  "rn_later_err (start_draining e l) =
     (if rn_first_err l = None \<or> e = None then rn_later_err l else errors_join [rn_later_err l, e])"
  by (auto simp: start_draining_def record_error_def Let_def split: option.splits)

lemma drain_on_errors [simp]:
  "rn_first_err (drain_on e l) = (if rn_first_err l = None then e else rn_first_err l)"
  "rn_later_err (drain_on e l) =
     (if rn_first_err l = None \<or> e = None then rn_later_err l else errors_join [rn_later_err l, e])"
  "rn_draining (drain_on e l) = (rn_draining l \<or> e \<noteq> None)"
  "rn_ctx_watched (drain_on e l) = (if e = None then rn_ctx_watched l else rn_draining l \<and> rn_ctx_watched l)"
  "rn_poll_stopped (drain_on e l) = (if e = None then rn_poll_stopped l else rn_draining l \<longrightarrow> rn_poll_stopped l)"
  by (auto simp: drain_on_def split: option.splits)

lemma drain_ok_start: "drain_ok l \<Longrightarrow> drain_ok (start_draining e l)"
  by (auto simp: drain_ok_def)

lemma drain_ok_enqueue:
  assumes "drain_ok l"
  shows "drain_ok (enqueue_or_drain wire c turn l)"
proof (cases rule: enqueue_or_drain_cases [of c wire turn l])
  case missing
  with assms show ?thesis by (auto simp: drain_ok_def)
next
  case (refused d e)
  with assms show ?thesis by (auto simp: drain_ok_def)
next
  case (accepted d)
  let ?t = "completion_ticket wire (worker_codec (rn_worker l)) d turn"
  show ?thesis
    by (cases rule: sys_enqueue_cases [of "rn_pipe l" ?t])
      (use assms accepted in \<open>auto simp: drain_ok_def\<close>)
qed

lemma drain_ok_active [simp]:
  "drain_ok (l\<lparr>rn_active := n\<rparr>) = drain_ok l" "drain_ok (l\<lparr>rn_worker := w\<rparr>) = drain_ok l"
  "drain_ok (l\<lparr>rn_processors := ps\<rparr>) = drain_ok l" "drain_ok (release_held turn l) = drain_ok l"
  by (simp_all add: drain_ok_def)

lemma drain_ok_dispatch: "drain_ok l \<Longrightarrow> drain_ok (dispatch_activation wire act l)"
  by (simp add: dispatch_activation_def Let_def drain_ok_enqueue drain_ok_start split: prod.splits)

lemma drain_ok_event: "drain_ok l \<Longrightarrow> drain_ok (handle_poll_event wire event l)"
  by (simp add: handle_poll_event_def drain_ok_start drain_ok_enqueue drain_ok_dispatch split: option.splits)

lemma drain_ok_internal:
  assumes "loop_internal rt vars wire l l'" and "drain_ok l" and "pipe_inv (rn_pipe l)"
  shows "drain_ok l'"
  using assms
proof (induction rule: loop_internal.induct)
  case (ctx_done l)
  then show ?case by (simp add: drain_ok_start)
next
  case (poll_event l event)
  then show ?case by (intro drain_ok_event) (simp add: drain_ok_def)
next
  case (poll_closed l)
  then show ?case by (auto simp: drain_ok_def handle_poll_closed_def Let_def)
next
  case (processor_result l ps c run turn qs)
  then show ?case by (simp add: handle_processor_result_def drain_ok_enqueue)
next
  case (completion_result l r rs)
  with results_fresh [OF completion_result.prems(2) completion_result.hyps(3)] show ?case
    by (auto simp: drain_ok_def handle_completion_result_def take_result_frame)
next
  case (finished l answer l')
  then show ?case by (auto simp: drain_ok_def dest!: finish_Some)
qed (auto simp: drain_ok_def)

text \<open>Errors and draining are never forgotten.\<close>

lemma errors_kept:
  assumes "loop_internal rt vars wire l l'"
  shows "(rn_draining l \<longrightarrow> rn_draining l') \<and> (rn_first_err l = Some e \<longrightarrow> rn_first_err l' = Some e)"
proof -
  have enq: "(rn_draining l \<longrightarrow> rn_draining (enqueue_or_drain wire c turn l)) \<and>
      (rn_first_err l = Some e \<longrightarrow> rn_first_err (enqueue_or_drain wire c turn l) = Some e)" for c turn and l :: "'a run_loop"
    by (cases rule: enqueue_or_drain_cases [of c wire turn l]) simp_all
  have disp: "(rn_draining l \<longrightarrow> rn_draining (dispatch_activation wire act l)) \<and>
      (rn_first_err l = Some e \<longrightarrow> rn_first_err (dispatch_activation wire act l) = Some e)" for act and l :: "'a run_loop"
    using enq [of "start_draining (Some (over_limit_error l)) l"]
    by (auto simp: dispatch_activation_def Let_def split: prod.splits)
  have event: "(rn_draining l \<longrightarrow> rn_draining (handle_poll_event wire event l)) \<and>
      (rn_first_err l = Some e \<longrightarrow> rn_first_err (handle_poll_event wire event l) = Some e)" for event and l :: "'a run_loop"
    using enq disp by (auto simp: handle_poll_event_def split: option.splits)
  from assms show ?thesis
  proof (induction rule: loop_internal.induct)
    case (poll_event l event)
    show ?case using event [of "l\<lparr>rn_poller := _, rn_received := _\<rparr>"] by fastforce
  next
    case (processor_result l ps c run turn qs)
    show ?case using enq [of "l\<lparr>rn_processors := ps @ qs, rn_active := rn_active l - 1\<rparr>"]
      by (simp add: handle_processor_result_def)
  next
    case (finished l answer l')
    then show ?case by (auto dest!: finish_Some)
  qed (auto simp: handle_poll_closed_def handle_completion_result_def Let_def)
qed

text \<open>A loop that has returned had finished, and stays so.\<close>

definition ended_ok :: "'u run_loop \<Rightarrow> bool" where
  "ended_ok l \<longleftrightarrow> (\<forall>answer. rn_returned l = Some answer \<longrightarrow> should_finish l \<and>
     (\<exists>e. answer = errors_join [rn_first_err l, rn_later_err l, e]))"

lemma ended_ok_internal:
  assumes "loop_internal rt vars wire l l'" and "ended_ok l" and "pipe_inv (rn_pipe l)"
    and "drain_ok l" and "processors_ok l"
  shows "ended_ok l'"
proof (cases "rn_returned l")
  case None
  with assms(1) show ?thesis
    by (induction rule: loop_internal.induct)
      (auto simp: ended_ok_def handle_processor_result_def should_finish_def handle_poll_event_def
        dispatch_activation_def Let_def dest!: finish_Some split: option.splits prod.splits)
next
  case (Some res)
  with assms have fin: "should_finish l"
    and res: "\<exists>e. res = errors_join [rn_first_err l, rn_later_err l, e]" by (simp_all add: ended_ok_def)
  then have idle: "concat (map held (s_procs (rn_pipe l))) = []" "rn_processors l = []"
    using no_entries(3) [OF assms(3)] assms(5) by (auto simp: should_finish_def processors_ok_def)
  have ended: "rn_poller l = PollEnded"
    using fin assms(4) by (auto simp: should_finish_def drain_ok_def)
  from assms(1) idle ended fin Some res show ?thesis
    by (induction rule: loop_internal.induct)
      (auto simp: ended_ok_def should_finish_def sys_finish_def finish_and_take_next_def Let_def
        split: prod.splits option.splits list.splits)
qed

section \<open>Tickets\<close>

definition labels_ok :: "'u run_loop \<Rightarrow> bool" where
  "labels_ok l \<longleftrightarrow> (\<forall>q \<in> set (s_accepted (rn_pipe l)).
     (\<exists>run m. tk_submit (q_ticket q) = Some (SubmitCompletion run m)) \<and>
     (\<exists>turn. tk_after_submit (q_ticket q) = Some (AfterSubmission turn)))"

lemma labels_ok_frame: "s_accepted (rn_pipe l') = s_accepted (rn_pipe l) \<Longrightarrow> labels_ok l \<Longrightarrow> labels_ok l'"
  by (simp add: labels_ok_def)

lemma labels_ok_enqueue:
  assumes "labels_ok l"
  shows "labels_ok (enqueue_or_drain wire c turn l)"
proof (cases rule: enqueue_or_drain_cases [of c wire turn l])
  case (accepted d)
  let ?t = "completion_ticket wire (worker_codec (rn_worker l)) d turn"
  have "tk_submit ?t = Some (SubmitCompletion (cp_run_id d) (encoded_completion wire (worker_codec (rn_worker l)) d))"
    "tk_after_submit ?t = Some (AfterSubmission turn)"
    by (simp_all add: completion_ticket_def Let_def)
  then show ?thesis
    by (cases rule: sys_enqueue_cases [of "rn_pipe l" ?t])
      (use assms accepted in \<open>auto simp: labels_ok_def\<close>)
qed (use assms in \<open>auto simp: labels_ok_def\<close>)

lemma labels_ok_internal:
  assumes "loop_internal rt vars wire l l'" and "labels_ok l" and "pipe_inv (rn_pipe l)"
  shows "labels_ok l'"
proof -
  have disp: "labels_ok (dispatch_activation wire act l)" if "labels_ok l" for act and l :: "'a run_loop"
    using that labels_ok_enqueue [of "start_draining (Some (over_limit_error l)) l" wire]
    by (auto simp: dispatch_activation_def Let_def labels_ok_def split: prod.splits)
  from assms show ?thesis
  proof (induction rule: loop_internal.induct)
    case (poll_event l event)
    let ?l = "l\<lparr>rn_poller := (if pe_err event = None then Polling else PollEnded),
                rn_received := rn_received l @ received event\<rparr>"
    have "labels_ok ?l" using poll_event.prems by (simp add: labels_ok_def)
    from this disp [OF this] labels_ok_enqueue [OF this] show ?case
      by (auto simp: handle_poll_event_def labels_ok_def [of "start_draining e l" for e l]
          labels_ok_def [of ?l] split: option.splits)
  next
    case (processor_result l ps c run turn qs)
    then show ?case
      unfolding handle_processor_result_def by (intro labels_ok_enqueue) (simp add: labels_ok_def)
  next
    case (completion_result l r rs)
    with results_fresh [OF completion_result.prems(2) completion_result.hyps(3)] show ?case
      by (auto simp: labels_ok_def take_result_frame)
  next
    case (finished l answer l')
    then show ?case by (auto simp: labels_ok_def dest!: finish_Some)
  qed (auto simp: labels_ok_def)
qed

end
