(* ===== verification/Workflow_Loop_Properties.thy ===== *)
theory Workflow_Loop_Properties
  imports Workflow_Loop_Books
begin

text \<open>
  What the run loop of the workflow worker promises in every interleaving of the loop, the poller, the
  processors and the pipeline: it never stops working while there is work, it runs the activations of
  a run one at a time and in order, answers each of them once, and reports its errors.
\<close>

section \<open>The invariant\<close>

definition loop_inv :: "'u run_loop \<Rightarrow> bool" where
  "loop_inv l \<longleftrightarrow> turns_held l \<and> processors_ok l \<and> answers_ok l \<and> drain_ok l \<and> ended_ok l \<and> labels_ok l"

lemma loop_inv_start:
  assumes "idle_worker rt w"
  shows "loop_inv (new_run_loop w)"
proof -
  from assms have "hold_ok (ww_lanes w) {#} {}"
    unfolding idle_worker_def by (blast intro: hold_ok_idle)
  then show ?thesis
    using assms
    by (simp add: loop_inv_def new_run_loop_def turns_held_def holders_def past_waiting_def
        processors_ok_def answers_ok_def drain_ok_def ended_ok_def labels_ok_def initial_psys_def
        unreleased_entries_def workflow_completion_limit_def new_pipeline_def Let_def)
qed

lemma loop_inv_external:
  assumes "loop_external wire l l'" and "loop_inv l"
  shows "loop_inv l'"
  using assms
  by (induction rule: loop_external.induct)
    (auto simp: loop_inv_def turns_held_def holders_def past_waiting_def processors_ok_def answers_ok_def
      drain_ok_def ended_ok_def labels_ok_def should_finish_def)

lemma loop_inv_reachable: "loop_reachable rt vars wire l \<Longrightarrow> loop_inv l"
proof (induction rule: loop_reachable.induct)
  case (started w)
  then show ?case by (rule loop_inv_start)
next
  case (internal l l')
  note pipe = loop_pipe_inv [OF internal.hyps(1)]
  from internal.IH internal.hyps(2) pipe show ?case
    by (auto simp: loop_inv_def processors_ok_def [of l] intro: turns_held_internal processors_ok_internal
        answers_ok_internal drain_ok_internal ended_ok_internal labels_ok_internal)
next
  case (external l l')
  then show ?case by (blast intro: loop_inv_external)
qed

lemma loop_invD:
  assumes "loop_reachable rt vars wire l"
  shows "turns_held l" "processors_ok l" "answers_ok l" "drain_ok l" "ended_ok l" "labels_ok l"
  using loop_inv_reachable [OF assms] by (simp_all add: loop_inv_def)

section \<open>Work left\<close>

fun proc_left :: "processor \<Rightarrow> nat" where
  "proc_left (Waiting act turn) = 8"
| "proc_left (Reporting c run turn) = 7"

definition loop_left :: "'u run_loop \<Rightarrow> nat" where
  "loop_left l =
     (case rn_poller l of Offering event \<Rightarrow> 10 | _ \<Rightarrow> 0) + sum_list (map proc_left (rn_processors l)) +
     work_left (rn_pipe l) + (if rn_ctx_watched l then 1 else 0) + (if rn_poll_open l then 1 else 0) +
     (if rn_returned l = None then 1 else 0)"

lemma left_start_draining: "loop_left (start_draining e l) \<le> loop_left l"
  by (simp add: loop_left_def)

lemma left_release_held [simp]: "loop_left (release_held turn l) = loop_left l"
  by (simp add: loop_left_def)

lemma left_enqueue: "loop_left (enqueue_or_drain wire c turn l) \<le> loop_left l + 6"
proof (cases rule: enqueue_or_drain_cases [of c wire turn l])
  case missing
  then show ?thesis
    using left_start_draining [of _ "release_held turn l"] by (simp add: le_SucI trans_le_add1)
next
  case (refused d e)
  let ?l = "l\<lparr>rn_pipe := (rn_pipe l)\<lparr>s_refused := s_refused (rn_pipe l) @
             [(completion_ticket wire (worker_codec (rn_worker l)) d turn, e)]\<rparr>\<rparr>"
  have "loop_left ?l = loop_left l" by (simp add: loop_left_def)
  with refused(2) left_start_draining [of "Some e" "release_held turn ?l"] show ?thesis by simp
next
  case (accepted d)
  then show ?thesis
    using work_left_enqueue [of "rn_pipe l" "completion_ticket wire (worker_codec (rn_worker l)) d turn"]
    by (simp add: loop_left_def)
qed

lemma left_dispatch: "loop_left (dispatch_activation wire act l) \<le> loop_left l + 8"
proof (cases "rn_active l \<ge> workflow_completion_limit (rn_worker l)")
  case True
  have "loop_left (enqueue_or_drain wire c turn (start_draining e l)) \<le> loop_left l + 8" for c turn e
    using left_enqueue [of wire c turn "start_draining e l"] left_start_draining [of e l] by simp
  with True show ?thesis by (simp add: dispatch_activation_def Let_def)
next
  case False
  then show ?thesis by (simp add: dispatch_activation_def Let_def loop_left_def split: prod.splits)
qed

lemma left_event: "loop_left (handle_poll_event wire event l) \<le> loop_left l + 8"
proof -
  have "loop_left (start_draining e l) \<le> loop_left l + 8"
    "loop_left (enqueue_or_drain wire c turn l) \<le> loop_left l + 8" for e c turn
    using left_start_draining [of e l] left_enqueue [of wire c turn l] by simp_all
  then show ?thesis using left_dispatch [of wire _ l]
    by (simp add: handle_poll_event_def split: option.splits)
qed

lemma loop_decreases:
  assumes "loop_internal rt vars wire l l'" and "pipe_inv (rn_pipe l)" and "drain_ok l"
  shows "loop_left l' < loop_left l"
  using assms
proof (induction rule: loop_internal.induct)
  case (ctx_done l)
  then show ?case by (simp add: loop_left_def drain_ok_def)
next
  case (poll_event l event)
  let ?l = "l\<lparr>rn_poller := (if pe_err event = None then Polling else PollEnded),
              rn_received := rn_received l @ received event\<rparr>"
  have "loop_left ?l + 10 = loop_left l" using poll_event.hyps(4) by (simp add: loop_left_def)
  with left_event [of wire event ?l] show ?case by simp
next
  case (poll_closed l)
  then show ?case by (simp add: loop_left_def handle_poll_closed_def Let_def)
next
  case (processor_result l ps c run turn qs)
  let ?l = "l\<lparr>rn_processors := ps @ qs, rn_active := rn_active l - 1\<rparr>"
  have "loop_left ?l + 7 = loop_left l" using processor_result.hyps(3) by (simp add: loop_left_def)
  with left_enqueue [of wire c turn ?l] show ?case by (simp add: handle_processor_result_def)
next
  case (completion_result l r rs)
  with work_left_take [OF completion_result.hyps(3)]
    results_fresh [OF completion_result.prems(1) completion_result.hyps(3)]
  show ?case by (simp add: loop_left_def handle_completion_result_def)
next
  case (finished l answer l')
  then show ?case by (auto simp: loop_left_def dest!: finish_Some)
next
  case (processed l ps act turn qs w c)
  then show ?case by (simp add: loop_left_def)
next
  case (submitted l ps q qs run m complete)
  from internal_decreases [OF pipe_internal.submit [OF submitted.hyps(1)]] show ?case
    by (simp add: loop_left_def)
next
  case (after_submitted l ps q e qs turn)
  from internal_decreases [OF pipe_internal.after_submit [OF after_submitted.hyps(1)]] show ?case
    by (simp add: loop_left_def)
next
  case (result_sent l ps q e qs)
  from internal_decreases [OF pipe_internal.send [OF result_sent.hyps]] show ?case
    by (simp add: loop_left_def)
next
  case (slot_freed l ps qs)
  from internal_decreases [OF pipe_internal.finish [OF slot_freed.hyps]] show ?case
    by (simp add: loop_left_def)
next
  case (poller_left l event)
  then show ?case by (simp add: loop_left_def)
qed

section \<open>Progress\<close>

text \<open>
  The user's code does not return: an activation whose turn has come is never completed, or the
  executions that are left cannot be stopped.
\<close>

definition user_code_runs :: "runtime \<Rightarrow> 'u \<Rightarrow> 'u run_loop \<Rightarrow> bool" where
  "user_code_runs rt vars l \<longleftrightarrow>
     (\<exists>act turn. Waiting act turn \<in> set (rn_processors l) \<and> turn_available (rn_worker l) turn \<and>
        process_activation rt vars (rn_worker l) act = None) \<or>
     should_finish l \<and> stop_all_runs rt (rn_worker l) = None"

lemma pipe_progress:
  assumes "loop_reachable rt vars wire l" and "rn_returned l = None" and "\<not> should_finish l"
    and "p_outstanding (s_pipe (rn_pipe l)) > 0"
  shows "\<exists>l'. loop_internal rt vars wire l l'"
proof -
  note parts = loop_invD [OF assms(1)]
  have labels: "(\<exists>run m. tk_submit (q_ticket q) = Some (SubmitCompletion run m)) \<and>
      (\<exists>turn. tk_after_submit (q_ticket q) = Some (AfterSubmission turn))"
    if "q \<in> set (s_accepted (rn_pipe l))" for q
    using that parts(6) by (simp add: labels_ok_def)
  have taken: "\<forall>r \<in> set (s_taken (rn_pipe l)). r_finalized r" using parts(4) by (simp add: drain_ok_def)
  have busy: "p_outstanding (s_pipe (rn_pipe l)) \<noteq> 0" using assms(4) by simp
  from loop_pipe_inv [OF assms(1)] taken busy show ?thesis
  proof (cases rule: pipe_busy_cases)
    case (submitting ps q qs)
    with labels [of q] show ?thesis by (metis loop_internal.submitted)
  next
    case (after ps q e qs)
    with labels [of q] show ?thesis by (metis loop_internal.after_submitted)
  next
    case (sending ps q e qs)
    then show ?thesis by (metis loop_internal.result_sent)
  next
    case (finishing ps qs)
    then show ?thesis by (metis loop_internal.slot_freed)
  next
    case (result r rs)
    with assms(2,3) show ?thesis by (metis loop_internal.completion_result)
  qed
qed

text \<open>A processor whose turn has come, once the pipeline holds no turn.\<close>

lemma processor_available:
  assumes "turns_held l" and "unreleased_entries (rn_pipe l) = {#}" and "rn_processors l \<noteq> []"
  shows "(\<exists>c run turn. Reporting c run turn \<in> set (rn_processors l)) \<or>
    (\<exists>act turn. Waiting act turn \<in> set (rn_processors l) \<and> turn_available (rn_worker l) turn)"
proof (cases "concat (map proc_turns (rn_processors l)) = []")
  case True
  from assms(3) obtain p where "p \<in> set (rn_processors l)" by (cases "rn_processors l") auto
  moreover from this True have "proc_turns p = []" by auto
  then have "(\<exists>c run turn. p = Reporting c run turn) \<or> (\<exists>act. p = Waiting act None)"
    by (cases p) (auto simp: held_list_def split: option.splits)
  moreover have "turn_available (rn_worker l) None" by (simp add: turn_available_def)
  ultimately show ?thesis by blast
next
  case False
  with assms(2) have "holders l \<noteq> {#}" by (simp add: holders_def)
  with hold_ok_progress assms(1) obtain x where x: "x \<in># holders l"
    and r: "turn_ready (ww_lanes (rn_worker l)) (snd x)" unfolding turns_held_def by blast
  from x assms(2) obtain p where "p \<in> set (rn_processors l)" "x \<in> set (proc_turns p)"
    by (auto simp: holders_def)
  moreover from this(2) r have "(\<exists>c run turn. p = Reporting c run turn) \<or>
      (\<exists>act. p = Waiting act (Some x) \<and> turn_available (rn_worker l) (Some x))"
    by (cases p) (auto simp: held_list_def turn_available_def split: option.splits)
  ultimately show ?thesis by blast
qed

lemma loop_progress:
  assumes "loop_reachable rt vars wire l" and "rn_returned l = None" and "rn_poller l \<noteq> Polling"
    and "\<not> user_code_runs rt vars l"
  shows "\<exists>l'. loop_internal rt vars wire l l'"
proof -
  note inv = loop_pipe_inv [OF assms(1)] and parts = loop_invD [OF assms(1)]
  show ?thesis
  proof (cases "should_finish l")
    case True
    with assms(4) obtain w where "stop_all_runs rt (rn_worker l) = Some w"
      by (auto simp: user_code_runs_def)
    then have "finish rt None l \<noteq> None" by (simp add: finish_def worker_shutdown_def)
    with assms(2) True show ?thesis by (blast intro: loop_internal.finished)
  next
    case unfinished: False
    show ?thesis
    proof (cases "rn_poller l")
      case (Offering event)
      with parts(4) have "rn_poll_open l" by (auto simp: drain_ok_def)
      with assms(2) unfinished Offering show ?thesis by (blast intro: loop_internal.poll_event)
    next
      case PollEnded
      show ?thesis
      proof (cases "rn_poll_open l")
        case True
        with assms(2) unfinished PollEnded show ?thesis by (blast intro: loop_internal.poll_closed)
      next
        case False
        with unfinished parts(4) have busy: "rn_active l \<noteq> 0 \<or> p_outstanding (s_pipe (rn_pipe l)) \<noteq> 0"
          by (auto simp: should_finish_def drain_ok_def)
        show ?thesis
        proof (cases "p_outstanding (s_pipe (rn_pipe l)) = 0")
          case True
          with busy parts(2) have "rn_processors l \<noteq> []" by (auto simp: processors_ok_def)
          from processor_available [OF parts(1) no_entries(1) [OF inv True] this] show ?thesis
          proof (elim disjE exE conjE)
            fix c run turn assume "Reporting c run turn \<in> set (rn_processors l)"
            then obtain ps qs where "rn_processors l = ps @ Reporting c run turn # qs" by (meson split_list)
            with assms(2) unfinished show ?thesis by (blast intro: loop_internal.processor_result)
          next
            fix act turn assume w: "Waiting act turn \<in> set (rn_processors l)"
              and a: "turn_available (rn_worker l) turn"
            with assms(4) have "process_activation rt vars (rn_worker l) act \<noteq> None"
              unfolding user_code_runs_def by (metis (no_types))
            then obtain w' c where "process_activation rt vars (rn_worker l) act = Some (w', c)" by auto
            moreover from w obtain ps qs where "rn_processors l = ps @ Waiting act turn # qs"
              by (meson split_list)
            ultimately show ?thesis using a by (blast intro: loop_internal.processed)
          qed
        next
          case False
          moreover have "p_outstanding (s_pipe (rn_pipe l)) \<ge> 0"
            using pipe_invD(3) [OF inv] by (simp add: budget_ok_def)
          ultimately show ?thesis using pipe_progress [OF assms(1,2) unfinished] by simp
        qed
      qed
    qed (use assms(3) in simp)
  qed
qed

section \<open>Properties\<close>

text \<open>A loop that has received one activation.\<close>

definition sample_wire :: wire where
  "sample_wire = \<lparr>wr_unmarshal = (\<lambda>b. Inr (first_activation [])),
     wr_activation_view = (\<lambda>act. PMessage ''activation'' []),
     wr_activation_of = (\<lambda>m. first_activation []),
     wr_completion_view = (\<lambda>c. PMessage ''completion'' []),
     wr_size = (\<lambda>m. 10), wr_marshal = (\<lambda>m. Inr [])\<rparr>"

definition sample_loop :: "greeting_status run_loop" where
  "sample_loop = (new_run_loop sample_worker)\<lparr>rn_poller := Offering
     (poll_event_of sample_wire (worker_codec sample_worker) (Inr []))\<rparr>"

lemma sample_worker_idle: "idle_worker sample_runtime sample_worker"
proof -
  have "ww_lanes sample_worker = no_lanes"
    by (auto simp: sample_worker_def Let_def new_workflow_worker_def register_workflow_def
        split: sum.splits option.splits)
  then show ?thesis
    using sample_worker_reachable lanes_ok_no_lanes by (simp add: idle_worker_def) (simp add: no_lanes_def)
qed

lemma sample_loop_reachable: "loop_reachable sample_runtime idle_status sample_wire sample_loop"
proof -
  have "rn_poller (new_run_loop sample_worker) = Polling" by (simp add: new_run_loop_def)
  from loop_external.polled [OF this, of sample_wire "Inr []"]
  have "loop_external sample_wire (new_run_loop sample_worker) sample_loop"
    by (simp add: sample_loop_def new_run_loop_def)
  then show ?thesis by (rule loop_reachable.external [OF loop_reachable.started [OF sample_worker_idle]])
qed

text \<open>
  C4. The run loop never stops halfway. Its steps and those of its goroutines are finitely many in every
  schedule between two answers of Core; and where none is left although \<open>Run\<close> has not returned, the
  poller waits for Core or user code does not return. So once Core has ended the poll, \<open>Run\<close>
  returns in every schedule unless user code does not.
\<close>

theorem workflow_loop_settles:
  assumes "loop_reachable rt vars wire l"
  shows "wfp (\<lambda>l'' l'. loop_reachable rt vars wire l' \<and> loop_internal rt vars wire l' l'') \<and>
    ((\<forall>l'. \<not> loop_internal rt vars wire l l') \<longrightarrow>
       rn_returned l \<noteq> None \<or> rn_poller l = Polling \<or> user_code_runs rt vars l)"
proof (intro conjI impI)
  show "wfp (\<lambda>l'' l'. loop_reachable rt vars wire l' \<and> loop_internal rt vars wire l' l'')"
    by (rule wfp_if_convertible_to_nat [of _ loop_left])
      (metis loop_decreases loop_pipe_inv loop_invD(4))
  assume "\<forall>l'. \<not> loop_internal rt vars wire l l'"
  with loop_progress [OF assms] show "rn_returned l \<noteq> None \<or> rn_poller l = Polling \<or> user_code_runs rt vars l"
    by blast
qed

lemma workflow_loop_settles_witness: "\<exists>l'. loop_internal sample_runtime idle_status sample_wire sample_loop l'"
proof -
  have "rn_returned sample_loop = None" "rn_poller sample_loop \<noteq> Polling"
    "rn_processors sample_loop = []" "\<not> rn_draining sample_loop"
    by (simp_all add: sample_loop_def new_run_loop_def)
  with workflow_loop_settles [OF sample_loop_reachable] show ?thesis
    by (auto simp: user_code_runs_def should_finish_def)
qed

text \<open>
  C2. The activations of a run are processed one at a time and in the order Core delivered them. When
  an activation's turn has come, no other activation of its run is past its wait (whether its result
  is still to be collected or its completion still to be submitted), and the activations of that run
  that wait were delivered later and have to wait.
\<close>

theorem run_activations_serialised:
  assumes "loop_reachable rt vars wire l" and "Waiting act (Some (run, t)) \<in> set (rn_processors l)"
    and "turn_available (rn_worker l) (Some (run, t))"
  shows "(\<forall>x \<in> past_waiting l. fst x \<noteq> run) \<and>
    (\<forall>act' t'. Waiting act' (Some (run, t')) \<in> set (rn_processors l) \<longrightarrow> t' \<noteq> t \<longrightarrow>
       t < t' \<and> \<not> turn_available (rn_worker l) (Some (run, t')))"
proof -
  let ?s = "ww_lanes (rn_worker l)" and ?x = "(run, t)"
  from loop_invD(1) [OF assms(1)] have h: "hold_ok ?s (holders l) (past_waiting l)"
    by (simp add: turns_held_def)
  from assms(2) obtain ps qs where procs: "rn_processors l = ps @ Waiting act (Some ?x) # qs"
    by (meson split_list)
  then have H: "holders l = add_mset ?x (mset (concat (map proc_turns (ps @ qs))) +
      turns_in (unreleased_entries (rn_pipe l)))" by (simp add: holders_def)
  have sub: "set (reporting_turns p) \<subseteq> set (proc_turns p)" for p by (cases p) auto
  have "past_waiting l \<subseteq> set_mset (mset (concat (map proc_turns (ps @ qs))) +
      turns_in (unreleased_entries (rn_pipe l)))"
    using procs sub by (fastforce simp: past_waiting_def)
  with hold_ok_once [OF h [unfolded H]] have notin: "?x \<notin> past_waiting l" by blast
  have ready: "turn_ready ?s t" using assms(3) by (simp add: turn_available_def)
  have x: "?x \<in># holders l" by (simp add: H)
  have "fst y \<noteq> run" if "y \<in> past_waiting l" for y
  proof
    assume "fst y = run"
    moreover have "y \<noteq> ?x" using notin that by metis
    ultimately show False using hold_ok_exclusive [OF h that x] ready by simp
  qed
  moreover have "t < t' \<and> \<not> turn_available (rn_worker l) (Some (run, t'))"
    if w: "Waiting act' (Some (run, t')) \<in> set (rn_processors l)" and "t' \<noteq> t" for act' t'
  proof -
    have "(run, t') \<in># holders l" using w by (force simp: holders_def)
    with hold_ok_exclusive [OF hold_ok_past [OF h x], of ?x "(run, t')"] ready that(2)
    show ?thesis by (simp add: turn_available_def)
  qed
  ultimately show ?thesis by blast
qed

definition waiting_loop :: "greeting_status run_loop" where
  "waiting_loop =
     (let event = poll_event_of sample_wire (worker_codec sample_worker) (Inr []) in
      handle_poll_event sample_wire event
        (sample_loop\<lparr>rn_poller := (if pe_err event = None then Polling else PollEnded),
           rn_received := rn_received sample_loop @ received event\<rparr>))"

lemma waiting_loop_reachable: "loop_reachable sample_runtime idle_status sample_wire waiting_loop"
  unfolding waiting_loop_def Let_def
  by (rule loop_reachable.internal [OF sample_loop_reachable], rule loop_internal.poll_event)
    (simp_all add: sample_loop_def new_run_loop_def should_finish_def)

lemma waiting_loop_waits:
  "rn_processors waiting_loop = [Waiting (first_activation []) (Some (''r1'', 0))] \<and>
   turn_available (rn_worker waiting_loop) (Some (''r1'', 0)) \<and>
   map at_run_id (rn_received waiting_loop) = [''r1'']"
  by code_simp

lemma run_activations_serialised_witness:
  "rn_processors waiting_loop = [Waiting (first_activation []) (Some (''r1'', 0))] \<and>
   {x \<in> past_waiting waiting_loop. fst x = ''r1''} = {}"
  using run_activations_serialised [OF waiting_loop_reachable, of "first_activation []" "''r1''" 0]
    waiting_loop_waits by auto

text \<open>
  C3. Every activation the loop receives is answered exactly once, by a completion for its run: it is in
  one processor, or its completion has been accepted by the pipeline, or refused by it. No more than
  the configured number of activations are in processors, and when \<open>Run\<close> returns none is, and
  every completion accepted has been submitted to Core exactly once.
\<close>

theorem activations_answered_once:
  assumes "loop_reachable rt vars wire l"
  shows "0 \<le> rn_active l \<and> rn_active l \<le> workflow_completion_limit (rn_worker l) \<and>
    mset (map at_run_id (rn_received l)) = mset (map proc_run (rn_processors l)) +
      mset (map (\<lambda>q. ticket_run (q_ticket q)) (s_accepted (rn_pipe l))) +
      mset (map (\<lambda>te. ticket_run (fst te)) (s_refused (rn_pipe l))) \<and>
    (rn_returned l \<noteq> None \<longrightarrow>
       rn_processors l = [] \<and> mset (s_submitted (rn_pipe l)) = mset (s_accepted (rn_pipe l)))"
proof (intro conjI impI)
  note parts = loop_invD [OF assms]
  show "0 \<le> rn_active l" "rn_active l \<le> workflow_completion_limit (rn_worker l)"
    using parts(2) by (simp_all add: processors_ok_def)
  show "mset (map at_run_id (rn_received l)) = mset (map proc_run (rn_processors l)) +
      mset (map (\<lambda>q. ticket_run (q_ticket q)) (s_accepted (rn_pipe l))) +
      mset (map (\<lambda>te. ticket_run (fst te)) (s_refused (rn_pipe l)))"
    using parts(3) by (simp add: answers_ok_def)
  assume "rn_returned l \<noteq> None"
  with parts(5) have fin: "should_finish l" by (auto simp: ended_ok_def)
  with parts(2) show "rn_processors l = []" by (simp add: should_finish_def processors_ok_def)
  from fin no_outstanding_all_done(2) [OF loop_pipe_inv [OF assms]]
  show "mset (s_submitted (rn_pipe l)) = mset (s_accepted (rn_pipe l))" by (simp add: should_finish_def)
qed

lemma activations_answered_once_witness:
  "mset (map (\<lambda>q. ticket_run (q_ticket q)) (s_accepted (rn_pipe waiting_loop))) = {#}"
  using activations_answered_once [OF waiting_loop_reachable] waiting_loop_waits
  by (simp add: first_activation_def)


definition stopped_poll :: poll_event where
  "stopped_poll = poll_event_of sample_wire (worker_codec sample_worker) (Inl context_canceled)"

definition stopped_loop :: "greeting_status run_loop" where
  "stopped_loop = handle_poll_closed (handle_poll_event sample_wire stopped_poll
     ((new_run_loop sample_worker)\<lparr>rn_cancelled := True, rn_poller := PollEnded\<rparr>))"

lemma stopped_loop_finishes:
  "rn_returned stopped_loop = None \<and> should_finish stopped_loop \<and>
   map_option rn_returned (finish sample_runtime None stopped_loop) = Some (Some None)"
  by code_simp

lemma stopped_loop_reachable: "loop_reachable sample_runtime idle_status sample_wire stopped_loop"
proof -
  let ?l0 = "(new_run_loop sample_worker)\<lparr>rn_cancelled := True, rn_poller := Offering stopped_poll\<rparr>"
  have e: "pe_err stopped_poll = Some context_canceled" "received stopped_poll = []"
    by (simp_all add: stopped_poll_def poll_event_of_def received_def)
  have start: "loop_reachable sample_runtime idle_status sample_wire (new_run_loop sample_worker)"
    by (rule loop_reachable.started [OF sample_worker_idle])
  have c: "loop_reachable sample_runtime idle_status sample_wire ((new_run_loop sample_worker)\<lparr>rn_cancelled := True\<rparr>)"
    by (rule loop_reachable.external [OF start loop_external.cancelled])
  have "rn_poller ((new_run_loop sample_worker)\<lparr>rn_cancelled := True\<rparr>) = Polling"
    by (simp add: new_run_loop_def)
  from loop_reachable.external [OF c loop_external.polled [OF this, of sample_wire "Inl context_canceled"]]
  have l0: "loop_reachable sample_runtime idle_status sample_wire ?l0"
    by (simp add: stopped_poll_def new_run_loop_def)
  have "loop_internal sample_runtime idle_status sample_wire ?l0 (handle_poll_event sample_wire stopped_poll
      (?l0\<lparr>rn_poller := (if pe_err stopped_poll = None then Polling else PollEnded),
         rn_received := rn_received ?l0 @ received stopped_poll\<rparr>))"
    by (rule loop_internal.poll_event) (simp_all add: new_run_loop_def should_finish_def)
  moreover have "?l0\<lparr>rn_poller := (if pe_err stopped_poll = None then Polling else PollEnded),
         rn_received := rn_received ?l0 @ received stopped_poll\<rparr> =
      (new_run_loop sample_worker)\<lparr>rn_cancelled := True, rn_poller := PollEnded\<rparr>"
    by (simp add: e new_run_loop_def)
  ultimately have l1: "loop_reachable sample_runtime idle_status sample_wire (handle_poll_event sample_wire
      stopped_poll ((new_run_loop sample_worker)\<lparr>rn_cancelled := True, rn_poller := PollEnded\<rparr>))"
    using loop_reachable.internal [OF l0] by metis
  show ?thesis
    unfolding stopped_loop_def
    by (rule loop_reachable.internal [OF l1], rule loop_internal.poll_closed)
      (simp_all add: handle_poll_event_def e new_run_loop_def should_finish_def)
qed


end
