(* ===== verification/Public_Run_Laws.thy ===== *)
theory Public_Run_Laws
  imports Public_Run Public_Options Workflow_Loop_Properties
begin

text \<open>
  Laws of the running public worker: what its loops leave alone, the books of the shared Core,
  the loops as they are inside, the channel of results, and the work that is left.
\<close>

section \<open>What the loops leave alone\<close>

text \<open>Until a loop ends, its steps keep the context's state and what the worker knows of Core.\<close>

lemma release_optional_core [simp]:
  "ww_core (release_optional w turn) = ww_core w" "ww_shutdown (release_optional w turn) = ww_shutdown w"
  by (auto simp: release_optional_def release_turn_def split: option.splits)

lemma enqueue_or_drain_core [simp]:
  "ww_core (rn_worker (enqueue_or_drain wire c turn l)) = ww_core (rn_worker l)"
  "ww_shutdown (rn_worker (enqueue_or_drain wire c turn l)) = ww_shutdown (rn_worker l)"
  by (cases rule: enqueue_or_drain_cases [of c wire turn l]; simp)+

lemma process_activation_core:
  assumes "process_activation rt vars w act = Some (w', c)"
  shows "ww_core w' = ww_core w" "ww_shutdown w' = ww_shutdown w"
proof -
  from process_activation_only [OF assms] have "w' = w\<lparr>ww_runs := ww_runs w'\<rparr>" by (simp add: only_run_def)
  then show "ww_core w' = ww_core w" "ww_shutdown w' = ww_shutdown w"
    by (metis workflow_worker.ext_inject workflow_worker.surjective workflow_worker.update_convs(6))+
qed

definition core_view :: "'u run_loop \<Rightarrow> bool \<times> goerr option option \<times> bool" where
  "core_view l = (ww_core (rn_worker l), ww_shutdown (rn_worker l), rn_cancelled l)"

lemma loop_core_view:
  assumes "loop_internal rt vars wire l l'" and "rn_returned l' = rn_returned l"
  shows "core_view l' = core_view l"
  using assms
proof (induction rule: loop_internal.induct)
  case (poll_event l event)
  show ?case
    by (auto simp: core_view_def handle_poll_event_def dispatch_activation_def Let_def reserve_turn_def
        split: option.splits prod.splits)
next
  case (finished l answer l')
  then show ?case by (auto dest!: finish_Some)
next
  case (processed l ps act turn qs w c)
  then show ?case
    by (simp add: core_view_def process_activation_core [OF processed.hyps(3)])
qed (simp_all add: core_view_def handle_processor_result_def)

lemma loop_external_view:
  assumes "loop_external wire l l'"
  shows "rn_returned l' = rn_returned l" "rn_worker l' = rn_worker l"
  using assms by (auto elim: loop_external.cases)

lemma start_activity_cancelled [simp]:
  "al_cancelled (fst (start_activity token start l)) = al_cancelled l"
  by (simp add: start_activity_def Let_def)

lemma enqueue_completion_cancelled [simp]:
  "al_cancelled (fst (enqueue_completion wire c fin l)) = al_cancelled l"
  by (cases c) (simp_all add: enqueue_completion_def [of _ None])

lemma enqueue_activity_cancelled [simp]:
  "al_cancelled (fst (enqueue_activity_completion wire n c l)) = al_cancelled l"
  by (auto simp: enqueue_activity_completion_def split: option.splits)

lemma drain_on_cancelled [simp]: "al_cancelled (activity_drain_on wire ord r) = al_cancelled (fst r)"
  by (cases r) (auto simp: activity_drain_on_def split: option.splits)

lemma handle_task_cancelled [simp]: "al_cancelled (fst (handle_polled_task wire task l)) = al_cancelled l"
  by (auto simp: handle_polled_task_def cancel_running_activity_def split: activity_variant.splits option.splits)

lemma activity_cancelled_kept:
  assumes "activity_internal wire l l'"
  shows "al_cancelled l' = al_cancelled l"
  using assms
  by (induction rule: activity_internal.induct)
    (simp_all add: handle_activity_poll_def handle_activity_closed_def handle_activity_event_def
      handle_activity_result_def activity_finish_def Let_def split: option.splits)

section \<open>The books of the shared Core\<close>

text \<open>What \<open>New\<close> leaves: two open handles, and a workflow worker that has not been shut down.\<close>

lemma new_combined_worker_Inr:
  assumes "new_combined_worker rt answers factory default_cv options =
    Some (Inr (w :: ('u, 'b) public_worker), Some c)"
  shows "c = snd (open_handle (snd (open_handle new_shared_core)))"
    "\<exists>ns tq codec n. pw_workflow w = new_workflow_worker ns tq codec n True"
    "\<exists>cn m. pw_activity w = new_activity_worker cn m"
proof -
  from assms have "c = snd (open_handle (snd (open_handle new_shared_core))) \<and>
      (\<exists>ns tq codec n. pw_workflow w = new_workflow_worker ns tq codec n True) \<and>
      (\<exists>cn m. pw_activity w = new_activity_worker cn m)"
  proof (cases rule: new_combined_worker_early
      [where 'u = 'u and 'b = 'b and rt = rt and answers = answers and factory = factory
         and default_cv = default_cv and options = options])
    case (checked cn a v eager millis)
    from new_combined_worker_checks [OF checked(1), of rt answers factory] obtain options1 where
      new: "(new_combined_worker rt answers factory default_cv options ::
          ((goerr + ('u, 'b) public_worker) \<times> shared_core option) option) =
        (case factory options1 a v eager millis of
           Inl e \<Rightarrow> Some (Inl e, None)
         | Inr False \<Rightarrow> Some (Inl (ErrNew ''combined core worker factory returned nil''), None)
         | Inr True \<Rightarrow> map_option (\<lambda>(r, c). (r, Some c))
             (new_with_shared_core rt answers default_cv cn a v))" (is "_ = ?made")
      unfolding checked(2-4) by auto
    have "\<exists>m. check_activity_options a = Inr m"
      using checked(2) unfolding normalize_combined_Inr
      by (auto simp: check_activity_options_def Let_def max_int32_activity_def max_int32_def)
    then obtain m where m: "check_activity_options a = Inr m" by blast
    note result = new_with_shared_core_result [OF normalize_connection_again [OF checked(1)] m]
    from assms have "?made = Some (Inr w, Some c)" unfolding new .
    then have "new_with_shared_core rt answers default_cv cn a v = Some (Inr w, c)"
      by (auto split: sum.splits bool.splits)
    then show ?thesis
      by (auto simp: result split: sum.splits) (intro exI, rule refl)+
  qed (use assms in simp)
  then show "c = snd (open_handle (snd (open_handle new_shared_core)))"
    "\<exists>ns tq codec n. pw_workflow w = new_workflow_worker ns tq codec n True"
    "\<exists>cn m. pw_activity w = new_activity_worker cn m" by simp_all
qed

definition fresh_worker :: "runtime \<Rightarrow> 'u workflow_worker \<Rightarrow> bool" where
  "fresh_worker rt w \<longleftrightarrow>
     worker_reachable rt w \<and> ww_lanes w = no_lanes \<and> ww_core w \<and> ww_shutdown w = None"

lemma fresh_worker_idle: "fresh_worker rt w \<Longrightarrow> idle_worker rt w"
  by (simp add: fresh_worker_def idle_worker_def lanes_ok_no_lanes) (simp add: no_lanes_def)

lemma register_workflow_fresh:
  assumes "fresh_worker rt w" and "register_workflow rt w name f = Inr w'"
  shows "fresh_worker rt w'"
  using assms worker_reachable.registered [OF _ assms(2)]
  by (auto simp: fresh_worker_def register_workflow_def split: if_splits sum.splits)

lemma worker_made_fresh:
  assumes "worker_made rt lib answers w c"
  shows "fresh_worker rt (pw_workflow w) \<and> c = snd (open_handle (snd (open_handle new_shared_core)))"
  using assms
proof (induction rule: worker_made.induct)
  case (new factory default_cv options w c)
  from new_combined_worker_Inr [OF new] show ?case
    by (auto simp: fresh_worker_def new_workflow_worker_def
        intro: worker_reachable.created [unfolded new_workflow_worker_def])
next
  case (workflow w c name f w')
  then show ?case
    by (auto simp: register_workflow_untyped_def map_sum_def split: sum.splits intro: register_workflow_fresh)
next
  case (activity w c name g w')
  then show ?case
    by (auto simp: register_activity_untyped_def map_sum_def split: sum.splits)
qed

definition both_ended :: "('u, 'b) public_run \<Rightarrow> bool" where
  "both_ended s \<longleftrightarrow> rn_returned (pu_workflow s) \<noteq> None \<and> al_returned (pu_activity s) \<noteq> None"

text \<open>Each loop holds its handle until it ends; whoever ends last gets Core's answer.\<close>

definition core_books :: "(nat \<Rightarrow> goerr option) \<Rightarrow> ('u, 'b) public_run \<Rightarrow> bool" where
  "core_books answers s \<longleftrightarrow>
     shared_ok (pu_core s) \<and> length (sc_handles (pu_core s)) = 2 \<and>
     holders_of (pu_core s) =
       ((if rn_returned (pu_workflow s) = None then {0} else {}) \<union>
        (if al_returned (pu_activity s) = None then {1} else {}),
        if both_ended s then 1 else 0) \<and>
     ww_core (rn_worker (pu_workflow s)) \<and>
     (rn_returned (pu_workflow s) = None \<longrightarrow> ww_shutdown (rn_worker (pu_workflow s)) = None) \<and>
     (\<forall>e. both_ended s \<longrightarrow> answers 0 = Some e \<longrightarrow>
        (\<exists>j. (rn_returned (pu_workflow s) = Some (Some j) \<or> al_returned (pu_activity s) = Some (Some j)) \<and>
           (\<forall>t. err_is e t \<longrightarrow> err_is j t)))"

lemma core_books_frame:
  "pu_core s' = pu_core s \<Longrightarrow> rn_returned (pu_workflow s') = rn_returned (pu_workflow s) \<Longrightarrow>
   al_returned (pu_activity s') = al_returned (pu_activity s) \<Longrightarrow>
   ww_core (rn_worker (pu_workflow s')) = ww_core (rn_worker (pu_workflow s)) \<Longrightarrow>
   ww_shutdown (rn_worker (pu_workflow s')) = ww_shutdown (rn_worker (pu_workflow s)) \<Longrightarrow>
   core_books answers s \<Longrightarrow> core_books answers s'"
  by (simp add: core_books_def both_ended_def)

lemma core_books_start:
  assumes "worker_made rt lib answers w c"
  shows "core_books answers (start_run w c)"
proof -
  from worker_made_fresh [OF assms] have w: "ww_core (pw_workflow w)" "ww_shutdown (pw_workflow w) = None"
    and c: "c = snd (open_handle (snd (open_handle new_shared_core)))" by (auto simp: fresh_worker_def)
  have "shared_ok new_shared_core" by (simp add: shared_ok_def holders_of_def new_shared_core_def)
  then have "shared_ok c" unfolding c by (intro shared_ok_open)
  moreover have "length (sc_handles c) = 2" by (simp add: c open_handle_def new_shared_core_def)
  moreover have "holders_of c = ({0} \<union> {1}, 0)"
    unfolding c opened_holders by (simp add: insert_commute)
  ultimately show ?thesis
    using w by (simp add: core_books_def start_run_def new_run_loop_def new_activity_loop_def both_ended_def)
qed

lemma errors_join_member:
  "Some e \<in> set es \<Longrightarrow> \<exists>j. errors_join es = Some j \<and> (\<forall>t. err_is e t \<longrightarrow> err_is j t)"
  using errors_join_is errors_join_eq_None by (metis not_None_eq)

lemma finish_workflow_Some:
  assumes "finish_workflow rt answers s = Some s'" and "ww_core (rn_worker (pu_workflow s))"
    and "ww_shutdown (rn_worker (pu_workflow s)) = None"
  shows "\<exists>w. s' = s\<lparr>pu_workflow := (pu_workflow s)\<lparr>rn_worker := w,
             rn_returned := Some (errors_join [rn_first_err (pu_workflow s), rn_later_err (pu_workflow s),
                                    fst (handle_shutdown answers 0 (pu_core s))])\<rparr>,
           pu_core := snd (handle_shutdown answers 0 (pu_core s))\<rparr> \<and> ww_core w"
proof -
  let ?w = "rn_worker (pu_workflow s)" and ?a = "fst (handle_shutdown answers 0 (pu_core s))"
  from assms obtain l where l: "finish rt ?a (pu_workflow s) = Some l"
    and s': "s' = s\<lparr>pu_workflow := l, pu_core := snd (handle_shutdown answers 0 (pu_core s))\<rparr>"
    by (auto simp: finish_workflow_def split: prod.splits)
  from l obtain w e where w: "worker_shutdown rt ?a ?w = Some (e, w)"
    and l': "l = (pu_workflow s)\<lparr>rn_worker := w,
      rn_returned := Some (errors_join [rn_first_err (pu_workflow s), rn_later_err (pu_workflow s), e])\<rparr>"
    by (auto dest!: finish_Some)
  from w assms(2,3) have "e = ?a \<and> ww_core w"
    by (auto simp: worker_shutdown_def shutdown_core_def Let_def dest!: stop_all_runs_Some)
  with s' l' show ?thesis by auto
qed

lemma handle_ends:
  assumes "shared_ok c" and "length (sc_handles c) = 2" and "holders_of c = (H, 0)" and "n \<in> H"
  shows "holders_of (snd (handle_shutdown answers n c)) = (H - {n}, if H = {n} then 1 else 0)"
    "shared_ok (snd (handle_shutdown answers n c))"
    "length (sc_handles (snd (handle_shutdown answers n c))) = 2"
    "H = {n} \<Longrightarrow> fst (handle_shutdown answers n c) = answers 0"
proof -
  from assms(3,4) have n: "n < length (sc_handles c)" and zero: "sc_shutdowns c = 0"
    by (auto simp: holders_of_def)
  show "holders_of (snd (handle_shutdown answers n c)) = (H - {n}, if H = {n} then 1 else 0)"
    "shared_ok (snd (handle_shutdown answers n c))"
    using handle_shutdown_holders [OF assms(1) n] by (simp_all add: assms(3) let_go_def)
  show "length (sc_handles (snd (handle_shutdown answers n c))) = 2"
    using assms(2) by (auto simp: handle_shutdown_def release_shared_def Let_def split: option.splits)
  show "fst (handle_shutdown answers n c) = answers 0" if "H = {n}"
    using handle_shutdown_last [OF assms(1), of n answers] that zero by (simp add: assms(3))
qed

lemma core_booksI:
  assumes "shared_ok (pu_core s)" "length (sc_handles (pu_core s)) = 2"
    and "fst (holders_of (pu_core s)) =
      (if rn_returned (pu_workflow s) = None then {0} else {}) \<union>
      (if al_returned (pu_activity s) = None then {1} else {})"
    and "snd (holders_of (pu_core s)) = (if both_ended s then 1 else 0)"
    and "ww_core (rn_worker (pu_workflow s))"
    and "rn_returned (pu_workflow s) = None \<Longrightarrow> ww_shutdown (rn_worker (pu_workflow s)) = None"
    and "\<And>e. both_ended s \<Longrightarrow> answers 0 = Some e \<Longrightarrow>
      \<exists>j. (rn_returned (pu_workflow s) = Some (Some j) \<or> al_returned (pu_activity s) = Some (Some j)) \<and>
        (\<forall>t. err_is e t \<longrightarrow> err_is j t)"
  shows "core_books answers s"
  unfolding core_books_def
  using assms by (intro conjI allI impI) (simp_all add: prod_eq_iff)

lemma core_books_workflow_ends:
  assumes "core_books answers s" and "rn_returned (pu_workflow s) = None"
    and "finish_workflow rt answers s = Some s'"
  shows "core_books answers s'"
proof -
  let ?c = "pu_core s" and ?H = "{0 :: nat} \<union> (if al_returned (pu_activity s) = None then {1} else {})"
  from assms(1,2) have ok: "shared_ok ?c" "length (sc_handles ?c) = 2" "holders_of ?c = (?H, 0)"
    by (simp_all add: core_books_def both_ended_def)
  have H: "?H = {0} \<longleftrightarrow> al_returned (pu_activity s) \<noteq> None" "0 \<in> ?H"
      "?H - {0} = (if al_returned (pu_activity s) = None then {1} else {})" by simp_all
  note ends = handle_ends [OF ok H(2), of answers]
  have "ww_core (rn_worker (pu_workflow s))" "ww_shutdown (rn_worker (pu_workflow s)) = None"
    using assms(1,2) by (simp_all add: core_books_def)
  from finish_workflow_Some [OF assms(3) this] obtain w where
    s': "s' = s\<lparr>pu_workflow := (pu_workflow s)\<lparr>rn_worker := w,
      rn_returned := Some (errors_join [rn_first_err (pu_workflow s), rn_later_err (pu_workflow s),
        fst (handle_shutdown answers 0 ?c)])\<rparr>, pu_core := snd (handle_shutdown answers 0 ?c)\<rparr>"
    and w: "ww_core w" by blast
  have ended: "both_ended s' \<longleftrightarrow> al_returned (pu_activity s) \<noteq> None" by (simp add: s' both_ended_def)
  show ?thesis
  proof (rule core_booksI)
    show "shared_ok (pu_core s')" "length (sc_handles (pu_core s')) = 2" "ww_core (rn_worker (pu_workflow s'))"
      using ends(2,3) w by (simp_all add: s')
    show "fst (holders_of (pu_core s')) =
        (if rn_returned (pu_workflow s') = None then {0} else {}) \<union>
        (if al_returned (pu_activity s') = None then {1} else {})"
      using ends(1) H(3) by (simp add: s')
    show "snd (holders_of (pu_core s')) = (if both_ended s' then 1 else 0)"
      using ends(1) H(1) unfolding ended by (simp add: s')
    show "ww_shutdown (rn_worker (pu_workflow s')) = None" if "rn_returned (pu_workflow s') = None"
      using that by (simp add: s')
    fix e
    assume "both_ended s'" "answers 0 = Some e"
    then have "Some e \<in> set [rn_first_err (pu_workflow s), rn_later_err (pu_workflow s),
        fst (handle_shutdown answers 0 ?c)]"
      using ends(4) H(1) unfolding ended by simp
    from errors_join_member [OF this]
    show "\<exists>j. (rn_returned (pu_workflow s') = Some (Some j) \<or> al_returned (pu_activity s') = Some (Some j)) \<and>
        (\<forall>t. err_is e t \<longrightarrow> err_is j t)"
      by (auto simp: s')
  qed
qed

lemma core_books_activity_ends:
  assumes "core_books answers s" and "al_returned (pu_activity s) = None"
  shows "core_books answers (finish_activity answers s)"
proof -
  let ?c = "pu_core s" and ?H = "(if rn_returned (pu_workflow s) = None then {0} else {}) \<union> {1 :: nat}"
  let ?s = "finish_activity answers s"
  from assms(1,2) have ok: "shared_ok ?c" "length (sc_handles ?c) = 2" "holders_of ?c = (?H, 0)"
    by (simp_all add: core_books_def both_ended_def)
  have H: "?H = {1} \<longleftrightarrow> rn_returned (pu_workflow s) \<noteq> None" "1 \<in> ?H"
      "?H - {1} = (if rn_returned (pu_workflow s) = None then {0} else {})" by simp_all
  note ends = handle_ends [OF ok H(2), of answers]
  have s': "?s = s\<lparr>pu_activity := activity_finish (fst (handle_shutdown answers 1 ?c)) (pu_activity s),
      pu_core := snd (handle_shutdown answers 1 ?c)\<rparr>"
    by (simp add: finish_activity_def split: prod.splits)
  have ended: "both_ended ?s \<longleftrightarrow> rn_returned (pu_workflow s) \<noteq> None"
    by (simp add: s' both_ended_def activity_finish_def)
  show ?thesis
  proof (rule core_booksI)
    show "shared_ok (pu_core ?s)" "length (sc_handles (pu_core ?s)) = 2" "ww_core (rn_worker (pu_workflow ?s))"
      using ends(2,3) assms(1) by (simp_all add: s' core_books_def)
    show "fst (holders_of (pu_core ?s)) =
        (if rn_returned (pu_workflow ?s) = None then {0} else {}) \<union>
        (if al_returned (pu_activity ?s) = None then {1} else {})"
      using ends(1) H(3) by (simp add: s' activity_finish_def)
    show "snd (holders_of (pu_core ?s)) = (if both_ended ?s then 1 else 0)"
      using ends(1) H(1) unfolding ended by (simp add: s')
    show "ww_shutdown (rn_worker (pu_workflow ?s)) = None" if "rn_returned (pu_workflow ?s) = None"
      using that assms(1) by (simp add: s' core_books_def)
    fix e
    assume "both_ended ?s" "answers 0 = Some e"
    then have "Some e \<in> set [errors_join [al_first_err (pu_activity s), al_later_err (pu_activity s)],
        fst (handle_shutdown answers 1 ?c)]"
      using ends(4) H(1) unfolding ended by simp
    from errors_join_member [OF this]
    show "\<exists>j. (rn_returned (pu_workflow ?s) = Some (Some j) \<or> al_returned (pu_activity ?s) = Some (Some j)) \<and>
        (\<forall>t. err_is e t \<longrightarrow> err_is j t)"
      by (auto simp: s' activity_finish_def)
  qed
qed

lemma core_books_internal:
  assumes "public_internal rt vars wire awire answers s s'" and "core_books answers s"
  shows "core_books answers s'"
  using assms
proof (induction rule: public_internal.induct)
  case (workflow_runs s l)
  show ?case
    by (rule core_books_frame [OF _ _ _ _ _ workflow_runs(3)])
      (use loop_core_view [OF workflow_runs(1,2)] workflow_runs(2) in \<open>simp_all add: core_view_def\<close>)
next
  case (workflow_ends s s')
  then show ?case by (blast intro: core_books_workflow_ends)
next
  case (activity_ends s)
  then show ?case by (blast intro: core_books_activity_ends)
next
  case (activity_runs s l)
  show ?case by (rule core_books_frame [OF _ _ _ _ _ activity_runs(3)]) (simp_all add: activity_runs(2))
next
  case (workflow_sends s e)
  show ?case by (rule core_books_frame [OF _ _ _ _ _ workflow_sends(3)]) (simp_all add: send_workflow_def)
next
  case (activity_sends s e)
  show ?case by (rule core_books_frame [OF _ _ _ _ _ activity_sends(3)]) (simp_all add: send_activity_def)
next
  case (first_received s)
  show ?case by (rule core_books_frame [OF _ _ _ _ _ first_received(3)]) (simp_all add: receive_first_def)
next
  case (second_received s)
  show ?case by (rule core_books_frame [OF _ _ _ _ _ second_received(4)]) (simp_all add: receive_second_def)
next
  case (workflow_cancelled s)
  show ?case by (rule core_books_frame [OF _ _ _ _ _ workflow_cancelled(3)]) simp_all
next
  case (activity_cancelled s)
  show ?case by (rule core_books_frame [OF _ _ _ _ _ activity_cancelled(3)]) simp_all
qed

lemma activity_external_returned:
  assumes "activity_external lib wire l l'"
  shows "al_returned l' = al_returned l"
  using assms by (auto elim: activity_external.cases)

lemma core_books_external:
  assumes "public_external lib wire awire s s'" and "core_books answers s"
  shows "core_books answers s'"
  using assms
proof (induction rule: public_external.induct)
  case (caller_cancels s)
  show ?case by (rule core_books_frame [OF _ _ _ _ _ caller_cancels]) simp_all
next
  case (workflow_polled s l)
  show ?case
    by (rule core_books_frame [OF _ _ _ _ _ workflow_polled(3)])
      (simp_all add: loop_external_view [OF workflow_polled(1)])
next
  case (activity_served s l)
  show ?case
    by (rule core_books_frame [OF _ _ _ _ _ activity_served(3)])
      (simp_all add: activity_external_returned [OF activity_served(1)])
qed

lemma core_books_reachable:
  "public_reachable rt vars lib wire awire answers s \<Longrightarrow> core_books answers s"
  by (induction rule: public_reachable.induct)
    (blast intro: core_books_start core_books_internal core_books_external)+

section \<open>The loops inside\<close>

lemma public_loops:
  assumes "public_reachable rt vars lib wire awire answers s"
  shows "loop_reachable rt vars wire (pu_workflow s)" "activity_reachable lib awire (pu_activity s)"
proof -
  have "loop_reachable rt vars wire (pu_workflow s) \<and> activity_reachable lib awire (pu_activity s)"
    using assms
  proof (induction rule: public_reachable.induct)
    case (run w c)
    with worker_made_fresh [OF run] show ?case
      by (simp add: start_run_def loop_reachable.started fresh_worker_idle activity_reachable.act_started)
  next
    case (inner s s')
    from inner(2,3) show ?case
    proof (induction rule: public_internal.induct)
      case (workflow_ends s s')
      then obtain l answer where "finish rt answer (pu_workflow s) = Some l" "pu_workflow s' = l"
          "pu_activity s' = pu_activity s"
        by (auto simp: finish_workflow_def Let_def split: prod.splits)
      with workflow_ends show ?case
        by (auto intro: loop_reachable.internal loop_internal.finished)
    next
      case (activity_ends s)
      then show ?case
        by (auto simp: finish_activity_def split: prod.splits
            intro: activity_reachable.act_internal activity_internal.act_finished)
    next
      case (activity_cancelled s)
      then show ?case by (auto intro: activity_reachable.act_external activity_external.act_cancelled)
    next
      case (workflow_cancelled s)
      then show ?case by (auto intro: loop_reachable.external loop_external.cancelled)
    qed (auto simp: send_workflow_def send_activity_def receive_first_def receive_second_def
        intro: loop_reachable.internal activity_reachable.act_internal)
  next
    case (outer s s')
    from outer(2,3) show ?case
      by (induction rule: public_external.induct)
        (auto intro: loop_reachable.external activity_reachable.act_external)
  qed
  then show "loop_reachable rt vars wire (pu_workflow s)" "activity_reachable lib awire (pu_activity s)"
    by simp_all
qed

section \<open>The channel of results\<close>

text \<open>Each worker sends its result once it has ended; \<open>Run\<close> returns both joined.\<close>

definition run_control :: "('u, 'b) public_run \<Rightarrow> bool" where
  "run_control s \<longleftrightarrow>
     (pu_workflow_sent s \<longrightarrow> rn_returned (pu_workflow s) \<noteq> None) \<and>
     (pu_activity_sent s \<longrightarrow> al_returned (pu_activity s) \<noteq> None) \<and>
     mset (pu_results s) =
       (if pu_workflow_sent s then {#the (rn_returned (pu_workflow s))#} else {#}) +
       (if pu_activity_sent s then {#the (al_returned (pu_activity s))#} else {#}) \<and>
     (pu_first s \<longrightarrow> pu_cancelled s) \<and>
     (\<forall>answer. pu_returned s = Some answer \<longrightarrow>
        pu_workflow_sent s \<and> pu_activity_sent s \<and> answer = errors_join (pu_results s))"

lemma run_control_frame:
  "(pu_workflow_sent s \<Longrightarrow> rn_returned (pu_workflow s') = rn_returned (pu_workflow s)) \<Longrightarrow>
   (pu_activity_sent s \<Longrightarrow> al_returned (pu_activity s') = al_returned (pu_activity s)) \<Longrightarrow>
   pu_workflow_sent s' = pu_workflow_sent s \<Longrightarrow> pu_activity_sent s' = pu_activity_sent s \<Longrightarrow>
   pu_results s' = pu_results s \<Longrightarrow> pu_first s' = pu_first s \<Longrightarrow>
   (pu_cancelled s \<Longrightarrow> pu_cancelled s') \<Longrightarrow> pu_returned s' = pu_returned s \<Longrightarrow>
   run_control s \<Longrightarrow> run_control s'"
  by (auto simp: run_control_def)

lemma results_sent:
  assumes "run_control s"
  shows "length (pu_results s) = (if pu_workflow_sent s then 1 else 0) + (if pu_activity_sent s then 1 else 0)"
proof -
  have "length (pu_results s) = size (mset (pu_results s))" by simp
  then show ?thesis using assms by (simp only: run_control_def) simp
qed

lemma run_control_internal:
  assumes "public_internal rt vars wire awire answers s s'" and "run_control s"
  shows "run_control s'"
  using assms
proof (induction rule: public_internal.induct)
  case (workflow_runs s l)
  then show ?case by (intro run_control_frame [OF _ _ _ _ _ _ _ _ workflow_runs(3)]) simp_all
next
  case (workflow_ends s s')
  then show ?case
    by (intro run_control_frame [OF _ _ _ _ _ _ _ _ workflow_ends(4)])
      (auto simp: run_control_def finish_workflow_def Let_def split: prod.splits)
next
  case (activity_runs s l)
  then show ?case by (intro run_control_frame [OF _ _ _ _ _ _ _ _ activity_runs(3)]) simp_all
next
  case (activity_ends s)
  then show ?case
    by (intro run_control_frame [OF _ _ _ _ _ _ _ _ activity_ends(3)])
      (auto simp: run_control_def finish_activity_def split: prod.splits)
next
  case (second_received s)
  then show ?case
    using results_sent [OF second_received(4)]
    by (simp add: run_control_def receive_second_def split: if_splits)
qed (auto simp: run_control_def send_workflow_def send_activity_def receive_first_def)

lemma run_control_reachable:
  "public_reachable rt vars lib wire awire answers s \<Longrightarrow> run_control s"
proof (induction rule: public_reachable.induct)
  case (run w c)
  show ?case by (simp add: run_control_def start_run_def)
next
  case (inner s s')
  then show ?case by (blast intro: run_control_internal)
next
  case (outer s s')
  from outer(2,3) show ?case
    by (induction rule: public_external.induct)
      (auto simp: run_control_def loop_external_view activity_external_returned)
qed

section \<open>Run comes to an end\<close>

definition control_left :: "('u, 'b) public_run \<Rightarrow> nat" where
  "control_left s = length (filter Not [pu_workflow_sent s, pu_activity_sent s, pu_first s,
     pu_returned s \<noteq> None, rn_cancelled (pu_workflow s), al_cancelled (pu_activity s)])"

definition run_left :: "('u, 'b) public_run \<Rightarrow> nat" where
  "run_left s = loop_left (pu_workflow s) + activity_left (pu_activity s) + control_left s"

lemma poll_event_kept [simp]:
  "rn_cancelled (handle_poll_event wire event l) = rn_cancelled l"
  "rn_returned (handle_poll_event wire event l) = rn_returned l"
  by (auto simp: handle_poll_event_def dispatch_activation_def Let_def reserve_turn_def
      split: option.splits prod.splits)

lemma loop_cancelled_kept:
  assumes "loop_internal rt vars wire l l'"
  shows "rn_cancelled l' = rn_cancelled l"
  using assms
  by (induction rule: loop_internal.induct) (auto simp: handle_processor_result_def dest!: finish_Some)

lemma activity_returned_kept [simp]:
  "al_returned (handle_activity_closed wire ord l) = al_returned l"
  "al_returned (handle_activity_event wire ord n c l) = al_returned l"
  "al_returned (handle_activity_poll wire ord event l) = al_returned l"
  using extends_closed [of l wire ord] extends_event [of l wire ord n c] extends_poll [of l wire ord event]
  by (simp_all add: extends_def)

lemma drain_on_returned [simp]: "al_returned (activity_drain_on wire ord r) = al_returned (fst r)"
  using extends_drain_on [of "fst r" r wire ord] by (simp add: extends_def)

lemma left_cancelled [simp]:
  "loop_left (l\<lparr>rn_cancelled := c\<rparr>) = loop_left l"
  "activity_left (a\<lparr>al_cancelled := c\<rparr>) = activity_left a"
  by (simp_all add: loop_left_def activity_left_def)

lemma run_decreases:
  assumes "public_internal rt vars wire awire answers s s'"
    and "loop_reachable rt vars wire (pu_workflow s)" and "activity_reachable lib awire (pu_activity s)"
  shows "run_left s' < run_left s"
proof -
  have wf: "loop_left l < loop_left (pu_workflow s) \<and> rn_cancelled l = rn_cancelled (pu_workflow s)"
    if "loop_internal rt vars wire (pu_workflow s) l" for l
    using loop_decreases [OF that loop_pipe_inv [OF assms(2)]] loop_invD(4) [OF assms(2)]
      loop_cancelled_kept [OF that] by simp
  have act: "activity_left l < activity_left (pu_activity s) \<and> al_cancelled l = al_cancelled (pu_activity s)"
    if "activity_internal awire (pu_activity s) l" for l
    using activity_decreases [OF that] activity_reachableD(1) [OF assms(3)] activity_pipe_inv [OF assms(3)]
      activity_cancelled_kept [OF that] by simp
  show ?thesis
    using assms(1)
  proof (cases rule: public_internal.cases)
    case (workflow_runs l)
    with wf [OF workflow_runs(2)] have "control_left s' = control_left s" by (simp add: control_left_def)
    with wf [OF workflow_runs(2)] workflow_runs(1) show ?thesis by (simp add: run_left_def)
  next
    case workflow_ends
    then obtain answer c l where l: "finish rt answer (pu_workflow s) = Some l"
        and s': "s' = s\<lparr>pu_workflow := l, pu_core := c\<rparr>"
      by (auto simp: finish_workflow_def Let_def split: prod.splits)
    from workflow_ends(1,2) l have step: "loop_internal rt vars wire (pu_workflow s) l"
      by (rule loop_internal.finished)
    from wf [OF step] s' have "control_left s' = control_left s" by (simp add: control_left_def)
    with wf [OF step] s' show ?thesis by (simp add: run_left_def)
  next
    case (activity_runs l)
    with act [OF activity_runs(2)] have "control_left s' = control_left s" by (simp add: control_left_def)
    with act [OF activity_runs(2)] activity_runs(1) show ?thesis by (simp add: run_left_def)
  next
    case activity_ends
    let ?l = "activity_finish (fst (handle_shutdown answers 1 (pu_core s))) (pu_activity s)"
    from activity_ends(2,3) have step: "activity_internal awire (pu_activity s) ?l"
      by (rule activity_internal.act_finished)
    have s': "s' = s\<lparr>pu_activity := ?l, pu_core := snd (handle_shutdown answers 1 (pu_core s))\<rparr>"
      by (simp add: activity_ends(1) finish_activity_def split: prod.splits)
    with act [OF step] have "control_left s' = control_left s" by (simp add: control_left_def)
    with act [OF step] s' show ?thesis by (simp add: run_left_def)
  qed (simp_all add: run_left_def control_left_def send_workflow_def send_activity_def receive_first_def
      receive_second_def)
qed

text \<open>A step of a loop is a step of the running worker; only the answer to a shutdown is Core's.\<close>

lemma workflow_advances:
  assumes "loop_internal rt vars wire (pu_workflow s) l" and "rn_returned (pu_workflow s) = None"
  shows "\<exists>s'. public_internal rt vars wire awire answers s s'"
proof (cases "rn_returned l = rn_returned (pu_workflow s)")
  case True
  with assms(1) show ?thesis by (blast intro: public_internal.workflow_runs)
next
  case False
  with assms obtain answer where fin: "should_finish (pu_workflow s)" "finish rt answer (pu_workflow s) = Some l"
  proof -
    from assms(1) False assms(2)
    have "should_finish (pu_workflow s) \<and> (\<exists>answer. finish rt answer (pu_workflow s) = Some l)"
      by (cases rule: loop_internal.cases) (auto simp: handle_processor_result_def)
    with that show ?thesis by blast
  qed
  then have "stop_all_runs rt (rn_worker (pu_workflow s)) \<noteq> None"
    by (auto simp: finish_def worker_shutdown_def)
  then have "finish_workflow rt answers s \<noteq> None"
    by (auto simp: finish_workflow_def finish_def worker_shutdown_def Let_def split: prod.splits)
  with fin(1) assms(2) show ?thesis by (blast intro: public_internal.workflow_ends)
qed

lemma activity_advances:
  assumes "activity_internal awire (pu_activity s) l" and "al_returned (pu_activity s) = None"
  shows "\<exists>s'. public_internal rt vars wire awire answers s s'"
proof (cases "al_returned l = al_returned (pu_activity s)")
  case True
  with assms(1) show ?thesis by (blast intro: public_internal.activity_runs)
next
  case False
  from assms(1) False assms(2) have "activity_should_finish (pu_activity s)"
    by (cases rule: activity_internal.cases) (simp_all add: handle_activity_result_def)
  with assms(2) show ?thesis by (blast intro: public_internal.activity_ends)
qed

text \<open>Where no step is left, \<open>Run\<close> has returned or a loop waits for what is outside.\<close>

lemma run_stuck:
  assumes r: "public_reachable rt vars lib wire awire answers s"
    and stuck: "\<And>s'. \<not> public_internal rt vars wire awire answers s s'" and "pu_returned s = None"
  shows "rn_returned (pu_workflow s) = None \<and>
      (rn_poller (pu_workflow s) = Polling \<or> user_code_runs rt vars (pu_workflow s)) \<or>
    al_returned (pu_activity s) = None \<and> al_poller (pu_activity s) = PollerWaits"
proof (rule ccontr)
  assume n: "\<not> ?thesis"
  have "rn_returned (pu_workflow s) \<noteq> None"
  proof
    assume none: "rn_returned (pu_workflow s) = None"
    with n loop_progress [OF public_loops(1) [OF r]] obtain l where
      "loop_internal rt vars wire (pu_workflow s) l" by blast
    from workflow_advances [OF this none] stuck show False by blast
  qed
  moreover have "al_returned (pu_activity s) \<noteq> None"
  proof
    assume none: "al_returned (pu_activity s) = None"
    with n activity_progress [OF public_loops(2) [OF r]] obtain l where
      "activity_internal awire (pu_activity s) l" by blast
    from activity_advances [OF this none] stuck show False by blast
  qed
  ultimately have sent: "pu_workflow_sent s" "pu_activity_sent s"
    using stuck by (blast intro: public_internal.workflow_sends public_internal.activity_sends)+
  then have "length (pu_results s) = 2" using results_sent [OF run_control_reachable [OF r]] by simp
  moreover from this have "pu_first s" using stuck by (force intro: public_internal.first_received)
  ultimately show False
    using stuck [of "receive_second s"] assms(3) by (simp add: public_internal.second_received)
qed

lemma run_returned:
  assumes "run_control s" and "pu_returned s = Some answer"
  shows "both_ended s" "answer = errors_join (pu_results s)"
    "set (pu_results s) = {the (rn_returned (pu_workflow s)), the (al_returned (pu_activity s))}"
proof -
  from assms have sent: "pu_workflow_sent s" "pu_activity_sent s" "answer = errors_join (pu_results s)"
    by (simp_all add: run_control_def)
  with assms(1) show "both_ended s" "answer = errors_join (pu_results s)"
    by (simp_all add: run_control_def both_ended_def)
  have "mset (pu_results s) =
       (if pu_workflow_sent s then {#the (rn_returned (pu_workflow s))#} else {#}) +
       (if pu_activity_sent s then {#the (al_returned (pu_activity s))#} else {#})"
    using assms(1) unfolding run_control_def by blast
  then have "mset (pu_results s) =
      {#the (rn_returned (pu_workflow s))#} + {#the (al_returned (pu_activity s))#}"
    using sent(1,2) by (simp only: if_True)
  then have "set_mset (mset (pu_results s)) =
      set_mset ({#the (rn_returned (pu_workflow s))#} + {#the (al_returned (pu_activity s))#})" by simp
  then show "set (pu_results s) = {the (rn_returned (pu_workflow s)), the (al_returned (pu_activity s))}"
    by (simp add: insert_commute)
qed

lemma workflow_error_kept:
  assumes "ended_ok l" and "rn_returned l \<noteq> None" and "rn_first_err l = Some e"
  shows "\<exists>i. rn_returned l = Some (Some i) \<and> (\<forall>t. err_is e t \<longrightarrow> err_is i t)"
proof -
  from assms obtain a where a: "rn_returned l = Some (errors_join [rn_first_err l, rn_later_err l, a])"
    by (auto simp: ended_ok_def)
  have "Some e \<in> set [rn_first_err l, rn_later_err l, a]" by (simp add: assms(3))
  from errors_join_member [OF this] a show ?thesis by auto
qed

lemma activity_error_kept:
  assumes "activity_ended l" and "al_returned l \<noteq> None" and "al_first_err l = Some e"
  shows "\<exists>i. al_returned l = Some (Some i) \<and> (\<forall>t. err_is e t \<longrightarrow> err_is i t)"
proof -
  from assms obtain a where a: "al_returned l =
      Some (errors_join [errors_join [al_first_err l, al_later_err l], a])"
    by (auto simp: activity_ended_def)
  have "Some e \<in> set [al_first_err l, al_later_err l]" by (simp add: assms(3))
  from errors_join_member [OF this] obtain i where
    i: "errors_join [al_first_err l, al_later_err l] = Some i" "\<forall>t. err_is e t \<longrightarrow> err_is i t" by blast
  have "Some i \<in> set [errors_join [al_first_err l, al_later_err l], a]" by (simp add: i(1))
  from errors_join_member [OF this] obtain j where
    j: "errors_join [errors_join [al_first_err l, al_later_err l], a] = Some j"
      "\<forall>t. err_is i t \<longrightarrow> err_is j t" by blast
  show ?thesis
    by (rule exI [of _ j]) (use a i(2) j in \<open>simp only: j(1), blast\<close>)
qed

end
