(* ===== verification/Public_Run_Properties.thy ===== *)
theory Public_Run_Properties
  imports Public_Run_Laws
begin

text \<open>
  What \<open>Run\<close> of the public worker promises, and a run of a sample worker from its start to its return.
\<close>

section \<open>A whole run\<close>

lemma new_pipeline_idle [simp]: "p_outstanding (new_pipeline limit [] :: 'q pipeline) = 0"
  by (rule new_pipeline_form [where 'a = 'q and limit = limit and os = "[]"]) simp

text \<open>The caller cancels, both pollers learn of it, and both workers end.\<close>

lemma workflow_half:
  assumes r: "public_reachable rt vars lib wire awire answers s" and new: "pu_workflow s = new_run_loop w"
    and w: "fresh_worker rt w" "ww_runs w = []" and "pu_cancelled s"
  obtains l c where "public_reachable rt vars lib wire awire answers (s\<lparr>pu_workflow := l, pu_core := c\<rparr>)"
    "rn_returned l \<noteq> None"
proof -
  note step = public_reachable.inner and defs = new_run_loop_def start_draining_def record_error_def
    should_finish_def handle_poll_closed_def initial_psys_def
  let ?l1 = "(new_run_loop w)\<lparr>rn_cancelled := True\<rparr>"
  let ?l2 = "start_draining None ?l1"
  let ?l3 = "?l2\<lparr>rn_poller := Offering (poll_event_of wire (worker_codec (rn_worker ?l2)) (Inl context_canceled))\<rparr>"
  let ?l4 = "?l3\<lparr>rn_poller := PollEnded\<rparr>"
  let ?l5 = "handle_poll_closed ?l4"
  from step [OF r public_internal.workflow_cancelled [OF assms(5)]]
  have r1: "public_reachable rt vars lib wire awire answers (s\<lparr>pu_workflow := ?l1\<rparr>)"
    by (simp add: new) (simp add: new_run_loop_def)
  have "loop_internal rt vars wire ?l1 ?l2" by (rule loop_internal.ctx_done) (simp_all add: defs)
  from step [OF r1 public_internal.workflow_runs [OF _ _]] this
  have r2: "public_reachable rt vars lib wire awire answers (s\<lparr>pu_workflow := ?l2\<rparr>)" by fastforce
  have "loop_external wire ?l2 ?l3" by (rule loop_external.polled) (simp add: defs)
  from public_reachable.outer [OF r2 public_external.workflow_polled [OF _ _]] this
  have r3: "public_reachable rt vars lib wire awire answers (s\<lparr>pu_workflow := ?l3\<rparr>)" by fastforce
  have "loop_internal rt vars wire ?l3 ?l4"
    by (rule loop_internal.poller_left
        [where event = "poll_event_of wire (worker_codec (rn_worker ?l2)) (Inl context_canceled)"])
      (simp_all add: defs poll_event_of_def)
  from step [OF r3 public_internal.workflow_runs [OF _ _]] this
  have r4: "public_reachable rt vars lib wire awire answers (s\<lparr>pu_workflow := ?l4\<rparr>)" by fastforce
  have "loop_internal rt vars wire ?l4 ?l5" by (rule loop_internal.poll_closed) (simp_all add: defs)
  from step [OF r4 public_internal.workflow_runs [OF _ _]] this
  have r5: "public_reachable rt vars lib wire awire answers (s\<lparr>pu_workflow := ?l5\<rparr>)"
    by (fastforce simp: defs)
  have worker: "rn_worker ?l5 = w" by (simp add: defs)
  have started: "rn_worker (new_run_loop w) = w" by (simp add: new_run_loop_def)
  have none: "rn_returned ?l5 = None" and fin: "should_finish ?l5" by (simp_all add: defs)
  have "finish_workflow rt answers (s\<lparr>pu_workflow := ?l5\<rparr>) \<noteq> None"
    using w(2) unfolding finish_workflow_def finish_def worker_shutdown_def stop_all_runs_def
    by (simp add: started Let_def split: prod.splits)
  then obtain s' where s': "finish_workflow rt answers (s\<lparr>pu_workflow := ?l5\<rparr>) = Some s'" by blast
  have core: "ww_core (rn_worker ?l5)" "ww_shutdown (rn_worker ?l5) = None"
    using w(1) by (simp_all only: worker fresh_worker_def)
  from finish_workflow_Some [OF s'] core obtain l c where l: "s' = s\<lparr>pu_workflow := l, pu_core := c\<rparr>"
      "rn_returned l \<noteq> None" by auto
  from step [OF r5 public_internal.workflow_ends [OF _ _ s']] none fin l show ?thesis
    by (intro that) simp_all
qed

lemma activity_half:
  assumes r: "public_reachable rt vars lib wire awire answers s" and new: "pu_activity s = new_activity_loop w"
    and "pu_cancelled s"
  obtains l c where "public_reachable rt vars lib wire awire answers (s\<lparr>pu_activity := l, pu_core := c\<rparr>)"
    "al_returned l \<noteq> None"
proof -
  note step = public_reachable.inner
  let ?i = "\<lambda>ns :: nat list. ns"
  let ?l1 = "(new_activity_loop w)\<lparr>al_cancelled := True\<rparr>"
  let ?l2 = "activity_start_draining awire ?i None ?l1"
  let ?e = "activity_poll_of awire (activity_codec (al_worker ?l2)) (Inl context_canceled)"
  let ?l3 = "?l2\<lparr>al_poller := PollerOffers ?e\<rparr>"
  let ?l4 = "?l3\<lparr>al_poller := PollerLeft\<rparr>"
  let ?l5 = "handle_activity_closed awire ?i ?l4"
  have l2: "?l2 = ?l1\<lparr>al_draining := True, al_poll_stopped := True, al_ctx_watched := False\<rparr>"
    by (simp add: new_activity_loop_def activity_start_draining_def activity_record_error_def
        cancel_running_activities_def Let_def errors_join_def)
  have l5: "?l5 = ?l1\<lparr>al_draining := True, al_poll_stopped := True, al_ctx_watched := False,
      al_poller := PollerLeft, al_poll_open := False\<rparr>"
    unfolding l2 by (simp add: handle_activity_closed_def Let_def)
  note defs = new_activity_loop_def activity_should_finish_def initial_psys_def
  from step [OF r public_internal.activity_cancelled [OF assms(3)]]
  have r1: "public_reachable rt vars lib wire awire answers (s\<lparr>pu_activity := ?l1\<rparr>)"
    by (simp add: new) (simp add: new_activity_loop_def)
  have "activity_internal awire ?l1 ?l2"
    by (rule activity_internal.act_ctx_done) (simp_all add: defs reorders_def)
  from step [OF r1 public_internal.activity_runs [OF _ _]] this
  have r2: "public_reachable rt vars lib wire awire answers (s\<lparr>pu_activity := ?l2\<rparr>)"
    by (fastforce simp: defs)
  have "activity_external lib awire ?l2 ?l3"
    by (rule activity_external.act_polled) (simp add: l2 defs)
  from public_reachable.outer [OF r2 public_external.activity_served [OF _ _]] this
  have r3: "public_reachable rt vars lib wire awire answers (s\<lparr>pu_activity := ?l3\<rparr>)" by fastforce
  have "activity_internal awire ?l3 ?l4"
    by (rule activity_internal.act_poller_left [where event = ?e]) (simp_all add: l2 activity_poll_of_def)
  from step [OF r3 public_internal.activity_runs [OF _ _]] this
  have r4: "public_reachable rt vars lib wire awire answers (s\<lparr>pu_activity := ?l4\<rparr>)" by fastforce
  have "activity_internal awire ?l4 ?l5"
    by (rule activity_internal.act_poll_closed) (simp_all add: l2 defs reorders_def)
  from step [OF r4 public_internal.activity_runs [OF _ _]] this
  have r5: "public_reachable rt vars lib wire awire answers (s\<lparr>pu_activity := ?l5\<rparr>)" by fastforce
  have "al_returned ?l5 = None" "activity_should_finish ?l5"
    unfolding l5 by (simp_all add: defs)
  with step [OF r5 public_internal.activity_ends [OF _ _]]
  have "public_reachable rt vars lib wire awire answers (finish_activity answers (s\<lparr>pu_activity := ?l5\<rparr>))" by simp
  then show ?thesis
    by (intro that [where l = "activity_finish (fst (handle_shutdown answers 1 (pu_core s))) ?l5"
          and c = "snd (handle_shutdown answers 1 (pu_core s))"])
      (simp_all add: finish_activity_def activity_finish_def split: prod.splits)
qed

text \<open>Both results are received.\<close>

lemma whole_run:
  assumes made: "worker_made rt lib answers (w :: ('u, 'b) public_worker) c"
    and w: "ww_runs (pw_workflow w) = []"
  shows "\<exists>(s :: ('u, 'b) public_run) answer. public_reachable rt vars lib wire awire answers s \<and> pu_returned s = Some answer"
proof -
  note step = public_reachable.inner and defs = send_workflow_def send_activity_def receive_first_def receive_second_def
  let ?s0 = "(start_run w c)\<lparr>pu_cancelled := True\<rparr>"
  from public_reachable.outer [OF public_reachable.run [OF made] public_external.caller_cancels]
  have r0: "public_reachable rt vars lib wire awire answers ?s0" .
  from worker_made_fresh [OF made] have fresh: "fresh_worker rt (pw_workflow w)" by simp
  have "pu_workflow ?s0 = new_run_loop (pw_workflow w)" "pu_cancelled ?s0" by (simp_all add: start_run_def)
  from workflow_half [OF r0 this(1) fresh w this(2)] obtain l c1 where
    r1: "public_reachable rt vars lib wire awire answers (?s0\<lparr>pu_workflow := l, pu_core := c1\<rparr>)"
    and l: "rn_returned l \<noteq> None" by blast
  let ?s1 = "?s0\<lparr>pu_workflow := l, pu_core := c1\<rparr>"
  have "pu_activity ?s1 = new_activity_loop (pw_activity w)" "pu_cancelled ?s1" by (simp_all add: start_run_def)
  from activity_half [OF r1 this] obtain a c2 where
    r2: "public_reachable rt vars lib wire awire answers (?s1\<lparr>pu_activity := a, pu_core := c2\<rparr>)"
    and a: "al_returned a \<noteq> None" by blast
  from l a obtain e f where e: "rn_returned l = Some e" and f: "al_returned a = Some f" by blast
  let ?s2 = "?s1\<lparr>pu_activity := a, pu_core := c2\<rparr>"
  let ?s3 = "send_workflow e ?s2" let ?s4 = "send_activity f ?s3" let ?s5 = "receive_first ?s4"
  from step [OF r2 public_internal.workflow_sends [of _ e]] e
  have r3: "public_reachable rt vars lib wire awire answers ?s3" by (simp add: start_run_def)
  from step [OF r3 public_internal.activity_sends [of _ f]] f
  have r4: "public_reachable rt vars lib wire awire answers ?s4" by (simp add: start_run_def defs)
  from step [OF r4 public_internal.first_received]
  have r5: "public_reachable rt vars lib wire awire answers ?s5" by (simp add: start_run_def defs)
  from step [OF r5 public_internal.second_received]
  have "public_reachable rt vars lib wire awire answers (receive_second ?s5)" by (simp add: start_run_def defs)
  then show ?thesis by (intro exI [of _ "receive_second ?s5"]) (auto simp: receive_second_def)
qed

definition sample_options :: public_options where
  "sample_options = \<lparr>cn_address = [], cn_namespace = [], cn_task_queue = ''greetings'', cn_identity = [],
     cn_payload_converter = None, cn_payload_codec = None, cn_tls = None, cn_api_key = [],
     po_max_activities = 0, po_max_activity_pollers = 0, po_max_workflow_tasks = 0,
     po_max_workflow_pollers = 0, po_max_cached = 0, po_max_eager = 0, po_heartbeat_interval = 0,
     po_disable_heartbeat = False\<rparr>"

lemma sample_made:
  "\<exists>w c. worker_made rt lib answers (w :: ('u, 'b) public_worker) c \<and> ww_runs (pw_workflow w) = []"
proof -
  have "options_in_range sample_options" by (simp add: options_in_range_def sample_options_def max_int32_def)
  then obtain cn a v n eager millis where checked:
      "normalize_connection (default_payload_converter sample_lib) noop_codec ''worker''
         (connection_of sample_options) = Inr cn"
      "normalize_combined_core_options (activity_options_of sample_options)
         (workflow_options_of sample_options) = Inr (a, v)"
      "normalize_max_eager (po_max_eager sample_options) = Inr eager"
      "normalize_heartbeat_interval (po_heartbeat_interval sample_options)
         (po_disable_heartbeat sample_options) = Inr millis" "normalize_workflow_options v = Inr n"
    unfolding options_in_range_iff [of _ "default_payload_converter sample_lib"] by blast
  have "\<exists>m. check_activity_options a = Inr m"
    using checked(2) unfolding normalize_combined_Inr
    by (auto simp: check_activity_options_def Let_def max_int32_activity_def max_int32_def)
  then obtain m where "check_activity_options a = Inr m" by blast
  note result = new_with_shared_core_result [OF normalize_connection_again [OF checked(1)] this]
  let ?w = "\<lparr>pw_workflow = new_workflow_worker (cn_namespace cn) (cn_task_queue cn) (cn_payload_codec cn) n True,
    pw_converter = cn_payload_converter cn, pw_activity = new_activity_worker cn m\<rparr> :: ('u, 'b) public_worker"
  from new_combined_worker_made [OF checked(1-4), of rt answers "\<lambda>k. None"]
  have "(new_combined_worker rt answers (default_factory (\<lambda>k. None)) (default_payload_converter sample_lib)
      sample_options :: ((goerr + ('u, 'b) public_worker) \<times> shared_core option) option) =
      Some (Inr ?w, Some (snd (open_handle (snd (open_handle new_shared_core)))))"
    by (auto simp: result checked(5))
  from worker_made.new [OF this] show ?thesis
    by (intro exI conjI) (assumption, simp add: new_workflow_worker_def)
qed

text \<open>Core refuses its shutdown.\<close>

definition refusing :: "nat \<Rightarrow> goerr option" where
  "refusing n = Some (ErrSentinel ''core refused'')"

abbreviation sample_run_reachable :: "(greeting_status, nat) public_run \<Rightarrow> bool" where
  "sample_run_reachable \<equiv>
     public_reachable sample_runtime idle_status sample_lib sample_wire sample_activity_wire refusing"

lemma sample_run_ends: "\<exists>s answer. sample_run_reachable s \<and> pu_returned s = Some answer"
proof -
  obtain w :: "(greeting_status, nat) public_worker" and c where
    "worker_made sample_runtime sample_lib refusing w c" "ww_runs (pw_workflow w) = []"
    using sample_made by blast
  from whole_run [OF this] show ?thesis .
qed

section \<open>What Run promises\<close>

text \<open>
  C15. \<open>Run\<close> of the public worker never stops halfway. Its steps, those of both loops and of all their
  goroutines are finitely many in every schedule between two events from outside. Where none is left
  although \<open>Run\<close> has not returned, one of the workers has not ended and waits for Core to answer its
  poll, or for user code that does not return; and if the caller cancelled the context, or one worker has ended,
  then both workers have seen the cancellation by then.
\<close>

theorem public_run_settles:
  assumes "public_reachable rt vars lib wire awire answers s"
  shows "wfp (\<lambda>s'' s'. public_reachable rt vars lib wire awire answers s' \<and>
      public_internal rt vars wire awire answers s' s'') \<and>
    ((\<forall>s'. \<not> public_internal rt vars wire awire answers s s') \<longrightarrow>
       pu_returned s \<noteq> None \<or>
       (rn_returned (pu_workflow s) = None \<and>
          (rn_poller (pu_workflow s) = Polling \<or> user_code_runs rt vars (pu_workflow s)) \<or>
        al_returned (pu_activity s) = None \<and> al_poller (pu_activity s) = PollerWaits) \<and>
       (pu_cancelled s \<or> rn_returned (pu_workflow s) \<noteq> None \<or> al_returned (pu_activity s) \<noteq> None \<longrightarrow>
          rn_cancelled (pu_workflow s) \<and> al_cancelled (pu_activity s)))"
proof (intro conjI impI)
  show "wfp (\<lambda>s'' s'. public_reachable rt vars lib wire awire answers s' \<and>
      public_internal rt vars wire awire answers s' s'')"
    by (rule wfp_if_convertible_to_nat [of _ run_left]) (metis run_decreases public_loops)
  assume "\<forall>s'. \<not> public_internal rt vars wire awire answers s s'"
  then have stuck: "\<not> public_internal rt vars wire awire answers s s'" for s' by blast
  have "rn_cancelled (pu_workflow s) \<and> al_cancelled (pu_activity s)" if "pu_cancelled s"
    using that stuck by (blast intro: public_internal.workflow_cancelled public_internal.activity_cancelled)
  moreover have "pu_cancelled s"
    if "rn_returned (pu_workflow s) \<noteq> None \<or> al_returned (pu_activity s) \<noteq> None"
  proof -
    from that have "pu_workflow_sent s \<or> pu_activity_sent s"
      using stuck by (blast intro: public_internal.workflow_sends public_internal.activity_sends)
    then have "pu_results s \<noteq> []"
      using results_sent [OF run_control_reachable [OF assms]] by (auto split: if_splits)
    then have "pu_first s" using stuck by (blast intro: public_internal.first_received)
    then show ?thesis using run_control_reachable [OF assms] by (simp add: run_control_def)
  qed
  ultimately show "pu_returned s \<noteq> None \<or>
       (rn_returned (pu_workflow s) = None \<and>
          (rn_poller (pu_workflow s) = Polling \<or> user_code_runs rt vars (pu_workflow s)) \<or>
        al_returned (pu_activity s) = None \<and> al_poller (pu_activity s) = PollerWaits) \<and>
       (pu_cancelled s \<or> rn_returned (pu_workflow s) \<noteq> None \<or> al_returned (pu_activity s) \<noteq> None \<longrightarrow>
          rn_cancelled (pu_workflow s) \<and> al_cancelled (pu_activity s))"
    using run_stuck [OF assms stuck] by blast
qed

lemma public_run_settles_witness:
  "\<exists>s s'. sample_run_reachable s \<and>
     public_internal sample_runtime idle_status sample_wire sample_activity_wire refusing s s'"
proof -
  obtain w :: "(greeting_status, nat) public_worker" and c where
    made: "worker_made sample_runtime sample_lib refusing w c" using sample_made by blast
  let ?s = "(start_run w c)\<lparr>pu_cancelled := True\<rparr>"
  have r: "sample_run_reachable ?s"
    by (rule public_reachable.outer [OF public_reachable.run [OF made] public_external.caller_cancels])
  have "pu_returned ?s = None" "pu_cancelled ?s" "\<not> rn_cancelled (pu_workflow ?s)"
    by (simp_all add: start_run_def new_run_loop_def)
  with public_run_settles [OF r] r show ?thesis by blast
qed

text \<open>
  C16. The shared Core is shut down once, when both workers have ended, and not before: as long as a worker runs,
  Core has not been shut down, and once it has been, every completion either worker accepted has been
  submitted to it. \<open>Run\<close> returns only after that.
\<close>

theorem core_outlives_workers:
  assumes "public_reachable rt vars lib wire awire answers s"
  shows "sc_shutdowns (pu_core s) =
      (if rn_returned (pu_workflow s) \<noteq> None \<and> al_returned (pu_activity s) \<noteq> None then 1 else 0) \<and>
    (sc_shutdowns (pu_core s) > 0 \<longrightarrow>
       mset (s_submitted (rn_pipe (pu_workflow s))) = mset (s_accepted (rn_pipe (pu_workflow s))) \<and>
       mset (s_submitted (al_pipe (pu_activity s))) = mset (s_accepted (al_pipe (pu_activity s)))) \<and>
    (pu_returned s \<noteq> None \<longrightarrow> sc_shutdowns (pu_core s) = 1)"
proof -
  note books = core_books_reachable [OF assms] and loops = public_loops [OF assms]
  from books have n: "sc_shutdowns (pu_core s) = (if both_ended s then 1 else 0)"
    by (simp add: core_books_def holders_of_def)
  have ended: "mset (s_submitted (rn_pipe (pu_workflow s))) = mset (s_accepted (rn_pipe (pu_workflow s))) \<and>
       mset (s_submitted (al_pipe (pu_activity s))) = mset (s_accepted (al_pipe (pu_activity s)))"
    if "both_ended s"
  proof -
    from that have "should_finish (pu_workflow s)" "activity_should_finish (pu_activity s)"
      using loop_invD(5) [OF loops(1)] activity_reachableD(6) [OF loops(2)]
      by (auto simp: both_ended_def ended_ok_def activity_ended_def)
    then show ?thesis
      using no_outstanding_all_done(2) [OF loop_pipe_inv [OF loops(1)]]
        no_outstanding_all_done(2) [OF activity_pipe_inv [OF loops(2)]]
      by (simp add: should_finish_def activity_should_finish_def)
  qed
  have "both_ended s" if "pu_returned s \<noteq> None"
    using that run_control_reachable [OF assms] by (auto simp: run_control_def both_ended_def)
  with n ended show ?thesis by (auto simp: both_ended_def)
qed

lemma core_outlives_workers_witness:
  "\<exists>s. sample_run_reachable s \<and> pu_returned s \<noteq> None \<and> sc_shutdowns (pu_core s) = 1"
proof -
  from sample_run_ends obtain s answer where s: "sample_run_reachable s" "pu_returned s = Some answer" by blast
  from core_outlives_workers [OF s(1)] s show ?thesis by blast
qed

text \<open>
  C32. \<open>Run\<close> reports every error: its result contains the first error of the workflow loop, the first error
  of the activity loop, and Core's answer to its shutdown, whatever order the workers ended in; and it
  is nil only if both workers ended without an error.
\<close>

theorem public_run_reports:
  assumes "public_reachable rt vars lib wire awire answers s" and "pu_returned s = Some answer"
  shows "(\<forall>e. rn_first_err (pu_workflow s) = Some e \<or> al_first_err (pu_activity s) = Some e \<or>
        answers 0 = Some e \<longrightarrow> (\<exists>j. answer = Some j \<and> (\<forall>t. err_is e t \<longrightarrow> err_is j t))) \<and>
    (answer = None \<longrightarrow> rn_returned (pu_workflow s) = Some None \<and> al_returned (pu_activity s) = Some None)"
proof -
  note books = core_books_reachable [OF assms(1)] and loops = public_loops [OF assms(1)]
  note returned = run_returned [OF run_control_reachable [OF assms(1)] assms(2)]
  have ended: "rn_returned (pu_workflow s) \<noteq> None" "al_returned (pu_activity s) \<noteq> None"
    using returned(1) by (simp_all add: both_ended_def)
  have sub: "\<exists>j. answer = Some j \<and> (\<forall>t. err_is e t \<longrightarrow> err_is j t)"
    if "\<exists>i. (rn_returned (pu_workflow s) = Some (Some i) \<or> al_returned (pu_activity s) = Some (Some i)) \<and>
      (\<forall>t. err_is e t \<longrightarrow> err_is i t)" for e
  proof -
    from that obtain i where "Some i \<in> set (pu_results s)" and i: "\<forall>t. err_is e t \<longrightarrow> err_is i t"
      unfolding returned(3) by fastforce
    from errors_join_member [OF this(1)] i show ?thesis unfolding returned(2) by blast
  qed
  have "\<exists>j. answer = Some j \<and> (\<forall>t. err_is e t \<longrightarrow> err_is j t)"
    if "rn_first_err (pu_workflow s) = Some e \<or> al_first_err (pu_activity s) = Some e \<or> answers 0 = Some e" for e
    using that
  proof (elim disjE)
    assume "rn_first_err (pu_workflow s) = Some e"
    from workflow_error_kept [OF loop_invD(5) [OF loops(1)] ended(1) this] show ?thesis
      by (intro sub) blast
  next
    assume "al_first_err (pu_activity s) = Some e"
    from activity_error_kept [OF activity_reachableD(6) [OF loops(2)] ended(2) this] show ?thesis
      by (intro sub) blast
  next
    assume "answers 0 = Some e"
    with books returned(1) show ?thesis by (intro sub) (simp add: core_books_def)
  qed
  moreover have "rn_returned (pu_workflow s) = Some None \<and> al_returned (pu_activity s) = Some None"
    if "answer = None"
  proof -
    from that have "\<forall>e \<in> set (pu_results s). e = None" by (simp add: returned(2))
    with ended show ?thesis unfolding returned(3) by auto
  qed
  ultimately show ?thesis by blast
qed

lemma public_run_reports_witness:
  "\<exists>s j. sample_run_reachable s \<and> pu_returned s = Some (Some j) \<and> err_is j ''core refused''"
proof -
  from sample_run_ends obtain s answer where s: "sample_run_reachable s" "pu_returned s = Some answer" by blast
  have "err_is (ErrSentinel ''core refused'') ''core refused''" by simp
  moreover from public_run_reports [OF s] obtain j where "answer = Some j"
      "err_is (ErrSentinel ''core refused'') ''core refused'' \<longrightarrow> err_is j ''core refused''"
    unfolding refusing_def by blast
  ultimately show ?thesis using s by blast
qed

end
