(* ===== verification/Wasi_Host.thy ===== *)
theory Wasi_Host
  imports Go_Prelude
begin

unbundle bit_operations_syntax

text \<open>
  The WASI functions the Core module imports (\<open>internal/wasmhost/wasi.go\<close>): bounds-checked views of the
  module's linear memory, and the functions that read and write it.

  The linear memory is a list of bytes; a slice of it is a pair of offsets, so that writing to the slice
  changes the memory. What the operating system does is a parameter: the random source, the two clocks, how much
  of a write it accepts. The clock is read once per subscription of a poll.
\<close>

section \<open>Linear memory\<close>

type_synonym byte = "8 word"
type_synonym memory = "byte list"

definition wasi_success :: "32 word" where "wasi_success = 0"
definition wasi_bad_fd :: "32 word" where "wasi_bad_fd = 8"
definition wasi_fault :: "32 word" where "wasi_fault = 21"
definition wasi_no_sys :: "32 word" where "wasi_no_sys = 52"

text \<open>\<open>memory\<close>: the offsets of the slice, in 64 bits.\<close>

definition memory_view :: "memory \<Rightarrow> 32 word \<Rightarrow> 32 word \<Rightarrow> (nat \<times> nat) option" where
  "memory_view m ptr len =
     (if sint ptr < 0 \<or> sint len < 0 then None
      else
        let start = ucast ptr :: 64 word; stop = start + ucast len in
        if unat stop > length m then None else Some (unat start, unat stop))"

definition slice :: "memory \<Rightarrow> nat \<times> nat \<Rightarrow> byte list" where
  "slice m v = take (snd v - fst v) (drop (fst v) m)"

text \<open>Writing bytes at an offset (\<open>copy\<close>, \<open>clear\<close> and the assignments to a slice).\<close>

definition overwrite :: "memory \<Rightarrow> nat \<Rightarrow> byte list \<Rightarrow> memory" where
  "overwrite m start bs = take start m @ bs @ drop (start + length bs) m"

text \<open>\<open>binary.LittleEndian\<close>.\<close>

definition get_u16 :: "byte list \<Rightarrow> 16 word" where
  "get_u16 b = ucast (b ! 0) OR push_bit 8 (ucast (b ! 1))"

definition get_u32 :: "byte list \<Rightarrow> 32 word" where
  "get_u32 b = ucast (b ! 0) OR push_bit 8 (ucast (b ! 1)) OR push_bit 16 (ucast (b ! 2)) OR
     push_bit 24 (ucast (b ! 3))"

definition get_u64 :: "byte list \<Rightarrow> 64 word" where
  "get_u64 b = ucast (b ! 0) OR push_bit 8 (ucast (b ! 1)) OR push_bit 16 (ucast (b ! 2)) OR
     push_bit 24 (ucast (b ! 3)) OR push_bit 32 (ucast (b ! 4)) OR push_bit 40 (ucast (b ! 5)) OR
     push_bit 48 (ucast (b ! 6)) OR push_bit 56 (ucast (b ! 7))"

definition u32_bytes :: "32 word \<Rightarrow> byte list" where
  "u32_bytes v = [ucast v, ucast (drop_bit 8 v), ucast (drop_bit 16 v), ucast (drop_bit 24 v)]"

definition u64_bytes :: "64 word \<Rightarrow> byte list" where
  "u64_bytes v = [ucast v, ucast (drop_bit 8 v), ucast (drop_bit 16 v), ucast (drop_bit 24 v),
     ucast (drop_bit 32 v), ucast (drop_bit 40 v), ucast (drop_bit 48 v), ucast (drop_bit 56 v)]"

section \<open>The host\<close>

text \<open>
  \<open>os_random n\<close> fills a prefix of \<open>n\<close> bytes and says whether it succeeded; the clocks give
  \<open>time.Since(epoch)\<close> and \<open>time.Now\<close> in nanoseconds; \<open>os_accepts\<close> is how many bytes a \<open>Write\<close> writes.
\<close>

record wasi_os =
  os_random :: "nat \<Rightarrow> byte list \<times> bool"
  os_monotonic :: "nat \<Rightarrow> 64 word"
  os_wall :: "nat \<Rightarrow> 64 word"
  os_accepts :: "byte list \<Rightarrow> nat"

text \<open>\<open>WASIHost\<close> with its module's memory; \<open>wh_slept\<close> records the sleeps, in nanoseconds.\<close>

record wasi_host =
  wh_memory :: memory
  wh_stdout :: "byte list"
  wh_stderr :: "byte list"
  wh_slept :: "64 word list"

definition put_u32 :: "32 word \<Rightarrow> 32 word \<Rightarrow> wasi_host \<Rightarrow> bool \<times> wasi_host" where
  "put_u32 ptr v s = (case memory_view (wh_memory s) ptr 4 of
     None \<Rightarrow> (False, s)
   | Some w \<Rightarrow> (True, s\<lparr>wh_memory := overwrite (wh_memory s) (fst w) (u32_bytes v)\<rparr>))"

definition put_u64 :: "32 word \<Rightarrow> 64 word \<Rightarrow> wasi_host \<Rightarrow> bool \<times> wasi_host" where
  "put_u64 ptr v s = (case memory_view (wh_memory s) ptr 8 of
     None \<Rightarrow> (False, s)
   | Some w \<Rightarrow> (True, s\<lparr>wh_memory := overwrite (wh_memory s) (fst w) (u64_bytes v)\<rparr>))"

text \<open>The end of a function that puts a last value.\<close>

definition done_or_fault :: "bool \<times> wasi_host \<Rightarrow> 32 word \<times> wasi_host" where
  "done_or_fault r = (case r of (ok, s) \<Rightarrow> (if ok then wasi_success else wasi_fault, s))"

definition random_get :: "wasi_os \<Rightarrow> 32 word \<Rightarrow> 32 word \<Rightarrow> wasi_host \<Rightarrow> 32 word \<times> wasi_host" where
  "random_get os ptr len s = (case memory_view (wh_memory s) ptr len of
     None \<Rightarrow> (wasi_fault, s)
   | Some w \<Rightarrow>
       (case os_random os (snd w - fst w) of
          (bs, ok) \<Rightarrow>
            (if ok then wasi_success else wasi_no_sys,
             s\<lparr>wh_memory := overwrite (wh_memory s) (fst w) (take (snd w - fst w) bs)\<rparr>)))"

definition environ_get :: "wasi_host \<Rightarrow> 32 word \<times> wasi_host" where
  "environ_get s = (wasi_success, s)"

definition environ_sizes_get :: "32 word \<Rightarrow> 32 word \<Rightarrow> wasi_host \<Rightarrow> 32 word \<times> wasi_host" where
  "environ_sizes_get count_ptr size_ptr s = (case put_u32 count_ptr 0 s of
     (False, s1) \<Rightarrow> (wasi_fault, s1)
   | (True, s1) \<Rightarrow> done_or_fault (put_u32 size_ptr 0 s1))"

definition clock_time_get :: "wasi_os \<Rightarrow> 32 word \<Rightarrow> 32 word \<Rightarrow> wasi_host \<Rightarrow> 32 word \<times> wasi_host" where
  "clock_time_get os clock_id result_ptr s =
     done_or_fault (put_u64 result_ptr (if clock_id = 1 then os_monotonic os 0 else os_wall os 0) s)"

definition fd_fdstat_get :: "32 word \<Rightarrow> 32 word \<Rightarrow> wasi_host \<Rightarrow> 32 word \<times> wasi_host" where
  "fd_fdstat_get fd stat_ptr s =
     (if sint fd < 0 \<or> sint fd > 2 then (wasi_bad_fd, s)
      else case memory_view (wh_memory s) stat_ptr 24 of
        None \<Rightarrow> (wasi_fault, s)
      | Some w \<Rightarrow>
          (wasi_success, s\<lparr>wh_memory := overwrite (wh_memory s) (fst w) (2 # replicate 23 0)\<rparr>))"

text \<open>
  \<open>fd_close\<close>, \<open>fd_filestat_get\<close>, \<open>fd_prestat_get\<close>, \<open>fd_prestat_dir_name\<close> and \<open>path_open\<close>; \<open>sched_yield\<close>.
\<close>

definition no_such_fd :: "wasi_host \<Rightarrow> 32 word \<times> wasi_host" where
  "no_such_fd s = (wasi_bad_fd, s)"

definition sched_yield :: "wasi_host \<Rightarrow> 32 word \<times> wasi_host" where
  "sched_yield s = (wasi_success, s)"

definition fd_read :: "32 word \<Rightarrow> 32 word \<Rightarrow> wasi_host \<Rightarrow> 32 word \<times> wasi_host" where
  "fd_read fd read_ptr s =
     (if fd \<noteq> 0 then (wasi_bad_fd, s) else done_or_fault (put_u32 read_ptr 0 s))"

text \<open>The write to standard output (descriptor 1) or standard error, and the loop over the vectors.\<close>

definition write_target :: "32 word \<Rightarrow> byte list \<Rightarrow> wasi_host \<Rightarrow> wasi_host" where
  "write_target fd bs s =
     (if fd = 1 then s\<lparr>wh_stdout := wh_stdout s @ bs\<rparr> else s\<lparr>wh_stderr := wh_stderr s @ bs\<rparr>)"

fun write_vectors ::
    "wasi_os \<Rightarrow> 32 word \<Rightarrow> 32 word \<Rightarrow> nat list \<Rightarrow> 32 word \<Rightarrow> wasi_host \<Rightarrow> 32 word option \<times> wasi_host" where
  "write_vectors os fd iovs_ptr [] written s = (Some written, s)"
| "write_vectors os fd iovs_ptr (i # js) written s =
     (case memory_view (wh_memory s) (iovs_ptr + of_nat i * 8) 8 of
        None \<Rightarrow> (None, s)
      | Some v \<Rightarrow>
          (let iovec = slice (wh_memory s) v;
               ptr = get_u32 (take 4 iovec);
               len = get_u32 (drop 4 iovec)
           in case memory_view (wh_memory s) ptr len of
                None \<Rightarrow> (None, s)
              | Some d \<Rightarrow>
                  (let data = slice (wh_memory s) d; n = os_accepts os data in
                   write_vectors os fd iovs_ptr js (written + of_nat n) (write_target fd (take n data) s))))"

definition fd_write ::
    "wasi_os \<Rightarrow> 32 word \<Rightarrow> 32 word \<Rightarrow> 32 word \<Rightarrow> 32 word \<Rightarrow> wasi_host \<Rightarrow> 32 word \<times> wasi_host" where
  "fd_write os fd iovs_ptr iovs_len written_ptr s =
     (if fd \<noteq> 1 \<and> fd \<noteq> 2 then (wasi_bad_fd, s)
      else case write_vectors os fd iovs_ptr [0..<nat (sint iovs_len)] 0 s of
        (None, s1) \<Rightarrow> (wasi_fault, s1)
      | (Some written, s1) \<Rightarrow> done_or_fault (put_u32 written_ptr written s1))"

section \<open>Polling\<close>

text \<open>What a clock subscription asks to wait for, as a \<open>time.Duration\<close>.\<close>

definition poll_candidate :: "wasi_os \<Rightarrow> nat \<Rightarrow> byte list \<Rightarrow> 64 word" where
  "poll_candidate os i sub =
     (let timeout = get_u64 (take 8 (drop 24 sub)); flags = get_u16 (take 2 (drop 40 sub)) in
      if flags AND 1 \<noteq> 0
      then
        let clock_id = get_u32 (take 4 (drop 16 sub));
            now = (if clock_id = 1 then os_monotonic os i else os_wall os i)
        in if timeout \<le> now then 0 else timeout - now
      else timeout)"

text \<open>The loop over the subscriptions: the wait and the user data, or a fault.\<close>

fun poll_subscriptions ::
    "wasi_os \<Rightarrow> memory \<Rightarrow> 32 word \<Rightarrow> nat list \<Rightarrow> 64 word \<times> 64 word \<Rightarrow> (64 word \<times> 64 word) option" where
  "poll_subscriptions os m ptr [] r = Some r"
| "poll_subscriptions os m ptr (i # js) (wait, userdata) =
     (case memory_view m (ptr + of_nat i * 48) 48 of
        None \<Rightarrow> None
      | Some v \<Rightarrow>
          (let sub = slice m v in
           if sub ! 8 \<noteq> 0 then poll_subscriptions os m ptr js (wait, userdata)
           else
             let candidate = poll_candidate os i sub in
             poll_subscriptions os m ptr js
               (if wait = 0 \<or> sint candidate < sint wait then candidate else wait, get_u64 (take 8 sub))))"

definition poll_oneoff ::
    "wasi_os \<Rightarrow> 32 word \<Rightarrow> 32 word \<Rightarrow> 32 word \<Rightarrow> 32 word \<Rightarrow> wasi_host \<Rightarrow> 32 word \<times> wasi_host" where
  "poll_oneoff os subscriptions_ptr events_ptr count count_ptr s =
     (if sint count \<le> 0 then (wasi_no_sys, s)
      else case poll_subscriptions os (wh_memory s) subscriptions_ptr [0..<nat (sint count)] (0, 0) of
        None \<Rightarrow> (wasi_fault, s)
      | Some (wait, userdata) \<Rightarrow>
          (let s1 = (if sint wait > 0 then s\<lparr>wh_slept := wh_slept s @ [wait]\<rparr> else s) in
           case memory_view (wh_memory s1) events_ptr 32 of
             None \<Rightarrow> (wasi_fault, s1)
           | Some v \<Rightarrow>
               done_or_fault (put_u32 count_ptr 1
                 (s1\<lparr>wh_memory := overwrite (wh_memory s1) (fst v) (u64_bytes userdata @ replicate 24 0)\<rparr>))))"

text \<open>\<open>proc_exit\<close> panics with this message.\<close>

definition proc_exit :: "32 word \<Rightarrow> string" where
  "proc_exit code = ''WASI process exited with code '' @ show_int (sint code)"

section \<open>The imports of the module\<close>

text \<open>The functions the module may call, but for \<open>proc_exit\<close>.\<close>

datatype wasi_call =
    RandomGet "32 word" "32 word"
  | EnvironGet
  | EnvironSizesGet "32 word" "32 word"
  | ClockTimeGet "32 word" "32 word"
  | FdFdstatGet "32 word" "32 word"
  | NoSuchFd
  | SchedYield
  | FdRead "32 word" "32 word"
  | FdWrite "32 word" "32 word" "32 word" "32 word"
  | PollOneoff "32 word" "32 word" "32 word" "32 word"

fun wasi_call_result :: "wasi_os \<Rightarrow> wasi_call \<Rightarrow> wasi_host \<Rightarrow> 32 word \<times> wasi_host" where
  "wasi_call_result os (RandomGet ptr len) = random_get os ptr len"
| "wasi_call_result os EnvironGet = environ_get"
| "wasi_call_result os (EnvironSizesGet c p) = environ_sizes_get c p"
| "wasi_call_result os (ClockTimeGet c p) = clock_time_get os c p"
| "wasi_call_result os (FdFdstatGet fd p) = fd_fdstat_get fd p"
| "wasi_call_result os NoSuchFd = no_such_fd"
| "wasi_call_result os SchedYield = sched_yield"
| "wasi_call_result os (FdRead fd p) = fd_read fd p"
| "wasi_call_result os (FdWrite fd iovs n p) = fd_write os fd iovs n p"
| "wasi_call_result os (PollOneoff subs events n p) = poll_oneoff os subs events n p"

end
