(* ===== verification/Wasi_Properties.thy ===== *)
theory Wasi_Properties
  imports Wasi_Host
begin

text \<open>
  What the WASI functions promise: a view is exactly a range inside the memory, words are read as they were
  written, and no function changes memory outside the ranges its arguments designate.
\<close>

section \<open>Views\<close>

lemma unat_stop:
  fixes ptr len :: "32 word"
  shows "unat (ucast ptr + ucast len :: 64 word) = unat ptr + unat len"
proof -
  have "unat ptr < 2 ^ 32" "unat len < 2 ^ 32"
    using unsigned_less [of ptr, where 'a = nat] unsigned_less [of len, where 'a = nat] by simp_all
  moreover from this have "unat (ucast ptr :: 64 word) = unat ptr" "unat (ucast len :: 64 word) = unat len"
    by (simp_all add: unsigned_ucast_eq take_bit_nat_eq_self)
  ultimately show ?thesis by (simp add: unat_word_ariths)
qed

lemma unat_start: "unat (ucast (ptr :: 32 word) :: 64 word) = unat ptr"
  using unsigned_less [of ptr, where 'a = nat] by (simp add: unsigned_ucast_eq take_bit_nat_eq_self)

lemma memory_view_eq_Some:
  "memory_view m ptr len = Some v \<longleftrightarrow>
     0 \<le> sint ptr \<and> 0 \<le> sint len \<and> unat ptr + unat len \<le> length m \<and> v = (unat ptr, unat ptr + unat len)"
  by (auto simp: memory_view_def Let_def unat_stop unat_start)

lemma memory_view_eq_None:
  "memory_view m ptr len = None \<longleftrightarrow> sint ptr < 0 \<or> sint len < 0 \<or> length m < unat ptr + unat len"
  by (auto simp: memory_view_def Let_def unat_stop)

lemma memory_view_length: "length m' = length m \<Longrightarrow> memory_view m' = memory_view m"
  by (intro ext) (simp add: memory_view_def)

section \<open>Reading what was written\<close>

lemma length_overwrite: "n + length bs \<le> length m \<Longrightarrow> length (overwrite m n bs) = length m"
  by (simp add: overwrite_def)

lemma nth_overwrite:
  "n + length bs \<le> length m \<Longrightarrow> i < length m \<Longrightarrow>
   overwrite m n bs ! i = (if n \<le> i \<and> i < n + length bs then bs ! (i - n) else m ! i)"
  by (auto simp: overwrite_def nth_append)

lemma slice_overwrite:
  assumes "n + length bs \<le> length m"
  shows "slice (overwrite m n bs) (n, n + length bs) = bs"
  using assms by (simp add: slice_def overwrite_def)

lemma u32_round_trip: "get_u32 (u32_bytes v) = v"
proof (rule bit_word_eqI)
  fix n
  assume "n < LENGTH(32)"
  then consider "n < 8" | "8 \<le> n" "n < 16" | "16 \<le> n" "n < 24" | "24 \<le> n" "n < 32"
    by fastforce
  then show "bit (get_u32 (u32_bytes v)) n = bit v n"
    by cases (auto simp: get_u32_def u32_bytes_def bit_simps)
qed

section \<open>Confinement\<close>

text \<open>Memory changes only inside given ranges that are views of it.\<close>

definition confined :: "(32 word \<times> 32 word) list \<Rightarrow> memory \<Rightarrow> memory \<Rightarrow> bool" where
  "confined rs m m' \<longleftrightarrow>
     length m' = length m \<and>
     (\<forall>i < length m. m' ! i \<noteq> m ! i \<longrightarrow>
        (\<exists>(p, l) \<in> set rs. memory_view m p l \<noteq> None \<and> unat p \<le> i \<and> i < unat p + unat l))"

lemma confined_refl [simp]: "confined rs m m"
  by (simp add: confined_def)

lemma view_inside: "memory_view m p l \<noteq> None \<Longrightarrow> unat p + unat l \<le> length m"
  by (auto simp: memory_view_eq_Some)

lemma confined_inside:
  assumes "confined rs m m'"
  shows "\<forall>i < length m. m' ! i \<noteq> m ! i \<longrightarrow>
    (\<exists>(p, l) \<in> set rs. unat p \<le> i \<and> i < unat p + unat l \<and> unat p + unat l \<le> length m)"
proof (intro allI impI)
  fix i
  assume "i < length m" "m' ! i \<noteq> m ! i"
  with assms obtain r where r: "r \<in> set rs"
      "case r of (p, l) \<Rightarrow> memory_view m p l \<noteq> None \<and> unat p \<le> i \<and> i < unat p + unat l"
    unfolding confined_def by blast
  show "\<exists>(p, l) \<in> set rs. unat p \<le> i \<and> i < unat p + unat l \<and> unat p + unat l \<le> length m"
    by (rule bexI [OF _ r(1)]) (use r(2) view_inside in \<open>cases r, simp\<close>)
qed

lemma confined_trans:
  assumes "confined rs m m'" and "confined rs m' m''"
  shows "confined rs m m''"
  unfolding confined_def
proof (intro conjI allI impI)
  from assms have len: "length m' = length m" "length m'' = length m'" by (simp_all add: confined_def)
  then show "length m'' = length m" by simp
  note view = memory_view_length [OF len(1)]
  fix i
  assume i: "i < length m" "m'' ! i \<noteq> m ! i"
  show "\<exists>(p, l) \<in> set rs. memory_view m p l \<noteq> None \<and> unat p \<le> i \<and> i < unat p + unat l"
  proof (cases "m' ! i = m ! i")
    case True
    with assms(2) i len show ?thesis unfolding confined_def view by simp
  next
    case False
    with assms(1) i show ?thesis unfolding confined_def by simp
  qed
qed

lemma confined_overwrite:
  assumes "memory_view m p l = Some v" and "length bs \<le> unat l" and "(p, l) \<in> set rs"
  shows "confined rs m (overwrite m (fst v) bs)"
proof -
  from assms(1,2) have fits: "unat p + length bs \<le> length m" and v: "fst v = unat p"
    by (auto simp: memory_view_eq_Some)
  show ?thesis
    unfolding confined_def v
  proof (intro conjI allI impI)
    show "length (overwrite m (unat p) bs) = length m" by (rule length_overwrite [OF fits])
    fix i
    assume "i < length m" "overwrite m (unat p) bs ! i \<noteq> m ! i"
    with nth_overwrite [OF fits] have "unat p \<le> i" "i < unat p + length bs" by (metis, metis)
    with assms show "\<exists>(p, l) \<in> set rs. memory_view m p l \<noteq> None \<and> unat p \<le> i \<and> i < unat p + unat l"
      by (intro bexI [of _ "(p, l)"]) auto
  qed
qed

lemma put_u32_cases:
  obtains (fault) "put_u32 ptr v s = (False, s)" "memory_view (wh_memory s) ptr 4 = None"
  | (put) m where "put_u32 ptr v s = (True, s\<lparr>wh_memory := m\<rparr>)" "memory_view (wh_memory s) ptr 4 \<noteq> None"
      "\<And>rs. (ptr, 4) \<in> set rs \<Longrightarrow> confined rs (wh_memory s) m"
proof (cases "memory_view (wh_memory s) ptr 4")
  case None
  then show ?thesis by (intro fault) (simp_all add: put_u32_def)
next
  case (Some w)
  have "length (u32_bytes v) \<le> unat (4 :: 32 word)" by (simp add: u32_bytes_def)
  from confined_overwrite [OF Some this] Some show ?thesis by (intro put) (simp_all add: put_u32_def)
qed

lemma put_u64_cases:
  obtains (fault) "put_u64 ptr v s = (False, s)" "memory_view (wh_memory s) ptr 8 = None"
  | (put) m where "put_u64 ptr v s = (True, s\<lparr>wh_memory := m\<rparr>)" "memory_view (wh_memory s) ptr 8 \<noteq> None"
      "\<And>rs. (ptr, 8) \<in> set rs \<Longrightarrow> confined rs (wh_memory s) m"
proof (cases "memory_view (wh_memory s) ptr 8")
  case None
  then show ?thesis by (intro fault) (simp_all add: put_u64_def)
next
  case (Some w)
  have "length (u64_bytes v) \<le> unat (8 :: 32 word)" by (simp add: u64_bytes_def)
  from confined_overwrite [OF Some this] Some show ?thesis by (intro put) (simp_all add: put_u64_def)
qed

text \<open>The ranges the arguments of a call designate for writing.\<close>

fun write_ranges :: "wasi_call \<Rightarrow> (32 word \<times> 32 word) list" where
  "write_ranges (RandomGet ptr len) = [(ptr, len)]"
| "write_ranges (EnvironSizesGet c p) = [(c, 4), (p, 4)]"
| "write_ranges (ClockTimeGet c p) = [(p, 8)]"
| "write_ranges (FdFdstatGet fd p) = [(p, 24)]"
| "write_ranges (FdRead fd p) = [(p, 4)]"
| "write_ranges (FdWrite fd iovs n p) = [(p, 4)]"
| "write_ranges (PollOneoff subs events n p) = [(events, 32), (p, 4)]"
| "write_ranges call = []"

text \<open>What every call keeps: codes of the four kinds, confinement, and success only inside the memory.\<close>

definition call_ok :: "(32 word \<times> 32 word) list \<Rightarrow> wasi_host \<Rightarrow> 32 word \<times> wasi_host \<Rightarrow> bool" where
  "call_ok rs s r \<longleftrightarrow>
     fst r \<in> {0, 8, 21, 52} \<and> confined rs (wh_memory s) (wh_memory (snd r)) \<and>
     (fst r = wasi_success \<longrightarrow> (\<forall>(p, l) \<in> set rs. memory_view (wh_memory s) p l \<noteq> None))"

lemmas wasi_codes = wasi_success_def wasi_bad_fd_def wasi_fault_def wasi_no_sys_def

lemma call_ok_same:
  "code \<in> {8, 21, 52} \<or> rs = [] \<and> code = 0 \<Longrightarrow> wh_memory s' = wh_memory s \<Longrightarrow> call_ok rs s (code, s')"
  by (auto simp: call_ok_def wasi_codes)

lemma write_vectors_memory:
  "wh_memory (snd (write_vectors os fd iovs js w s)) = wh_memory s"
  by (induction os fd iovs js w s rule: write_vectors.induct)
    (auto simp: Let_def write_target_def split: option.splits)

lemma done_put_u32:
  assumes "(ptr, 4) \<in> set rs" and "confined rs (wh_memory s) (wh_memory s1)"
    and "\<And>p l. (p, l) \<in> set rs \<Longrightarrow> (p, l) \<noteq> (ptr, 4) \<Longrightarrow> memory_view (wh_memory s) p l \<noteq> None"
  shows "call_ok rs s (done_or_fault (put_u32 ptr v s1))"
proof -
  have view: "memory_view (wh_memory s1) = memory_view (wh_memory s)"
    by (rule memory_view_length) (use assms(2) in \<open>simp add: confined_def\<close>)
  show ?thesis
  proof (cases rule: put_u32_cases [of ptr v s1])
    case fault
    with assms(2) show ?thesis by (simp add: call_ok_def done_or_fault_def wasi_codes)
  next
    case (put m)
    have "memory_view (wh_memory s) p l \<noteq> None" if "(p, l) \<in> set rs" for p l
      using assms(3) [OF that] put(2) by (cases "(p, l) = (ptr, 4)") (auto simp: view)
    with put(1) confined_trans [OF assms(2) put(3) [OF assms(1)]] show ?thesis
      by (auto simp: call_ok_def done_or_fault_def wasi_codes)
  qed
qed

lemma overwritten_ok:
  assumes "memory_view (wh_memory s) ptr len = Some w" and "length bs \<le> unat len" and "code \<in> {0, 52}"
  shows "call_ok [(ptr, len)] s (code, s\<lparr>wh_memory := overwrite (wh_memory s) (fst w) bs\<rparr>)"
  using assms confined_overwrite [OF assms(1,2), of "[(ptr, len)]"] by (auto simp: call_ok_def)

lemma poll_oneoff_ok: "call_ok [(events, 32), (p, 4)] s (poll_oneoff os subs events n p s)"
proof (cases "sint n \<le> 0 \<or> poll_subscriptions os (wh_memory s) subs [0..<nat (sint n)] (0, 0) = None")
  case True
  then show ?thesis by (auto simp: poll_oneoff_def wasi_codes intro: call_ok_same)
next
  case False
  then obtain wait userdata where
    r: "poll_subscriptions os (wh_memory s) subs [0..<nat (sint n)] (0, 0) = Some (wait, userdata)"
    and n: "\<not> sint n \<le> 0" by auto
  let ?s = "if sint wait > 0 then s\<lparr>wh_slept := wh_slept s @ [wait]\<rparr> else s"
  have mem: "wh_memory ?s = wh_memory s" by simp
  show ?thesis
  proof (cases "memory_view (wh_memory s) events 32")
    case None
    with r n mem show ?thesis
      by (simp add: poll_oneoff_def Let_def call_ok_def wasi_codes)
  next
    case (Some v)
    let ?bs = "u64_bytes userdata @ replicate 24 0"
    let ?s1 = "?s\<lparr>wh_memory := overwrite (wh_memory ?s) (fst v) ?bs\<rparr>"
    have "length ?bs \<le> unat (32 :: 32 word)" by (simp add: u64_bytes_def)
    from confined_overwrite [OF Some this] have
      "confined [(events, 32), (p, 4)] (wh_memory s) (wh_memory ?s1)" by (simp add: mem)
    then have "call_ok [(events, 32), (p, 4)] s (done_or_fault (put_u32 p 1 ?s1))"
      by (rule done_put_u32 [rotated]) (use Some in auto)
    moreover have "poll_oneoff os subs events n p s = done_or_fault (put_u32 p 1 ?s1)"
      using r n Some by (simp only: poll_oneoff_def Let_def mem) simp
    ultimately show ?thesis by simp
  qed
qed

lemma wasi_call_ok: "call_ok (write_ranges call) s (wasi_call_result os call s)"
proof (cases call)
  case (RandomGet ptr len)
  show ?thesis
  proof (cases "memory_view (wh_memory s) ptr len")
    case None
    with RandomGet show ?thesis by (simp add: random_get_def wasi_codes call_ok_same)
  next
    case (Some w)
    then have size: "snd w - fst w = unat len" by (auto simp: memory_view_eq_Some)
    obtain bs ok where bs: "os_random os (unat len) = (bs, ok)" by force
    have "length (take (unat len) bs) \<le> unat len" by simp
    from overwritten_ok [OF Some this, of "if ok then wasi_success else wasi_no_sys"]
    show ?thesis using RandomGet Some by (simp add: random_get_def size bs wasi_codes)
  qed
next
  case (EnvironSizesGet c p)
  have "call_ok [(c, 4), (p, 4)] s (environ_sizes_get c p s)"
  proof (cases rule: put_u32_cases [of c 0 s])
    case fault
    then show ?thesis by (simp add: environ_sizes_get_def wasi_codes call_ok_same)
  next
    case (put m)
    have "call_ok [(c, 4), (p, 4)] s (done_or_fault (put_u32 p 0 (s\<lparr>wh_memory := m\<rparr>)))"
      by (rule done_put_u32) (use put in auto)
    with put(1) show ?thesis by (simp add: environ_sizes_get_def)
  qed
  with EnvironSizesGet show ?thesis by simp
next
  case (ClockTimeGet c p)
  have "call_ok [(p, 8)] s (done_or_fault (put_u64 p v s))" for v
    by (cases rule: put_u64_cases [of p v s])
      (auto simp: done_or_fault_def wasi_codes call_ok_def)
  with ClockTimeGet show ?thesis by (simp add: clock_time_get_def)
next
  case (FdFdstatGet fd p)
  show ?thesis
  proof (cases "memory_view (wh_memory s) p 24")
    case None
    with FdFdstatGet show ?thesis by (simp add: fd_fdstat_get_def wasi_codes call_ok_same)
  next
    case (Some w)
    have "length (2 # replicate 23 0 :: byte list) \<le> unat (24 :: 32 word)" by simp
    from overwritten_ok [OF Some this, of 0] show ?thesis
      using FdFdstatGet Some by (simp add: fd_fdstat_get_def wasi_codes call_ok_same)
  qed
next
  case (FdRead fd p)
  have "call_ok [(p, 4)] s (done_or_fault (put_u32 p 0 s))" by (rule done_put_u32) auto
  with FdRead show ?thesis by (auto simp: fd_read_def wasi_codes intro: call_ok_same)
next
  case (FdWrite fd iovs n p)
  show ?thesis
  proof (cases "fd \<noteq> 1 \<and> fd \<noteq> 2")
    case True
    with FdWrite show ?thesis by (simp add: fd_write_def wasi_codes call_ok_same)
  next
    case False
    obtain w s1 where v: "write_vectors os fd iovs [0..<nat (sint n)] 0 s = (w, s1)" by force
    with write_vectors_memory [of os fd iovs "[0..<nat (sint n)]" 0 s] have m: "wh_memory s1 = wh_memory s"
      by simp
    have "call_ok [(p, 4)] s (done_or_fault (put_u32 p x s1))" for x
      by (rule done_put_u32) (simp_all add: m)
    with FdWrite False v m show ?thesis
      by (cases w) (auto simp: fd_write_def wasi_codes intro: call_ok_same)
  qed
next
  case (PollOneoff subs events n p)
  then show ?thesis using poll_oneoff_ok by simp
qed (simp_all add: environ_get_def no_such_fd_def sched_yield_def wasi_codes call_ok_same)

section \<open>What the module can rely on\<close>

text \<open>
  C31. No WASI function the Core module calls touches memory it was not given: its length is kept, a byte that
  changes lies in a range the arguments designate for output, and that range lies inside the memory. A call
  answers one of four codes, and success only if all its output ranges are inside the memory.
\<close>

theorem wasi_calls_confined:
  assumes "wasi_call_result os call s = (code, s')"
  shows "code \<in> {0, 8, 21, 52} \<and> length (wh_memory s') = length (wh_memory s) \<and>
    (\<forall>i < length (wh_memory s). wh_memory s' ! i \<noteq> wh_memory s ! i \<longrightarrow>
       (\<exists>(p, l) \<in> set (write_ranges call). unat p \<le> i \<and> i < unat p + unat l \<and>
          unat p + unat l \<le> length (wh_memory s))) \<and>
    (code = wasi_success \<longrightarrow> (\<forall>(p, l) \<in> set (write_ranges call). unat p + unat l \<le> length (wh_memory s)))"
proof -
  have ok: "call_ok (write_ranges call) s (code, s')" using wasi_call_ok [of call s os] assms by simp
  have code: "code \<in> {0, 8, 21, 52}" using ok unfolding call_ok_def fst_conv by blast
  have kept: "confined (write_ranges call) (wh_memory s) (wh_memory s')"
    using ok unfolding call_ok_def snd_conv by blast
  have success: "code = wasi_success \<longrightarrow>
      (\<forall>(p, l) \<in> set (write_ranges call). memory_view (wh_memory s) p l \<noteq> None)"
    using ok unfolding call_ok_def fst_conv by blast
  have "length (wh_memory s') = length (wh_memory s)" using kept unfolding confined_def by blast
  with code confined_inside [OF kept] success show ?thesis
    by (intro conjI impI) (simp_all, blast intro: view_inside)
qed

definition sample_os :: wasi_os where
  "sample_os = \<lparr>os_random = (\<lambda>n. (replicate n 7, True)), os_monotonic = (\<lambda>i. 5), os_wall = (\<lambda>i. 9),
     os_accepts = length\<rparr>"

definition sample_host :: "memory \<Rightarrow> wasi_host" where
  "sample_host m = \<lparr>wh_memory = m, wh_stdout = [], wh_stderr = [], wh_slept = []\<rparr>"

lemma wasi_calls_confined_witness:
  "wasi_call_result sample_os (RandomGet 1 2) (sample_host [0, 0, 0, 0]) =
     (0, sample_host [0, 7, 7, 0]) \<and> length [0, 7, 7, 0 :: byte] = length [0, 0, 0, 0 :: byte]"
proof -
  have r: "wasi_call_result sample_os (RandomGet 1 2) (sample_host [0, 0, 0, 0]) = (0, sample_host [0, 7, 7, 0])"
    by code_simp
  from wasi_calls_confined [OF r] r show ?thesis by (simp add: sample_host_def)
qed

text \<open>
  A poll over a subscription that has expired and one that is an hour away waits for an hour: the first
  leaves the wait at zero, which the loop takes for \<open>not set\<close>.
\<close>

definition clock_subscription :: "64 word \<Rightarrow> 64 word \<Rightarrow> byte list" where
  "clock_subscription userdata timeout =
     u64_bytes userdata @ replicate 16 0 @ u64_bytes timeout @ replicate 8 0 @ [1] @ replicate 7 0"

lemma expired_subscription_sleeps:
  "wh_slept (snd (wasi_call_result sample_os (PollOneoff 0 96 2 128)
     (sample_host (clock_subscription 1 3 @ clock_subscription 2 3600000000009 @ replicate 40 0)))) =
   [3600000000000]"
  by code_simp

end
