(* ===== verification/Grpc_Host.thy ===== *)
theory Grpc_Host
  imports Wasi_Host
begin

text \<open>
  The gRPC host (\<open>internal/wasmhost/grpc.go\<close>): the unary calls Temporal Core asks for, made with the
  program's own gRPC client.

  gRPC is a library the repository does not contain: its client is a parameter (\<open>invoke\<close>, \<open>new_client\<close>),
  and so are the functions of its package \<open>metadata\<close>; \<open>md_documented\<close> states what their documentation
  says. A \<open>metadata.MD\<close> is a Go map from names to lists of values. What a call's context does is part of
  \<open>invoke\<close>; a TLS configuration is opaque.
\<close>

section \<open>Strings of the standard library\<close>

text \<open>\<open>strings.ToLower\<close> on ASCII text.\<close>

definition lower_char :: "char \<Rightarrow> char" where
  "lower_char c = (let n = of_char c :: nat in if 65 \<le> n \<and> n \<le> 90 then char_of (n + 32) else c)"

definition to_lower :: "string \<Rightarrow> string" where
  "to_lower s = map lower_char s"

definition string_of_bytes :: "byte list \<Rightarrow> string" where
  "string_of_bytes bs = map (\<lambda>b. char_of (unat b)) bs"

definition bytes_of_string :: "string \<Rightarrow> byte list" where
  "bytes_of_string s = map (\<lambda>c. of_nat (of_char c)) s"

text \<open>\<open>strconv.ParseUint(s, 10, 64)\<close>.\<close>

definition parse_error :: "string \<Rightarrow> string \<Rightarrow> goerr" where
  "parse_error s what = ErrWrap (''strconv.ParseUint: parsing '' @ go_quote s @ '': '') (ErrSentinel what) []"

fun parse_digits :: "string \<Rightarrow> string \<Rightarrow> nat \<Rightarrow> goerr + nat" where
  "parse_digits s [] n = Inr n"
| "parse_digits s (c # cs) n =
     (let d = of_char c :: nat in
      if d < 48 \<or> 57 < d then Inl (parse_error s ''invalid syntax'')
      else
        let n' = n * 10 + (d - 48) in
        if n' \<ge> 2 ^ 64 then Inl (parse_error s ''value out of range'') else parse_digits s cs n')"

definition parse_uint :: "string \<Rightarrow> goerr + nat" where
  "parse_uint s = (if s = [] then Inl (parse_error s ''invalid syntax'') else parse_digits s s 0)"

text \<open>\<open>net.SplitHostPort\<close>: the host, or nothing where it returns an error.\<close>

definition before_last_colon :: "string \<Rightarrow> string" where
  "before_last_colon s = rev (tl (dropWhile (\<lambda>c. c \<noteq> CHR '':'') (rev s)))"

definition split_host :: "string \<Rightarrow> string option" where
  "split_host s =
     (let front = before_last_colon s; port = drop (length front + 1) s in
      if CHR '':'' \<notin> set s then None
      else if hd s = CHR 0x5B
      then
        let inner = tl (takeWhile (\<lambda>c. c \<noteq> CHR 0x5D) front) in
        if front = CHR 0x5B # inner @ [CHR 0x5D] \<and> CHR 0x5B \<notin> set inner \<union> set port \<and> CHR 0x5D \<notin> set port
        then Some inner else None
      else if CHR '':'' \<in> set front \<or> CHR 0x5B \<in> set s \<or> CHR 0x5D \<in> set s then None
      else Some front)"

section \<open>Metadata\<close>

type_synonym md = "(string, string list) gomap"

record md_lib =
  ml_append :: "md \<Rightarrow> string \<Rightarrow> string \<Rightarrow> md"
  ml_set :: "md \<Rightarrow> string \<Rightarrow> string \<Rightarrow> md"
  ml_get :: "md \<Rightarrow> string \<Rightarrow> string list"
  ml_delete :: "md \<Rightarrow> string \<Rightarrow> md"
  ml_copy :: "md \<Rightarrow> md"

definition values_of :: "md \<Rightarrow> string \<Rightarrow> string list" where
  "values_of m k = (case map_of m k of None \<Rightarrow> [] | Some vs \<Rightarrow> vs)"

text \<open>
  The documentation of package \<open>metadata\<close>: names are converted to lower case; \<open>Append\<close> adds a value after
  the existing ones, \<open>Set\<close> replaces them, \<open>Get\<close> returns them, \<open>Delete\<close> removes the name, \<open>Copy\<close> copies.
\<close>

definition md_documented :: "md_lib \<Rightarrow> bool" where
  "md_documented lib \<longleftrightarrow>
     (\<forall>m k v. map_of (ml_append lib m k v) = (map_of m)(to_lower k \<mapsto> values_of m (to_lower k) @ [v])) \<and>
     (\<forall>m k v. map_of (ml_set lib m k v) = (map_of m)(to_lower k \<mapsto> [v])) \<and>
     (\<forall>m k. ml_get lib m k = values_of m (to_lower k)) \<and>
     (\<forall>m k. map_of (ml_delete lib m k) = (map_of m)(to_lower k := None)) \<and>
     (\<forall>m. map_of (ml_copy lib m) = map_of m)"

definition is_transport_header :: "string \<Rightarrow> bool" where
  "is_transport_header name \<longleftrightarrow>
     (name \<noteq> [] \<and> hd name = CHR '':'') \<or> name = ''content-type'' \<or> name = ''te'' \<or> name = ''user-agent'' \<or>
     name = ''grpc-encoding'' \<or> name = ''grpc-accept-encoding'' \<or> name = ''grpc-timeout''"

text \<open>A unit of \<open>grpc-timeout\<close>, in nanoseconds.\<close>

definition timeout_unit :: "char \<Rightarrow> 64 word option" where
  "timeout_unit c =
     (if c = CHR ''H'' then Some 3600000000000 else if c = CHR ''M'' then Some 60000000000
      else if c = CHR ''S'' then Some 1000000000 else if c = CHR ''m'' then Some 1000000
      else if c = CHR ''u'' then Some 1000 else if c = CHR ''n'' then Some 1 else None)"

definition parse_grpc_timeout :: "string \<Rightarrow> goerr + 64 word" where
  "parse_grpc_timeout value =
     (if length value < 2 then Inl (ErrNew (''invalid grpc-timeout '' @ go_quote value))
      else case parse_uint (butlast value) of
        Inl e \<Rightarrow> Inl (ErrWrap (''invalid grpc-timeout '' @ go_quote value @ '': '') e [])
      | Inr amount \<Rightarrow>
          (case timeout_unit (last value) of
             None \<Rightarrow> Inl (ErrNew (''invalid grpc-timeout unit in '' @ go_quote value))
           | Some unit \<Rightarrow> Inr (of_nat amount * unit)))"

text \<open>The two loops of \<open>prepareRequestMetadata\<close>, over the entries in the order Go visits them.\<close>

fun visit_values :: "md_lib \<Rightarrow> string \<Rightarrow> string list \<Rightarrow> md \<times> 64 word \<Rightarrow> goerr + md \<times> 64 word" where
  "visit_values lib name [] r = Inr r"
| "visit_values lib name (v # vs) (m, timeout) =
     (if name = ''grpc-timeout''
      then case parse_grpc_timeout v of
        Inl e \<Rightarrow> Inl e
      | Inr t \<Rightarrow> visit_values lib name vs (m, t)
      else if is_transport_header name then visit_values lib name vs (m, timeout)
      else visit_values lib name vs (ml_append lib m name v, timeout))"

fun visit_entries :: "md_lib \<Rightarrow> md \<Rightarrow> md \<times> 64 word \<Rightarrow> goerr + md \<times> 64 word" where
  "visit_entries lib [] r = Inr r"
| "visit_entries lib ((name, vs) # rest) r =
     (case visit_values lib (to_lower name) vs r of
        Inl e \<Rightarrow> Inl e
      | Inr r1 \<Rightarrow> visit_entries lib rest r1)"

definition sdk_name :: string where "sdk_name = ''go-sdk-core''"
definition sdk_version :: string where "sdk_version = ''v0.1.0''"

definition prepare_request_metadata :: "md_lib \<Rightarrow> md \<Rightarrow> goerr + md \<times> 64 word" where
  "prepare_request_metadata lib input =
     (case visit_entries lib input ([], 0) of
        Inl e \<Rightarrow> Inl e
      | Inr (m, timeout) \<Rightarrow>
          Inr (ml_set lib (ml_set lib m ''temporal-client-name'' sdk_name) ''temporal-client-version'' sdk_version,
               timeout))"

section \<open>The host\<close>

text \<open>
  \<open>RawGRPCHost\<close>: the connection and the context go together, so one flag says whether it is open;
  the calls of the context's \<open>cancel\<close> and of the connection's \<open>Close\<close> are counted.
\<close>

record grpc_host =
  gh_open :: bool
  gh_authorization :: string
  gh_cancels :: nat
  gh_closes :: nat

datatype tls_config = GivenTLS string | DefaultTLS "string option"
datatype transport_credentials = TLSCredentials tls_config | InsecureCredentials

text \<open>\<open>defaultTLSConfig\<close>: TLS 1.2 or later, with the server name if the address has a host.\<close>

definition default_tls_config :: "string \<Rightarrow> tls_config" where
  "default_tls_config address = DefaultTLS (split_host address)"

definition grpc_transport_credentials :: "string \<Rightarrow> string option \<Rightarrow> string \<Rightarrow> transport_credentials" where
  "grpc_transport_credentials address tls api_key =
     (case tls of
        Some config \<Rightarrow> TLSCredentials (GivenTLS config)
      | None \<Rightarrow>
          if api_key \<noteq> [] then TLSCredentials (default_tls_config address) else InsecureCredentials)"

text \<open>\<open>NewRawGRPCHostWithOptions\<close>; the error of \<open>grpc.NewClient\<close> is a parameter.\<close>

definition new_grpc_host ::
    "(string \<Rightarrow> transport_credentials \<Rightarrow> goerr option) \<Rightarrow> string \<Rightarrow> string option \<Rightarrow> string \<Rightarrow>
     goerr + grpc_host" where
  "new_grpc_host new_client address tls api_key =
     (case new_client address (grpc_transport_credentials address tls api_key) of
        Some e \<Rightarrow> Inl (ErrWrap ''create gRPC client: '' e [])
      | None \<Rightarrow>
          Inr \<lparr>gh_open = True,
               gh_authorization = (if api_key \<noteq> [] then ''Bearer '' @ api_key else []),
               gh_cancels = 0, gh_closes = 0\<rparr>)"

text \<open>\<open>Close\<close>, given the answer of the connection's \<open>Close\<close>, and \<open>Closed\<close>.\<close>

definition close_host :: "goerr option \<Rightarrow> grpc_host \<Rightarrow> goerr option \<times> grpc_host" where
  "close_host answer h =
     (if \<not> gh_open h then (None, h)
      else (answer, h\<lparr>gh_open := False, gh_cancels := gh_cancels h + 1, gh_closes := gh_closes h + 1\<rparr>))"

definition host_closed :: "grpc_host \<Rightarrow> bool" where
  "host_closed h \<longleftrightarrow> \<not> gh_open h"

section \<open>Calls\<close>

record grpc_request =
  gq_service :: string
  gq_rpc :: string
  gq_metadata :: md
  gq_proto :: "byte list"

record grpc_response =
  gr_code :: nat
  gr_message :: string
  gr_details :: "byte list"
  gr_header :: md
  gr_trailer :: md
  gr_proto :: "byte list"

definition code_ok :: nat where "code_ok = 0"
definition code_internal :: nat where "code_internal = 13"
definition code_unavailable :: nat where "code_unavailable = 14"

text \<open>A \<open>status.Status\<close>; \<open>ss_details\<close> is its encoding if it has details.\<close>

record grpc_status =
  ss_code :: nat
  ss_message :: string
  ss_details :: "byte list option"

definition grpc_error_response :: "md_lib \<Rightarrow> grpc_status \<Rightarrow> md \<Rightarrow> md \<Rightarrow> grpc_response" where
  "grpc_error_response lib st header trailer =
     (let t = ml_copy lib trailer;
          details = (case ml_get lib t ''grpc-status-details-bin'' of
             [v] \<Rightarrow> bytes_of_string v
           | _ \<Rightarrow> (case ss_details st of None \<Rightarrow> [] | Some d \<Rightarrow> d));
          t1 = ml_delete lib (ml_delete lib (ml_delete lib t ''grpc-status'') ''grpc-message'')
                 ''grpc-status-details-bin''
      in \<lparr>gr_code = ss_code st, gr_message = ss_message st, gr_details = details, gr_header = header,
          gr_trailer = t1, gr_proto = []\<rparr>)"

text \<open>What \<open>conn.Invoke\<close> is called with, and what it leaves: a failed call has a status.\<close>

record grpc_invocation =
  gi_method :: string
  gi_headers :: md
  gi_timeout :: "64 word option"
  gi_proto :: "byte list"

record invoke_result =
  ir_status :: "grpc_status option"
  ir_header :: md
  ir_trailer :: md
  ir_output :: "byte list"

definition local_status :: "nat \<Rightarrow> string \<Rightarrow> grpc_status" where
  "local_status code message = \<lparr>ss_code = code, ss_message = message, ss_details = None\<rparr>"

definition invocation_of :: "md_lib \<Rightarrow> grpc_host \<Rightarrow> grpc_request \<Rightarrow> md \<Rightarrow> 64 word \<Rightarrow> grpc_invocation" where
  "invocation_of lib h request headers timeout =
     \<lparr>gi_method = ''/'' @ gq_service request @ ''/'' @ gq_rpc request,
      gi_headers = (if gh_authorization h \<noteq> []
                    then ml_set lib headers ''authorization'' (gh_authorization h) else headers),
      gi_timeout = (if sint timeout > 0 then Some timeout else None), gi_proto = gq_proto request\<rparr>"

definition call_context ::
    "md_lib \<Rightarrow> (grpc_invocation \<Rightarrow> invoke_result) \<Rightarrow> grpc_host \<Rightarrow> grpc_request \<Rightarrow> grpc_response" where
  "call_context lib invoke h request =
     (case prepare_request_metadata lib (gq_metadata request) of
        Inl e \<Rightarrow> grpc_error_response lib (local_status code_internal (err_msg e)) [] []
      | Inr (headers, timeout) \<Rightarrow>
          if \<not> gh_open h
          then grpc_error_response lib (local_status code_unavailable ''gRPC host is closed'') [] []
          else
            let r = invoke (invocation_of lib h request headers timeout) in
            (case ir_status r of
               Some st \<Rightarrow> grpc_error_response lib st (ir_header r) (ir_trailer r)
             | None \<Rightarrow>
                 \<lparr>gr_code = code_ok, gr_message = [], gr_details = [], gr_header = ir_header r,
                  gr_trailer = ir_trailer r, gr_proto = ir_output r\<rparr>))"

text \<open>\<open>rawCodec\<close>: a raw message, or a value of another type with its name.\<close>

datatype codec_value = RawMessage "byte list" | OtherMessage string

definition raw_marshal :: "codec_value \<Rightarrow> goerr + byte list" where
  "raw_marshal v = (case v of
     RawMessage bs \<Rightarrow> Inr bs | OtherMessage t \<Rightarrow> Inl (ErrNew (''raw codec cannot marshal '' @ t)))"

definition raw_unmarshal :: "byte list \<Rightarrow> codec_value \<Rightarrow> goerr + codec_value" where
  "raw_unmarshal bs v = (case v of
     RawMessage old \<Rightarrow> Inr (RawMessage bs) | OtherMessage t \<Rightarrow> Inl (ErrNew (''raw codec cannot unmarshal '' @ t)))"

text \<open>
  \<open>SetTimingHook\<close> and the function it returns. A hook is a pointer (\<open>None\<close> for nil): installing returns the
  previous one, restoring puts it back unless another was installed since.
\<close>

definition set_timing_hook :: "nat option \<Rightarrow> nat option \<Rightarrow> nat option \<times> nat option" where
  "set_timing_hook hook current = (current, hook)"

definition restore_timing_hook :: "nat option \<Rightarrow> nat option \<Rightarrow> nat option \<Rightarrow> nat option" where
  "restore_timing_hook installed previous current = (if current = installed then previous else current)"

end
