(* ===== verification/Grpc_Properties.thy ===== *)
theory Grpc_Properties
  imports Grpc_Host
begin

text \<open>
  What Temporal Core can rely on when it asks the host for a unary call: which metadata the server sees, when
  there is a deadline, what a failed call answers, and that a closed host makes no call.
\<close>

section \<open>Names\<close>

lemma lower_char_idem [simp]: "lower_char (lower_char c) = lower_char c"
proof -
  have "of_char (char_of (of_char c + 32 :: nat) :: char) = (of_char c + 32 :: nat)"
    if "(of_char c :: nat) \<le> 90"
    using that by simp
  then show ?thesis by (auto simp: lower_char_def Let_def)
qed

lemma to_lower_idem [simp]: "to_lower (to_lower s) = to_lower s"
  by (simp add: to_lower_def)

section \<open>Metadata\<close>

lemma values_of_map: "values_of m k = (case map_of m k of None \<Rightarrow> [] | Some vs \<Rightarrow> vs)"
  by (simp add: values_of_def)

definition no_empty :: "md \<Rightarrow> bool" where
  "no_empty m \<longleftrightarrow> (\<forall>k. map_of m k \<noteq> Some [])"

lemma no_empty_lookup:
  "no_empty m \<Longrightarrow> map_of m k = (if values_of m k = [] then None else Some (values_of m k))"
  by (auto simp: no_empty_def values_of_def split: option.splits)

lemma md_laws:
  assumes "md_documented lib"
  shows "map_of (ml_append lib m k v) = (map_of m)(to_lower k \<mapsto> values_of m (to_lower k) @ [v])"
    and "map_of (ml_set lib m k v) = (map_of m)(to_lower k \<mapsto> [v])"
    and "ml_get lib m k = values_of m (to_lower k)"
    and "map_of (ml_delete lib m k) = (map_of m)(to_lower k := None)"
    and "map_of (ml_copy lib m) = map_of m"
  using assms unfolding md_documented_def by blast+

text \<open>The values the request's metadata gives a name, whatever the case of its letters.\<close>

definition given_values :: "md \<Rightarrow> string \<Rightarrow> string list" where
  "given_values input k = concat (map snd (filter (\<lambda>(name, vs). to_lower name = k) input))"

definition kept_values :: "md \<Rightarrow> string \<Rightarrow> string list" where
  "kept_values input k = (if is_transport_header k then [] else given_values input k)"

lemma visit_values_adds:
  assumes "md_documented lib" and "visit_values lib (to_lower name) vs (m, t) = Inr (m', t')" and "no_empty m"
  shows "no_empty m' \<and>
    values_of m' = (\<lambda>k. values_of m k @ (if k = to_lower name \<and> \<not> is_transport_header k then vs else []))"
  using assms(2,3)
proof (induction vs arbitrary: m t)
  case Nil
  then show ?case by simp
next
  case (Cons v vs)
  show ?case
  proof (cases "is_transport_header (to_lower name)")
    case True
    with Cons.prems obtain t1 where "visit_values lib (to_lower name) vs (m, t1) = Inr (m', t')"
      by (auto split: if_splits sum.splits)
    from Cons.IH [OF this Cons.prems(2)] True show ?thesis by auto
  next
    case False
    then have "to_lower name \<noteq> ''grpc-timeout''" by (auto simp: is_transport_header_def)
    with Cons.prems False
    have v: "visit_values lib (to_lower name) vs (ml_append lib m (to_lower name) v, t) = Inr (m', t')" by simp
    have "no_empty (ml_append lib m (to_lower name) v)"
      using Cons.prems(2) by (simp add: no_empty_def md_laws [OF assms(1)])
    from Cons.IH [OF v this] False show ?thesis
      by (auto simp: values_of_def md_laws [OF assms(1)] fun_eq_iff split: option.splits)
  qed
qed

lemma visit_entries_adds:
  assumes "md_documented lib" and "visit_entries lib input (m, t) = Inr (m', t')" and "no_empty m"
  shows "no_empty m' \<and> values_of m' = (\<lambda>k. values_of m k @ kept_values input k)"
  using assms(2,3)
proof (induction input arbitrary: m t)
  case Nil
  then show ?case by (auto simp: kept_values_def given_values_def)
next
  case (Cons entry rest)
  obtain name vs where entry: "entry = (name, vs)" by force
  with Cons.prems(1) obtain m1 t1 where
    v: "visit_values lib (to_lower name) vs (m, t) = Inr (m1, t1)" and
    e: "visit_entries lib rest (m1, t1) = Inr (m', t')"
    by (auto split: sum.splits)
  from visit_values_adds [OF assms(1) v Cons.prems(2)] Cons.IH [OF e]
  show ?case by (auto simp: entry kept_values_def given_values_def fun_eq_iff)
qed

lemma prepared_metadata:
  assumes "md_documented lib" and "prepare_request_metadata lib input = Inr (headers, t)"
  shows "map_of headers k =
    (if k = ''temporal-client-version'' then Some [sdk_version]
     else if k = ''temporal-client-name'' then Some [sdk_name]
     else if kept_values input k = [] then None else Some (kept_values input k))"
proof -
  from assms(2) obtain m where m: "visit_entries lib input ([], 0) = Inr (m, t)"
    and h: "headers = ml_set lib (ml_set lib m ''temporal-client-name'' sdk_name)
      ''temporal-client-version'' sdk_version"
    by (auto simp: prepare_request_metadata_def split: sum.splits)
  have "no_empty []" by (simp add: no_empty_def)
  from visit_entries_adds [OF assms(1) m this]
  have "no_empty m" and v: "values_of m = kept_values input" by (auto simp: values_of_def fun_eq_iff)
  from no_empty_lookup [OF this(1), of k] show ?thesis
    by (simp add: h v md_laws [OF assms(1)] to_lower_def lower_char_def)
qed

section \<open>Timeouts\<close>

lemma parse_grpc_timeout_Inr:
  assumes "parse_grpc_timeout v = Inr t"
  obtains amount unit where "parse_uint (butlast v) = Inr amount" "timeout_unit (last v) = Some unit"
    "t = of_nat amount * unit"
  using assms by (auto simp: parse_grpc_timeout_def split: if_splits sum.splits option.splits)

lemma sint_small:
  assumes "n < 2 ^ 63"
  shows "sint (of_nat n :: 64 word) = int n"
proof -
  from assms have n: "int n < 2 ^ 63" by (metis of_nat_less_iff of_nat_numeral of_nat_power)
  then have "take_bit 64 (int n) = int n" by (intro take_bit_int_eq_self) auto
  with n show ?thesis
    by (simp add: sint_uint unsigned_of_nat signed_take_bit_int_eq_self flip: of_nat_take_bit)
qed

text \<open>A timeout whose length in nanoseconds fits a \<open>time.Duration\<close> is exact.\<close>

lemma grpc_timeout_exact:
  assumes "parse_grpc_timeout v = Inr t" and "parse_uint (butlast v) = Inr amount"
    and "timeout_unit (last v) = Some unit" and "amount * unat unit < 2 ^ 63"
  shows "sint t = int (amount * unat unit)"
proof -
  from assms(1-3) have t: "t = of_nat (amount * unat unit)"
    by (auto elim!: parse_grpc_timeout_Inr)
  show ?thesis unfolding t using assms(4) by (rule sint_small)
qed

text \<open>
  A longer one wraps: eight digits of hours, the longest a gRPC client may send, become a negative duration, and
  the call has no deadline.
\<close>

lemma grpc_timeout_overflows:
  "\<exists>t. parse_grpc_timeout ''99999999H'' = Inr t \<and> sint t \<le> 0"
  "parse_grpc_timeout ''99999999H'' = Inr t \<Longrightarrow> gi_timeout (invocation_of lib h q headers t) = None"
proof -
  have p: "parse_grpc_timeout ''99999999H'' = Inr 9511858999518519296"
    by (simp add: parse_grpc_timeout_def parse_uint_def timeout_unit_def)
  have "sint (9511858999518519296 :: 64 word) \<le> 0" by code_simp
  with p show "\<exists>t. parse_grpc_timeout ''99999999H'' = Inr t \<and> sint t \<le> 0"
    and "parse_grpc_timeout ''99999999H'' = Inr t \<Longrightarrow> gi_timeout (invocation_of lib h q headers t) = None"
    by (auto simp: invocation_of_def)
qed

section \<open>Calls\<close>

text \<open>What Core is answered for what the client left: its status, or the response.\<close>

definition answer_of :: "md_lib \<Rightarrow> invoke_result \<Rightarrow> grpc_response" where
  "answer_of lib r = (case ir_status r of
     Some st \<Rightarrow> grpc_error_response lib st (ir_header r) (ir_trailer r)
   | None \<Rightarrow>
       \<lparr>gr_code = code_ok, gr_message = [], gr_details = [], gr_header = ir_header r,
        gr_trailer = ir_trailer r, gr_proto = ir_output r\<rparr>)"

lemma call_context_open:
  "gh_open h \<Longrightarrow> prepare_request_metadata lib (gq_metadata q) = Inr (headers, t) \<Longrightarrow>
   call_context lib invoke h q = answer_of lib (invoke (invocation_of lib h q headers t))"
  by (simp add: call_context_def answer_of_def Let_def)

text \<open>Bad metadata and a closed host are answered without a call.\<close>

lemma call_context_bad_metadata:
  "prepare_request_metadata lib (gq_metadata q) = Inl e \<Longrightarrow>
   call_context lib invoke h q = grpc_error_response lib (local_status code_internal (err_msg e)) [] []"
  by (simp add: call_context_def)

lemma call_context_closed:
  "\<not> gh_open h \<Longrightarrow> prepare_request_metadata lib (gq_metadata q) = Inr r \<Longrightarrow>
   call_context lib invoke h q =
     grpc_error_response lib (local_status code_unavailable ''gRPC host is closed'') [] []"
  by (cases r) (simp add: call_context_def)

lemma close_host_once:
  "host_closed (snd (close_host answer h))"
  "close_host answer' (snd (close_host answer h)) = (None, snd (close_host answer h))"
  by (simp_all add: close_host_def host_closed_def)

lemma grpc_error_response_fields:
  assumes "md_documented lib"
  shows "gr_code (grpc_error_response lib st header trailer) = ss_code st"
    and "gr_message (grpc_error_response lib st header trailer) = ss_message st"
    and "gr_header (grpc_error_response lib st header trailer) = header"
    and "map_of (gr_trailer (grpc_error_response lib st header trailer)) =
      (map_of trailer)(''grpc-status'' := None, ''grpc-message'' := None, ''grpc-status-details-bin'' := None)"
    and "gr_details (grpc_error_response lib st header trailer) =
      (case values_of trailer ''grpc-status-details-bin'' of
         [v] \<Rightarrow> bytes_of_string v | _ \<Rightarrow> (case ss_details st of None \<Rightarrow> [] | Some d \<Rightarrow> d))"
proof -
  have low: "to_lower ''grpc-status'' = ''grpc-status''" "to_lower ''grpc-message'' = ''grpc-message''"
    "to_lower ''grpc-status-details-bin'' = ''grpc-status-details-bin''"
    by (simp_all add: to_lower_def lower_char_def)
  have copy: "values_of (ml_copy lib m) = values_of m" for m
    by (simp add: fun_eq_iff values_of_def md_laws [OF assms])
  show "gr_code (grpc_error_response lib st header trailer) = ss_code st"
    "gr_message (grpc_error_response lib st header trailer) = ss_message st"
    "gr_header (grpc_error_response lib st header trailer) = header"
    "map_of (gr_trailer (grpc_error_response lib st header trailer)) =
      (map_of trailer)(''grpc-status'' := None, ''grpc-message'' := None, ''grpc-status-details-bin'' := None)"
    "gr_details (grpc_error_response lib st header trailer) =
      (case values_of trailer ''grpc-status-details-bin'' of
         [v] \<Rightarrow> bytes_of_string v | _ \<Rightarrow> (case ss_details st of None \<Rightarrow> [] | Some d \<Rightarrow> d))"
    by (simp_all add: grpc_error_response_def Let_def md_laws [OF assms] low copy)
qed


text \<open>A library that behaves as documented, on association lists.\<close>

definition plain_md :: md_lib where
  "plain_md =
     \<lparr>ml_append = (\<lambda>m k v. (to_lower k, values_of m (to_lower k) @ [v]) # m),
      ml_set = (\<lambda>m k v. (to_lower k, [v]) # m), ml_get = (\<lambda>m k. values_of m (to_lower k)),
      ml_delete = (\<lambda>m k. filter (\<lambda>(k', vs). k' \<noteq> to_lower k) m), ml_copy = (\<lambda>m. m)\<rparr>"

lemma plain_md_documented: "md_documented plain_md"
proof -
  have "map_of (filter (\<lambda>(k', vs). k' \<noteq> k) m) = (map_of m)(k := None)" for m :: md and k
    by (induction m) (auto simp: fun_eq_iff)
  then show ?thesis by (simp add: md_documented_def plain_md_def)
qed

definition sample_request :: grpc_request where
  "sample_request =
     \<lparr>gq_service = ''S'', gq_rpc = ''R'',
      gq_metadata = [(''X-Tag'', [''a'']), (''te'', [''trailers'']), (''grpc-timeout'', [''5S'']), (''x-tag'', [''b''])],
      gq_proto = [1, 2]\<rparr>"

definition sample_open_host :: grpc_host where
  "sample_open_host = \<lparr>gh_open = True, gh_authorization = ''Bearer key'', gh_cancels = 0, gh_closes = 0\<rparr>"

definition sample_headers :: md where
  "sample_headers =
     [(''temporal-client-version'', [''v0.1.0'']), (''temporal-client-name'', [''go-sdk-core'']),
      (''x-tag'', [''a'', ''b'']), (''x-tag'', [''a''])]"

definition sample_answer :: invoke_result where
  "sample_answer =
     \<lparr>ir_status = Some (local_status 5 ''not found''), ir_header = [], ir_trailer = [(''grpc-status'', [''5''])],
      ir_output = []\<rparr>"


section \<open>Timing hooks\<close>

lemma restored_timing_hook:
  assumes "set_timing_hook hook current = (previous, installed)"
  shows "restore_timing_hook hook previous installed = current"
    and "other \<noteq> hook \<Longrightarrow> restore_timing_hook hook previous other = other"
  using assms by (simp_all add: set_timing_hook_def restore_timing_hook_def)

section \<open>Credentials\<close>

text \<open>A key is never sent over a connection without TLS.\<close>

lemma key_needs_tls:
  assumes "new_grpc_host new_client address tls api_key = Inr h" and "gh_authorization h \<noteq> []"
  shows "\<exists>config. grpc_transport_credentials address tls api_key = TLSCredentials config"
proof -
  from assms have "api_key \<noteq> []"
    by (auto simp: new_grpc_host_def split: option.splits if_splits)
  then show ?thesis by (simp add: grpc_transport_credentials_def split: option.split)
qed

end
