(* ===== verification/Bridge_Owner.thy ===== *)
theory Bridge_Owner
  imports Grpc_Host "HOL-Library.Multiset"
begin

text \<open>
  The owner of the Core module (\<open>internal/corebridge/bridge.go\<close>): the state one goroutine works on, the
  calls it makes into the module, and the buffers through which bytes go in and out.

  The module is Temporal Core compiled to WebAssembly and translated to Go by a tool, a parameter here
  (\<open>core_module\<close>): a state, its linear memory, an allocator, and one function for its exports; each may trap,
  which is a Go panic. gRPC and Protobuf are parameters as well. An operation of the owner takes the state and
  gives a result with the next state, or nothing if it never returns: only two loops, of \<open>takeWithRetry\<close> and
  \<open>driveOperationStep\<close>, and those built on them can fail to return.
\<close>

section \<open>The module\<close>

text \<open>The exports that answer into a buffer, with their other arguments.\<close>

datatype core_call =
    StartPollActivity
  | TakePollActivity
  | StartPollWorkflow
  | TakePollWorkflow
  | TakeInit
  | StartShutdown
  | TakeShutdown
  | DrainReadyTasks
  | TakeGRPCRequest
  | StartCompleteActivity "64 word" "32 word" "32 word"
  | TakeCompleteActivity "64 word"
  | StartCompleteWorkflow "64 word" "32 word" "32 word"
  | TakeCompleteWorkflow "64 word"
  | RecordHeartbeat "32 word" "32 word"
  | CompleteGRPCRequest "64 word" "32 word" "32 word"
  | InitWithWorkerOptions "(32 word \<times> 32 word) list" "32 word list"

text \<open>The message of a trap, or a value.\<close>

record 'm core_module =
  cm_memory :: "'m \<Rightarrow> memory"
  cm_write :: "memory \<Rightarrow> 'm \<Rightarrow> 'm"
  cm_alloc :: "32 word \<Rightarrow> 'm \<Rightarrow> (string + 32 word) \<times> 'm"
  cm_dealloc :: "32 word \<Rightarrow> 32 word \<Rightarrow> 'm \<Rightarrow> string option \<times> 'm"
  cm_call :: "core_call \<Rightarrow> 32 word \<Rightarrow> 32 word \<Rightarrow> 'm \<Rightarrow> (string + 64 word) \<times> 'm"

text \<open>The messages of the bridge's Protobuf schema; a missing metadata entry is \<open>None\<close>.\<close>

record wire_request =
  wq_id :: "64 word"
  wq_service :: string
  wq_rpc :: string
  wq_metadata :: "(string \<times> byte list) option list"
  wq_proto :: "byte list"

record wire_response =
  wr_status :: "32 word"
  wr_message :: string
  wr_headers :: "(string \<times> byte list) list"
  wr_trailers :: "(string \<times> byte list) list"
  wr_details :: "byte list"
  wr_proto :: "byte list"

text \<open>
  The environment: the module, Protobuf (\<open>Unmarshal\<close>, \<open>Size\<close>, \<open>Marshal\<close>), gRPC (a call knows whether its
  context has been cancelled), the answer of the connection's \<open>Close\<close>, and the text of a stack trace.
\<close>

record 'm bridge_env =
  en_core :: "'m core_module"
  en_unmarshal :: "byte list \<Rightarrow> goerr + wire_request"
  en_size :: "wire_response \<Rightarrow> nat"
  en_marshal :: "wire_response \<Rightarrow> goerr + byte list"
  en_md :: md_lib
  en_invoke :: "bool \<Rightarrow> grpc_invocation \<Rightarrow> invoke_result"
  en_close :: "goerr option"
  en_stack :: string

section \<open>State\<close>

record bridge_buffer =
  bb_ptr :: "32 word"
  bb_capacity :: "32 word"

definition no_buffer :: bridge_buffer where
  "no_buffer = \<lparr>bb_ptr = 0, bb_capacity = 0\<rparr>"

text \<open>A request with its identifier, and an encoded response or an error.\<close>

record core_request =
  cq_id :: "64 word"
  cq_request :: grpc_request

record core_response =
  cp_id :: "64 word"
  cp_answer :: "goerr + byte list"

text \<open>
  \<open>Bridge\<close> and \<open>bridgeOwner\<close>. \<open>br_outstanding\<close> are the goroutines that make a call, \<open>br_responses\<close> the
  channel; \<open>br_arrivals\<close> is the scheduler: which of the goroutines deliver before each receive of the owner.
  \<open>br_wakes\<close> counts the wake channels closed so far. \<open>br_blocks\<close> and \<open>br_stray\<close> are ghosts: the blocks of the
  module's memory the owner has allocated and not freed, and how often it freed a block it did not have.
\<close>

record 'm bridge =
  br_module :: 'm
  br_activity_poll :: bool
  br_workflow_poll :: bool
  br_in_flight :: nat
  br_output :: bridge_buffer
  br_error :: bridge_buffer
  br_outstanding :: "core_request list"
  br_responses :: "core_response list"
  br_arrivals :: "nat list list"
  br_host :: grpc_host
  br_done :: "goerr option"
  br_grpc_cancelled :: bool
  br_closing :: bool
  br_wakes :: nat
  br_last_id :: "64 word"
  br_blocks :: "(32 word \<times> 32 word) multiset"
  br_stray :: nat

definition initial_output_capacity :: "32 word" where "initial_output_capacity = 65536"
definition max_bridge_message_size :: "32 word" where "max_bridge_message_size = 67108864"
definition error_scratch_capacity :: "32 word" where "error_scratch_capacity = 65536"
definition bridge_pending :: "32 word" where "bridge_pending = 1"
definition bridge_buffer_too_small :: "32 word" where "bridge_buffer_too_small = 2"
definition max_host_transport_bytes :: nat where "max_host_transport_bytes = 4194304"
definition max_concurrent_grpc_calls :: nat where "max_concurrent_grpc_calls = 64"
definition response_channel_size :: nat where "response_channel_size = 16"

section \<open>Operations\<close>

type_synonym ('m, 'a) owner_op = "'m bridge \<Rightarrow> ('a gores \<times> 'm bridge) option"

definition op_return :: "'a \<Rightarrow> ('m, 'a) owner_op" where
  "op_return a b = Some (Ok a, b)"

definition op_fail :: "goerr \<Rightarrow> ('m, 'a) owner_op" where
  "op_fail e b = Some (Err e, b)"

definition op_lift :: "goerr + 'a \<Rightarrow> ('m, 'a) owner_op" where
  "op_lift r = (case r of Inl e \<Rightarrow> op_fail e | Inr a \<Rightarrow> op_return a)"

definition op_bind :: "('m, 'a) owner_op \<Rightarrow> ('a \<Rightarrow> ('m, 'c) owner_op) \<Rightarrow> ('m, 'c) owner_op" where
  "op_bind m f b = Option.bind (m b) (\<lambda>(r, b1). case r of
     Ok a \<Rightarrow> f a b1 | Err e \<Rightarrow> Some (Err e, b1) | Panic p \<Rightarrow> Some (Panic p, b1))"

text \<open>A deferred call runs whatever the outcome; its own panic replaces it.\<close>

definition op_defer :: "('m, unit) owner_op \<Rightarrow> ('m, 'a) owner_op \<Rightarrow> ('m, 'a) owner_op" where
  "op_defer d m b = Option.bind (m b) (\<lambda>(r, b1). Option.bind (d b1) (\<lambda>(rd, b2). case rd of
     Panic p \<Rightarrow> Some (Panic p, b2) | _ \<Rightarrow> Some (r, b2)))"

text \<open>Reading and changing the state, which cannot fail.\<close>

definition op_get :: "('m bridge \<Rightarrow> 'a) \<Rightarrow> ('m, 'a) owner_op" where
  "op_get f b = Some (Ok (f b), b)"

definition op_modify :: "('m bridge \<Rightarrow> 'm bridge) \<Rightarrow> ('m, unit) owner_op" where
  "op_modify f b = Some (Ok (), f b)"

section \<open>Calls into the module\<close>

definition core_alloc :: "'m bridge_env \<Rightarrow> 32 word \<Rightarrow> ('m, 32 word) owner_op" where
  "core_alloc env len b = (case cm_alloc (en_core env) len (br_module b) of
     (Inl p, m) \<Rightarrow> Some (Panic p, b\<lparr>br_module := m\<rparr>)
   | (Inr ptr, m) \<Rightarrow> Some (Ok ptr, b\<lparr>br_module := m, br_blocks := add_mset (ptr, len) (br_blocks b)\<rparr>))"

definition core_dealloc :: "'m bridge_env \<Rightarrow> 32 word \<Rightarrow> 32 word \<Rightarrow> ('m, unit) owner_op" where
  "core_dealloc env ptr len b = (case cm_dealloc (en_core env) ptr len (br_module b) of
     (Some p, m) \<Rightarrow> Some (Panic p, b\<lparr>br_module := m\<rparr>)
   | (None, m) \<Rightarrow>
       Some (Ok (), b\<lparr>br_module := m, br_blocks := br_blocks b - {#(ptr, len)#},
         br_stray := br_stray b + (if (ptr, len) \<in># br_blocks b then 0 else 1)\<rparr>))"

definition core_export :: "'m bridge_env \<Rightarrow> core_call \<Rightarrow> bridge_buffer \<Rightarrow> ('m, 64 word) owner_op" where
  "core_export env call buf b = (case cm_call (en_core env) call (bb_ptr buf) (bb_capacity buf) (br_module b) of
     (Inl p, m) \<Rightarrow> Some (Panic p, b\<lparr>br_module := m\<rparr>)
   | (Inr w, m) \<Rightarrow> Some (Ok w, b\<lparr>br_module := m\<rparr>))"

section \<open>Messages in\<close>

definition checked_bridge_input_len :: "nat \<Rightarrow> goerr + 32 word" where
  "checked_bridge_input_len n =
     (if n > unat max_bridge_message_size
      then Inl (ErrNew (''length '' @ show_nat n @ '' exceeds max bridge message size '' @
                        show_nat (unat max_bridge_message_size)))
      else Inr (of_nat n))"

text \<open>\<open>copy(memory[ptr:], value)\<close> panics if the pointer is outside the memory, and stops at its end.\<close>

definition copy_into :: "'m bridge_env \<Rightarrow> 32 word \<Rightarrow> byte list \<Rightarrow> ('m, unit) owner_op" where
  "copy_into env ptr bytes b =
     (let memory = cm_memory (en_core env) (br_module b) in
      if unat ptr > length memory then Some (Panic ''slice bounds out of range'', b)
      else
        Some (Ok (), b\<lparr>br_module := cm_write (en_core env)
          (overwrite memory (unat ptr) (take (length memory - unat ptr) bytes)) (br_module b)\<rparr>))"

definition copy_in :: "'m bridge_env \<Rightarrow> byte list \<Rightarrow> ('m, 32 word) owner_op" where
  "copy_in env bytes =
     op_bind (op_lift (checked_bridge_input_len (length bytes))) (\<lambda>len.
     op_bind (core_alloc env len) (\<lambda>ptr.
     op_bind (copy_into env ptr bytes) (\<lambda>_. op_return ptr)))"

section \<open>Messages out\<close>

text \<open>Code, payload and length of a result.\<close>

definition unpack_result ::
    "memory \<Rightarrow> 64 word \<Rightarrow> bridge_buffer \<Rightarrow> goerr + 32 word \<times> byte list \<times> 32 word" where
  "unpack_result memory w output =
     (let code = ucast (drop_bit 32 w) :: 32 word; len = ucast w :: 32 word in
      if code = bridge_buffer_too_small then Inr (code, [], len)
      else
        let start = ucast (bb_ptr output) :: 64 word; stop = start + ucast len in
        if unat stop > length memory
        then Inl (ErrNew ''core returned an output range outside WASM memory'')
        else Inr (code, slice memory (unat start, unat stop), len))"

definition op_unpack ::
    "'m bridge_env \<Rightarrow> 64 word \<Rightarrow> bridge_buffer \<Rightarrow> ('m, 32 word \<times> byte list \<times> 32 word) owner_op" where
  "op_unpack env w output b = op_lift (unpack_result (cm_memory (en_core env) (br_module b)) w output) b"

definition bridge_error :: "byte list \<Rightarrow> goerr" where
  "bridge_error payload = ErrNew (''temporal Core bridge error: '' @ string_of_bytes payload)"

definition require_success ::
    "'m bridge_env \<Rightarrow> 64 word \<Rightarrow> bridge_buffer \<Rightarrow> ('m, byte list) owner_op" where
  "require_success env w output =
     op_bind (op_unpack env w output) (\<lambda>(code, payload, required).
       if code = bridge_buffer_too_small
       then op_fail (ErrNew (''temporal Core bridge output requires '' @ show_nat (unat required) @
         '' bytes, but non-retryable calls are capped at '' @ show_int (sint (bb_capacity output)) @ '' bytes''))
       else if code \<noteq> 0 then op_fail (bridge_error payload)
       else op_return payload)"

section \<open>Scratch buffers\<close>

definition resize_output_scratch :: "'m bridge_env \<Rightarrow> 32 word \<Rightarrow> ('m, unit) owner_op" where
  "resize_output_scratch env capacity =
     op_bind (core_alloc env capacity) (\<lambda>ptr.
     op_bind (op_get br_output) (\<lambda>old.
     op_bind (if bb_capacity old \<noteq> 0 then core_dealloc env (bb_ptr old) (bb_capacity old) else op_return ()) (\<lambda>_.
     op_modify (\<lambda>b. b\<lparr>br_output := \<lparr>bb_ptr = ptr, bb_capacity = capacity\<rparr>\<rparr>))))"

definition ensure_output_scratch :: "'m bridge_env \<Rightarrow> 32 word \<Rightarrow> ('m, unit) owner_op" where
  "ensure_output_scratch env min_capacity =
     (let wanted = (if sint min_capacity \<le> 0 then initial_output_capacity else min_capacity) in
      op_bind (op_get br_output) (\<lambda>old.
        if sint (bb_capacity old) \<ge> sint wanted then op_return ()
        else if sint wanted > sint max_bridge_message_size
        then op_fail (ErrNew (''requested bridge output scratch '' @ show_int (sint wanted) @ '' exceeds max '' @
          show_int (sint max_bridge_message_size)))
        else resize_output_scratch env wanted))"

text \<open>The doubling loop; the capacity it starts from is positive and the target within the bound.\<close>

definition oversize_error :: "32 word \<Rightarrow> goerr" where
  "oversize_error required =
     ErrNew (''temporal Core requested '' @ show_nat (unat required) @
       '' bytes, exceeding max bridge message size '' @ show_nat (unat max_bridge_message_size))"

function double_capacity :: "int \<Rightarrow> int \<Rightarrow> int" where
  "double_capacity capacity target =
     (if 0 < capacity \<and> capacity < target
      then
        if capacity * 2 > uint max_bridge_message_size then uint max_bridge_message_size
        else double_capacity (capacity * 2) target
      else capacity)"
  by auto
termination by (relation "measure (\<lambda>(capacity, target). nat (target - capacity))") auto

definition next_bridge_buffer_capacity :: "32 word \<Rightarrow> 32 word \<Rightarrow> goerr + 32 word" where
  "next_bridge_buffer_capacity current required =
     (if required = 0 then Inl (ErrNew ''temporal Core requested a zero-byte bridge buffer resize'')
      else if required > max_bridge_message_size then Inl (oversize_error required)
      else
        let capacity = double_capacity (max (sint current) (sint initial_output_capacity)) (uint required) in
        if capacity < uint required then Inl (oversize_error required) else Inr (of_int capacity))"

definition grow_output_scratch :: "'m bridge_env \<Rightarrow> 32 word \<Rightarrow> ('m, unit) owner_op" where
  "grow_output_scratch env required =
     op_bind (op_get br_output) (\<lambda>old.
     op_bind (op_lift (next_bridge_buffer_capacity (bb_capacity old) required)) (resize_output_scratch env))"

definition ensure_error_scratch :: "'m bridge_env \<Rightarrow> ('m, bridge_buffer) owner_op" where
  "ensure_error_scratch env =
     op_bind (op_get br_error) (\<lambda>old.
       if bb_capacity old \<noteq> 0 then op_return old
       else
         op_bind (core_alloc env error_scratch_capacity) (\<lambda>ptr.
           let buf = \<lparr>bb_ptr = ptr, bb_capacity = error_scratch_capacity\<rparr> in
           op_bind (op_modify (\<lambda>b. b\<lparr>br_error := buf\<rparr>)) (\<lambda>_. op_return buf)))"

text \<open>\<open>releaseScratch\<close>, for each of the two buffers.\<close>

definition release_output :: "'m bridge_env \<Rightarrow> ('m, unit) owner_op" where
  "release_output env =
     op_bind (op_get br_output) (\<lambda>old.
       if bb_capacity old \<noteq> 0
       then op_bind (core_dealloc env (bb_ptr old) (bb_capacity old))
         (\<lambda>_. op_modify (\<lambda>b. b\<lparr>br_output := no_buffer\<rparr>))
       else op_return ())"

definition release_error :: "'m bridge_env \<Rightarrow> ('m, unit) owner_op" where
  "release_error env =
     op_bind (op_get br_error) (\<lambda>old.
       if bb_capacity old \<noteq> 0
       then op_bind (core_dealloc env (bb_ptr old) (bb_capacity old))
         (\<lambda>_. op_modify (\<lambda>b. b\<lparr>br_error := no_buffer\<rparr>))
       else op_return ())"

definition release_scratch :: "'m bridge_env \<Rightarrow> ('m, unit) owner_op" where
  "release_scratch env = op_bind (release_output env) (\<lambda>_. release_error env)"

section \<open>Taking results\<close>

text \<open>One round of \<open>takeWithRetry\<close>: a result, or nothing if the buffer had to grow.\<close>

definition take_once :: "'m bridge_env \<Rightarrow> core_call \<Rightarrow> ('m, (32 word \<times> byte list) option) owner_op" where
  "take_once env call =
     op_bind (op_get br_output) (\<lambda>buf.
     op_bind (core_export env call buf) (\<lambda>w.
     op_bind (op_unpack env w buf) (\<lambda>(code, output, required).
       if code \<noteq> bridge_buffer_too_small then op_return (Some (code, output))
       else op_bind (grow_output_scratch env required) (\<lambda>_. op_return None))))"

partial_function (option) take_loop ::
    "'m bridge_env \<Rightarrow> core_call \<Rightarrow> 'm bridge \<Rightarrow> ((32 word \<times> byte list) gores \<times> 'm bridge) option" where
  "take_loop env call b = Option.bind (take_once env call b) (\<lambda>(r, b1). case r of
     Ok None \<Rightarrow> take_loop env call b1
   | Ok (Some x) \<Rightarrow> Some (Ok x, b1)
   | Err e \<Rightarrow> Some (Err e, b1)
   | Panic p \<Rightarrow> Some (Panic p, b1))"

definition take_with_retry :: "'m bridge_env \<Rightarrow> core_call \<Rightarrow> ('m, 32 word \<times> byte list) owner_op" where
  "take_with_retry env call =
     op_bind (ensure_output_scratch env initial_output_capacity) (\<lambda>_. take_loop env call)"

declare take_loop.simps [code]

end
