(* ===== verification/Bridge_Requests.thy ===== *)
theory Bridge_Requests
  imports Bridge_Owner "HOL-Library.List_Lexorder" "HOL-Library.Char_ord"
begin

text \<open>
  What the owner of the Core module does for the clients of the bridge (\<open>internal/corebridge/bridge.go\<close>): the
  transport of gRPC calls between Core and the gRPC host, polls, completions, heartbeats and initialisation.
\<close>

section \<open>gRPC messages\<close>

text \<open>The loop over the metadata of a request; \<open>index\<close> counts the entries.\<close>

fun decode_entries ::
    "md_lib \<Rightarrow> nat \<Rightarrow> (string \<times> byte list) option list \<Rightarrow> md \<Rightarrow> goerr + md" where
  "decode_entries lib index [] m = Inr m"
| "decode_entries lib index (None # rest) m =
     Inl (ErrNew (''core gRPC request metadata entry '' @ show_nat index @ '' is missing''))"
| "decode_entries lib index (Some (key, value) # rest) m =
     (let name = to_lower key in
      if name = []
      then Inl (ErrNew (''core gRPC request metadata entry '' @ show_nat index @ '' has an empty key''))
      else decode_entries lib (index + 1) rest (ml_append lib m name (string_of_bytes value)))"

definition decode_grpc_request :: "'m bridge_env \<Rightarrow> byte list \<Rightarrow> goerr + core_request" where
  "decode_grpc_request env encoded =
     (if length encoded > max_host_transport_bytes
      then Inl (ErrNew (''core gRPC request is '' @ show_nat (length encoded) @ '' bytes, exceeds '' @
                        show_nat max_host_transport_bytes @ '' byte limit''))
      else case en_unmarshal env encoded of
        Inl e \<Rightarrow> Inl (ErrWrap ''decode core gRPC request: '' e [])
      | Inr wire \<Rightarrow>
          (case decode_entries (en_md env) 0 (wq_metadata wire) [] of
             Inl e \<Rightarrow> Inl e
           | Inr m \<Rightarrow>
               Inr \<lparr>cq_id = wq_id wire,
                    cq_request = \<lparr>gq_service = wq_service wire, gq_rpc = wq_rpc wire, gq_metadata = m,
                      gq_proto = wq_proto wire\<rparr>\<rparr>))"

text \<open>\<open>sort.Strings\<close> of the names, then their values in order.\<close>

definition grpc_metadata_entries :: "md \<Rightarrow> (string \<times> byte list) list" where
  "grpc_metadata_entries m =
     concat (map (\<lambda>key. map (\<lambda>v. (key, bytes_of_string v)) (values_of m key)) (sort (remdups (map fst m))))"

definition encode_grpc_response :: "'m bridge_env \<Rightarrow> grpc_response \<Rightarrow> goerr + byte list" where
  "encode_grpc_response env response =
     (let wire = \<lparr>wr_status = of_nat (gr_code response), wr_message = gr_message response,
                  wr_headers = grpc_metadata_entries (gr_header response),
                  wr_trailers = grpc_metadata_entries (gr_trailer response),
                  wr_details = gr_details response, wr_proto = gr_proto response\<rparr>
      in
      if en_size env wire > max_host_transport_bytes
      then Inl (ErrNew (''gRPC response is '' @ show_nat (en_size env wire) @ '' bytes, exceeds '' @
                        show_nat max_host_transport_bytes @ '' byte limit''))
      else case en_marshal env wire of
        Inl e \<Rightarrow> Inl (ErrWrap ''encode gRPC response: '' e [])
      | Inr bs \<Rightarrow> Inr bs)"

definition internal_response :: "goerr \<Rightarrow> grpc_response" where
  "internal_response e =
     \<lparr>gr_code = code_internal, gr_message = ''encode gRPC response: '' @ err_msg e, gr_details = [],
      gr_header = [], gr_trailer = [], gr_proto = []\<rparr>"

text \<open>\<open>callGRPC\<close>, on the host as it is when the call is made.\<close>

definition call_grpc :: "'m bridge_env \<Rightarrow> 'm bridge \<Rightarrow> core_request \<Rightarrow> core_response" where
  "call_grpc env b q =
     (let response = call_context (en_md env) (en_invoke env (br_grpc_cancelled b)) (br_host b) (cq_request q) in
      \<lparr>cp_id = cq_id q,
       cp_answer = (case encode_grpc_response env response of
          Inr bs \<Rightarrow> Inr bs | Inl e \<Rightarrow> encode_grpc_response env (internal_response e))\<rparr>)"

text \<open>
  The end of the goroutine of the outstanding call \<open>i\<close>: \<open>deliverGRPCResponse\<close> sends unless the bridge is done,
  which drops the response (its \<open>select\<close> may still send one then, to a channel nobody reads any more); where
  the channel is full the goroutine stays blocked.
\<close>

definition remove_nth :: "nat \<Rightarrow> 'a list \<Rightarrow> 'a list" where
  "remove_nth i xs = take i xs @ drop (i + 1) xs"

definition signal_wake :: "'m bridge \<Rightarrow> 'm bridge" where
  "signal_wake b = b\<lparr>br_wakes := br_wakes b + 1\<rparr>"

definition deliver_response :: "'m bridge_env \<Rightarrow> nat \<Rightarrow> 'm bridge \<Rightarrow> 'm bridge" where
  "deliver_response env i b =
     (if i \<ge> length (br_outstanding b) then b
      else if br_done b \<noteq> None then b\<lparr>br_outstanding := remove_nth i (br_outstanding b)\<rparr>
      else if length (br_responses b) \<ge> response_channel_size then b
      else
        signal_wake (b\<lparr>br_outstanding := remove_nth i (br_outstanding b),
          br_responses := br_responses b @ [call_grpc env b (br_outstanding b ! i)]\<rparr>))"

definition arrive :: "'m bridge_env \<Rightarrow> 'm bridge \<Rightarrow> 'm bridge" where
  "arrive env b = (case br_arrivals b of
     [] \<Rightarrow> b
   | is' # rest \<Rightarrow> fold (deliver_response env) is' (b\<lparr>br_arrivals := rest\<rparr>))"

section \<open>Pumping gRPC\<close>

text \<open>A block copied in, used and freed, with the error buffer for the answer.\<close>

definition with_input ::
    "'m bridge_env \<Rightarrow> string \<Rightarrow> byte list \<Rightarrow> (32 word \<Rightarrow> 32 word \<Rightarrow> core_call) \<Rightarrow> ('m, unit) owner_op" where
  "with_input env what bytes call =
     (case checked_bridge_input_len (length bytes) of
        Inl e \<Rightarrow> op_fail (ErrWrap (what @ '' length: '') e [])
      | Inr len \<Rightarrow>
          op_bind (copy_in env bytes) (\<lambda>input.
          op_defer (core_dealloc env input len)
            (op_bind (ensure_error_scratch env) (\<lambda>err.
             op_bind (core_export env (call input len) err) (\<lambda>w.
             op_bind (require_success env w err) (\<lambda>_. op_return ()))))))"

definition complete_grpc_request :: "'m bridge_env \<Rightarrow> 64 word \<Rightarrow> byte list \<Rightarrow> ('m, unit) owner_op" where
  "complete_grpc_request env id' response =
     with_input env ''gRPC response'' response (CompleteGRPCRequest id')"

definition take_grpc_request :: "'m bridge_env \<Rightarrow> ('m, core_request option) owner_op" where
  "take_grpc_request env =
     op_bind (take_with_retry env TakeGRPCRequest) (\<lambda>(code, encoded).
       if code = bridge_pending then op_return None
       else if code \<noteq> 0 then op_fail (bridge_error encoded)
       else op_bind (op_lift (decode_grpc_request env encoded)) (\<lambda>q. op_return (Some q)))"

text \<open>One round of each of the two loops of \<open>pumpGRPC\<close>: whether there is more.\<close>

definition receive_response :: "'m bridge_env \<Rightarrow> ('m, bool) owner_op" where
  "receive_response env =
     op_bind (op_modify (arrive env)) (\<lambda>_.
     op_bind (op_get (\<lambda>b. (br_responses b, br_in_flight b))) (\<lambda>(responses, in_flight).
       case responses of
         [] \<Rightarrow> op_return False
       | r # rest \<Rightarrow>
           op_bind (op_modify (\<lambda>b. b\<lparr>br_responses := rest\<rparr>)) (\<lambda>_.
             if in_flight = 0
             then op_fail (ErrNew ''received a gRPC response with no call in flight'')
             else
               op_bind (op_modify (\<lambda>b. b\<lparr>br_in_flight := in_flight - 1\<rparr>)) (\<lambda>_.
               op_bind (op_lift (cp_answer r)) (\<lambda>answer.
               op_bind (complete_grpc_request env (cp_id r) answer) (\<lambda>_. op_return True))))))"

definition start_request :: "'m bridge_env \<Rightarrow> ('m, bool) owner_op" where
  "start_request env =
     op_bind (op_get br_in_flight) (\<lambda>in_flight.
       if \<not> in_flight < max_concurrent_grpc_calls then op_return False
       else
         op_bind (take_grpc_request env) (\<lambda>request. case request of
           None \<Rightarrow> op_return False
         | Some q \<Rightarrow>
             op_bind (op_modify (\<lambda>b. b\<lparr>br_in_flight := br_in_flight b + 1,
               br_outstanding := br_outstanding b @ [q]\<rparr>)) (\<lambda>_. op_return True)))"

text \<open>The loops: the first says whether it received anything.\<close>

partial_function (option) receive_loop ::
    "'m bridge_env \<Rightarrow> bool \<Rightarrow> 'm bridge \<Rightarrow> (bool gores \<times> 'm bridge) option" where
  "receive_loop env progressed b = Option.bind (receive_response env b) (\<lambda>(r, b1). case r of
     Ok received \<Rightarrow> if received then receive_loop env True b1 else Some (Ok progressed, b1)
   | Err e \<Rightarrow> Some (Err e, b1)
   | Panic p \<Rightarrow> Some (Panic p, b1))"

partial_function (option) start_loop :: "'m bridge_env \<Rightarrow> 'm bridge \<Rightarrow> (unit gores \<times> 'm bridge) option" where
  "start_loop env b = Option.bind (start_request env b) (\<lambda>(r, b1). case r of
     Ok started \<Rightarrow> if started then start_loop env b1 else Some (Ok (), b1)
   | Err e \<Rightarrow> Some (Err e, b1)
   | Panic p \<Rightarrow> Some (Panic p, b1))"

definition pump_grpc :: "'m bridge_env \<Rightarrow> ('m, bool) owner_op" where
  "pump_grpc env =
     op_bind (receive_loop env False) (\<lambda>progressed. op_bind (start_loop env) (\<lambda>_. op_return progressed))"

section \<open>Steps of an operation\<close>

text \<open>The result of a step: the bytes, and whether the operation is over.\<close>

type_synonym step_result = "byte list \<times> bool"

text \<open>What \<open>operationStep\<close> hands to \<open>driveOperationStep\<close> as \<open>take\<close>.\<close>

definition drain_and_take :: "'m bridge_env \<Rightarrow> core_call \<Rightarrow> ('m, 32 word \<times> byte list) owner_op" where
  "drain_and_take env call =
     op_bind (op_get br_output) (\<lambda>buf.
     op_bind (core_export env DrainReadyTasks buf) (\<lambda>w.
     op_bind (require_success env w buf) (\<lambda>_. take_with_retry env call)))"

text \<open>One round of \<open>driveOperationStep\<close>: its result, or nothing if it goes round again.\<close>

definition drive_once :: "'m bridge_env \<Rightarrow> core_call \<Rightarrow> ('m, step_result option) owner_op" where
  "drive_once env call =
     op_bind (drain_and_take env call) (\<lambda>(code, result).
       if code = 0 then op_return (Some (result, True))
       else if code \<noteq> bridge_pending then op_fail (bridge_error result)
       else
         op_bind (pump_grpc env) (\<lambda>progressed.
           op_return (if progressed then None else Some ([], False))))"

partial_function (option) drive_operation_step ::
    "'m bridge_env \<Rightarrow> core_call \<Rightarrow> 'm bridge \<Rightarrow> (step_result gores \<times> 'm bridge) option" where
  "drive_operation_step env call b = Option.bind (drive_once env call b) (\<lambda>(r, b1). case r of
     Ok None \<Rightarrow> drive_operation_step env call b1
   | Ok (Some x) \<Rightarrow> Some (Ok x, b1)
   | Err e \<Rightarrow> Some (Err e, b1)
   | Panic p \<Rightarrow> Some (Panic p, b1))"

definition operation_step :: "'m bridge_env \<Rightarrow> core_call \<Rightarrow> ('m, step_result) owner_op" where
  "operation_step env call =
     op_bind (ensure_output_scratch env initial_output_capacity) (\<lambda>_. drive_operation_step env call)"

definition call_for_error :: "'m bridge_env \<Rightarrow> core_call \<Rightarrow> ('m, unit) owner_op" where
  "call_for_error env call =
     op_bind (ensure_error_scratch env) (\<lambda>err.
     op_bind (core_export env call err) (\<lambda>w.
     op_bind (require_success env w err) (\<lambda>_. op_return ())))"

section \<open>Polls\<close>

definition start_poll_activity :: "'m bridge_env \<Rightarrow> ('m, unit) owner_op" where
  "start_poll_activity env =
     op_bind (op_get br_activity_poll) (\<lambda>started.
       if started then op_return ()
       else
         op_bind (call_for_error env StartPollActivity) (\<lambda>_.
         op_modify (\<lambda>b. b\<lparr>br_activity_poll := True\<rparr>)))"

definition start_poll_workflow :: "'m bridge_env \<Rightarrow> ('m, unit) owner_op" where
  "start_poll_workflow env =
     op_bind (op_get br_workflow_poll) (\<lambda>started.
       if started then op_return ()
       else
         op_bind (call_for_error env StartPollWorkflow) (\<lambda>_.
         op_modify (\<lambda>b. b\<lparr>br_workflow_poll := True\<rparr>)))"

text \<open>A step over, or failed, ends the poll.\<close>

definition ends_poll :: "step_result gores \<Rightarrow> bool" where
  "ends_poll r = (case r of Ok (result, ready) \<Rightarrow> ready | Err e \<Rightarrow> True | Panic p \<Rightarrow> False)"

definition poll_activity_step :: "'m bridge_env \<Rightarrow> ('m, step_result) owner_op" where
  "poll_activity_step env b =
     (if \<not> br_activity_poll b then op_fail (ErrNew ''activity poll is not in progress'') b
      else Option.bind (operation_step env TakePollActivity b) (\<lambda>(r, b1).
        Some (r, if ends_poll r then b1\<lparr>br_activity_poll := False\<rparr> else b1)))"

definition poll_workflow_step :: "'m bridge_env \<Rightarrow> ('m, step_result) owner_op" where
  "poll_workflow_step env b =
     (if \<not> br_workflow_poll b then op_fail (ErrNew ''workflow poll is not in progress'') b
      else Option.bind (operation_step env TakePollWorkflow b) (\<lambda>(r, b1).
        Some (r, if ends_poll r then b1\<lparr>br_workflow_poll := False\<rparr> else b1)))"

section \<open>Completions and heartbeats\<close>

text \<open>The two completion drivers: an activity's and a workflow activation's.\<close>

datatype completion_kind = CompleteActivity | CompleteWorkflow

fun completion_start :: "completion_kind \<Rightarrow> 64 word \<Rightarrow> 32 word \<Rightarrow> 32 word \<Rightarrow> core_call" where
  "completion_start CompleteActivity id' = StartCompleteActivity id'"
| "completion_start CompleteWorkflow id' = StartCompleteWorkflow id'"

fun completion_take :: "completion_kind \<Rightarrow> 64 word \<Rightarrow> core_call" where
  "completion_take CompleteActivity id' = TakeCompleteActivity id'"
| "completion_take CompleteWorkflow id' = TakeCompleteWorkflow id'"

definition start_completion ::
    "'m bridge_env \<Rightarrow> completion_kind \<Rightarrow> 64 word \<Rightarrow> byte list \<Rightarrow> ('m, unit) owner_op" where
  "start_completion env kind id' completion =
     with_input env ''completion'' completion (completion_start kind id')"

definition take_completion :: "'m bridge_env \<Rightarrow> completion_kind \<Rightarrow> 64 word \<Rightarrow> ('m, bool) owner_op" where
  "take_completion env kind id' =
     op_bind (operation_step env (completion_take kind id')) (\<lambda>(result, ready). op_return ready)"

definition record_activity_heartbeat :: "'m bridge_env \<Rightarrow> byte list \<Rightarrow> ('m, unit) owner_op" where
  "record_activity_heartbeat env heartbeat = with_input env ''heartbeat'' heartbeat RecordHeartbeat"

section \<open>Initialisation\<close>

record bridge_workflow_options =
  bw_max_tasks :: "32 word"
  bw_max_pollers :: "32 word"
  bw_max_cached :: "32 word"
  bw_max_eager :: "32 word"
  bw_heartbeat_millis :: "32 word"

record init_options =
  io_namespace :: "byte list"
  io_task_queue :: "byte list"
  io_identity :: "byte list"
  io_max_activities :: "32 word"
  io_max_activity_pollers :: "32 word"
  io_workflow :: bridge_workflow_options
  io_mode :: "32 word"

definition worker_mode_activity :: "32 word" where "worker_mode_activity = 0"
definition worker_mode_workflow :: "32 word" where "worker_mode_workflow = 1"
definition worker_mode_combined :: "32 word" where "worker_mode_combined = 2"
definition default_max_eager_per_wft :: "32 word" where "default_max_eager_per_wft = 3"

definition worker_heartbeat_interval_millis :: "bridge_workflow_options \<Rightarrow> goerr + 32 word" where
  "worker_heartbeat_interval_millis options =
     (if sint (bw_heartbeat_millis options) < 0
      then Inl (ErrNew ''worker heartbeat interval must be non-negative'')
      else Inr (bw_heartbeat_millis options))"

definition eager_activity_reservations_for_mode ::
    "32 word \<Rightarrow> bridge_workflow_options \<Rightarrow> goerr + 32 word" where
  "eager_activity_reservations_for_mode mode options =
     (let eager = (if bw_max_eager options = 0 then default_max_eager_per_wft else bw_max_eager options) in
      if mode \<noteq> worker_mode_combined then Inr 0
      else if sint eager < 0
      then Inl (ErrNew
        ''combined worker eager activity reservations per workflow task must be non-negative'')
      else Inr eager)"

text \<open>A length that is too long is reported with the name of what it is the length of.\<close>

definition named_len :: "string \<Rightarrow> byte list \<Rightarrow> goerr + 32 word" where
  "named_len what bytes = (case checked_bridge_input_len (length bytes) of
     Inl e \<Rightarrow> Inl (ErrWrap (what @ '' length: '') e []) | Inr len \<Rightarrow> Inr len)"

text \<open>A block that is freed when the rest is over (\<open>defer\<close>).\<close>

definition with_block ::
    "'m bridge_env \<Rightarrow> byte list \<Rightarrow> 32 word \<Rightarrow> (32 word \<Rightarrow> ('m, 'a) owner_op) \<Rightarrow> ('m, 'a) owner_op" where
  "with_block env bytes len rest =
     op_bind (copy_in env bytes) (\<lambda>ptr. op_defer (core_dealloc env ptr len) (rest ptr))"

definition init_call ::
    "init_options \<Rightarrow> 32 word \<Rightarrow> 32 word \<Rightarrow> (32 word \<times> 32 word) list \<Rightarrow> core_call" where
  "init_call options eager heartbeat blocks =
     InitWithWorkerOptions blocks
       [io_max_activities options, io_max_activity_pollers options, bw_max_tasks (io_workflow options),
        bw_max_pollers (io_workflow options), bw_max_cached (io_workflow options), eager, heartbeat,
        io_mode options]"

text \<open>The part of \<open>startInit\<close> after the three strings are in the module's memory.\<close>

definition init_core ::
    "'m bridge_env \<Rightarrow> init_options \<Rightarrow> (32 word \<times> 32 word) list \<Rightarrow> ('m, unit) owner_op" where
  "init_core env options blocks =
     op_bind (ensure_error_scratch env) (\<lambda>err.
     op_bind (op_lift (eager_activity_reservations_for_mode (io_mode options) (io_workflow options))) (\<lambda>eager.
     op_bind (op_lift (worker_heartbeat_interval_millis (io_workflow options))) (\<lambda>heartbeat.
     op_bind (core_export env (init_call options eager heartbeat blocks) err) (\<lambda>w.
     op_bind (require_success env w err) (\<lambda>_. op_return ())))))"

definition start_init :: "'m bridge_env \<Rightarrow> init_options \<Rightarrow> ('m, unit) owner_op" where
  "start_init env options =
     op_bind (op_lift (named_len ''namespace'' (io_namespace options))) (\<lambda>n1.
     op_bind (op_lift (named_len ''task queue'' (io_task_queue options))) (\<lambda>n2.
     op_bind (op_lift (named_len ''identity'' (io_identity options))) (\<lambda>n3.
     with_block env (io_namespace options) n1 (\<lambda>p1.
     with_block env (io_task_queue options) n2 (\<lambda>p2.
     with_block env (io_identity options) n3 (\<lambda>p3.
     init_core env options [(p1, n1), (p2, n2), (p3, n3)]))))))"

end
