(* ===== verification/Bridge_Calls.thy ===== *)
theory Bridge_Calls
  imports Bridge_Requests
begin

text \<open>
  The bridge as its clients see it (\<open>internal/corebridge/bridge.go\<close>): requests served one at a time by the
  owner goroutine, the poisoning of a bridge whose module trapped, waiting for a wake-up, and the client loops
  of polls, completions, initialisation and shutdown.

  The owner serves one request after another, so an interleaving of clients is an order of served requests
  (\<open>bridge_step\<close>). A client loop is followed through its rounds; each round says what its context and the
  waiting gave and in which state the loop finds the bridge afterwards.
\<close>

section \<open>Errors of a bridge\<close>

definition bridge_shutting_down :: string where
  "bridge_shutting_down = ''temporal Core bridge is shutting down''"

definition err_bridge_shutting_down :: goerr where
  "err_bridge_shutting_down = ErrSentinel bridge_shutting_down"

definition operation_err :: "'m bridge \<Rightarrow> goerr option" where
  "operation_err b = (case br_done b of
     Some e \<Rightarrow> Some e | None \<Rightarrow> if br_closing b then Some err_bridge_shutting_down else None)"

definition closed_err :: "'m bridge \<Rightarrow> goerr" where
  "closed_err b = (case operation_err b of
     Some e \<Rightarrow> e | None \<Rightarrow> ErrNew ''temporal Core bridge is closed'')"

text \<open>\<open>cancelDone\<close>: the first cause stays.\<close>

definition cancel_done :: "goerr \<Rightarrow> 'm bridge \<Rightarrow> 'm bridge" where
  "cancel_done e b = b\<lparr>br_done := (case br_done b of None \<Rightarrow> Some e | Some e' \<Rightarrow> Some e')\<rparr>"

section \<open>Poisoning\<close>

definition new_bridge_panic_error :: "string \<Rightarrow> string \<Rightarrow> goerr" where
  "new_bridge_panic_error stack recovered =
     ErrNew (''temporal Core bridge panicked: '' @ recovered @ [CHR 0x0A] @ stack)"

definition poison :: "'m bridge_env \<Rightarrow> goerr \<Rightarrow> 'm bridge \<Rightarrow> goerr \<times> 'm bridge" where
  "poison env cause b =
     (case close_host (en_close env) (br_host b) of (close_err, h) \<Rightarrow>
        let e = (case errors_join [Some cause, close_err] of None \<Rightarrow> cause | Some j \<Rightarrow> j) in
        (e, signal_wake (cancel_done e (b\<lparr>br_closing := True, br_grpc_cancelled := True, br_host := h\<rparr>))))"

section \<open>Requests\<close>

text \<open>What clients ask the owner to run, and the values it replies.\<close>

datatype owner_request =
    AskStartPollActivity
  | AskPollActivityStep
  | AskStartPollWorkflow
  | AskPollWorkflowStep
  | AskStartCompletion completion_kind "64 word" "byte list"
  | AskTakeCompletion completion_kind "64 word"
  | AskHeartbeat "byte list"
  | AskStartInit init_options
  | AskTakeInit
  | AskStartShutdown
  | AskTakeShutdown
  | AskReleaseScratch

datatype owner_value = NoValue | StepValue "byte list" bool | ReadyValue bool

definition no_value :: "('m, unit) owner_op \<Rightarrow> ('m, owner_value) owner_op" where
  "no_value op = op_bind op (\<lambda>_. op_return NoValue)"

definition step_value :: "('m, step_result) owner_op \<Rightarrow> ('m, owner_value) owner_op" where
  "step_value op = op_bind op (\<lambda>(result, ready). op_return (StepValue result ready))"

fun owner_run :: "'m bridge_env \<Rightarrow> owner_request \<Rightarrow> ('m, owner_value) owner_op" where
  "owner_run env AskStartPollActivity = no_value (start_poll_activity env)"
| "owner_run env AskPollActivityStep = step_value (poll_activity_step env)"
| "owner_run env AskStartPollWorkflow = no_value (start_poll_workflow env)"
| "owner_run env AskPollWorkflowStep = step_value (poll_workflow_step env)"
| "owner_run env (AskStartCompletion kind id' completion) = no_value (start_completion env kind id' completion)"
| "owner_run env (AskTakeCompletion kind id') =
     op_bind (take_completion env kind id') (\<lambda>ready. op_return (ReadyValue ready))"
| "owner_run env (AskHeartbeat heartbeat) = no_value (record_activity_heartbeat env heartbeat)"
| "owner_run env (AskStartInit options) = no_value (start_init env options)"
| "owner_run env AskTakeInit = step_value (operation_step env TakeInit)"
| "owner_run env AskStartShutdown = no_value (call_for_error env StartShutdown)"
| "owner_run env AskTakeShutdown = step_value (operation_step env TakeShutdown)"
| "owner_run env AskReleaseScratch = no_value (release_scratch env)"

text \<open>The requests of a shutdown (and of a failed \<open>New\<close>) are served while the bridge is closing.\<close>

definition allow_closed :: "owner_request \<Rightarrow> bool" where
  "allow_closed req \<longleftrightarrow> req = AskStartShutdown \<or> req = AskTakeShutdown \<or> req = AskReleaseScratch"

definition run_owner_request ::
    "'m bridge_env \<Rightarrow> owner_request \<Rightarrow> 'm bridge \<Rightarrow> ((goerr + owner_value) \<times> 'm bridge) option" where
  "run_owner_request env req b = Option.bind (owner_run env req b) (\<lambda>(r, b1). case r of
     Ok v \<Rightarrow> Some (Inr v, b1)
   | Err e \<Rightarrow> Some (Inl e, b1)
   | Panic p \<Rightarrow>
       (case poison env (new_bridge_panic_error (en_stack env) p) b1 of (e, b2) \<Rightarrow> Some (Inl e, b2)))"

text \<open>\<open>ownerLoop\<close> serving a request whose context is not over.\<close>

definition owner_serve ::
    "'m bridge_env \<Rightarrow> owner_request \<Rightarrow> 'm bridge \<Rightarrow> ((goerr + owner_value) \<times> 'm bridge) option" where
  "owner_serve env req b =
     (if \<not> allow_closed req
      then (case operation_err b of
              Some e \<Rightarrow> Some (Inl e, b) | None \<Rightarrow> run_owner_request env req b)
      else (case br_done b of
              Some e \<Rightarrow>
                if err_is e bridge_shutting_down then run_owner_request env req b else Some (Inl e, b)
            | None \<Rightarrow> run_owner_request env req b))"

text \<open>
  \<open>ownerCall\<close>. Once the bridge is done, the client may find it done before the owner takes its request, or
  the owner may still take it (\<open>taken\<close>); then the owner serves it or answers that the bridge is closed
  (\<open>serves\<close>).
\<close>

definition owner_call ::
    "'m bridge_env \<Rightarrow> bool \<Rightarrow> owner_request \<Rightarrow> 'm bridge \<Rightarrow> ((goerr + owner_value) \<times> 'm bridge) option" where
  "owner_call env serves req b =
     (case (if allow_closed req then None else operation_err b) of
        Some e \<Rightarrow> Some (Inl e, b)
      | None \<Rightarrow>
          if br_done b \<noteq> None \<and> \<not> serves then Some (Inl (closed_err b), b) else owner_serve env req b)"

definition next_completion_operation_id :: "'m bridge \<Rightarrow> (goerr + 64 word) \<times> 'm bridge" where
  "next_completion_operation_id b =
     (if br_last_id b = - 1 then (Inl (ErrNew ''completion operation IDs exhausted''), b)
      else (Inr (br_last_id b + 1), b\<lparr>br_last_id := br_last_id b + 1\<rparr>))"

section \<open>Waiting\<close>

text \<open>What ended a wait: the context, a wake-up, the timer, or the end of the bridge.\<close>

datatype wait_event = ContextDone goerr | Woken | TimerFired | BridgeDone

definition wait_for_wake :: "goerr option \<Rightarrow> wait_event \<Rightarrow> bool \<Rightarrow> 'm bridge \<Rightarrow> goerr option" where
  "wait_for_wake ctx event allow b =
     (let rest = (case ctx of Some e \<Rightarrow> Some e | None \<Rightarrow> if allow then None else operation_err b) in
      case event of
        ContextDone e \<Rightarrow> Some e
      | BridgeDone \<Rightarrow>
          (case br_done b of
             Some e \<Rightarrow> if \<not> allow \<or> \<not> err_is e bridge_shutting_down then Some e else rest
           | None \<Rightarrow> rest)
      | Woken \<Rightarrow> rest
      | TimerFired \<Rightarrow> rest)"

text \<open>
  A wait on the wake channel taken in a state is over at once if the channel has been closed since.
\<close>

definition wake_ready :: "'m bridge \<Rightarrow> 'm bridge \<Rightarrow> bool" where
  "wake_ready taken now \<longleftrightarrow> br_wakes taken < br_wakes now"

text \<open>
  One round of a client loop: the context's error before it, what the owner does if the bridge is done, what
  ends the wait after it, the context's error then, and the state found then.
\<close>

record 'm round =
  rd_ctx :: "goerr option"
  rd_serves :: bool
  rd_event :: wait_event
  rd_ctx_after :: "goerr option"
  rd_found :: "'m bridge"

definition ready_result :: "owner_value \<Rightarrow> byte list option" where
  "ready_result v = (case v of
     NoValue \<Rightarrow> None | StepValue result ready \<Rightarrow> if ready then Some result else None
   | ReadyValue ready \<Rightarrow> if ready then Some [] else None)"

text \<open>
  The loop of \<open>PollActivity\<close>, \<open>PollWorkflow\<close>, \<open>drive\<close> and \<open>driveCompletion\<close>, which repeats a request until
  it is over; it is still running if it needs more rounds than given.
\<close>

fun client_rounds ::
    "'m bridge_env \<Rightarrow> owner_request \<Rightarrow> 'm round list \<Rightarrow> 'm bridge \<Rightarrow> ((goerr + byte list) \<times> 'm bridge) option" where
  "client_rounds env req [] b = None"
| "client_rounds env req (rd # rds) b =
     (case (case rd_ctx rd of Some e \<Rightarrow> Some e | None \<Rightarrow> if allow_closed req then None else operation_err b) of
        Some e \<Rightarrow> Some (Inl e, b)
      | None \<Rightarrow> Option.bind (owner_call env (rd_serves rd) req b) (\<lambda>(r, b1). case r of
          Inl e \<Rightarrow> Some (Inl e, b1)
        | Inr v \<Rightarrow>
            (case ready_result v of
               Some result \<Rightarrow> Some (Inr result, b1)
             | None \<Rightarrow>
                 (case wait_for_wake (rd_ctx_after rd) (rd_event rd) (allow_closed req) (rd_found rd) of
                    Some e \<Rightarrow> Some (Inl e, rd_found rd)
                  | None \<Rightarrow> client_rounds env req rds (rd_found rd)))))"

section \<open>Clients\<close>

text \<open>A start request, then the rounds of a step.\<close>

definition start_and_drive ::
    "'m bridge_env \<Rightarrow> bool \<Rightarrow> owner_request \<Rightarrow> owner_request \<Rightarrow> 'm round list \<Rightarrow> 'm bridge \<Rightarrow>
     ((goerr + byte list) \<times> 'm bridge) option" where
  "start_and_drive env serves start step rds b =
     Option.bind (owner_call env serves start b) (\<lambda>(r, b1). case r of
       Inl e \<Rightarrow> Some (Inl e, b1) | Inr v \<Rightarrow> client_rounds env step rds b1)"

definition poll_activity ::
    "'m bridge_env \<Rightarrow> bool \<Rightarrow> 'm round list \<Rightarrow> 'm bridge \<Rightarrow> ((goerr + byte list) \<times> 'm bridge) option" where
  "poll_activity env serves rds b = start_and_drive env serves AskStartPollActivity AskPollActivityStep rds b"

definition poll_workflow ::
    "'m bridge_env \<Rightarrow> bool \<Rightarrow> 'm round list \<Rightarrow> 'm bridge \<Rightarrow> ((goerr + byte list) \<times> 'm bridge) option" where
  "poll_workflow env serves rds b = start_and_drive env serves AskStartPollWorkflow AskPollWorkflowStep rds b"

definition complete_with_driver ::
    "'m bridge_env \<Rightarrow> completion_kind \<Rightarrow> byte list \<Rightarrow> bool \<Rightarrow> 'm round list \<Rightarrow> 'm bridge \<Rightarrow>
     ((goerr + byte list) \<times> 'm bridge) option" where
  "complete_with_driver env kind completion serves rds b =
     (case next_completion_operation_id b of
        (Inl e, b1) \<Rightarrow> Some (Inl e, b1)
      | (Inr id', b1) \<Rightarrow>
          start_and_drive env serves (AskStartCompletion kind id' completion) (AskTakeCompletion kind id') rds b1)"

definition bridge_record_heartbeat ::
    "'m bridge_env \<Rightarrow> bool \<Rightarrow> byte list \<Rightarrow> 'm bridge \<Rightarrow> ((goerr + owner_value) \<times> 'm bridge) option" where
  "bridge_record_heartbeat env serves heartbeat b = owner_call env serves (AskHeartbeat heartbeat) b"

section \<open>Shutdown\<close>

definition error_of :: "goerr + 'a \<Rightarrow> goerr option" where
  "error_of r = (case r of Inl e \<Rightarrow> Some e | Inr v \<Rightarrow> None)"

text \<open>The request to release the buffers is made only while the bridge is not done.\<close>

definition release_if_alive ::
    "'m bridge_env \<Rightarrow> bool \<Rightarrow> 'm bridge \<Rightarrow> (goerr option \<times> 'm bridge) option" where
  "release_if_alive env serves b =
     (if br_done b \<noteq> None then Some (None, b)
      else map_option (\<lambda>(r, b1). (error_of r, b1)) (owner_call env serves AskReleaseScratch b))"

definition begin_shutdown :: "'m bridge \<Rightarrow> 'm bridge" where
  "begin_shutdown b = signal_wake (b\<lparr>br_closing := True, br_grpc_cancelled := True\<rparr>)"

text \<open>The end of \<open>shutdown\<close>: close the host, join the errors, and be done.\<close>

definition finish_shutdown ::
    "'m bridge_env \<Rightarrow> goerr option \<Rightarrow> goerr option \<Rightarrow> 'm bridge \<Rightarrow> goerr option \<times> 'm bridge" where
  "finish_shutdown env err release_err b =
     (case close_host (en_close env) (br_host b) of (close_err, h) \<Rightarrow>
        let result = errors_join [err, release_err, close_err];
            cause = (case result of None \<Rightarrow> err_bridge_shutting_down | Some e \<Rightarrow> e)
        in (result, signal_wake (cancel_done cause (b\<lparr>br_host := h\<rparr>))))"

definition shutdown ::
    "'m bridge_env \<Rightarrow> bool \<Rightarrow> 'm round list \<Rightarrow> 'm bridge \<Rightarrow> (goerr option \<times> 'm bridge) option" where
  "shutdown env serves rds b =
     Option.bind (start_and_drive env serves AskStartShutdown AskTakeShutdown rds (begin_shutdown b)) (\<lambda>(r, b1).
     Option.bind (release_if_alive env serves b1) (\<lambda>(release_err, b2).
     Some (finish_shutdown env (error_of r) release_err b2)))"

text \<open>\<open>Shutdown\<close>: \<open>once\<close> is the result of the call that did the work.\<close>

definition shutdown_once ::
    "'m bridge_env \<Rightarrow> bool \<Rightarrow> 'm round list \<Rightarrow> goerr option option \<times> 'm bridge \<Rightarrow>
     (goerr option \<times> goerr option option \<times> 'm bridge) option" where
  "shutdown_once env serves rds s = (case s of
     (Some r, b) \<Rightarrow> Some (r, Some r, b)
   | (None, b) \<Rightarrow> map_option (\<lambda>(r, b1). (r, Some r, b1)) (shutdown env serves rds b))"

section \<open>Construction\<close>

definition initial_bridge :: "'m \<Rightarrow> grpc_host \<Rightarrow> nat list list \<Rightarrow> 'm bridge" where
  "initial_bridge m h arrivals =
     \<lparr>br_module = m, br_activity_poll = False, br_workflow_poll = False, br_in_flight = 0,
      br_output = no_buffer, br_error = no_buffer, br_outstanding = [], br_responses = [],
      br_arrivals = arrivals, br_host = h, br_done = None, br_grpc_cancelled = False, br_closing = False,
      br_wakes = 0, br_last_id = 0, br_blocks = {#}, br_stray = 0\<rparr>"

text \<open>The end of a failed \<open>newBridge\<close>.\<close>

definition abandon_bridge ::
    "'m bridge_env \<Rightarrow> bool \<Rightarrow> goerr \<Rightarrow> 'm bridge \<Rightarrow> (goerr \<times> 'm bridge) option" where
  "abandon_bridge env serves err b =
     Option.bind (if br_done b \<noteq> None then Some (err, b)
       else map_option (\<lambda>(release_err, b1).
         (case errors_join [Some err, release_err] of None \<Rightarrow> err | Some j \<Rightarrow> j, b1))
         (release_if_alive env serves b)) (\<lambda>(e, b1).
     let b2 = signal_wake (cancel_done e b1) in
     Some (e, b2\<lparr>br_host := snd (close_host (en_close env) (br_host b2))\<rparr>))"

text \<open>
  \<open>newBridge\<close>, given what \<open>NewRawGRPCHostWithOptions\<close> answers and the state of a new module: an error,
  with the bridge if one was made, or the bridge.
\<close>

definition new_bridge ::
    "'m bridge_env \<Rightarrow> goerr + grpc_host \<Rightarrow> 'm \<Rightarrow> nat list list \<Rightarrow> init_options \<Rightarrow> bool \<Rightarrow> 'm round list \<Rightarrow>
     (goerr option \<times> 'm bridge option) option" where
  "new_bridge env host m arrivals options serves rds =
     (case host of
        Inl e \<Rightarrow> Some (Some e, None)
      | Inr h \<Rightarrow>
          Option.bind (start_and_drive env serves (AskStartInit options) AskTakeInit rds
            (initial_bridge m h arrivals)) (\<lambda>(r, b).
          (case r of
             Inr v \<Rightarrow> Some (None, Some b)
           | Inl e \<Rightarrow> map_option (\<lambda>(e', b'). (Some e', Some b')) (abandon_bridge env serves e b))))"

text \<open>The options of the three kinds of worker (\<open>NewWithConnectionOptions\<close>, \<open>NewWorkflow\<close>, \<open>NewCombined\<close>).\<close>

definition no_workflow_options :: bridge_workflow_options where
  "no_workflow_options =
     \<lparr>bw_max_tasks = 0, bw_max_pollers = 0, bw_max_cached = 0, bw_max_eager = 0, bw_heartbeat_millis = 0\<rparr>"

definition activity_init ::
    "byte list \<Rightarrow> byte list \<Rightarrow> byte list \<Rightarrow> 32 word \<Rightarrow> 32 word \<Rightarrow> init_options" where
  "activity_init namespace queue identity activities pollers =
     \<lparr>io_namespace = namespace, io_task_queue = queue, io_identity = identity, io_max_activities = activities,
      io_max_activity_pollers = pollers, io_workflow = no_workflow_options, io_mode = worker_mode_activity\<rparr>"

definition workflow_init ::
    "byte list \<Rightarrow> byte list \<Rightarrow> byte list \<Rightarrow> bridge_workflow_options \<Rightarrow> init_options" where
  "workflow_init namespace queue identity options =
     \<lparr>io_namespace = namespace, io_task_queue = queue, io_identity = identity, io_max_activities = 0,
      io_max_activity_pollers = 0, io_workflow = options, io_mode = worker_mode_workflow\<rparr>"

definition combined_init ::
    "byte list \<Rightarrow> byte list \<Rightarrow> byte list \<Rightarrow> 32 word \<Rightarrow> 32 word \<Rightarrow> bridge_workflow_options \<Rightarrow> init_options" where
  "combined_init namespace queue identity activities pollers options =
     \<lparr>io_namespace = namespace, io_task_queue = queue, io_identity = identity, io_max_activities = activities,
      io_max_activity_pollers = pollers, io_workflow = options, io_mode = worker_mode_combined\<rparr>"

section \<open>Hooks\<close>

text \<open>
  The number of activities \<open>recordEagerActivityDispatch\<close> reports, if it reports any: \<open>tasks\<close> is what
  unmarshalling the response gives, \<open>timing\<close> and \<open>hook\<close> say which hooks are installed.
\<close>

definition eager_dispatch_report ::
    "bool \<Rightarrow> bool \<Rightarrow> (byte list \<Rightarrow> nat option) \<Rightarrow> grpc_request \<Rightarrow> grpc_response \<Rightarrow> nat option" where
  "eager_dispatch_report timing hook tasks q r =
     (if \<not> timing \<and> \<not> hook then None
      else if gq_service q \<noteq> ''temporal.api.workflowservice.v1.WorkflowService'' \<or>
        gq_rpc q \<noteq> ''RespondWorkflowTaskCompleted'' \<or> gr_code r \<noteq> code_ok \<or> gr_proto r = []
      then None
      else tasks (gr_proto r))"

section \<open>All interleavings\<close>

text \<open>
  The steps of a bridge with its clients: the owner serves a request; a call delivers its response; a client
  takes an identifier; a shutdown begins, and ends; the scheduler decides.
\<close>

inductive bridge_step :: "'m bridge_env \<Rightarrow> 'm bridge \<Rightarrow> 'm bridge \<Rightarrow> bool" for env where
  serve: "owner_call env serves req b = Some (r, b') \<Longrightarrow> bridge_step env b b'"
| deliver: "bridge_step env b (deliver_response env i b)"
| take_id: "bridge_step env b (snd (next_completion_operation_id b))"
| begins: "bridge_step env b (begin_shutdown b)"
| finishes: "bridge_step env b (snd (finish_shutdown env err release_err b))"
| schedule: "bridge_step env b (b\<lparr>br_arrivals := arrivals\<rparr>)"

inductive bridge_reachable :: "'m bridge_env \<Rightarrow> 'm bridge \<Rightarrow> bool" for env where
  start: "bridge_reachable env (initial_bridge m h arrivals)"
| step: "bridge_reachable env b \<Longrightarrow> bridge_step env b b' \<Longrightarrow> bridge_reachable env b'"

end
