(* ===== verification/Bridge_Frames.thy ===== *)
theory Bridge_Frames
  imports Bridge_Calls
begin

text \<open>
  What the owner's operations leave alone (\<open>internal/corebridge/bridge.go\<close>): a view of the bridge that does
  not depend on the module and the buffers is kept by every operation but those on the calls in flight, one that
  does not depend on the calls by every request. Each kind of view is a locale, interpreted on the
  calls, on what is still to come, and on how the bridge ended.
\<close>

lemma op_bind_Some:
  "op_bind m f b = Some (r, b') \<longleftrightarrow>
     (\<exists>a b1. m b = Some (Ok a, b1) \<and> f a b1 = Some (r, b')) \<or>
     (\<exists>e. m b = Some (Err e, b') \<and> r = Err e) \<or> (\<exists>p. m b = Some (Panic p, b') \<and> r = Panic p)"
  unfolding op_bind_def bind_eq_Some_conv by (auto split: gores.splits) (metis gores.exhaust)

section \<open>Operations that leave a view of the bridge alone\<close>

definition quiet :: "('m bridge \<Rightarrow> 'v) \<Rightarrow> ('m, 'a) owner_op \<Rightarrow> bool" where
  "quiet view op \<longleftrightarrow> (\<forall>b r b'. op b = Some (r, b') \<longrightarrow> view b' = view b)"

lemma quietI: "(\<And>b r b'. op b = Some (r, b') \<Longrightarrow> view b' = view b) \<Longrightarrow> quiet view op"
  by (simp add: quiet_def)

lemma quietD: "quiet view op \<Longrightarrow> op b = Some (r, b') \<Longrightarrow> view b' = view b"
  by (simp add: quiet_def)

lemma quiet_bind: "quiet view m \<Longrightarrow> (\<And>a. quiet view (f a)) \<Longrightarrow> quiet view (op_bind m f)"
  by (rule quietI) (auto simp: op_bind_Some; metis quietD)

lemma quiet_defer: "quiet view d \<Longrightarrow> quiet view m \<Longrightarrow> quiet view (op_defer d m)"
proof (rule quietI)
  fix b r b'
  assume q: "quiet view d" "quiet view m" and run: "op_defer d m b = Some (r, b')"
  from run obtain r1 b1 where m: "m b = Some (r1, b1)" by (cases "m b") (auto simp: op_defer_def)
  with run obtain rd b2 where d: "d b1 = Some (rd, b2)" by (cases "d b1") (auto simp: op_defer_def)
  from run m d have "b2 = b'" by (cases rd) (simp_all add: op_defer_def)
  with q m d show "view b' = view b" by (metis quietD)
qed

lemma quiet_return: "quiet view (op_return a)"
  and quiet_fail: "quiet view (op_fail e)"
  and quiet_lift: "quiet view (op_lift r)"
  and quiet_get: "quiet view (op_get f)"
  and quiet_unpack: "quiet view (op_unpack env w buf)"
  by (rule quietI,
      auto simp: op_return_def op_fail_def op_lift_def op_get_def op_unpack_def split: sum.splits)+

lemma quiet_modify: "(\<And>b. view (f b) = view b) \<Longrightarrow> quiet view (op_modify f)"
  by (rule quietI) (auto simp: op_modify_def)

lemma quiet_if: "quiet view f \<Longrightarrow> quiet view g \<Longrightarrow> quiet view (if c then f else g)"
  by simp

lemmas quiet_rules = quiet_bind quiet_defer quiet_return quiet_fail quiet_lift quiet_get quiet_unpack quiet_modify
  quiet_if

lemma quiet_require_success: "quiet view (require_success env w buf)"
  unfolding require_success_def by (intro quiet_bind quiet_unpack) (auto intro!: quiet_rules split: prod.split)

text \<open>A loop is quiet if its body is: the step of the induction.\<close>

lemma quiet_round:
  assumes "quiet view once" and "Option.bind (once b) k = Some y"
    and "\<And>r b1. k (r, b1) = Some y \<Longrightarrow> view (snd y) = view b1"
  shows "view (snd y) = view b"
  using assms quietD by (fastforce simp: bind_eq_Some_conv)

text \<open>A view that does not depend on the module and the buffers.\<close>

locale observation =
  fixes view :: "'m bridge \<Rightarrow> 'v"
  assumes view_module: "view (b\<lparr>br_module := m\<rparr>) = view b"
    and view_blocks: "view (b\<lparr>br_blocks := bs\<rparr>) = view b"
    and view_stray: "view (b\<lparr>br_stray := n\<rparr>) = view b"
    and view_output: "view (b\<lparr>br_output := buf\<rparr>) = view b"
    and view_error: "view (b\<lparr>br_error := buf\<rparr>) = view b"
begin

lemmas view_buffers [simp] = view_module view_blocks view_stray view_output view_error

lemma quiet_alloc: "quiet view (core_alloc env len)"
  and quiet_dealloc: "quiet view (core_dealloc env ptr len)"
  and quiet_export: "quiet view (core_export env call buf)"
  and quiet_copy: "quiet view (copy_into env ptr bytes)"
  by (rule quietI, auto simp: core_alloc_def core_dealloc_def core_export_def copy_into_def Let_def
      split: sum.splits prod.splits option.splits if_splits)+

lemma quiet_resize: "quiet view (resize_output_scratch env capacity)"
  unfolding resize_output_scratch_def by (intro quiet_rules quiet_alloc quiet_dealloc) simp

lemma quiet_ensure_output: "quiet view (ensure_output_scratch env n)"
  unfolding ensure_output_scratch_def Let_def by (intro quiet_rules quiet_resize)

lemma quiet_grow: "quiet view (grow_output_scratch env n)"
  unfolding grow_output_scratch_def by (intro quiet_rules quiet_resize)

lemma quiet_ensure_error: "quiet view (ensure_error_scratch env)"
  unfolding ensure_error_scratch_def Let_def by (intro quiet_rules quiet_alloc) simp

lemma quiet_release: "quiet view (release_scratch env)"
  unfolding release_scratch_def release_output_def release_error_def
  by (intro quiet_rules quiet_dealloc) simp_all

lemma quiet_take_once: "quiet view (take_once env call)"
  unfolding take_once_def
  by (intro quiet_rules quiet_export) (auto intro!: quiet_rules quiet_grow split: prod.split)

lemma quiet_take_loop: "quiet view (take_loop env call)"
proof -
  have "view (snd y) = view b" if "take_loop env call b = Some y" for y b
  proof (rule take_loop.raw_induct [OF _ that, where P = "\<lambda>env call b y. view (snd y) = view b"], goal_cases)
    case (1 loop env call b y)
    show ?case
      by (rule quiet_round [OF quiet_take_once 1(2)]) (use 1(1) in \<open>auto split: gores.splits option.splits\<close>)
  qed
  then show ?thesis by (intro quietI) fastforce
qed

lemma quiet_take_with_retry: "quiet view (take_with_retry env call)"
  unfolding take_with_retry_def by (intro quiet_rules quiet_ensure_output quiet_take_loop)

lemma quiet_copy_in: "quiet view (copy_in env bytes)"
  unfolding copy_in_def by (intro quiet_rules quiet_alloc quiet_copy)

lemma quiet_export_and_check:
  "quiet view (op_bind (core_export env call buf) (\<lambda>w.
     op_bind (require_success env w buf) (\<lambda>_. op_return ())))"
  by (intro quiet_rules quiet_export quiet_require_success)

lemma quiet_with_input: "quiet view (with_input env what bytes call)"
  unfolding with_input_def
  by (auto intro!: quiet_fail quiet_bind [OF quiet_copy_in] quiet_defer quiet_dealloc
      quiet_bind [OF quiet_ensure_error] quiet_export_and_check split: sum.split)

lemma quiet_call_for_error: "quiet view (call_for_error env call)"
  unfolding call_for_error_def by (intro quiet_bind quiet_ensure_error quiet_export_and_check)

lemma quiet_init: "quiet view (start_init env options)"
  unfolding start_init_def with_block_def init_core_def
  by (intro quiet_rules quiet_copy_in quiet_dealloc quiet_ensure_error quiet_export quiet_require_success)

lemma quiet_take_grpc_request: "quiet view (take_grpc_request env)"
  unfolding take_grpc_request_def
  by (intro quiet_bind quiet_take_with_retry) (auto intro!: quiet_rules split: prod.split)

lemma quiet_drain_and_take: "quiet view (drain_and_take env call)"
  unfolding drain_and_take_def
  by (intro quiet_rules quiet_export quiet_require_success quiet_take_with_retry)

end

text \<open>The calls in flight and their responses are such a view.\<close>

definition calls_of :: "'m bridge \<Rightarrow> nat \<times> core_request list \<times> core_response list \<times> nat list list" where
  "calls_of b = (br_in_flight b, br_outstanding b, br_responses b, br_arrivals b)"

interpretation calls: observation "calls_of :: 'm bridge \<Rightarrow> nat \<times> core_request list \<times> core_response list \<times> nat list list"
  by unfold_locales (simp_all add: calls_of_def)

text \<open>A view that does not depend on the calls made either.\<close>

locale callers = observation view for view :: "'m bridge \<Rightarrow> 'v" +
  assumes view_in_flight [simp]: "view (b\<lparr>br_in_flight := n\<rparr>) = view b"
    and view_outstanding [simp]: "view (b\<lparr>br_outstanding := qs\<rparr>) = view b"
begin

lemma quiet_start_request: "quiet view (start_request env)"
  unfolding start_request_def
  by (intro quiet_bind quiet_get)
    (auto intro!: quiet_rules quiet_take_grpc_request
      split: option.split)

lemma quiet_start_loop: "quiet view (start_loop env)"
proof -
  have "view (snd y) = view b" if "start_loop env b = Some y" for y b
  proof (rule start_loop.raw_induct [OF _ that, where P = "\<lambda>env b y. view (snd y) = view b"], goal_cases)
    case (1 loop env b y)
    show ?case
      by (rule quiet_round [OF quiet_start_request 1(2)]) (use 1(1) in \<open>auto split: gores.splits if_splits\<close>)
  qed
  then show ?thesis by (intro quietI) fastforce
qed

end

text \<open>A view that does not depend on their responses either.\<close>

locale steady = callers view for view :: "'m bridge \<Rightarrow> 'v" +
  assumes view_responses: "view (b\<lparr>br_responses := rs\<rparr>) = view b"
    and view_arrivals: "view (b\<lparr>br_arrivals := xs\<rparr>) = view b"
    and view_wakes: "view (b\<lparr>br_wakes := w\<rparr>) = view b"
    and view_activity_poll: "view (b\<lparr>br_activity_poll := p\<rparr>) = view b"
    and view_workflow_poll: "view (b\<lparr>br_workflow_poll := p\<rparr>) = view b"
begin

lemmas view_calls [simp] = view_responses view_arrivals view_wakes
  view_activity_poll view_workflow_poll

lemma view_deliver: "view (deliver_response env i b) = view b"
  by (simp add: deliver_response_def signal_wake_def)

lemma view_arrive: "view (arrive env b) = view b"
proof -
  have "view (fold (deliver_response env) js b) = view b" for js b
    by (induction js arbitrary: b) (simp_all add: view_deliver)
  then show ?thesis by (simp add: arrive_def split: list.split)
qed

lemma quiet_receive_response: "quiet view (receive_response env)"
  unfolding receive_response_def complete_grpc_request_def
  by (intro quiet_bind quiet_modify quiet_get view_arrive)
    (auto intro!: quiet_rules quiet_with_input split: list.split)

lemma quiet_receive_loop: "quiet view (receive_loop env progressed)"
proof -
  have "view (snd y) = view b" if "receive_loop env progressed b = Some y" for progressed y b
  proof (rule receive_loop.raw_induct [OF _ that, where P = "\<lambda>env progressed b y. view (snd y) = view b"], goal_cases)
    case (1 loop env progressed b y)
    show ?case
      by (rule quiet_round [OF quiet_receive_response 1(2)]) (use 1(1) in \<open>auto split: gores.splits if_splits\<close>)
  qed
  then show ?thesis by (intro quietI) fastforce
qed

lemma quiet_drive_once: "quiet view (drive_once env call)"
  unfolding drive_once_def pump_grpc_def
  by (intro quiet_bind quiet_drain_and_take)
    (auto intro!: quiet_rules quiet_receive_loop quiet_start_loop split: prod.split)

lemma quiet_drive: "quiet view (drive_operation_step env call)"
proof -
  have "view (snd y) = view b" if "drive_operation_step env call b = Some y" for y b
  proof (rule drive_operation_step.raw_induct [OF _ that, where P = "\<lambda>env call b y. view (snd y) = view b"], goal_cases)
    case (1 loop env call b y)
    show ?case
      by (rule quiet_round [OF quiet_drive_once 1(2)]) (use 1(1) in \<open>auto split: gores.splits option.splits\<close>)
  qed
  then show ?thesis by (intro quietI) fastforce
qed

lemma quiet_operation_step: "quiet view (operation_step env call)"
  unfolding operation_step_def by (intro quiet_bind quiet_ensure_output quiet_drive)

lemma quiet_poll_steps: "quiet view (poll_activity_step env)" "quiet view (poll_workflow_step env)"
  by (rule quietI; auto simp: poll_activity_step_def poll_workflow_step_def op_fail_def bind_eq_Some_conv
      dest: quietD [OF quiet_operation_step] split: if_splits)+

lemma quiet_owner_run: "quiet view (owner_run env req)"
  by (cases req) (auto simp: no_value_def step_value_def start_poll_activity_def start_poll_workflow_def
      start_completion_def record_activity_heartbeat_def take_completion_def
      intro!: quiet_rules quiet_call_for_error quiet_poll_steps quiet_with_input quiet_operation_step quiet_init
        quiet_release split: prod.split)

end

text \<open>What is still to come.\<close>

definition incoming :: "'m bridge \<Rightarrow> core_response list \<times> nat list list" where
  "incoming b = (br_responses b, br_arrivals b)"

interpretation incoming: callers "incoming :: 'm bridge \<Rightarrow> core_response list \<times> nat list list"
  by unfold_locales (simp_all add: incoming_def)

interpretation ended: steady "br_done :: 'm bridge \<Rightarrow> goerr option"
  by unfold_locales simp_all

interpretation closing: steady "br_closing :: 'm bridge \<Rightarrow> bool"
  by unfold_locales simp_all

end
