(* ===== verification/Bridge_Laws.thy ===== *)
theory Bridge_Laws
  imports Bridge_Frames
begin

text \<open>
  What every operation of the owner keeps: the blocks of the module's memory it holds are its two scratch
  buffers, whose sizes are bounded, and the calls in flight are counted. Stated as triples of a precondition, an
  operation and its postconditions for a value and an error; a panic poisons the bridge and promises nothing.
\<close>

section \<open>Triples\<close>

definition op_ok ::
    "('m bridge \<Rightarrow> bool) \<Rightarrow> ('m, 'a) owner_op \<Rightarrow> ('a \<Rightarrow> 'm bridge \<Rightarrow> bool) \<Rightarrow> ('m bridge \<Rightarrow> bool) \<Rightarrow> bool" where
  "op_ok P op Q E \<longleftrightarrow> (\<forall>b r b'. P b \<longrightarrow> op b = Some (r, b') \<longrightarrow>
     (case r of Ok a \<Rightarrow> Q a b' | Err e \<Rightarrow> E b' | Panic p \<Rightarrow> True))"

lemma op_okI:
  assumes "\<And>b a b'. P b \<Longrightarrow> op b = Some (Ok a, b') \<Longrightarrow> Q a b'"
    and "\<And>b e b'. P b \<Longrightarrow> op b = Some (Err e, b') \<Longrightarrow> E b'"
  shows "op_ok P op Q E"
  unfolding op_ok_def using assms by (auto split: gores.split)

lemma op_okD:
  assumes "op_ok P op Q E" and "P b"
  shows "op b = Some (Ok a, b') \<Longrightarrow> Q a b'" and "op b = Some (Err e, b') \<Longrightarrow> E b'"
  using assms unfolding op_ok_def by (auto split: gores.splits)

lemma op_ok_weaken:
  assumes "op_ok P op Q E" and "\<And>b. P' b \<Longrightarrow> P b" and "\<And>a b. Q a b \<Longrightarrow> Q' a b" and "\<And>b. E b \<Longrightarrow> E' b"
  shows "op_ok P' op Q' E'"
  by (rule op_okI) (use assms op_okD(1) in \<open>metis\<close>, use assms op_okD(2) in \<open>metis\<close>)

lemma op_ok_return: "(\<And>b. P b \<Longrightarrow> Q a b) \<Longrightarrow> op_ok P (op_return a) Q E"
  by (rule op_okI) (auto simp: op_return_def)

lemma op_ok_fail: "(\<And>b. P b \<Longrightarrow> E b) \<Longrightarrow> op_ok P (op_fail e) Q E"
  by (rule op_okI) (auto simp: op_fail_def)

lemma op_ok_lift:
  "(\<And>a b. r = Inr a \<Longrightarrow> P b \<Longrightarrow> Q a b) \<Longrightarrow> (\<And>b. P b \<Longrightarrow> E b) \<Longrightarrow> op_ok P (op_lift r) Q E"
  by (rule op_okI) (auto simp: op_lift_def op_return_def op_fail_def split: sum.splits)

lemma op_ok_get: "(\<And>b. P b \<Longrightarrow> Q (f b) b) \<Longrightarrow> op_ok P (op_get f) Q E"
  by (rule op_okI) (auto simp: op_get_def)

lemma op_ok_modify: "(\<And>b. P b \<Longrightarrow> Q () (f b)) \<Longrightarrow> op_ok P (op_modify f) Q E"
  by (rule op_okI) (auto simp: op_modify_def)

lemma op_ok_bind:
  assumes "op_ok P m Q E" and "\<And>a. op_ok (Q a) (f a) R E"
  shows "op_ok P (op_bind m f) R E"
proof (rule op_okI)
  fix b a b'
  assume "P b" "op_bind m f b = Some (Ok a, b')"
  then obtain x b1 where "m b = Some (Ok x, b1)" "f x b1 = Some (Ok a, b')"
    unfolding op_bind_Some by auto
  with op_okD(1) [OF assms(1) \<open>P b\<close>] op_okD(1) [OF assms(2)] show "R a b'" by blast
next
  fix b e b'
  assume P: "P b" "op_bind m f b = Some (Err e, b')"
  then consider x b1 where "m b = Some (Ok x, b1)" "f x b1 = Some (Err e, b')" | "m b = Some (Err e, b')"
    unfolding op_bind_Some by auto
  then show "E b'"
    by cases (use op_okD [OF assms(1) P(1)] op_okD(2) [OF assms(2)] in \<open>blast\<close>)+
qed

lemma op_defer_Some:
  "op_defer d m b = Some (r, b') \<Longrightarrow>
     (\<exists>p. r = Panic p) \<or> (\<exists>b1 rd. m b = Some (r, b1) \<and> d b1 = Some (rd, b') \<and> (\<forall>p. rd \<noteq> Panic p))"
  by (cases "m b"; cases "d (snd (the (m b)))")
    (auto simp: op_defer_def split: gores.splits prod.splits)

lemma op_ok_defer:
  assumes "op_ok P m Q E" and "\<And>a. op_ok (Q a) d (\<lambda>_. Q' a) (Q' a)" and "op_ok E d (\<lambda>_. E') E'"
  shows "op_ok P (op_defer d m) Q' E'"
proof (rule op_okI)
  fix b a b'
  assume "P b" "op_defer d m b = Some (Ok a, b')"
  from op_defer_Some [OF this(2)] obtain b1 rd where
    "m b = Some (Ok a, b1)" "d b1 = Some (rd, b')" "\<forall>p. rd \<noteq> Panic p" by auto
  with op_okD(1) [OF assms(1) \<open>P b\<close>] op_okD [OF assms(2)] show "Q' a b'"
    by (cases rd) blast+
next
  fix b e b'
  assume "P b" "op_defer d m b = Some (Err e, b')"
  from op_defer_Some [OF this(2)] obtain b1 rd where
    "m b = Some (Err e, b1)" "d b1 = Some (rd, b')" "\<forall>p. rd \<noteq> Panic p" by auto
  with op_okD(2) [OF assms(1) \<open>P b\<close>] op_okD [OF assms(3)] show "E' b'"
    by (cases rd) blast+
qed

lemma op_ok_if:
  "(c \<Longrightarrow> op_ok P f Q E) \<Longrightarrow> (\<not> c \<Longrightarrow> op_ok P g Q E) \<Longrightarrow> op_ok P (if c then f else g) Q E"
  by simp

lemma op_ok_pure: "(c \<Longrightarrow> op_ok P f Q E) \<Longrightarrow> op_ok (\<lambda>b. c \<and> P b) f Q E"
  unfolding op_ok_def by auto

section \<open>What the owner holds\<close>

definition blocks_of :: "bridge_buffer \<Rightarrow> (32 word \<times> 32 word) multiset" where
  "blocks_of buf = (if bb_capacity buf = 0 then {#} else {#(bb_ptr buf, bb_capacity buf)#})"

definition output_size :: "32 word \<Rightarrow> bool" where
  "output_size capacity \<longleftrightarrow> capacity = 0 \<or> initial_output_capacity \<le> capacity \<and> capacity \<le> max_bridge_message_size"

definition held :: "(32 word \<times> 32 word) multiset \<Rightarrow> 'm bridge \<Rightarrow> bool" where
  "held X b \<longleftrightarrow>
     br_blocks b = X + blocks_of (br_output b) + blocks_of (br_error b) \<and> br_stray b = 0 \<and>
     output_size (bb_capacity (br_output b)) \<and> bb_capacity (br_error b) \<in> {0, error_scratch_capacity}"

definition counted :: "'m bridge \<Rightarrow> bool" where
  "counted b \<longleftrightarrow>
     br_in_flight b \<le> max_concurrent_grpc_calls \<and>
     length (br_outstanding b) + length (br_responses b) \<le> br_in_flight b \<and>
     length (br_responses b) \<le> response_channel_size"

definition sound :: "(32 word \<times> 32 word) multiset \<Rightarrow> 'm bridge \<Rightarrow> bool" where
  "sound X b \<longleftrightarrow> held X b \<and> counted b"

lemma no_buffer_simps [simp]: "bb_ptr no_buffer = 0" "bb_capacity no_buffer = 0" "blocks_of no_buffer = {#}"
  by (simp_all add: no_buffer_def blocks_of_def)

lemma sound_module [simp]: "sound X (b\<lparr>br_module := m\<rparr>) = sound X b"
  by (simp add: sound_def held_def counted_def)

lemma sound_activity_poll [simp]: "sound X (b\<lparr>br_activity_poll := p\<rparr>) = sound X b"
  by (simp add: sound_def held_def counted_def)

lemma sound_workflow_poll [simp]: "sound X (b\<lparr>br_workflow_poll := p\<rparr>) = sound X b"
  by (simp add: sound_def held_def counted_def)

lemma sound_signal_wake [simp]: "sound X (signal_wake b) = sound X b"
  by (simp add: sound_def held_def counted_def signal_wake_def)

lemma core_alloc_ok: "op_ok (sound X) (core_alloc env len) (\<lambda>ptr. sound (add_mset (ptr, len) X)) E"
  by (rule op_okI) (auto simp: core_alloc_def sound_def held_def counted_def split: prod.splits sum.splits)

lemma core_dealloc_ok:
  "op_ok (sound (add_mset (ptr, len) X)) (core_dealloc env ptr len) (\<lambda>_. sound X) E"
  by (rule op_okI)
    (auto simp: core_dealloc_def sound_def held_def counted_def split: prod.splits option.splits)

lemma core_export_ok: "op_ok (sound X) (core_export env call buf) (\<lambda>_. sound X) E"
  by (rule op_okI) (auto simp: core_export_def split: prod.splits sum.splits)

lemma copy_into_ok: "op_ok (sound X) (copy_into env ptr bytes) (\<lambda>_. sound X) E"
  by (rule op_okI) (auto simp: copy_into_def Let_def split: if_splits)

lemma checked_len_Inr: "checked_bridge_input_len n = Inr len \<Longrightarrow> len = of_nat n \<and> n \<le> unat max_bridge_message_size"
  by (auto simp: checked_bridge_input_len_def split: if_splits)

lemma copy_in_ok:
  assumes "checked_bridge_input_len (length bytes) = Inr len"
  shows "op_ok (sound X) (copy_in env bytes) (\<lambda>ptr. sound (add_mset (ptr, len) X)) E"
  unfolding copy_in_def assms op_lift_def sum.case
  by (rule op_ok_bind [OF op_ok_return [where Q = "\<lambda>a b. a = len \<and> sound X b"]], simp, rule op_ok_pure, simp)
    (rule op_ok_bind [OF core_alloc_ok op_ok_bind [OF copy_into_ok op_ok_return]])

lemma op_unpack_ok: "op_ok (sound X) (op_unpack env w buf) (\<lambda>_. sound X) (sound X)"
  by (rule op_okI) (auto simp: op_unpack_def op_lift_def op_return_def op_fail_def split: sum.splits)

lemma require_success_ok: "op_ok (sound X) (require_success env w buf) (\<lambda>_. sound X) (sound X)"
  unfolding require_success_def
  by (rule op_ok_bind [OF op_unpack_ok]) (auto intro!: op_ok_fail op_ok_return split: prod.split)

section \<open>Scratch buffers\<close>

lemma resize_output_scratch_ok:
  assumes "output_size capacity" and "capacity \<noteq> 0"
  shows "op_ok (sound X) (resize_output_scratch env capacity)
    (\<lambda>_ b. sound X b \<and> bb_capacity (br_output b) = capacity) E"
proof (rule op_okI)
  fix b b' and a :: unit
  assume s: "sound X b" "resize_output_scratch env capacity b = Some (Ok a, b')"
  obtain r m where alloc: "cm_alloc (en_core env) capacity (br_module b) = (r, m)" by force
  from s(2) show "sound X b' \<and> bb_capacity (br_output b') = capacity"
    using s(1) assms
    by (auto simp: resize_output_scratch_def op_bind_Some op_get_def op_modify_def op_return_def core_alloc_def
        core_dealloc_def sound_def held_def counted_def blocks_of_def split: prod.splits sum.splits option.splits
        if_splits)
next
  fix b b' e
  assume "sound X b" "resize_output_scratch env capacity b = Some (Err e, b')"
  then show "E b'"
    by (auto simp: resize_output_scratch_def op_bind_Some op_get_def op_modify_def op_return_def core_alloc_def
        core_dealloc_def split: prod.splits sum.splits option.splits if_splits)
qed

lemma small_sint:
  fixes c :: "32 word"
  assumes "c \<le> max_bridge_message_size"
  shows "sint c = uint c"
proof -
  from assms have "uint c \<le> 67108864" by (simp add: max_bridge_message_size_def word_le_def)
  moreover have "- (2 ^ 31) \<le> uint c" by (rule order_trans [of _ 0]) simp_all
  ultimately have "- (2 ^ 31) \<le> uint c" "uint c < 2 ^ 31" by simp_all
  then have "signed_take_bit 31 (uint c) = uint c" by (rule signed_take_bit_int_eq_self)
  then show ?thesis by (simp add: sint_uint)
qed

lemma double_capacity_bounds:
  assumes "0 < capacity" and "capacity \<le> 67108864"
  shows "capacity \<le> double_capacity capacity target \<and> double_capacity capacity target \<le> 67108864"
  using assms
proof (induction capacity target rule: double_capacity.induct)
  case (1 capacity target)
  have max: "uint max_bridge_message_size = 67108864" by (simp add: max_bridge_message_size_def)
  show ?case
  proof (cases "capacity < target \<and> \<not> capacity * 2 > 67108864")
    case True
    with 1 have "capacity * 2 \<le> double_capacity (capacity * 2) target \<and>
        double_capacity (capacity * 2) target \<le> 67108864" by (simp add: max)
    with True 1(2) show ?thesis
      by (subst (1 2) double_capacity.simps) (simp add: max)
  next
    case False
    with 1(2,3) show ?thesis by (subst (1 2) double_capacity.simps) (auto simp: max)
  qed
qed

declare double_capacity.simps [simp del]

lemma capacity_bounds:
  assumes "next_bridge_buffer_capacity current required = Inr c" and "output_size current"
  shows "output_size c \<and> c \<noteq> 0 \<and> current \<le> c \<and> required \<le> c"
proof -
  let ?i = "max (sint current) (sint initial_output_capacity)"
  let ?c = "double_capacity ?i (uint required)"
  from assms(1) have c: "c = of_int ?c" and req: "uint required \<le> ?c"
    by (auto simp: next_bridge_buffer_capacity_def Let_def split: if_splits)
  have cur: "current \<le> max_bridge_message_size"
    using assms(2) by (auto simp: output_size_def)
  from small_sint [OF this] have i: "?i = max (uint current) 65536"
    by (simp add: initial_output_capacity_def)
  from cur have "uint current \<le> 67108864" by (simp add: max_bridge_message_size_def word_le_def)
  with double_capacity_bounds [of ?i "uint required"] have b: "?i \<le> ?c" "?c \<le> 67108864" by (simp_all add: i)
  have "0 \<le> ?c" using b(1) by (simp add: i)
  with b(2) have u: "uint c = ?c" unfolding c by (simp add: uint_word_of_int take_bit_int_eq_self)
  have low: "65536 \<le> ?c" "uint current \<le> ?c" using b(1) by (simp_all add: i)
  with req b(2) have "output_size c" "current \<le> c" "required \<le> c"
    by (simp_all add: output_size_def initial_output_capacity_def max_bridge_message_size_def word_le_def u)
  moreover have "c \<noteq> 0" using low(1) u by auto
  ultimately show ?thesis by simp
qed

lemma output_size_initial [simp]: "output_size initial_output_capacity" "initial_output_capacity \<noteq> 0"
  by (simp_all add: output_size_def initial_output_capacity_def max_bridge_message_size_def)

lemma ensure_output_scratch_ok:
  "op_ok (sound X) (ensure_output_scratch env initial_output_capacity)
     (\<lambda>_ b. sound X b \<and> bb_capacity (br_output b) \<noteq> 0) (sound X)"
proof -
  have w: "sint initial_output_capacity = 65536" "sint max_bridge_message_size = 67108864"
    by (simp_all add: initial_output_capacity_def max_bridge_message_size_def)
  show ?thesis
    unfolding ensure_output_scratch_def Let_def w
  proof (rule op_ok_bind [OF op_ok_get [where Q = "\<lambda>a b. a = br_output b \<and> sound X b"]], simp, goal_cases)
    case (1 old)
    have "op_ok (\<lambda>b. old = br_output b \<and> sound X b) (resize_output_scratch env initial_output_capacity)
        (\<lambda>_ b. sound X b \<and> bb_capacity (br_output b) \<noteq> 0) (sound X)"
      by (rule op_ok_weaken [OF resize_output_scratch_ok [of initial_output_capacity X]]) auto
    then show ?case by (auto intro!: op_ok_if op_ok_return simp: w)
  qed
qed

lemma grow_output_scratch_ok:
  "op_ok (\<lambda>b. sound X b \<and> bb_capacity (br_output b) = c) (grow_output_scratch env required)
     (\<lambda>_ b. sound X b \<and> c \<le> bb_capacity (br_output b) \<and> required \<le> bb_capacity (br_output b)) (sound X)"
proof (rule op_okI)
  fix b b' and a :: unit
  assume s: "sound X b \<and> bb_capacity (br_output b) = c" "grow_output_scratch env required b = Some (Ok a, b')"
  then obtain c' where c': "next_bridge_buffer_capacity c required = Inr c'"
      "resize_output_scratch env c' b = Some (Ok a, b')"
    by (auto simp: grow_output_scratch_def op_bind_Some op_get_def op_lift_def op_return_def op_fail_def
        split: sum.splits)
  have "output_size c" using s(1) by (auto simp: sound_def held_def)
  from capacity_bounds [OF c'(1) this] op_okD(1) [OF resize_output_scratch_ok conjunct1 [OF s(1)] c'(2)]
  show "sound X b' \<and> c \<le> bb_capacity (br_output b') \<and> required \<le> bb_capacity (br_output b')"
    by blast
next
  fix b b' e
  assume s: "sound X b \<and> bb_capacity (br_output b) = c" "grow_output_scratch env required b = Some (Err e, b')"
  have size: "output_size c" using s(1) by (auto simp: sound_def held_def)
  from s consider "b' = b" | c' where "next_bridge_buffer_capacity c required = Inr c'"
      "resize_output_scratch env c' b = Some (Err e, b')"
    by (auto simp: grow_output_scratch_def op_bind_Some op_get_def op_lift_def op_return_def op_fail_def
        split: sum.splits)
  then show "sound X b'"
  proof cases
    case 1
    with s(1) show ?thesis by simp
  next
    case 2
    from capacity_bounds [OF 2(1) size] op_okD(2) [OF resize_output_scratch_ok conjunct1 [OF s(1)] 2(2)]
    show ?thesis by blast
  qed
qed

lemma ensure_error_scratch_ok: "op_ok (sound X) (ensure_error_scratch env) (\<lambda>_. sound X) E"
proof (rule op_okI)
  fix b b' a
  assume "sound X b" "ensure_error_scratch env b = Some (Ok a, b')"
  then show "sound X b'"
    by (auto simp: ensure_error_scratch_def op_bind_Some op_get_def op_modify_def op_return_def core_alloc_def
        Let_def sound_def held_def counted_def blocks_of_def error_scratch_capacity_def
        split: prod.splits sum.splits if_splits)
next
  fix b b' e
  assume "sound X b" "ensure_error_scratch env b = Some (Err e, b')"
  then show "E b'"
    by (auto simp: ensure_error_scratch_def op_bind_Some op_get_def op_modify_def op_return_def core_alloc_def
        Let_def split: prod.splits sum.splits if_splits)
qed

lemma dealloc_scratch_ok:
  assumes "bb_capacity old \<noteq> 0"
  shows "op_ok (\<lambda>b. old = br_output b \<and> sound X b) (core_dealloc env (bb_ptr old) (bb_capacity old))
      (\<lambda>_ b. sound X (b\<lparr>br_output := no_buffer\<rparr>)) E"
    and "op_ok (\<lambda>b. old = br_error b \<and> sound X b \<and> bb_capacity (br_output b) = 0)
      (core_dealloc env (bb_ptr old) (bb_capacity old))
      (\<lambda>_ b. sound X (b\<lparr>br_error := no_buffer\<rparr>) \<and> bb_capacity (br_output b) = 0) E"
  by (rule op_okI; use assms in \<open>auto simp: core_dealloc_def sound_def held_def counted_def blocks_of_def
      output_size_def split: prod.splits option.splits\<close>)+

lemma release_output_ok:
  "op_ok (sound X) (release_output env) (\<lambda>_ b. sound X b \<and> bb_capacity (br_output b) = 0) E"
  unfolding release_output_def
  by (rule op_ok_bind [OF op_ok_get [where Q = "\<lambda>a b. a = br_output b \<and> sound X b"]], simp, rule op_ok_if,
      rule op_ok_bind [OF dealloc_scratch_ok(1)], assumption, rule op_ok_modify, simp, rule op_ok_return, simp)

lemma release_error_ok:
  "op_ok (\<lambda>b. sound {#} b \<and> bb_capacity (br_output b) = 0) (release_error env)
     (\<lambda>_ b. sound {#} b \<and> br_blocks b = {#}) E"
  unfolding release_error_def
  by (rule op_ok_bind [OF op_ok_get [where Q = "\<lambda>a b. a = br_error b \<and> sound {#} b \<and> bb_capacity (br_output b) = 0"]],
      simp, rule op_ok_if, rule op_ok_bind [OF dealloc_scratch_ok(2)], assumption, rule op_ok_modify)
    (auto intro!: op_ok_return simp: sound_def held_def blocks_of_def)

lemma release_scratch_ok: "op_ok (sound {#}) (release_scratch env) (\<lambda>_ b. sound {#} b \<and> br_blocks b = {#}) E"
  unfolding release_scratch_def by (rule op_ok_bind [OF release_output_ok release_error_ok])

section \<open>Taking results\<close>

lemma take_once_ok: "op_ok (sound X) (take_once env call) (\<lambda>_. sound X) (sound X)"
  unfolding take_once_def
proof (rule op_ok_bind [OF op_ok_get], assumption, rule op_ok_bind [OF core_export_ok],
    rule op_ok_bind [OF op_unpack_ok], goal_cases)
  case (1 buf w r)
  have "op_ok (sound X) (grow_output_scratch env n) (\<lambda>_. sound X) (sound X)" for n
    by (rule op_okI) (use op_okD [OF grow_output_scratch_ok conjI [OF _ refl]] in \<open>blast\<close>)+
  then show ?case
    by (cases r) (auto intro!: op_ok_return op_ok_bind [where R = "\<lambda>_. sound X"])
qed

text \<open>What a round of a loop leaves, by the triple of its body.\<close>

lemma bind_cases:
  assumes "op_ok P once Q E" and "P b" and "Option.bind (once b) k = Some y"
  obtains (gives) a b1 where "Q a b1" "k (Ok a, b1) = Some y"
  | (fails) e b1 where "E b1" "k (Err e, b1) = Some y"
  | (traps) p b1 where "k (Panic p, b1) = Some y"
proof -
  from assms(3) obtain r b1 where r: "once b = Some (r, b1)" "k (r, b1) = Some y"
    by (auto simp: bind_eq_Some_conv)
  show ?thesis
  proof (cases r)
    case (Ok a)
    with r op_okD(1) [OF assms(1,2)] show ?thesis by (intro gives) simp_all
  next
    case (Err e)
    with r op_okD(2) [OF assms(1,2)] show ?thesis by (intro fails) simp_all
  next
    case (Panic p)
    with r show ?thesis by (intro traps) simp_all
  qed
qed

definition left_sound :: "(32 word \<times> 32 word) multiset \<Rightarrow> 'a gores \<times> 'm bridge \<Rightarrow> bool" where
  "left_sound X y \<longleftrightarrow> (\<exists>p. fst y = Panic p) \<or> sound X (snd y)"

lemma left_sound_ok: "(\<And>b y. sound X b \<Longrightarrow> op b = Some y \<Longrightarrow> left_sound X y) \<Longrightarrow> op_ok (sound X) op (\<lambda>_. sound X) (sound X)"
  by (rule op_okI) (force simp: left_sound_def)+

lemma take_loop_sound:
  assumes "take_loop env call b = Some y"
  shows "sound X b \<longrightarrow> left_sound X y"
proof (rule take_loop.raw_induct [OF _ assms], intro impI, goal_cases)
  case (1 loop env call b y)
  show ?case
    by (rule bind_cases [OF take_once_ok 1(3) 1(2)])
      (use 1(1) in \<open>auto simp: left_sound_def split: option.splits\<close>)
qed

lemma take_loop_ok: "op_ok (sound X) (take_loop env call) (\<lambda>_. sound X) (sound X)"
  by (rule left_sound_ok) (rule take_loop_sound [THEN mp])

lemma take_with_retry_ok: "op_ok (sound X) (take_with_retry env call) (\<lambda>_. sound X) (sound X)"
  unfolding take_with_retry_def
  by (rule op_ok_bind [OF op_ok_weaken [OF ensure_output_scratch_ok] take_loop_ok]) auto

section \<open>Requests with an input\<close>

lemma with_block_ok:
  assumes "checked_bridge_input_len (length bytes) = Inr len"
    and "\<And>ptr. op_ok (sound (add_mset (ptr, len) X)) (rest ptr) (\<lambda>_. sound (add_mset (ptr, len) X))
      (sound (add_mset (ptr, len) X))"
  shows "op_ok (sound X) (with_block env bytes len rest) (\<lambda>_. sound X) (sound X)"
  unfolding with_block_def
  by (rule op_ok_bind [OF copy_in_ok [OF assms(1)] op_ok_defer [OF assms(2) core_dealloc_ok core_dealloc_ok]])

lemma export_and_check_ok:
  "op_ok (sound X) (op_bind (core_export env call buf) (\<lambda>w.
     op_bind (require_success env w buf) (\<lambda>_. op_return ()))) (\<lambda>_. sound X) (sound X)"
  by (rule op_ok_bind [OF core_export_ok op_ok_bind [OF require_success_ok op_ok_return]])

lemma with_input_ok: "op_ok (sound X) (with_input env what bytes call) (\<lambda>_. sound X) (sound X)"
proof (cases "checked_bridge_input_len (length bytes)")
  case (Inl e)
  then show ?thesis by (simp add: with_input_def op_ok_fail)
next
  case (Inr len)
  show ?thesis
    unfolding with_input_def Inr sum.case with_block_def [symmetric]
    by (rule with_block_ok [OF Inr]) (rule op_ok_bind [OF ensure_error_scratch_ok export_and_check_ok])
qed

lemma call_for_error_ok: "op_ok (sound X) (call_for_error env call) (\<lambda>_. sound X) (sound X)"
  unfolding call_for_error_def by (rule op_ok_bind [OF ensure_error_scratch_ok export_and_check_ok])

lemma init_core_ok: "op_ok (sound X) (init_core env options blocks) (\<lambda>_. sound X) (sound X)"
  unfolding init_core_def
  by (intro op_ok_bind [where Q = "\<lambda>_. sound X"] ensure_error_scratch_ok op_ok_lift core_export_ok
      require_success_ok op_ok_return)

lemma named_len_Inr: "named_len what bytes = Inr len \<Longrightarrow> checked_bridge_input_len (length bytes) = Inr len"
  by (auto simp: named_len_def split: sum.splits)

lemma op_ok_lift_bind:
  "(\<And>a. r = Inr a \<Longrightarrow> op_ok P (f a) Q E) \<Longrightarrow> (\<And>b. P b \<Longrightarrow> E b) \<Longrightarrow> op_ok P (op_bind (op_lift r) f) Q E"
  by (cases r) (auto simp: op_ok_def op_bind_def op_lift_def op_return_def op_fail_def)

lemma start_init_ok: "op_ok (sound X) (start_init env options) (\<lambda>_. sound X) (sound X)"
  unfolding start_init_def
  by (intro op_ok_lift_bind with_block_ok init_core_ok named_len_Inr)

section \<open>Calls in flight\<close>

lemma length_remove_nth: "i < length xs \<Longrightarrow> length (remove_nth i xs) = length xs - 1"
  by (simp add: remove_nth_def)

lemma deliver_response_sound: "sound X b \<Longrightarrow> sound X (deliver_response env i b)"
  by (auto simp: deliver_response_def sound_def held_def counted_def signal_wake_def length_remove_nth)

lemma arrive_sound: "sound X b \<Longrightarrow> sound X (arrive env b)"
proof -
  have "sound X b \<Longrightarrow> sound X (fold (deliver_response env) js b)" for js and b :: "'a bridge"
    by (induction js arbitrary: b) (simp_all add: deliver_response_sound)
  moreover have "sound X (b\<lparr>br_arrivals := rest\<rparr>) = sound X b" for rest
    by (simp add: sound_def held_def counted_def)
  ultimately show "sound X b \<Longrightarrow> sound X (arrive env b)"
    by (simp add: arrive_def split: list.split)
qed

text \<open>A response is received only while a call is in flight.\<close>

lemma response_has_call: "counted b \<Longrightarrow> br_responses b \<noteq> [] \<Longrightarrow> br_in_flight b \<noteq> 0"
  by (cases "br_responses b") (auto simp: counted_def)

lemma received_sound:
  assumes "sound X b" and "br_responses b = r # rest"
  shows "sound X (b\<lparr>br_responses := rest\<rparr>)"
    and "sound X (b\<lparr>br_responses := rest, br_in_flight := br_in_flight b - 1\<rparr>)"
  using assms by (auto simp: sound_def held_def counted_def)

lemma complete_grpc_request_ok: "op_ok (sound X) (complete_grpc_request env id' response) (\<lambda>_. sound X) (sound X)"
  unfolding complete_grpc_request_def by (rule with_input_ok)

text \<open>What \<open>receive_response\<close> does with the state in which the next response has arrived.\<close>

lemma receive_response_unfold:
  "receive_response env b =
     (let b1 = arrive env b in
      case br_responses b1 of
        [] \<Rightarrow> Some (Ok False, b1)
      | r # rest \<Rightarrow>
          if br_in_flight b1 = 0
          then Some (Err (ErrNew ''received a gRPC response with no call in flight''), b1\<lparr>br_responses := rest\<rparr>)
          else
            op_bind (op_lift (cp_answer r)) (\<lambda>answer.
              op_bind (complete_grpc_request env (cp_id r) answer) (\<lambda>_. op_return True))
              (b1\<lparr>br_responses := rest, br_in_flight := br_in_flight b1 - 1\<rparr>))"
  by (simp add: receive_response_def op_bind_def [of "op_modify f" for f] op_bind_def [of "op_get f" for f]
      op_modify_def op_get_def op_return_def op_fail_def Let_def split: list.split)

lemma receive_response_ok: "op_ok (sound X) (receive_response env) (\<lambda>_. sound X) (sound X)"
proof (rule left_sound_ok)
  fix b :: "'a bridge" and y
  assume "sound X b" and y: "receive_response env b = Some y"
  then have b1: "sound X (arrive env b)" by (simp add: arrive_sound)
  show "left_sound X y"
  proof (cases "br_responses (arrive env b)")
    case Nil
    with y b1 show ?thesis by (auto simp: receive_response_unfold Let_def left_sound_def)
  next
    case (Cons r rest)
    let ?b2 = "(arrive env b)\<lparr>br_responses := rest, br_in_flight := br_in_flight (arrive env b) - 1\<rparr>"
    have flight: "br_in_flight (arrive env b) \<noteq> 0"
      using b1 Cons by (intro response_has_call) (simp_all add: sound_def)
    have ok: "op_ok (sound X) (op_bind (op_lift (cp_answer r)) (\<lambda>answer.
        op_bind (complete_grpc_request env (cp_id r) answer) (\<lambda>_. op_return True))) (\<lambda>_. sound X) (sound X)"
      by (rule op_ok_lift_bind [OF op_ok_bind [OF complete_grpc_request_ok op_ok_return]])
    obtain q b' where q: "y = (q, b')" by force
    from y flight have run: "op_bind (op_lift (cp_answer r)) (\<lambda>answer.
        op_bind (complete_grpc_request env (cp_id r) answer) (\<lambda>_. op_return True)) ?b2 = Some (q, b')"
      by (simp add: receive_response_unfold Let_def Cons q)
    show ?thesis
      by (cases q) (use op_okD [OF ok received_sound(2) [OF b1 Cons]] run in \<open>auto simp: left_sound_def q\<close>)
  qed
qed

lemma take_grpc_request_ok: "op_ok (sound X) (take_grpc_request env) (\<lambda>_. sound X) (sound X)"
  unfolding take_grpc_request_def
  by (rule op_ok_bind [OF take_with_retry_ok])
    (auto intro!: op_ok_return op_ok_fail op_ok_lift_bind split: prod.split)

lemma start_request_unfold:
  "start_request env b =
     (if \<not> br_in_flight b < max_concurrent_grpc_calls then Some (Ok False, b)
      else Option.bind (take_grpc_request env b) (\<lambda>(r, b1). case r of
        Ok None \<Rightarrow> Some (Ok False, b1)
      | Ok (Some q) \<Rightarrow> Some (Ok True, b1\<lparr>br_in_flight := br_in_flight b1 + 1, br_outstanding := br_outstanding b1 @ [q]\<rparr>)
      | Err e \<Rightarrow> Some (Err e, b1)
      | Panic p \<Rightarrow> Some (Panic p, b1)))"
  unfolding start_request_def op_bind_def [of "op_get f" for f] op_get_def
  by (auto simp: op_bind_def op_modify_def op_return_def split: gores.split option.split
      intro!: arg_cong [where f = "Option.bind (take_grpc_request env b)"])

lemma start_request_ok: "op_ok (sound X) (start_request env) (\<lambda>_. sound X) (sound X)"
proof (rule left_sound_ok)
  fix b :: "'a bridge" and y
  assume b: "sound X b" and y: "start_request env b = Some y"
  show "left_sound X y"
  proof (cases "br_in_flight b < max_concurrent_grpc_calls")
    case False
    with y b show ?thesis by (auto simp: start_request_unfold left_sound_def)
  next
    case True
    with y obtain r b1 where t: "take_grpc_request env b = Some (r, b1)" and
      r: "(case r of Ok None \<Rightarrow> Some (Ok False, b1)
        | Ok (Some q) \<Rightarrow> Some (Ok True, b1\<lparr>br_in_flight := br_in_flight b1 + 1, br_outstanding := br_outstanding b1 @ [q]\<rparr>)
        | Err e \<Rightarrow> Some (Err e, b1) | Panic p \<Rightarrow> Some (Panic p, b1)) = Some y"
      by (auto simp: start_request_unfold bind_eq_Some_conv)
    have "br_in_flight b1 < max_concurrent_grpc_calls"
      using quietD [OF calls.quiet_take_grpc_request t] True by (simp add: calls_of_def)
    then have more: "sound X b1 \<Longrightarrow>
        sound X (b1\<lparr>br_in_flight := br_in_flight b1 + 1, br_outstanding := br_outstanding b1 @ [q]\<rparr>)" for q
      by (auto simp: sound_def held_def counted_def)
    show ?thesis
    proof (cases r)
      case (Ok q)
      with op_okD(1) [OF take_grpc_request_ok b] t have "sound X b1" by blast
      with r Ok more show ?thesis by (auto simp: left_sound_def split: option.splits)
    next
      case (Err e)
      with op_okD(2) [OF take_grpc_request_ok b] t have "sound X b1" by blast
      with r Err show ?thesis by (auto simp: left_sound_def)
    next
      case (Panic p)
      with r show ?thesis by (auto simp: left_sound_def)
    qed
  qed
qed

section \<open>The loops\<close>

lemma receive_loop_ok: "op_ok (sound X) (receive_loop env progressed) (\<lambda>_. sound X) (sound X)"
proof (rule left_sound_ok)
  have "sound X b \<longrightarrow> left_sound X y" if "receive_loop env progressed b = Some y"
    for progressed y and b :: "'a bridge"
  proof (rule receive_loop.raw_induct [OF _ that], intro impI, goal_cases)
    case (1 loop env progressed b y)
    show ?case
      by (rule bind_cases [OF receive_response_ok 1(3) 1(2)])
        (use 1(1) in \<open>auto simp: left_sound_def split: if_splits\<close>)
  qed
  then show "sound X b \<Longrightarrow> receive_loop env progressed b = Some y \<Longrightarrow> left_sound X y"
    for y and b :: "'a bridge" by blast
qed

lemma start_loop_ok: "op_ok (sound X) (start_loop env) (\<lambda>_. sound X) (sound X)"
proof (rule left_sound_ok)
  have "sound X b \<longrightarrow> left_sound X y" if "start_loop env b = Some y" for y and b :: "'a bridge"
  proof (rule start_loop.raw_induct [OF _ that], intro impI, goal_cases)
    case (1 loop env b y)
    show ?case
      by (rule bind_cases [OF start_request_ok 1(3) 1(2)])
        (use 1(1) in \<open>auto simp: left_sound_def split: if_splits\<close>)
  qed
  then show "sound X b \<Longrightarrow> start_loop env b = Some y \<Longrightarrow> left_sound X y" for y and b :: "'a bridge"
    by blast
qed

lemma pump_grpc_ok: "op_ok (sound X) (pump_grpc env) (\<lambda>_. sound X) (sound X)"
  unfolding pump_grpc_def by (rule op_ok_bind [OF receive_loop_ok op_ok_bind [OF start_loop_ok op_ok_return]])

lemma drain_and_take_ok: "op_ok (sound X) (drain_and_take env call) (\<lambda>_. sound X) (sound X)"
  unfolding drain_and_take_def
  by (rule op_ok_bind [OF op_ok_get op_ok_bind [OF core_export_ok op_ok_bind [OF require_success_ok
    take_with_retry_ok]]])

lemma drive_once_ok: "op_ok (sound X) (drive_once env call) (\<lambda>_. sound X) (sound X)"
  unfolding drive_once_def
  by (rule op_ok_bind [OF drain_and_take_ok])
    (auto intro!: op_ok_return op_ok_fail op_ok_bind [OF pump_grpc_ok] split: prod.split)

lemma drive_operation_step_ok: "op_ok (sound X) (drive_operation_step env call) (\<lambda>_. sound X) (sound X)"
proof (rule left_sound_ok)
  have "sound X b \<longrightarrow> left_sound X y" if "drive_operation_step env call b = Some y" for y and b :: "'a bridge"
  proof (rule drive_operation_step.raw_induct [OF _ that], intro impI, goal_cases)
    case (1 loop env call b y)
    show ?case
      by (rule bind_cases [OF drive_once_ok 1(3) 1(2)])
        (use 1(1) in \<open>auto simp: left_sound_def split: option.splits\<close>)
  qed
  then show "sound X b \<Longrightarrow> drive_operation_step env call b = Some y \<Longrightarrow> left_sound X y"
    for y and b :: "'a bridge" by blast
qed

lemma operation_step_ok: "op_ok (sound X) (operation_step env call) (\<lambda>_. sound X) (sound X)"
  unfolding operation_step_def
  by (rule op_ok_bind [OF op_ok_weaken [OF ensure_output_scratch_ok] drive_operation_step_ok]) auto

section \<open>Requests\<close>

lemma poll_steps_ok:
  "op_ok (sound X) (poll_activity_step env) (\<lambda>_. sound X) (sound X)"
  "op_ok (sound X) (poll_workflow_step env) (\<lambda>_. sound X) (sound X)"
  by (rule op_okI; auto simp: poll_activity_step_def poll_workflow_step_def op_fail_def bind_eq_Some_conv
      dest: op_okD [OF operation_step_ok] split: if_splits)+

lemma start_polls_ok:
  "op_ok (sound X) (start_poll_activity env) (\<lambda>_. sound X) (sound X)"
  "op_ok (sound X) (start_poll_workflow env) (\<lambda>_. sound X) (sound X)"
  unfolding start_poll_activity_def start_poll_workflow_def
  by (rule op_ok_bind [OF op_ok_get], assumption, rule op_ok_if, rule op_ok_return, assumption,
      rule op_ok_bind [OF call_for_error_ok op_ok_modify], simp)+

lemma owner_run_ok: "op_ok (sound {#}) (owner_run env req) (\<lambda>_. sound {#}) (sound {#})"
proof -
  have none: "op_ok (sound {#}) op (\<lambda>_. sound {#}) (sound {#}) \<Longrightarrow>
      op_ok (sound {#}) (no_value op) (\<lambda>_. sound {#}) (sound {#})" for op :: "('a, unit) owner_op"
    unfolding no_value_def by (rule op_ok_bind [OF _ op_ok_return])
  have step: "op_ok (sound {#}) op (\<lambda>_. sound {#}) (sound {#}) \<Longrightarrow>
      op_ok (sound {#}) (step_value op) (\<lambda>_. sound {#}) (sound {#})" for op :: "('a, step_result) owner_op"
    unfolding step_value_def by (rule op_ok_bind) (auto intro!: op_ok_return split: prod.split)
  have release: "op_ok (sound {#}) (release_scratch env) (\<lambda>_. sound {#}) (sound {#})" for env :: "'a bridge_env"
    by (rule op_ok_weaken [OF release_scratch_ok]) auto
  have completion: "op_ok (sound {#}) (take_completion env kind id') (\<lambda>_. sound {#}) (sound {#})"
    for env :: "'a bridge_env" and kind id'
    unfolding take_completion_def by (rule op_ok_bind [OF operation_step_ok]) (auto intro!: op_ok_return split: prod.split)
  show ?thesis
    by (cases req) (auto simp: start_completion_def record_activity_heartbeat_def intro!: none step start_polls_ok
      poll_steps_ok with_input_ok start_init_ok operation_step_ok call_for_error_ok release
      op_ok_bind [OF completion op_ok_return])
qed

end
