(* ===== verification/Bridge_Returns.thy ===== *)
theory Bridge_Returns
  imports Bridge_Laws
begin

text \<open>
  Every request of the bridge is answered (\<open>internal/corebridge/bridge.go\<close>): the loops of \<open>takeWithRetry\<close>,
  \<open>pumpGRPC\<close> and \<open>driveOperationStep\<close> end. The module must ask for more than it was offered when it says that
  a buffer is too small; without that \<open>takeWithRetry\<close> would offer the same capacity again for ever.
\<close>

section \<open>Loops\<close>

definition honest :: "'m bridge_env \<Rightarrow> bool" where
  "honest env \<longleftrightarrow> (\<forall>call ptr capacity m w m'. cm_call (en_core env) call ptr capacity m = (Inr w, m') \<longrightarrow>
     ucast (drop_bit 32 w) = bridge_buffer_too_small \<longrightarrow> capacity < ucast w)"

text \<open>
  The contract of a loop that repeats \<open>once\<close> while \<open>more\<close>: its rounds return, and each shrinks a size.
\<close>

locale op_loop =
  fixes once :: "('m, 'x) owner_op"
    and more :: "'x \<Rightarrow> bool"
    and loop :: "'i \<Rightarrow> ('m, 'a) owner_op"
    and index :: "'i \<Rightarrow> 'i"
    and outcome :: "'i \<Rightarrow> 'x \<Rightarrow> 'a"
    and fit :: "'m bridge \<Rightarrow> bool"
    and extent :: "'m bridge \<Rightarrow> nat"
  assumes unfold: "loop i b = Option.bind (once b) (\<lambda>(r, b1). case r of
      Ok x \<Rightarrow> if more x then loop (index i) b1 else Some (Ok (outcome i x), b1)
    | Err e \<Rightarrow> Some (Err e, b1)
    | Panic p \<Rightarrow> Some (Panic p, b1))"
    and once_returns: "fit b \<Longrightarrow> once b \<noteq> None"
    and once_shrinks: "fit b \<Longrightarrow> once b = Some (Ok x, b1) \<Longrightarrow> more x \<Longrightarrow> fit b1 \<and> extent b1 < extent b"
begin

lemma loop_returns: "fit b \<Longrightarrow> loop i b \<noteq> None"
proof (induction "extent b" arbitrary: b i rule: less_induct)
  case less
  from once_returns [OF less.prems] obtain r b1 where r: "once b = Some (r, b1)" by force
  show ?case
  proof (cases r)
    case (Ok x)
    show ?thesis
    proof (cases "more x")
      case True
      with once_shrinks [OF less.prems] r Ok have "fit b1" "extent b1 < extent b" by blast+
      from less.hyps [OF this(2,1)] show ?thesis by (simp add: unfold [of i b] r Ok True)
    next
      case False
      then show ?thesis by (simp add: unfold [of i b] r Ok)
    qed
  qed (simp_all add: unfold [of i b] r)
qed

end

section \<open>Operations that return\<close>

definition returns :: "('m bridge \<Rightarrow> bool) \<Rightarrow> ('m, 'a) owner_op \<Rightarrow> bool" where
  "returns P op \<longleftrightarrow> (\<forall>b. P b \<longrightarrow> op b \<noteq> None)"

lemma returnsI: "(\<And>b. P b \<Longrightarrow> op b \<noteq> None) \<Longrightarrow> returns P op"
  by (simp add: returns_def)

lemma returnsD: "returns P op \<Longrightarrow> P b \<Longrightarrow> op b \<noteq> None"
  by (simp add: returns_def)

lemma returns_bind:
  assumes "returns P m" and "op_ok P m Q E" and "\<And>a. returns (Q a) (f a)"
  shows "returns P (op_bind m f)"
proof (rule returnsI)
  fix b
  assume b: "P b"
  from returnsD [OF assms(1) b] obtain r b1 where r: "m b = Some (r, b1)" by force
  show "op_bind m f b \<noteq> None"
  proof (cases r)
    case (Ok a)
    with op_okD(1) [OF assms(2) b] r have "Q a b1" by blast
    from returnsD [OF assms(3) this] show ?thesis by (simp add: op_bind_def r Ok)
  qed (simp_all add: op_bind_def r)
qed

text \<open>Operations without loops return in any state.\<close>

definition always :: "('m, 'a) owner_op \<Rightarrow> bool" where
  "always op \<longleftrightarrow> (\<forall>b. op b \<noteq> None)"

lemma always_returns: "always op \<Longrightarrow> returns P op"
  by (simp add: always_def returns_def)

lemma always_bind: "always m \<Longrightarrow> (\<And>a. always (f a)) \<Longrightarrow> always (op_bind m f)"
  by (force simp: always_def op_bind_def split: gores.split bind_split)

lemma always_defer: "always d \<Longrightarrow> always m \<Longrightarrow> always (op_defer d m)"
proof (unfold always_def, intro allI)
  fix b
  assume a: "\<forall>b. d b \<noteq> None" "\<forall>b. m b \<noteq> None"
  then obtain r b1 where m: "m b = Some (r, b1)" by force
  from a obtain rd b2 where "d b1 = Some (rd, b2)" by force
  with m show "op_defer d m b \<noteq> None" by (cases rd) (simp_all add: op_defer_def)
qed

lemma always_primitive:
  "always (op_return a)" "always (op_fail e)" "always (op_lift r)" "always (op_get f)" "always (op_modify g)"
  "always (core_alloc env len)" "always (core_dealloc env ptr len)" "always (core_export env call buf)"
  "always (copy_into env ptr bytes)" "always (op_unpack env w buf)"
  by (auto simp: always_def op_return_def op_fail_def op_lift_def op_get_def op_modify_def core_alloc_def
      core_dealloc_def core_export_def copy_into_def op_unpack_def Let_def split: sum.split prod.split option.split)

lemmas always_rules = always_bind always_defer always_primitive

lemma always_buffers:
  "always (require_success env w buf)" "always (resize_output_scratch env n)" "always (ensure_output_scratch env n)"
  "always (grow_output_scratch env k)" "always (ensure_error_scratch env)" "always (release_scratch env)"
  "always (copy_in env bytes)"
  by (auto simp: require_success_def resize_output_scratch_def ensure_output_scratch_def grow_output_scratch_def
      ensure_error_scratch_def release_scratch_def release_output_def release_error_def copy_in_def Let_def
      intro!: always_rules split: prod.split)

lemma always_take_once: "always (take_once env call)"
  by (auto simp: take_once_def intro!: always_rules always_buffers split: prod.split)

lemma always_with_input: "always (with_input env what bytes call)"
  by (auto simp: with_input_def intro!: always_rules always_buffers split: sum.split)

lemma always_call_for_error: "always (call_for_error env call)"
  by (auto simp: call_for_error_def intro!: always_rules always_buffers)

lemma always_start_init: "always (start_init env options)"
  by (auto simp: start_init_def with_block_def init_core_def intro!: always_rules always_buffers)

lemma always_receive_response: "always (receive_response env)"
proof (unfold always_def, intro allI)
  fix b :: "'a bridge"
  have "always (op_bind (op_lift (cp_answer r)) (\<lambda>answer.
      op_bind (complete_grpc_request env (cp_id r) answer) (\<lambda>_. op_return True)))" for r :: core_response
    unfolding complete_grpc_request_def by (intro always_rules always_with_input)
  then show "receive_response env b \<noteq> None"
    by (cases "br_responses (arrive env b)") (simp_all add: receive_response_unfold Let_def always_def)
qed

section \<open>The rounds shrink\<close>

definition fit :: "'m bridge_env \<Rightarrow> 'm bridge \<Rightarrow> bool" where
  "fit env b \<longleftrightarrow> honest env \<and> (\<exists>X. sound X b)"

lemma fit_ok:
  assumes "\<And>X. op_ok (sound X) op (\<lambda>_. sound X) (sound X)"
  shows "op_ok (fit env) op (\<lambda>_. fit env) (fit env)"
proof (rule op_okI)
  fix b a b'
  assume "fit env b" "op b = Some (Ok a, b')"
  then obtain X where "honest env" "sound X b" unfolding fit_def by blast
  with op_okD(1) [OF assms] \<open>op b = _\<close> show "fit env b'" unfolding fit_def by blast
next
  fix b e b'
  assume "fit env b" "op b = Some (Err e, b')"
  then obtain X where "honest env" "sound X b" unfolding fit_def by blast
  with op_okD(2) [OF assms] \<open>op b = _\<close> show "fit env b'" unfolding fit_def by blast
qed

lemma take_once_retry:
  assumes "fit env b" and "take_once env call b = Some (Ok None, b1)"
  shows "bb_capacity (br_output b) < bb_capacity (br_output b1)"
proof -
  obtain c m where c: "cm_call (en_core env) call (bb_ptr (br_output b)) (bb_capacity (br_output b)) (br_module b) =
      (c, m)" by force
  obtain w where w: "c = Inr w"
  proof (cases c)
    case (Inl p)
    with assms(2) c show ?thesis by (simp add: take_once_def op_bind_def op_get_def core_export_def)
  qed
  let ?b = "b\<lparr>br_module := m\<rparr>"
  from assms(2) c w have "op_bind (op_unpack env w (br_output b)) (\<lambda>(code, output, required).
      if code \<noteq> bridge_buffer_too_small then op_return (Some (code, output))
      else op_bind (grow_output_scratch env required) (\<lambda>_. op_return None)) ?b = Some (Ok None, b1)"
    by (simp add: take_once_def op_bind_def [of "op_get f" for f] op_bind_def [of "core_export env call buf" for buf]
        op_get_def core_export_def)
  then obtain code out required b2 where
    u: "op_unpack env w (br_output b) ?b = Some (Ok (code, out, required), b2)" and
    too: "code = bridge_buffer_too_small" and grow: "grow_output_scratch env required b2 = Some (Ok (), b1)"
    by (auto simp: op_bind_Some op_return_def split: if_splits)
  from u too have code: "ucast (drop_bit 32 w) = bridge_buffer_too_small" and required: "required = ucast w"
    and b2: "b2 = ?b"
    by (auto simp: op_unpack_def unpack_result_def Let_def op_lift_def op_return_def op_fail_def
        split: sum.splits if_splits)
  note call = c [unfolded w]
  from assms(1) obtain X where s: "sound X (b\<lparr>br_module := m\<rparr>)" by (auto simp: fit_def)
  from op_okD(1) [OF grow_output_scratch_ok conjI [OF s refl] grow [unfolded b2]]
  have "required \<le> bb_capacity (br_output b1)" by blast
  moreover from assms(1) call code required have "bb_capacity (br_output b) < required"
    unfolding fit_def honest_def by blast
  ultimately show ?thesis by simp
qed

interpretation taking: op_loop "take_once env call" "\<lambda>x. x = None" "\<lambda>i :: unit. take_loop env call" "\<lambda>i. i"
    "\<lambda>i. the" "fit env" "\<lambda>b. unat (max_bridge_message_size - bb_capacity (br_output b))"
  for env :: "'m bridge_env" and call
proof (unfold_locales, goal_cases)
  case (1 i b)
  show ?case
    by (subst take_loop.simps)
      (auto intro!: arg_cong [where f = "Option.bind (take_once env call b)"] split: gores.split option.split)
next
  case (2 b)
  then show ?case using always_take_once [of env call] by (simp add: always_def)
next
  case (3 b x b1)
  from op_okD(1) [OF fit_ok [OF take_once_ok] 3(1,2)] have f: "fit env b1" .
  have less: "bb_capacity (br_output b) < bb_capacity (br_output b1)" using take_once_retry 3 by blast
  have "bb_capacity (br_output b1) \<le> max_bridge_message_size"
    using f by (auto simp: fit_def sound_def held_def output_size_def)
  with less have "max_bridge_message_size - bb_capacity (br_output b1) < max_bridge_message_size - bb_capacity (br_output b)"
    by unat_arith
  then show ?case using f by (simp add: word_less_nat_alt)
qed

lemma ensure_output_fit:
  "op_ok (fit env) (ensure_output_scratch env initial_output_capacity) (\<lambda>_. fit env) (fit env)"
  by (rule fit_ok) (rule op_ok_weaken [OF ensure_output_scratch_ok]; simp)

lemma take_with_retry_returns: "returns (fit env) (take_with_retry env call)"
  unfolding take_with_retry_def
  by (rule returns_bind [OF always_returns [OF always_buffers(3)] ensure_output_fit returnsI])
    (rule taking.loop_returns)

lemma take_grpc_request_returns: "returns (fit env) (take_grpc_request env)"
  unfolding take_grpc_request_def
  by (rule returns_bind [OF take_with_retry_returns fit_ok [OF take_with_retry_ok]])
    (auto intro!: always_returns always_rules split: prod.split)

lemma drain_and_take_returns: "returns (fit env) (drain_and_take env call)"
  unfolding drain_and_take_def
  by (rule returns_bind [OF always_returns [OF always_primitive(4)] op_ok_get],
      assumption, rule returns_bind [OF always_returns [OF always_primitive(8)] fit_ok [OF core_export_ok]],
      rule returns_bind [OF always_returns [OF always_buffers(1)] fit_ok [OF require_success_ok]
        take_with_retry_returns])

section \<open>Pumping ends\<close>

definition pending :: "'m bridge \<Rightarrow> nat" where
  "pending b = sum_list (map length (br_arrivals b)) + length (br_responses b)"

lemma deliver_pending:
  "length (br_responses (deliver_response env i b)) \<le> length (br_responses b) + 1"
  "br_arrivals (deliver_response env i b) = br_arrivals b"
  "br_in_flight (deliver_response env i b) = br_in_flight b"
  by (simp_all add: deliver_response_def signal_wake_def)

lemma arrive_pending: "pending (arrive env b) \<le> pending b" "br_in_flight (arrive env b) = br_in_flight b"
proof -
  have f: "length (br_responses (fold (deliver_response env) js b)) \<le> length (br_responses b) + length js \<and>
      br_arrivals (fold (deliver_response env) js b) = br_arrivals b \<and>
      br_in_flight (fold (deliver_response env) js b) = br_in_flight b" for js and b :: "'a bridge"
  proof (induction js arbitrary: b)
    case (Cons i js)
    from Cons [of "deliver_response env i b"] deliver_pending [of env i b] show ?case by simp
  qed simp
  show "pending (arrive env b) \<le> pending b"
  proof (cases "br_arrivals b")
    case (Cons js rest)
    with f [of js "b\<lparr>br_arrivals := rest\<rparr>"] show ?thesis by (simp add: arrive_def pending_def)
  qed (simp add: arrive_def)
  show "br_in_flight (arrive env b) = br_in_flight b"
    using f by (simp add: arrive_def split: list.split)
qed

lemma pending_calls: "calls_of b = calls_of b' \<Longrightarrow> pending b = pending b' \<and> br_in_flight b = br_in_flight b'"
  by (simp add: calls_of_def pending_def)

lemma receive_response_continues:
  assumes "receive_response env b = Some (Ok True, b1)"
  shows "br_in_flight b1 < br_in_flight b" and "pending b1 < pending b"
proof -
  let ?a = "arrive env b"
  from assms obtain r rest where r: "br_responses ?a = r # rest" "br_in_flight ?a \<noteq> 0"
    and run: "op_bind (op_lift (cp_answer r)) (\<lambda>answer.
      op_bind (complete_grpc_request env (cp_id r) answer) (\<lambda>_. op_return True))
      (?a\<lparr>br_responses := rest, br_in_flight := br_in_flight ?a - 1\<rparr>) = Some (Ok True, b1)"
    by (auto simp: receive_response_unfold Let_def split: list.splits if_splits)
  have "quiet calls_of (op_bind (op_lift (cp_answer r)) (\<lambda>answer.
      op_bind (complete_grpc_request env (cp_id r) answer) (\<lambda>_. op_return True)))"
    unfolding complete_grpc_request_def by (intro quiet_rules calls.quiet_with_input)
  from pending_calls [OF quietD [OF this run]] r arrive_pending [of env b]
  show "br_in_flight b1 < br_in_flight b" "pending b1 < pending b" by (simp_all add: pending_def)
qed

lemma receive_response_stops:
  assumes "receive_response env b = Some (Ok False, b1)"
  shows "pending b1 \<le> pending b"
proof -
  from assms have "b1 = arrive env b"
    by (auto simp: receive_response_unfold Let_def op_bind_Some op_return_def split: list.splits if_splits)
  then show ?thesis by (simp add: arrive_pending)
qed

interpretation receiving: op_loop "receive_response env" "\<lambda>received. received" "receive_loop env" "\<lambda>i. True"
    "\<lambda>i x. i" "fit env" br_in_flight
  for env :: "'m bridge_env"
proof (unfold_locales, goal_cases)
  case (1 i b)
  show ?case by (rule receive_loop.simps)
next
  case (2 b)
  then show ?case using always_receive_response [of env] by (simp add: always_def)
next
  case (3 b x b1)
  then have "receive_response env b = Some (Ok True, b1)" by simp
  with receive_response_continues(1) op_okD(1) [OF fit_ok [OF receive_response_ok] 3(1,2)]
  show ?case by blast
qed

lemma start_request_continues:
  assumes "start_request env b = Some (Ok True, b1)"
  shows "br_in_flight b < max_concurrent_grpc_calls" and "br_in_flight b1 = br_in_flight b + 1"
proof -
  from assms show less: "br_in_flight b < max_concurrent_grpc_calls"
    by (auto simp: start_request_unfold split: if_splits)
  from assms less obtain r b2 where t: "take_grpc_request env b = Some (r, b2)"
    by (auto simp: start_request_unfold bind_eq_Some_conv)
  from assms less t have "br_in_flight b1 = br_in_flight b2 + 1"
    by (auto simp: start_request_unfold split: gores.splits option.splits)
  with quietD [OF calls.quiet_take_grpc_request t] show "br_in_flight b1 = br_in_flight b + 1"
    by (simp add: calls_of_def)
qed

interpretation starting: op_loop "start_request env" "\<lambda>started. started" "\<lambda>i :: unit. start_loop env" "\<lambda>i. i"
    "\<lambda>i x. ()" "fit env" "\<lambda>b. max_concurrent_grpc_calls - br_in_flight b"
  for env :: "'m bridge_env"
proof (unfold_locales, goal_cases)
  case (1 i b)
  show ?case by (rule start_loop.simps)
next
  case (2 b)
  from returnsD [OF take_grpc_request_returns 2] obtain r b1 where "take_grpc_request env b = Some (r, b1)"
    by force
  then show ?case by (cases r) (auto simp: start_request_unfold split: option.split)
next
  case (3 b x b1)
  then have "start_request env b = Some (Ok True, b1)" by simp
  from start_request_continues [OF this] op_okD(1) [OF fit_ok [OF start_request_ok] 3(1,2)]
  show ?case by simp
qed

lemma receive_loop_progress:
  assumes "receive_loop env progressed b = Some (Ok q, b1)"
  shows "pending b1 \<le> pending b \<and> (q \<and> \<not> progressed \<longrightarrow> pending b1 < pending b)"
proof -
  have "\<forall>q. fst y = Ok q \<longrightarrow> pending (snd y) \<le> pending b \<and> (q \<and> \<not> progressed \<longrightarrow> pending (snd y) < pending b)"
    if "receive_loop env progressed b = Some y" for progressed y and b :: "'a bridge"
  proof (rule receive_loop.raw_induct [OF _ that, where P = "\<lambda>env progressed b y. \<forall>q. fst y = Ok q \<longrightarrow>
      pending (snd y) \<le> pending b \<and> (q \<and> \<not> progressed \<longrightarrow> pending (snd y) < pending b)"], goal_cases)
    case (1 loop env progressed b y)
    from 1(2) obtain r b1 where r: "receive_response env b = Some (r, b1)"
      "(case r of Ok received \<Rightarrow> if received then loop env True b1 else Some (Ok progressed, b1)
        | Err e \<Rightarrow> Some (Err e, b1) | Panic p \<Rightarrow> Some (Panic p, b1)) = Some y"
      by (auto simp: bind_eq_Some_conv)
    show ?case
    proof (cases "r = Ok True")
      case True
      with r(2) 1(1) have "\<forall>q. fst y = Ok q \<longrightarrow> pending (snd y) \<le> pending b1" by fastforce
      with receive_response_continues(2) [OF r(1) [unfolded True]] show ?thesis
        using order_le_less_trans by (metis order_less_imp_le)
    next
      case False
      then show ?thesis
        using r receive_response_stops [of env b b1] by (cases r) auto
    qed
  qed
  from this [OF assms] show ?thesis by simp
qed

section \<open>Steps return\<close>

lemma drive_once_returns: "returns (fit env) (drive_once env call)"
proof -
  have "returns (fit env) (pump_grpc env)"
    unfolding pump_grpc_def
    by (rule returns_bind [OF returnsI [OF receiving.loop_returns] fit_ok [OF receive_loop_ok]], assumption,
        rule returns_bind [OF returnsI [OF starting.loop_returns] fit_ok [OF start_loop_ok]], assumption,
        rule always_returns [OF always_primitive(1)])
  then have "returns (fit env) (op_bind (pump_grpc env) (\<lambda>progressed. op_return (if progressed then None else Some x)))"
    for x :: step_result
    by (rule returns_bind [OF _ fit_ok [OF pump_grpc_ok] always_returns [OF always_primitive(1)]])
  then show ?thesis
    unfolding drive_once_def
    by (intro returns_bind [OF drain_and_take_returns fit_ok [OF drain_and_take_ok]])
      (auto intro!: always_returns [OF always_primitive(1)] always_returns [OF always_primitive(2)]
        split: prod.split)
qed

lemma drive_once_continues:
  assumes "drive_once env call b = Some (Ok None, b1)"
  shows "pending b1 < pending b"
proof -
  from assms obtain x b2 where d: "drain_and_take env call b = Some (Ok x, b2)"
    and p: "(case x of (code, result) \<Rightarrow>
      if code = 0 then op_return (Some (result, True))
      else if code \<noteq> bridge_pending then op_fail (bridge_error result)
      else op_bind (pump_grpc env) (\<lambda>progressed. op_return (if progressed then None else Some ([], False))))
        b2 = Some (Ok None, b1)"
    unfolding drive_once_def op_bind_Some [of "drain_and_take env call"] by auto
  from p have "pump_grpc env b2 = Some (Ok True, b1)"
    by (cases x) (auto simp: op_bind_Some op_return_def op_fail_def split: if_splits)
  then obtain b3 where r: "receive_loop env False b2 = Some (Ok True, b3)" and
    s: "start_loop env b3 = Some (Ok (), b1)"
    by (auto simp: pump_grpc_def op_bind_Some op_return_def split: if_splits)
  have "pending b1 = pending b3"
    using quietD [OF incoming.quiet_start_loop s] by (simp add: incoming_def pending_def)
  moreover have "pending b2 = pending b"
    using pending_calls [OF quietD [OF calls.quiet_drain_and_take d]] by simp
  ultimately show ?thesis using receive_loop_progress [OF r] by simp
qed

interpretation driving: op_loop "drive_once env call" "\<lambda>x. x = None" "\<lambda>i :: unit. drive_operation_step env call"
    "\<lambda>i. i" "\<lambda>i. the" "fit env" pending
  for env :: "'m bridge_env" and call
proof (unfold_locales, goal_cases)
  case (1 i b)
  show ?case
    by (subst drive_operation_step.simps)
      (auto intro!: arg_cong [where f = "Option.bind (drive_once env call b)"] split: gores.split option.split)
next
  case (2 b)
  with returnsD [OF drive_once_returns] show ?case by blast
next
  case (3 b x b1)
  then have "drive_once env call b = Some (Ok None, b1)" by simp
  with drive_once_continues op_okD(1) [OF fit_ok [OF drive_once_ok] 3(1,2)] show ?case by blast
qed

lemma operation_step_returns: "returns (fit env) (operation_step env call)"
  unfolding operation_step_def
  by (rule returns_bind [OF always_returns [OF always_buffers(3)] ensure_output_fit returnsI])
    (rule driving.loop_returns)

lemma owner_run_returns: "returns (fit env) (owner_run env req)"
proof -
  have step: "returns (fit env) (step_value op)"
    if "returns (fit env) op" and "\<And>X. op_ok (sound X) op (\<lambda>_. sound X) (sound X)" for op :: "('a, step_result) owner_op"
    unfolding step_value_def
    by (rule returns_bind [OF that(1) fit_ok [OF that(2)]]) (auto intro: always_returns [OF always_primitive(1)] split: prod.split)
  have none: "always op \<Longrightarrow> returns (fit env) (no_value op)" for op :: "('a, unit) owner_op"
    unfolding no_value_def by (intro always_returns always_rules)
  have activity: "returns (fit env) (poll_activity_step env)"
  proof (rule returnsI)
    fix b
    assume "fit env b"
    from returnsD [OF operation_step_returns this, of TakePollActivity]
    show "poll_activity_step env b \<noteq> None" by (auto simp: poll_activity_step_def op_fail_def)
  qed
  have workflow: "returns (fit env) (poll_workflow_step env)"
  proof (rule returnsI)
    fix b
    assume "fit env b"
    from returnsD [OF operation_step_returns this, of TakePollWorkflow]
    show "poll_workflow_step env b \<noteq> None" by (auto simp: poll_workflow_step_def op_fail_def)
  qed
  have starts: "always (start_poll_activity env)" "always (start_poll_workflow env)"
    unfolding start_poll_activity_def start_poll_workflow_def
    by (auto intro!: always_rules always_call_for_error)
  have completion: "returns (fit env) (op_bind (take_completion env kind id') (\<lambda>ready. op_return (ReadyValue ready)))"
    for kind id'
    unfolding take_completion_def
    by (intro returns_bind [where Q = "\<lambda>_. fit env" and E = "fit env"] operation_step_returns
        fit_ok [OF operation_step_ok] op_ok_bind [OF fit_ok [OF operation_step_ok]])
      (auto intro!: always_returns [OF always_primitive(1)] op_ok_return split: prod.split)
  show ?thesis
    by (cases req) (auto simp: start_completion_def record_activity_heartbeat_def
        intro!: step none activity workflow starts completion poll_steps_ok operation_step_ok operation_step_returns always_with_input
          always_start_init always_call_for_error always_buffers)
qed

end
