(* ===== verification/Bridge_Properties.thy ===== *)
theory Bridge_Properties
  imports Bridge_Returns
begin

text \<open>
  What the bridge promises its clients (\<open>internal/corebridge/bridge.go\<close>), in every interleaving: the owner
  holds only its two buffers and counts the calls in flight, a request is answered, a trap of the module ends
  the bridge for good, and a shutdown gives the module's memory back.
\<close>

section \<open>Requests\<close>

lemma poison_done:
  "poison env cause b = (e, b') \<Longrightarrow>
     br_done b' = Some (case br_done b of None \<Rightarrow> e | Some e' \<Rightarrow> e') \<and> br_module b' = br_module b \<and> br_closing b'"
  by (auto simp: poison_def cancel_done_def signal_wake_def Let_def split: prod.splits option.splits)

lemma poison_error:
  "poison env cause b = (e, b') \<Longrightarrow> e = ErrJoin (cause # (case fst (close_host (en_close env) (br_host b)) of
     None \<Rightarrow> [] | Some c \<Rightarrow> [c]))"
  by (auto simp: poison_def Let_def errors_join_def split: prod.splits option.splits)

lemma close_host_error: "fst (close_host answer h) = Some c \<Longrightarrow> answer = Some c"
  by (auto simp: close_host_def split: if_splits)

lemma owner_call_cases:
  assumes "owner_call env serves req b = Some (r, b')"
  obtains (refused) e where "r = Inl e" "b' = b"
  | (gives) v where "owner_run env req b = Some (Ok v, b')" "r = Inr v"
  | (fails) e where "owner_run env req b = Some (Err e, b')" "r = Inl e"
  | (traps) p b1 e where "owner_run env req b = Some (Panic p, b1)"
      "poison env (new_bridge_panic_error (en_stack env) p) b1 = (e, b')" "r = Inl e"
proof -
  have "(\<exists>e. r = Inl e \<and> b' = b) \<or> run_owner_request env req b = Some (r, b')"
    using assms by (auto simp: owner_call_def owner_serve_def split: option.splits if_splits)
  then show ?thesis
  proof
    assume "run_owner_request env req b = Some (r, b')"
    then obtain q b1 where q: "owner_run env req b = Some (q, b1)" and
      rest: "(case q of Ok v \<Rightarrow> Some (Inr v, b1) | Err e \<Rightarrow> Some (Inl e, b1)
        | Panic p \<Rightarrow> (case poison env (new_bridge_panic_error (en_stack env) p) b1 of (e, b2) \<Rightarrow> Some (Inl e, b2))) =
        Some (r, b')"
      by (auto simp: run_owner_request_def bind_eq_Some_conv)
    show ?thesis
      by (cases q) (use q rest gives fails traps in \<open>auto split: prod.splits\<close>)
  qed (use refused in blast)
qed

lemma owner_call_done:
  assumes "owner_call env serves req b = Some (r, b')"
  shows "br_done b = Some e \<Longrightarrow> br_done b' = Some e"
  using assms
proof (cases rule: owner_call_cases)
  case (traps p b1 e')
  with ended.quiet_owner_run [THEN quietD, OF traps(1)] poison_done [OF traps(2)]
  show "br_done b = Some e \<Longrightarrow> br_done b' = Some e" by simp
next
  case (gives v)
  with ended.quiet_owner_run [THEN quietD, OF gives(1)] show "br_done b = Some e \<Longrightarrow> br_done b' = Some e" by simp
next
  case (fails e')
  with ended.quiet_owner_run [THEN quietD, OF fails(1)] show "br_done b = Some e \<Longrightarrow> br_done b' = Some e" by simp
qed simp

lemma owner_call_sound:
  assumes "owner_call env serves req b = Some (r, b')" and "sound {#} b" and "br_done b' = None"
  shows "sound {#} b'"
  using assms(1)
proof (cases rule: owner_call_cases)
  case refused
  with assms(2) show ?thesis by simp
next
  case gives
  with op_okD(1) [OF owner_run_ok assms(2)] show ?thesis by blast
next
  case fails
  with op_okD(2) [OF owner_run_ok assms(2)] show ?thesis by blast
next
  case (traps p b1 e)
  with poison_done [OF traps(2)] assms(3) show ?thesis by simp
qed

section \<open>Interleavings\<close>

lemma bridge_step_done: "bridge_step env b b' \<Longrightarrow> br_done b = Some e \<Longrightarrow> br_done b' = Some e"
proof (induction rule: bridge_step.induct)
  case (serve serves req b r b')
  then show ?case using owner_call_done by blast
next
  case (deliver b i)
  then show ?case using ended.view_deliver by metis
qed (auto simp: next_completion_operation_id_def begin_shutdown_def finish_shutdown_def signal_wake_def
    cancel_done_def Let_def split: prod.splits)

lemma sound_frame [simp]:
  "sound X (b\<lparr>br_last_id := i\<rparr>) = sound X b" "sound X (b\<lparr>br_closing := c\<rparr>) = sound X b"
  "sound X (b\<lparr>br_grpc_cancelled := g\<rparr>) = sound X b" "sound X (b\<lparr>br_arrivals := xs\<rparr>) = sound X b"
  "sound X (b\<lparr>br_host := h\<rparr>) = sound X b" "sound X (b\<lparr>br_done := d\<rparr>) = sound X b"
  by (simp_all add: sound_def held_def counted_def)

lemma bridge_step_sound:
  assumes "bridge_step env b b'" and "sound {#} b" and "br_done b' = None"
  shows "sound {#} b'"
  using assms
proof (induction rule: bridge_step.induct)
  case (serve serves req b r b')
  then show ?case by (blast intro: owner_call_sound)
next
  case (deliver b i)
  then show ?case by (simp add: deliver_response_sound)
next
  case (take_id b)
  then show ?case by (simp add: next_completion_operation_id_def)
next
  case (begins b)
  then show ?case by (simp add: begin_shutdown_def)
next
  case (finishes b err release_err)
  then show ?case by (simp add: finish_shutdown_def cancel_done_def Let_def split: prod.split)
next
  case (schedule b arrivals)
  then show ?case by simp
qed

lemma initial_bridge_sound: "sound {#} (initial_bridge m h arrivals)"
  by (simp add: sound_def held_def counted_def initial_bridge_def output_size_def)

lemma reachable_sound: "bridge_reachable env b \<Longrightarrow> br_done b = None \<Longrightarrow> sound {#} b"
proof (induction rule: bridge_reachable.induct)
  case (start m h arrivals)
  show ?case by (rule initial_bridge_sound)
next
  case (step b b')
  have "br_done b = None" using bridge_step_done [OF step.hyps(2)] step.prems by (cases "br_done b") auto
  with step bridge_step_sound show ?case by blast
qed

section \<open>A small module\<close>

text \<open>
  A module with sixteen bytes of memory whose allocator always answers the same place; \<open>answer\<close> is the result
  of its exports.
\<close>

definition small_core :: "(core_call \<Rightarrow> 32 word \<Rightarrow> string + 64 word) \<Rightarrow> memory core_module" where
  "small_core answer =
     \<lparr>cm_memory = (\<lambda>m. m), cm_write = (\<lambda>new m. new), cm_alloc = (\<lambda>len m. (Inr 0, m)),
      cm_dealloc = (\<lambda>ptr len m. (None, m)), cm_call = (\<lambda>call ptr capacity m. (answer call capacity, m))\<rparr>"

definition no_invoke :: "bool \<Rightarrow> grpc_invocation \<Rightarrow> invoke_result" where
  "no_invoke cancelled call =
     \<lparr>ir_status = Some (local_status 14 ''unavailable''), ir_header = [], ir_trailer = [], ir_output = []\<rparr>"

definition small_env :: "(core_call \<Rightarrow> 32 word \<Rightarrow> string + 64 word) \<Rightarrow> memory bridge_env" where
  "small_env answer =
     \<lparr>en_core = small_core answer, en_unmarshal = (\<lambda>bs. Inl (ErrNew ''malformed'')), en_size = (\<lambda>w. 0),
      en_marshal = (\<lambda>w. Inr []), en_md = \<lparr>ml_append = (\<lambda>m k v. m), ml_set = (\<lambda>m k v. m), ml_get = (\<lambda>m k. []),
      ml_delete = (\<lambda>m k. m), ml_copy = (\<lambda>m. m)\<rparr>, en_invoke = no_invoke, en_close = None,
      en_stack = ''stack''\<rparr>"

definition all_well :: "core_call \<Rightarrow> 32 word \<Rightarrow> string + 64 word" where
  "all_well call capacity = Inr 0"

definition trap_on_heartbeat :: "core_call \<Rightarrow> 32 word \<Rightarrow> string + 64 word" where
  "trap_on_heartbeat call capacity = (case call of RecordHeartbeat p n \<Rightarrow> Inl ''unreachable'' | _ \<Rightarrow> Inr 0)"

definition small_bridge :: "memory bridge" where
  "small_bridge = initial_bridge (replicate 16 0)
     \<lparr>gh_open = True, gh_authorization = [], gh_cancels = 0, gh_closes = 0\<rparr> []"

lemma heartbeat_recorded:
  "map_option (\<lambda>(r, b). (r, br_done b, br_error b, br_output b))
     (owner_call (small_env all_well) True (AskHeartbeat [1, 2]) small_bridge) =
   Some (Inr NoValue, None, \<lparr>bb_ptr = 0, bb_capacity = 65536\<rparr>, no_buffer)"
  by (simp add: small_bridge_def owner_call_def owner_serve_def allow_closed_def operation_err_def initial_bridge_def
      run_owner_request_def no_value_def record_activity_heartbeat_def with_input_def checked_bridge_input_len_def
      max_bridge_message_size_def copy_in_def op_bind_def op_defer_def op_lift_def op_return_def op_get_def
      op_modify_def core_alloc_def core_dealloc_def core_export_def copy_into_def small_env_def small_core_def
      all_well_def ensure_error_scratch_def error_scratch_capacity_def require_success_def op_unpack_def
      unpack_result_def bridge_buffer_too_small_def Let_def overwrite_def)

section \<open>The owner's books\<close>

text \<open>
  C8. While a bridge is not done, in every interleaving of requests, deliveries and a shutdown: the blocks of the
  module's memory the owner holds are exactly its two scratch buffers, so no block leaks and none is freed twice;
  the output buffer is absent or between 64 KiB and 64 MiB, the error buffer absent or 64 KiB; at most 64 calls
  are in flight, which covers the calls still running and the responses not yet received, so that a response is
  never received with no call in flight.
\<close>

theorem bridge_books_balance:
  assumes "bridge_reachable env b" and "br_done b = None"
  shows "br_blocks b = blocks_of (br_output b) + blocks_of (br_error b) \<and> br_stray b = 0 \<and>
    (bb_capacity (br_output b) = 0 \<or>
      65536 \<le> bb_capacity (br_output b) \<and> bb_capacity (br_output b) \<le> 67108864) \<and>
    bb_capacity (br_error b) \<in> {0, 65536} \<and>
    br_in_flight b \<le> 64 \<and> length (br_outstanding b) + length (br_responses b) \<le> br_in_flight b \<and>
    (br_responses b \<noteq> [] \<longrightarrow> br_in_flight b \<noteq> 0)"
proof -
  from reachable_sound [OF assms] have h: "held {#} b" and c: "counted b" by (simp_all add: sound_def)
  from h show ?thesis
    using c response_has_call [OF c]
    by (auto simp: held_def counted_def output_size_def initial_output_capacity_def max_bridge_message_size_def
        error_scratch_capacity_def max_concurrent_grpc_calls_def)
qed

lemma bridge_books_balance_witness:
  "\<exists>b. owner_call (small_env all_well) True (AskHeartbeat [1, 2]) small_bridge = Some (Inr NoValue, b) \<and>
     br_blocks b = {#(0, 65536)#} \<and> br_stray b = 0"
proof -
  from heartbeat_recorded obtain b where
    b: "owner_call (small_env all_well) True (AskHeartbeat [1, 2]) small_bridge = Some (Inr NoValue, b)"
    "br_done b = None" "br_error b = \<lparr>bb_ptr = 0, bb_capacity = 65536\<rparr>" "br_output b = no_buffer" by auto
  have "bridge_reachable (small_env all_well) b"
    by (rule bridge_reachable.step [OF _ bridge_step.serve [OF b(1)]])
      (simp add: small_bridge_def bridge_reachable.start)
  from bridge_books_balance [OF this b(2)] b show ?thesis by (simp add: blocks_of_def)
qed

section \<open>Answers\<close>


text \<open>A module whose result for a take is too big for the first buffer.\<close>

definition big_answer :: "core_call \<Rightarrow> 32 word \<Rightarrow> string + 64 word" where
  "big_answer call capacity =
     (if call = TakeInit \<and> capacity < 100000 then Inr 8590034592 else Inr 0)"

lemma big_answer_honest: "honest (small_env big_answer)"
proof -
  have number: "(8590034592 :: 32 word) = 100000" by code_simp
  have "c < 8590034592" if "c < 100000" for c :: "32 word" by (subst number) (rule that)
  moreover have "ucast (drop_bit 32 (0 :: 64 word)) \<noteq> bridge_buffer_too_small"
    by (simp add: bridge_buffer_too_small_def)
  ultimately show ?thesis
    by (auto simp: honest_def small_env_def small_core_def big_answer_def split: if_splits)
qed


text \<open>A module that asks for no more than it was offered keeps the owner in \<open>takeWithRetry\<close> for ever.\<close>

definition stuck_answer :: "core_call \<Rightarrow> 32 word \<Rightarrow> string + 64 word" where
  "stuck_answer call capacity = Inr 8589934593"

lemma stuck_next_capacity: "next_bridge_buffer_capacity 65536 1 = Inr 65536"
  by (simp add: next_bridge_buffer_capacity_def max_bridge_message_size_def initial_output_capacity_def
      double_capacity.simps)

lemma stuck_take_once:
  assumes "bb_capacity (br_output b) = 65536"
  shows "\<exists>b1. take_once (small_env stuck_answer) call b = Some (Ok None, b1) \<and> bb_capacity (br_output b1) = 65536"
proof -
  have w: "(8589934593 :: 32 word) = 1" by code_simp
  show ?thesis
    by (simp add: take_once_def op_bind_def op_get_def core_export_def small_env_def small_core_def stuck_answer_def
        op_unpack_def unpack_result_def w bridge_buffer_too_small_def op_lift_def op_return_def
        grow_output_scratch_def stuck_next_capacity assms resize_output_scratch_def core_alloc_def core_dealloc_def
        op_modify_def)
qed

lemma stuck_module_hangs:
  assumes "bb_capacity (br_output b) = 65536"
  shows "take_loop (small_env stuck_answer) call b = None"
proof (rule ccontr)
  assume "take_loop (small_env stuck_answer) call b \<noteq> None"
  then obtain y where "take_loop (small_env stuck_answer) call b = Some y" by blast
  then have "small_env stuck_answer = small_env stuck_answer \<longrightarrow> bb_capacity (br_output b) \<noteq> 65536"
  proof (rule take_loop.raw_induct [where P = "\<lambda>env call b y. env = small_env stuck_answer \<longrightarrow>
      bb_capacity (br_output b) \<noteq> 65536", rotated], goal_cases)
    case (1 loop env call b y)
    show ?case
    proof (intro impI notI)
      assume env: "env = small_env stuck_answer" and cap: "bb_capacity (br_output b) = 65536"
      from stuck_take_once [OF cap, of call] obtain b1 where
        "take_once env call b = Some (Ok None, b1)" "bb_capacity (br_output b1) = 65536"
        unfolding env by blast
      with 1 env show False by auto
    qed
  qed
  with assms show False by simp
qed

section \<open>Traps\<close>

text \<open>
  C10. When the module traps under a request, the client is told the panic, the gRPC host is closed and the bridge
  is done for good: whatever happens afterwards, every request of every client is refused with the same error,
  and the module is never entered again.
\<close>

theorem trap_ends_bridge:
  assumes "owner_run env req b = Some (Panic p, b1)" and "br_done b = None"
    and "owner_call env serves req b = Some (r, b2)" and "operation_err b = None \<or> allow_closed req"
    and "\<forall>c. en_close env = Some c \<longrightarrow> \<not> err_is c bridge_shutting_down"
    and "(bridge_step env)\<^sup>*\<^sup>* b2 b3"
  shows "\<exists>es. r = Inl (ErrJoin (new_bridge_panic_error (en_stack env) p # es)) \<and>
    \<not> gh_open (br_host b2) \<and> br_module b3 = br_module b1 \<and>
    owner_call env serves' req' b3 = Some (Inl (ErrJoin (new_bridge_panic_error (en_stack env) p # es)), b3)"
proof -
  let ?panic = "new_bridge_panic_error (en_stack env) p"
  obtain e b2' where poisoned: "poison env ?panic b1 = (e, b2')" by force
  have "owner_call env serves req b = Some (Inl e, b2')"
    using assms(1,2,4) poisoned
    by (auto simp: owner_call_def owner_serve_def run_owner_request_def split: option.split)
  with assms(3) have r: "r = Inl e" and b2: "b2' = b2" by simp_all
  define es where "es = (case fst (close_host (en_close env) (br_host b1)) of None \<Rightarrow> [] | Some c \<Rightarrow> [c])"
  have e: "e = ErrJoin (?panic # es)" unfolding es_def by (rule poison_error [OF poisoned])
  have "\<not> err_is ?panic bridge_shutting_down" by (simp add: new_bridge_panic_error_def)
  then have final: "\<not> err_is e bridge_shutting_down"
    using assms(5) close_host_error [of "en_close env" "br_host b1"]
    by (cases "fst (close_host (en_close env) (br_host b1))") (auto simp: e es_def)
  have "br_done b1 = None" using ended.quiet_owner_run [THEN quietD, OF assms(1)] assms(2) by simp
  with poison_done [OF poisoned] have d: "br_done b2 = Some e" "br_module b2 = br_module b1" by (simp_all add: b2)
  have refused: "owner_call env s q x = Some (Inl e, x)" if "br_done x = Some e" for s q x
    using that final by (simp add: owner_call_def owner_serve_def operation_err_def closed_err_def)
  have "br_done b3 = Some e \<and> br_module b3 = br_module b2"
    using assms(6)
  proof (induction rule: rtranclp_induct)
    case (step x y)
    with bridge_step_done have y: "br_done y = Some e" by blast
    from step.hyps(2) have "br_module y = br_module x"
      by (cases rule: bridge_step.cases) (use step.IH refused in \<open>auto simp: deliver_response_def
        next_completion_operation_id_def begin_shutdown_def finish_shutdown_def signal_wake_def cancel_done_def Let_def
        split: prod.splits if_splits\<close>)
    with y step.IH show ?case by simp
  qed (simp add: d)
  moreover have "\<not> gh_open (br_host b2)"
    using poisoned by (auto simp: b2 [symmetric] poison_def close_host_def signal_wake_def cancel_done_def Let_def
        split: prod.splits if_splits)
  ultimately show ?thesis using refused d by (intro exI [of _ es]) (simp add: r e)
qed

lemma trap_reached:
  "\<exists>b1. owner_run (small_env trap_on_heartbeat) (AskHeartbeat [1, 2]) small_bridge = Some (Panic ''unreachable'', b1)"
  by (simp add: small_bridge_def initial_bridge_def no_value_def record_activity_heartbeat_def with_input_def
      checked_bridge_input_len_def max_bridge_message_size_def copy_in_def op_bind_def op_defer_def op_lift_def
      op_return_def op_get_def op_modify_def core_alloc_def core_dealloc_def core_export_def copy_into_def
      small_env_def small_core_def trap_on_heartbeat_def ensure_error_scratch_def error_scratch_capacity_def Let_def)

lemma trap_ends_bridge_witness:
  "\<exists>b2 es. owner_call (small_env trap_on_heartbeat) True (AskHeartbeat [1, 2]) small_bridge =
       Some (Inl (ErrJoin (new_bridge_panic_error ''stack'' ''unreachable'' # es)), b2) \<and>
     owner_call (small_env trap_on_heartbeat) False AskPollActivityStep (begin_shutdown b2) =
       Some (Inl (ErrJoin (new_bridge_panic_error ''stack'' ''unreachable'' # es)), begin_shutdown b2)"
proof -
  let ?env = "small_env trap_on_heartbeat"
  from trap_reached obtain b1 where
    b1: "owner_run ?env (AskHeartbeat [1, 2]) small_bridge = Some (Panic ''unreachable'', b1)" by blast
  have fresh: "br_done small_bridge = None" "operation_err small_bridge = None"
    by (simp_all add: small_bridge_def initial_bridge_def operation_err_def)
  obtain e b2 where "poison ?env (new_bridge_panic_error ''stack'' ''unreachable'') b1 = (e, b2)" by force
  with b1 fresh have c: "owner_call ?env True (AskHeartbeat [1, 2]) small_bridge = Some (Inl e, b2)"
    by (simp add: owner_call_def owner_serve_def allow_closed_def run_owner_request_def small_env_def)
  have steps: "(bridge_step ?env)\<^sup>*\<^sup>* b2 (begin_shutdown b2)" by (rule r_into_rtranclp) (rule bridge_step.begins)
  have close: "\<forall>c. en_close ?env = Some c \<longrightarrow> \<not> err_is c bridge_shutting_down" by (simp add: small_env_def)
  have stack: "en_stack ?env = ''stack''" by (simp add: small_env_def)
  from trap_ends_bridge [OF b1 fresh(1) c disjI1 [OF fresh(2)] close steps, of False AskPollActivityStep]
  show ?thesis using c unfolding stack by blast
qed

section \<open>Shutdown\<close>

lemma answered_not_done:
  "owner_call env serves req b = Some (Inr v, b') \<Longrightarrow> br_done b' = br_done b"
  by (erule owner_call_cases) (auto dest: ended.quiet_owner_run [THEN quietD])

lemma client_rounds_not_done:
  "client_rounds env req rds b = Some (Inr v, b') \<Longrightarrow> br_done b = None \<Longrightarrow>
   (\<And>rd. rd \<in> set rds \<Longrightarrow> br_done (rd_found rd) = None) \<Longrightarrow> br_done b' = None"
proof (induction rds arbitrary: b)
  case (Cons rd rds)
  from Cons.prems(1) obtain r b1 where c: "owner_call env (rd_serves rd) req b = Some (r, b1)" and
    rest: "(case r of Inl e \<Rightarrow> Some (Inl e, b1)
      | Inr v \<Rightarrow> (case ready_result v of Some result \<Rightarrow> Some (Inr result, b1)
        | None \<Rightarrow> (case wait_for_wake (rd_ctx_after rd) (rd_event rd) (allow_closed req) (rd_found rd) of
            Some e \<Rightarrow> Some (Inl e, rd_found rd) | None \<Rightarrow> client_rounds env req rds (rd_found rd)))) = Some (Inr v, b')"
    by (auto simp: bind_eq_Some_conv split: option.splits)
  then obtain w where w: "r = Inr w" by (auto split: sum.splits)
  with answered_not_done c Cons.prems(2) have "br_done b1 = None" by fastforce
  with rest w Cons.IH [of "rd_found rd"] Cons.prems(3) show ?case by (auto split: option.splits)
qed simp

lemma client_rounds_sound:
  "client_rounds env req rds b = Some (Inr v, b') \<Longrightarrow> br_done b = None \<Longrightarrow> sound {#} b \<Longrightarrow>
   (\<And>rd. rd \<in> set rds \<Longrightarrow> br_done (rd_found rd) = None \<and> sound {#} (rd_found rd)) \<Longrightarrow> sound {#} b'"
proof (induction rds arbitrary: b)
  case (Cons rd rds)
  from Cons.prems(1) obtain r b1 where c: "owner_call env (rd_serves rd) req b = Some (r, b1)" and
    rest: "(case r of Inl e \<Rightarrow> Some (Inl e, b1)
      | Inr v \<Rightarrow> (case ready_result v of Some result \<Rightarrow> Some (Inr result, b1)
        | None \<Rightarrow> (case wait_for_wake (rd_ctx_after rd) (rd_event rd) (allow_closed req) (rd_found rd) of
            Some e \<Rightarrow> Some (Inl e, rd_found rd) | None \<Rightarrow> client_rounds env req rds (rd_found rd)))) = Some (Inr v, b')"
    by (auto simp: bind_eq_Some_conv split: option.splits)
  then obtain w where w: "r = Inr w" by (auto split: sum.splits)
  with answered_not_done c Cons.prems(2) have "br_done b1 = None" by fastforce
  with owner_call_sound [OF c Cons.prems(3)] have "sound {#} b1" .
  with rest w Cons.IH [of "rd_found rd"] Cons.prems(4) show ?case by (auto split: option.splits)
qed simp

text \<open>
  A shutdown that reports no error has given back both buffers and closed the host, and the bridge refuses every
  later request as shutting down.
\<close>

lemma shutdown_releases:
  assumes "shutdown env serves rds b = Some (None, b')" and "br_done b = None" and "sound {#} b"
    and "\<And>rd. rd \<in> set rds \<Longrightarrow> br_done (rd_found rd) = None \<and> sound {#} (rd_found rd)"
  shows "br_blocks b' = {#}" and "br_done b' = Some err_bridge_shutting_down" and "\<not> gh_open (br_host b')"
proof -
  from assms(1) obtain r b1 release_err b2 where
    s: "start_and_drive env serves AskStartShutdown AskTakeShutdown rds (begin_shutdown b) = Some (r, b1)" and
    rel: "release_if_alive env serves b1 = Some (release_err, b2)" and
    fin: "finish_shutdown env (error_of r) release_err b2 = (None, b')"
    by (auto simp: shutdown_def bind_eq_Some_conv)
  obtain close_err h where h: "close_host (en_close env) (br_host b2) = (close_err, h)" by force
  with fin have join: "errors_join [error_of r, release_err, close_err] = None" by (simp add: finish_shutdown_def Let_def)
  from fin [unfolded finish_shutdown_def h prod.case Let_def join]
  have b': "b' = signal_wake (cancel_done err_bridge_shutting_down
      (b2\<lparr>br_host := snd (close_host (en_close env) (br_host b2))\<rparr>))" by (simp add: h)
  from join have none: "error_of r = None" "release_err = None" by simp_all
  obtain v where v: "r = Inr v" using none(1) by (cases r) (simp_all add: error_of_def)
  from s v obtain q b0 where q: "owner_call env serves AskStartShutdown (begin_shutdown b) = Some (q, b0)"
    "(case q of Inl e \<Rightarrow> Some (Inl e, b0) | Inr v \<Rightarrow> client_rounds env AskTakeShutdown rds b0) = Some (Inr v, b1)"
    by (auto simp: start_and_drive_def bind_eq_Some_conv)
  then obtain w where w': "q = Inr w" by (cases q) auto
  note w = q(1) [unfolded w']
  have rounds: "client_rounds env AskTakeShutdown rds b0 = Some (Inr v, b1)" using q(2) by (simp add: w')
  have begun: "br_done (begin_shutdown b) = None" "sound {#} (begin_shutdown b)"
    using assms(2,3) by (simp_all add: begin_shutdown_def) (simp add: signal_wake_def)
  have d0: "br_done b0 = None" using answered_not_done [OF w] begun by simp
  have d1: "br_done b1 = None" using client_rounds_not_done [OF rounds d0] assms(4) by blast
  have s1: "sound {#} b1"
    by (rule client_rounds_sound [OF rounds d0 owner_call_sound [OF w begun(2) d0]]) (rule assms(4))
  from rel d1 obtain z where z: "owner_call env serves AskReleaseScratch b1 = Some (z, b2)" "error_of z = release_err"
    by (auto simp: release_if_alive_def)
  then obtain u where u': "z = Inr u" using none(2) by (cases z) (simp_all add: error_of_def)
  note u = z(1) [unfolded u']
  have d2: "br_done b2 = None" using answered_not_done [OF u] d1 by simp
  from u have "owner_run env AskReleaseScratch b1 = Some (Ok u, b2)" by (cases rule: owner_call_cases) auto
  then have "release_scratch env b1 = Some (Ok (), b2)"
    by (auto simp: no_value_def op_bind_Some op_return_def)
  from op_okD(1) [OF release_scratch_ok s1 this] have "br_blocks b2 = {#}" by blast
  then show "br_blocks b' = {#}" "br_done b' = Some err_bridge_shutting_down" "\<not> gh_open (br_host b')"
    using d2 by (auto simp: b' signal_wake_def cancel_done_def close_host_def)
qed

lemma done_refuses:
  "operation_err b = Some e \<Longrightarrow> \<not> allow_closed req \<Longrightarrow> owner_call env serves req b = Some (Inl e, b)"
  by (simp add: owner_call_def)

section \<open>Identifiers and wake-ups\<close>

lemma completion_ids_fresh:
  assumes "next_completion_operation_id b = (Inr i, b')"
  shows "br_last_id b < i \<and> br_last_id b' = i"
proof -
  have "x < x + 1" if "x \<noteq> - 1" for x :: "64 word"
  proof -
    have "unat x \<noteq> unat (- 1 :: 64 word)" using that by (metis word_unat_eq_iff)
    moreover have "unat (- 1 :: 64 word) = 2 ^ 64 - 1" by (simp add: unsigned_minus_1_eq_mask mask_eq_exp_minus_1)
    ultimately have "unat x \<noteq> 2 ^ 64 - 1" by metis
    moreover have "unat x < 2 ^ 64" using unsigned_less [of x, where 'a = nat] by simp
    ultimately have "unat x + 1 < 2 ^ 64" by simp
    then show ?thesis by (simp add: word_less_nat_alt unat_word_ariths)
  qed
  with assms show ?thesis by (auto simp: next_completion_operation_id_def split: if_splits)
qed

lemma completion_ids_run_out:
  "br_last_id b = - 1 \<Longrightarrow> next_completion_operation_id b = (Inl (ErrNew ''completion operation IDs exhausted''), b)"
  by (simp add: next_completion_operation_id_def)

text \<open>A client that took the wake channel before a response was delivered does not wait for it.\<close>

lemma delivery_wakes:
  assumes "br_responses (deliver_response env i now) \<noteq> br_responses now" and "br_wakes taken \<le> br_wakes now"
  shows "wake_ready taken (deliver_response env i now)"
  using assms by (auto simp: wake_ready_def deliver_response_def signal_wake_def split: if_splits)

section \<open>Messages\<close>

text \<open>
  A module that allocates inside its memory finds there, when it is called, exactly the bytes it is sent.
\<close>

lemma copy_in_delivers:
  assumes "copy_in env bytes b = Some (Ok ptr, b')"
    and "\<And>m m'. cm_memory (en_core env) (cm_write (en_core env) m m') = m"
    and "\<And>len m ptr m'. cm_alloc (en_core env) len m = (Inr ptr, m') \<Longrightarrow>
      unat ptr + unat len \<le> length (cm_memory (en_core env) m')"
  shows "slice (cm_memory (en_core env) (br_module b')) (unat ptr, unat ptr + length bytes) = bytes"
proof -
  from assms(1) obtain len b1 where len: "checked_bridge_input_len (length bytes) = Inr len"
    and alloc: "core_alloc env len b = Some (Ok ptr, b1)" and copy: "copy_into env ptr bytes b1 = Some (Ok (), b')"
    by (auto simp: copy_in_def op_bind_Some op_lift_def op_return_def op_fail_def split: sum.splits)
  have n: "unat len = length bytes"
    using checked_len_Inr [OF len] by (auto simp: unat_of_nat max_bridge_message_size_def)
  from alloc assms(3) have "unat ptr + unat len \<le> length (cm_memory (en_core env) (br_module b1))"
    by (auto simp: core_alloc_def split: prod.splits sum.splits)
  with copy n assms(2) show ?thesis
    by (auto simp: copy_into_def Let_def slice_def overwrite_def split: if_splits)
qed

end
