(* ===== verification/Bridge_Clients.thy ===== *)
theory Bridge_Clients
  imports Bridge_Properties
begin

text \<open>
  The client loops of the bridge (\<open>internal/corebridge/bridge.go\<close>): no wake-up is lost, a poll ends once its
  context or the bridge does, and a shutdown without error has given everything back.
\<close>

section \<open>Wake-ups\<close>

text \<open>The number of wake channels closed never falls.\<close>

definition wakes_grow :: "('m, 'a) owner_op \<Rightarrow> bool" where
  "wakes_grow op \<longleftrightarrow> (\<forall>b r b'. op b = Some (r, b') \<longrightarrow> br_wakes b \<le> br_wakes b')"

lemma wakes_growI: "(\<And>b r b'. op b = Some (r, b') \<Longrightarrow> br_wakes b \<le> br_wakes b') \<Longrightarrow> wakes_grow op"
  by (simp add: wakes_grow_def)

lemma wakes_growD: "wakes_grow op \<Longrightarrow> op b = Some (r, b') \<Longrightarrow> br_wakes b \<le> br_wakes b'"
  by (simp add: wakes_grow_def)

lemma wakes_grow_quiet: "quiet br_wakes op \<Longrightarrow> wakes_grow op"
  by (rule wakes_growI) (simp add: quietD)

lemma wakes_grow_bind: "wakes_grow m \<Longrightarrow> (\<And>a. wakes_grow (f a)) \<Longrightarrow> wakes_grow (op_bind m f)"
  by (rule wakes_growI) (auto simp: op_bind_Some; metis wakes_growD order_trans)

lemma wakes_round:
  assumes "wakes_grow once" and "Option.bind (once b) k = Some y"
    and "\<And>r b1. k (r, b1) = Some y \<Longrightarrow> br_wakes b1 \<le> br_wakes (snd y)"
  shows "br_wakes b \<le> br_wakes (snd y)"
proof -
  from assms(2) obtain r b1 where "once b = Some (r, b1)" "k (r, b1) = Some y" by (auto simp: bind_eq_Some_conv)
  with wakes_growD [OF assms(1)] assms(3) show ?thesis by (metis order_trans)
qed

interpretation wakes: callers "br_wakes :: 'm bridge \<Rightarrow> nat"
  by unfold_locales simp_all

lemma wakes_deliver: "br_wakes b \<le> br_wakes (deliver_response env i b)"
  by (simp add: deliver_response_def signal_wake_def)

lemma wakes_arrive: "br_wakes b \<le> br_wakes (arrive env b)"
proof -
  have "br_wakes b \<le> br_wakes (fold (deliver_response env) js b)" for js and b :: "'a bridge"
    by (induction js arbitrary: b) (auto intro: order_trans wakes_deliver)
  from this [of "b\<lparr>br_arrivals := tl (br_arrivals b)\<rparr>"] show ?thesis
    by (auto simp: arrive_def split: list.split)
qed

lemma wakes_receive_response: "wakes_grow (receive_response env)"
proof (rule wakes_growI)
  fix b :: "'a bridge" and r b'
  assume run: "receive_response env b = Some (r, b')"
  have "quiet br_wakes (op_bind (op_lift (cp_answer q)) (\<lambda>answer.
      op_bind (complete_grpc_request env (cp_id q) answer) (\<lambda>_. op_return True)))" for q :: core_response
    unfolding complete_grpc_request_def by (intro quiet_rules wakes.quiet_with_input)
  note inner = quietD [OF this]
  have "br_wakes b' = br_wakes (arrive env b)"
    using run by (auto simp: receive_response_unfold Let_def dest!: inner split: list.splits if_splits)
  with wakes_arrive [of b env] show "br_wakes b \<le> br_wakes b'" by simp
qed

lemma wakes_receive_loop: "wakes_grow (receive_loop env progressed)"
proof -
  have "br_wakes b \<le> br_wakes (snd y)" if "receive_loop env progressed b = Some y" for progressed y and b :: "'a bridge"
  proof (rule receive_loop.raw_induct [OF _ that, where P = "\<lambda>env progressed b y. br_wakes b \<le> br_wakes (snd y)"],
      goal_cases)
    case (1 loop env progressed b y)
    show ?case
      by (rule wakes_round [OF wakes_receive_response 1(2)]) (use 1(1) in \<open>auto split: gores.splits if_splits\<close>)
  qed
  then show ?thesis by (intro wakes_growI) fastforce
qed

lemma wakes_drive_once: "wakes_grow (drive_once env call)"
proof -
  have "wakes_grow (pump_grpc env)" for env :: "'a bridge_env"
    unfolding pump_grpc_def
    by (intro wakes_grow_bind wakes_receive_loop wakes_grow_quiet [OF wakes.quiet_start_loop]
        wakes_grow_quiet [OF quiet_return])
  then show ?thesis
    unfolding drive_once_def
    by (intro wakes_grow_bind wakes_grow_quiet [OF wakes.quiet_drain_and_take])
      (auto intro!: wakes_grow_bind wakes_grow_quiet [OF quiet_return] wakes_grow_quiet [OF quiet_fail] split: prod.split)
qed

lemma wakes_drive: "wakes_grow (drive_operation_step env call)"
proof -
  have "br_wakes b \<le> br_wakes (snd y)" if "drive_operation_step env call b = Some y" for y and b :: "'a bridge"
  proof (rule drive_operation_step.raw_induct [OF _ that, where P = "\<lambda>env call b y. br_wakes b \<le> br_wakes (snd y)"],
      goal_cases)
    case (1 loop env call b y)
    show ?case
      by (rule wakes_round [OF wakes_drive_once 1(2)]) (use 1(1) in \<open>auto split: gores.splits option.splits\<close>)
  qed
  then show ?thesis by (intro wakes_growI) fastforce
qed

lemma wakes_operation_step: "wakes_grow (operation_step env call)"
  unfolding operation_step_def
  by (intro wakes_grow_bind wakes_grow_quiet [OF wakes.quiet_ensure_output] wakes_drive)

lemma wakes_owner_run: "wakes_grow (owner_run env req)"
proof -
  have polls: "wakes_grow (poll_activity_step env)" "wakes_grow (poll_workflow_step env)"
    by (rule wakes_growI; auto simp: poll_activity_step_def poll_workflow_step_def op_fail_def bind_eq_Some_conv
        dest: wakes_growD [OF wakes_operation_step] split: if_splits)+
  have step: "wakes_grow op \<Longrightarrow> wakes_grow (step_value op)" for op :: "('a, step_result) owner_op"
    unfolding step_value_def by (auto intro!: wakes_grow_bind wakes_grow_quiet [OF quiet_return] split: prod.split)
  have none: "quiet br_wakes op \<Longrightarrow> wakes_grow (no_value op)" for op :: "('a, unit) owner_op"
    unfolding no_value_def by (intro wakes_grow_quiet quiet_rules)
  have starts: "quiet br_wakes (start_poll_activity env)" "quiet br_wakes (start_poll_workflow env)"
    unfolding start_poll_activity_def start_poll_workflow_def
    by (auto intro!: quiet_rules wakes.quiet_call_for_error)
  have completion: "wakes_grow (op_bind (take_completion env kind id') (\<lambda>ready. op_return (ReadyValue ready)))" for kind id'
    unfolding take_completion_def
    by (auto intro!: wakes_grow_bind wakes_operation_step wakes_grow_quiet [OF quiet_return] split: prod.split)
  show ?thesis
    by (cases req) (auto simp: start_completion_def record_activity_heartbeat_def intro!: step none polls starts completion
        wakes_operation_step wakes.quiet_with_input wakes.quiet_init wakes.quiet_call_for_error wakes.quiet_release)
qed

lemma wakes_step: "bridge_step env b b' \<Longrightarrow> br_wakes b \<le> br_wakes b'"
proof (induction rule: bridge_step.induct)
  case (serve serves req b r b')
  then show ?case
  proof (cases rule: owner_call_cases)
    case (traps p b1 e)
    with wakes_growD [OF wakes_owner_run traps(1)] show ?thesis
      by (auto simp: poison_def signal_wake_def cancel_done_def Let_def split: prod.splits)
  qed (auto dest: wakes_growD [OF wakes_owner_run])
next
  case (deliver b i)
  show ?case by (rule wakes_deliver)
qed (auto simp: next_completion_operation_id_def begin_shutdown_def finish_shutdown_def signal_wake_def
    cancel_done_def Let_def split: prod.splits)

lemma wakes_steps: "(bridge_step env)\<^sup>*\<^sup>* b b' \<Longrightarrow> br_wakes b \<le> br_wakes b'"
  by (induction rule: rtranclp_induct) (auto intro: order_trans wakes_step)

text \<open>
  A client takes the wake channel before it asks the owner. Whatever happens between that and its wait, a
  response delivered or a shutdown begun or ended in the meantime ends the wait at once.
\<close>

lemma no_lost_wakeup:
  assumes "(bridge_step env)\<^sup>*\<^sup>* taken b" and "(bridge_step env)\<^sup>*\<^sup>* b' now"
    and "br_responses b \<noteq> br_responses b' \<and> b' = deliver_response env i b \<or> b' = begin_shutdown b \<or>
      b' = snd (finish_shutdown env err release_err b)"
  shows "wake_ready taken now"
proof -
  have "br_wakes b < br_wakes b'"
    using assms(3) by (auto simp: deliver_response_def begin_shutdown_def finish_shutdown_def signal_wake_def
        cancel_done_def Let_def split: prod.splits if_splits)
  with wakes_steps [OF assms(1)] wakes_steps [OF assms(2)] show ?thesis by (simp add: wake_ready_def)
qed

section \<open>Polls end\<close>

text \<open>A round after which there is something to end the loop for.\<close>

definition over :: "'m round \<Rightarrow> bool" where
  "over rd \<longleftrightarrow> (\<exists>e. rd_event rd = ContextDone e) \<or> rd_ctx_after rd \<noteq> None \<or> operation_err (rd_found rd) \<noteq> None"

lemma over_stops: "over rd \<Longrightarrow> \<exists>e. wait_for_wake (rd_ctx_after rd) (rd_event rd) False (rd_found rd) = Some e"
  by (cases "rd_event rd") (auto simp: over_def wait_for_wake_def operation_err_def Let_def split: option.splits)

lemma request_returns:
  assumes "honest env" and "bridge_reachable env b" and "\<not> allow_closed req"
  shows "owner_call env serves req b \<noteq> None"
proof (cases "br_done b")
  case None
  have "fit env b" using assms(1) reachable_sound [OF assms(2) None] by (auto simp: fit_def)
  from returnsD [OF owner_run_returns this, of req] obtain q b1 where q: "owner_run env req b = Some (q, b1)" by force
  have "run_owner_request env req b \<noteq> None"
    by (cases q) (auto simp: run_owner_request_def q split: prod.split)
  with None show ?thesis by (auto simp: owner_call_def owner_serve_def split: option.split)
next
  case (Some e)
  with assms(3) show ?thesis by (simp add: owner_call_def operation_err_def)
qed


text \<open>A poll that waits while the bridge starts to shut down.\<close>

definition pending_answer :: "core_call \<Rightarrow> 32 word \<Rightarrow> string + 64 word" where
  "pending_answer call capacity = Inr (if call = DrainReadyTasks then 0 else 4294967296)"

lemma pending_answer_honest: "honest (small_env pending_answer)"
  by (auto simp: honest_def small_env_def small_core_def pending_answer_def bridge_buffer_too_small_def split: if_splits)


section \<open>Shutdown\<close>

text \<open>
  C14. A shutdown that reports no error has given both buffers back to the module and closed the gRPC host, and the
  bridge is done: every later request but those of a shutdown is refused as shutting down, without entering the
  module.
\<close>

theorem shutdown_gives_back:
  assumes "bridge_reachable env b" and "br_done b = None"
    and "\<forall>rd \<in> set rds. bridge_reachable env (rd_found rd) \<and> br_done (rd_found rd) = None"
    and "shutdown env serves rds b = Some (None, b')" and "\<not> allow_closed req"
  shows "br_blocks b' = {#} \<and> br_done b' = Some err_bridge_shutting_down \<and> \<not> gh_open (br_host b') \<and>
    owner_call env serves' req b' = Some (Inl err_bridge_shutting_down, b')"
proof -
  have "sound {#} b" using reachable_sound assms(1,2) by blast
  moreover have "br_done (rd_found rd) = None \<and> sound {#} (rd_found rd)" if "rd \<in> set rds" for rd
    using assms(3) that reachable_sound by blast
  ultimately have all: "br_blocks b' = {#}" "br_done b' = Some err_bridge_shutting_down" "\<not> gh_open (br_host b')"
    using shutdown_releases [OF assms(4,2)] by blast+
  from all(2) have "operation_err b' = Some err_bridge_shutting_down" by (simp add: operation_err_def)
  from done_refuses [OF this assms(5)] all show ?thesis by blast
qed

text \<open>A module that answers success to everything: its operations are over in the first step.\<close>

lemmas well_defs = op_bind_def op_defer_def op_lift_def op_return_def op_get_def op_modify_def core_alloc_def
  core_dealloc_def core_export_def small_env_def small_core_def all_well_def require_success_def op_unpack_def
  unpack_result_def bridge_buffer_too_small_def Let_def slice_def

lemma well_output:
  assumes "br_output b = no_buffer"
  shows "ensure_output_scratch (small_env all_well) initial_output_capacity b =
    Some (Ok (), b\<lparr>br_blocks := add_mset (0, 65536) (br_blocks b), br_output := \<lparr>bb_ptr = 0, bb_capacity = 65536\<rparr>\<rparr>)"
  using assms by (simp add: ensure_output_scratch_def resize_output_scratch_def initial_output_capacity_def
      max_bridge_message_size_def well_defs)

lemma well_take:
  assumes "br_output b = \<lparr>bb_ptr = 0, bb_capacity = 65536\<rparr>"
  shows "take_with_retry (small_env all_well) call b = Some (Ok (0, []), b)"
proof -
  have "take_once (small_env all_well) call b = Some (Ok (Some (0, [])), b)"
    using assms by (simp add: take_once_def well_defs)
  then have "take_loop (small_env all_well) call b = Some (Ok (0, []), b)"
    by (subst take_loop.simps) simp
  with assms show ?thesis
    by (simp add: take_with_retry_def ensure_output_scratch_def initial_output_capacity_def op_bind_def op_get_def
        op_return_def)
qed

lemma well_operation_step:
  assumes "br_output b = no_buffer"
  shows "operation_step (small_env all_well) call b =
    Some (Ok ([], True), b\<lparr>br_blocks := add_mset (0, 65536) (br_blocks b),
      br_output := \<lparr>bb_ptr = 0, bb_capacity = 65536\<rparr>\<rparr>)" (is "_ = Some (_, ?b)")
proof -
  have take: "take_with_retry (small_env all_well) call ?b = Some (Ok (0, []), ?b)" by (rule well_take) simp
  have "drain_and_take (small_env all_well) call ?b = take_with_retry (small_env all_well) call ?b"
    by (simp add: drain_and_take_def well_defs)
  with take have "drive_once (small_env all_well) call ?b = Some (Ok (Some ([], True)), ?b)"
    by (simp add: drive_once_def op_bind_def op_return_def)
  then have "drive_operation_step (small_env all_well) call ?b = Some (Ok ([], True), ?b)"
    by (subst drive_operation_step.simps) simp
  with well_output [OF assms] show ?thesis by (simp add: operation_step_def op_bind_def)
qed

definition shutdown_round :: "memory round" where
  "shutdown_round = \<lparr>rd_ctx = None, rd_serves = True, rd_event = Woken, rd_ctx_after = None, rd_found = small_bridge\<rparr>"

lemma well_shutdown: "\<exists>b'. shutdown (small_env all_well) True [shutdown_round] small_bridge = Some (None, b')"
proof -
  let ?b0 = "begin_shutdown small_bridge"
  let ?b1 = "?b0\<lparr>br_blocks := {#(0, 65536)#}, br_error := \<lparr>bb_ptr = 0, bb_capacity = 65536\<rparr>\<rparr>"
  let ?b2 = "?b1\<lparr>br_blocks := {#(0, 65536), (0, 65536)#}, br_output := \<lparr>bb_ptr = 0, bb_capacity = 65536\<rparr>\<rparr>"
  note start = begin_shutdown_def signal_wake_def small_bridge_def initial_bridge_def
  note serve = owner_call_def owner_serve_def allow_closed_def run_owner_request_def
  have first: "owner_call (small_env all_well) True AskStartShutdown ?b0 = Some (Inr NoValue, ?b1)"
    by (simp add: serve start no_value_def call_for_error_def ensure_error_scratch_def error_scratch_capacity_def well_defs)
  have alive: "br_done ?b1 = None" by (simp add: start)
  have "operation_step (small_env all_well) TakeShutdown ?b1 = Some (Ok ([], True), ?b2)"
    by (subst well_operation_step) (simp_all add: start)
  then have second: "owner_call (small_env all_well) True AskTakeShutdown ?b1 = Some (Inr (StepValue [] True), ?b2)"
    using alive by (simp add: serve step_value_def op_bind_def op_return_def)
  obtain b3 where third: "owner_call (small_env all_well) True AskReleaseScratch ?b2 = Some (Inr NoValue, b3)"
    by (simp add: serve no_value_def release_scratch_def release_output_def release_error_def start well_defs)
  have "start_and_drive (small_env all_well) True AskStartShutdown AskTakeShutdown [shutdown_round] ?b0 = Some (Inr [], ?b2)"
    unfolding start_and_drive_def first
    by (simp add: second shutdown_round_def allow_closed_def ready_result_def)
  moreover have "release_if_alive (small_env all_well) True ?b2 = Some (None, b3)"
    using alive third by (simp add: release_if_alive_def error_of_def)
  ultimately show ?thesis
    by (auto simp: shutdown_def finish_shutdown_def close_host_def small_env_def error_of_def Let_def errors_join_def
        split: prod.split)
qed

lemma shutdown_gives_back_witness:
  "\<exists>b'. shutdown (small_env all_well) True [shutdown_round] small_bridge = Some (None, b') \<and> br_blocks b' = {#} \<and>
     owner_call (small_env all_well) True (AskHeartbeat [1]) b' = Some (Inl err_bridge_shutting_down, b')"
proof -
  obtain b' where b': "shutdown (small_env all_well) True [shutdown_round] small_bridge = Some (None, b')"
    using well_shutdown by blast
  have start: "bridge_reachable (small_env all_well) small_bridge"
    by (simp add: small_bridge_def bridge_reachable.start)
  have fresh: "br_done small_bridge = None" by (simp add: small_bridge_def initial_bridge_def)
  from shutdown_gives_back [OF start fresh _ b', of "AskHeartbeat [1]" True] start fresh b' show ?thesis
    by (auto simp: shutdown_round_def allow_closed_def)
qed

end
