(* ===== verification/Bridge_Messages.thy ===== *)
theory Bridge_Messages
  imports Bridge_Properties Wasi_Properties
begin

text \<open>
  Messages through the module's memory (\<open>internal/corebridge/bridge.go\<close>): what a client sends is what Core
  finds when it is called, and what Core answers is what the client gets. The module's allocator is code this
  development does not contain; \<open>core_documented\<close> says what an allocator promises.
\<close>

section \<open>The allocator\<close>

definition block_at :: "memory \<Rightarrow> 32 word \<times> 32 word \<Rightarrow> byte list" where
  "block_at memory block = slice memory (unat (fst block), unat (fst block) + unat (snd block))"

definition apart :: "32 word \<times> 32 word \<Rightarrow> 32 word \<times> 32 word \<Rightarrow> bool" where
  "apart block block' \<longleftrightarrow>
     unat (fst block) + unat (snd block) \<le> unat (fst block') \<or> unat (fst block') + unat (snd block') \<le> unat (fst block)"

text \<open>
  \<open>handed\<close> are the blocks handed out. Writing the memory writes it and nothing else; an allocation hands out a
  block inside the memory, apart from the others, and leaves their contents alone.
\<close>

definition core_documented :: "'m core_module \<Rightarrow> ('m \<Rightarrow> (32 word \<times> 32 word) set) \<Rightarrow> bool" where
  "core_documented core handed \<longleftrightarrow>
     (\<forall>new m. length new = length (cm_memory core m) \<longrightarrow>
        cm_memory core (cm_write core new m) = new \<and> handed (cm_write core new m) = handed m) \<and>
     (\<forall>len m ptr m'. cm_alloc core len m = (Inr ptr, m') \<longrightarrow>
        unat ptr + unat len \<le> length (cm_memory core m') \<and> (ptr, len) \<in> handed m' \<and>
        (\<forall>block \<in> handed m. block \<in> handed m' \<and> apart block (ptr, len) \<and>
           block_at (cm_memory core m') block = block_at (cm_memory core m) block))"

lemma core_writes:
  assumes "core_documented core handed" and "length new = length (cm_memory core m)"
  shows "cm_memory core (cm_write core new m) = new" and "handed (cm_write core new m) = handed m"
  using assms unfolding core_documented_def by blast+

lemma core_allocates:
  assumes "core_documented core handed" and "cm_alloc core len m = (Inr ptr, m')"
  shows "unat ptr + unat len \<le> length (cm_memory core m')" and "(ptr, len) \<in> handed m'"
    and "block \<in> handed m \<Longrightarrow>
      block \<in> handed m' \<and> apart block (ptr, len) \<and> block_at (cm_memory core m') block = block_at (cm_memory core m) block"
  using assms unfolding core_documented_def by blast+

lemma block_at_overwrite:
  assumes "apart block (ptr, len)" and "unat ptr + unat len \<le> length m" and "length bs = unat len"
  shows "block_at (overwrite m (unat ptr) bs) block = block_at m block"
proof (rule nth_equalityI)
  let ?m = "overwrite m (unat ptr) bs"
  have len: "length ?m = length m" using assms by (intro length_overwrite) simp
  then show "length (block_at ?m block) = length (block_at m block)" by (simp add: block_at_def slice_def)
  fix i
  assume "i < length (block_at ?m block)"
  then have i: "i < unat (snd block)" "unat (fst block) + i < length m"
    by (auto simp: block_at_def slice_def len less_diff_conv add.commute)
  with assms have "?m ! (unat (fst block) + i) = m ! (unat (fst block) + i)"
    by (subst nth_overwrite) (auto simp: apart_def)
  with i show "block_at ?m block ! i = block_at m block ! i" by (simp add: block_at_def slice_def len)
qed

section \<open>Sending\<close>

definition holds :: "'m bridge_env \<Rightarrow> ('m \<Rightarrow> (32 word \<times> 32 word) set) \<Rightarrow> 32 word \<times> 32 word \<Rightarrow> byte list \<Rightarrow>
    'm bridge \<Rightarrow> bool" where
  "holds env handed block bytes b \<longleftrightarrow>
     block \<in> handed (br_module b) \<and> block_at (cm_memory (en_core env) (br_module b)) block = bytes"

text \<open>A message copied in is found in its block, and the messages copied in before are found in theirs.\<close>

lemma copy_in_holds:
  assumes doc: "core_documented (en_core env) handed" and "copy_in env bytes b = Some (Ok ptr, b')"
    and len: "checked_bridge_input_len (length bytes) = Inr len"
  shows "unat len = length bytes" and "holds env handed (ptr, len) bytes b'"
    and "holds env handed block old b \<Longrightarrow> holds env handed block old b'"
proof -
  from assms(2) len obtain b1 where
    alloc: "core_alloc env len b = Some (Ok ptr, b1)" and copy: "copy_into env ptr bytes b1 = Some (Ok (), b')"
    by (auto simp: copy_in_def op_bind_Some op_lift_def op_return_def op_fail_def split: sum.splits)
  show n: "unat len = length bytes"
    using checked_len_Inr [OF len] by (auto simp: unat_of_nat max_bridge_message_size_def)
  let ?m = "cm_memory (en_core env) (br_module b1)"
  let ?new = "overwrite ?m (unat ptr) bytes"
  from alloc have m: "cm_alloc (en_core env) len (br_module b) = (Inr ptr, br_module b1)"
    by (auto simp: core_alloc_def split: prod.splits sum.splits)
  note inside = core_allocates [OF doc m]
  from inside(1) n have all: "take (length ?m - unat ptr) bytes = bytes" and
    fits: "unat ptr + length bytes \<le> length ?m" by simp_all
  from copy have b': "br_module b' = cm_write (en_core env) ?new (br_module b1)"
    using all by (auto simp: copy_into_def Let_def split: if_splits)
  note written = core_writes [OF doc length_overwrite [OF fits]]
  from inside(2) show "holds env handed (ptr, len) bytes b'"
    by (simp only: holds_def b' written block_at_def fst_conv snd_conv n slice_overwrite [OF fits])
  assume "holds env handed block old b"
  then have "block \<in> handed (br_module b)" and old: "block_at (cm_memory (en_core env) (br_module b)) block = old"
    by (simp_all add: holds_def)
  from inside(3) [OF this(1)] have "block \<in> handed (br_module b1)" "apart block (ptr, len)" "block_at ?m block = old"
    using old by simp_all
  moreover from block_at_overwrite [OF this(2) inside(1) n [symmetric]] have "block_at ?new block = block_at ?m block" .
  ultimately show "holds env handed block old b'" by (simp only: holds_def b' written simp_thms)
qed

lemma ensure_error_scratch_holds:
  assumes doc: "core_documented (en_core env) handed" and "ensure_error_scratch env b = Some (Ok err, b')"
    and "holds env handed block bytes b"
  shows "holds env handed block bytes b'"
proof (cases "bb_capacity (br_error b) = 0")
  case True
  with assms(2) obtain ptr where "cm_alloc (en_core env) error_scratch_capacity (br_module b) = (Inr ptr, br_module b')"
    by (auto simp: ensure_error_scratch_def op_bind_Some op_get_def op_modify_def op_return_def core_alloc_def Let_def
        split: prod.splits sum.splits)
  from core_allocates(3) [OF doc this] assms(3) show ?thesis by (simp add: holds_def)
next
  case False
  with assms(2,3) show ?thesis
    by (simp add: ensure_error_scratch_def op_bind_def op_get_def op_return_def holds_def)
qed

lemma require_success_code:
  assumes "require_success env w buf b = Some (Ok payload, b')"
  shows "ucast (drop_bit 32 w) = (0 :: 32 word)"
proof -
  from assms obtain code out required where
    "op_unpack env w buf b = Some (Ok (code, out, required), b)" "code = 0"
    by (auto simp: require_success_def op_bind_Some op_fail_def op_return_def op_unpack_def op_lift_def
        split: if_splits sum.splits)
  then show ?thesis
    by (auto simp: op_unpack_def unpack_result_def Let_def op_lift_def op_return_def op_fail_def
        split: if_splits sum.splits)
qed

lemma with_input_delivers:
  assumes doc: "core_documented (en_core env) handed" and "with_input env what bytes call b = Some (Ok (), b')"
  shows "\<exists>ptr len out capacity m w m'.
    cm_call (en_core env) (call ptr len) out capacity m = (Inr w, m') \<and>
    ucast (drop_bit 32 w) = (0 :: 32 word) \<and> unat len = length bytes \<and>
    block_at (cm_memory (en_core env) m) (ptr, len) = bytes"
proof -
  from assms(2) obtain len where len: "checked_bridge_input_len (length bytes) = Inr len"
    by (cases "checked_bridge_input_len (length bytes)") (auto simp: with_input_def op_fail_def)
  with assms(2) obtain ptr b2 where copy: "copy_in env bytes b = Some (Ok ptr, b2)" and
    rest: "op_defer (core_dealloc env ptr len) (op_bind (ensure_error_scratch env) (\<lambda>err.
      op_bind (core_export env (call ptr len) err) (\<lambda>w.
      op_bind (require_success env w err) (\<lambda>_. op_return ())))) b2 = Some (Ok (), b')"
    by (auto simp: with_input_def op_bind_Some [of "copy_in env bytes"])
  from op_defer_Some [OF rest] obtain err b3 w b4 payload b5 where
    err: "ensure_error_scratch env b2 = Some (Ok err, b3)" and
    export: "core_export env (call ptr len) err b3 = Some (Ok w, b4)" and
    ok: "require_success env w err b4 = Some (Ok payload, b5)"
    by (auto simp: op_bind_Some)
  from export have "cm_call (en_core env) (call ptr len) (bb_ptr err) (bb_capacity err) (br_module b3) = (Inr w, br_module b4)"
    by (auto simp: core_export_def split: prod.splits sum.splits)
  moreover note require_success_code [OF ok] copy_in_holds(1) [OF doc copy len]
    ensure_error_scratch_holds [OF doc err copy_in_holds(2) [OF doc copy len], unfolded holds_def]
  ultimately show ?thesis by blast
qed

text \<open>The start of Core: its three strings are in their blocks when it is called.\<close>

lemma with_block_Ok:
  assumes "with_block env bytes len rest b = Some (Ok x, b')"
  obtains ptr b1 b2 where "copy_in env bytes b = Some (Ok ptr, b1)" and "rest ptr b1 = Some (Ok x, b2)"
proof -
  from assms obtain ptr b1 where copy: "copy_in env bytes b = Some (Ok ptr, b1)" and
    rest: "op_defer (core_dealloc env ptr len) (rest ptr) b1 = Some (Ok x, b')"
    by (auto simp: with_block_def op_bind_Some)
  from op_defer_Some [OF rest] copy show thesis by (auto intro: that)
qed

lemma lift_bind_Ok: "op_bind (op_lift r) f b = Some (Ok x, b') \<Longrightarrow> \<exists>a. r = Inr a \<and> f a b = Some (Ok x, b')"
  by (cases r) (auto simp: op_bind_def op_lift_def op_return_def op_fail_def)

lemma named_len_checked: "named_len what bytes = Inr len \<Longrightarrow> checked_bridge_input_len (length bytes) = Inr len"
  by (auto simp: named_len_def split: sum.splits)

lemma init_core_delivers:
  assumes doc: "core_documented (en_core env) handed" and "init_core env options blocks b = Some (Ok (), b')"
    and "list_all2 (\<lambda>block bytes. holds env handed block bytes b) blocks contents"
  shows "\<exists>eager heartbeat out capacity m w m'.
    eager_activity_reservations_for_mode (io_mode options) (io_workflow options) = Inr eager \<and>
    worker_heartbeat_interval_millis (io_workflow options) = Inr heartbeat \<and>
    cm_call (en_core env) (init_call options eager heartbeat blocks) out capacity m = (Inr w, m') \<and>
    ucast (drop_bit 32 w) = (0 :: 32 word) \<and> map (block_at (cm_memory (en_core env) m)) blocks = contents"
proof -
  from assms(2) obtain err b1 eager heartbeat w b2 payload b3 where
    err: "ensure_error_scratch env b = Some (Ok err, b1)" and
    numbers: "eager_activity_reservations_for_mode (io_mode options) (io_workflow options) = Inr eager"
      "worker_heartbeat_interval_millis (io_workflow options) = Inr heartbeat" and
    export: "core_export env (init_call options eager heartbeat blocks) err b1 = Some (Ok w, b2)" and
    ok: "require_success env w err b2 = Some (Ok payload, b3)"
    by (auto simp: init_core_def op_bind_Some op_lift_def op_return_def op_fail_def split: sum.splits)
  from export have "cm_call (en_core env) (init_call options eager heartbeat blocks) (bb_ptr err) (bb_capacity err)
      (br_module b1) = (Inr w, br_module b2)"
    by (auto simp: core_export_def split: prod.splits sum.splits)
  moreover have "list_all2 (\<lambda>block bytes. holds env handed block bytes b1) blocks contents"
    by (rule list_all2_mono [OF assms(3)]) (rule ensure_error_scratch_holds [OF doc err])
  then have "map (block_at (cm_memory (en_core env) (br_module b1))) blocks = contents"
    by (induction rule: list_all2_induct) (simp_all add: holds_def)
  ultimately show ?thesis using numbers require_success_code [OF ok] by blast
qed

lemma start_init_delivers:
  assumes doc: "core_documented (en_core env) handed" and "start_init env options b = Some (Ok (), b')"
  shows "\<exists>blocks eager heartbeat out capacity m w m'.
    eager_activity_reservations_for_mode (io_mode options) (io_workflow options) = Inr eager \<and>
    worker_heartbeat_interval_millis (io_workflow options) = Inr heartbeat \<and>
    cm_call (en_core env) (init_call options eager heartbeat blocks) out capacity m = (Inr w, m') \<and>
    ucast (drop_bit 32 w) = (0 :: 32 word) \<and> map (block_at (cm_memory (en_core env) m)) blocks =
      [io_namespace options, io_task_queue options, io_identity options]"
proof -
  from assms(2) obtain n1 n2 n3 where lens: "named_len ''namespace'' (io_namespace options) = Inr n1"
      "named_len ''task queue'' (io_task_queue options) = Inr n2" "named_len ''identity'' (io_identity options) = Inr n3" and
    run: "with_block env (io_namespace options) n1 (\<lambda>p1. with_block env (io_task_queue options) n2 (\<lambda>p2.
      with_block env (io_identity options) n3 (\<lambda>p3. init_core env options [(p1, n1), (p2, n2), (p3, n3)]))) b =
      Some (Ok (), b')"
    by (auto simp: start_init_def dest!: lift_bind_Ok)
  from with_block_Ok [OF run] obtain p1 b1 b1' where 1: "copy_in env (io_namespace options) b = Some (Ok p1, b1)" and
    run1: "with_block env (io_task_queue options) n2 (\<lambda>p2.
      with_block env (io_identity options) n3 (\<lambda>p3. init_core env options [(p1, n1), (p2, n2), (p3, n3)])) b1 =
      Some (Ok (), b1')" by blast
  from with_block_Ok [OF run1] obtain p2 b2 b2' where 2: "copy_in env (io_task_queue options) b1 = Some (Ok p2, b2)" and
    run2: "with_block env (io_identity options) n3 (\<lambda>p3. init_core env options [(p1, n1), (p2, n2), (p3, n3)]) b2 =
      Some (Ok (), b2')" by blast
  from with_block_Ok [OF run2] obtain p3 b3 b3' where 3: "copy_in env (io_identity options) b2 = Some (Ok p3, b3)" and
    run3: "init_core env options [(p1, n1), (p2, n2), (p3, n3)] b3 = Some (Ok (), b3')" by blast
  note h1 = copy_in_holds [OF doc 1 named_len_checked [OF lens(1)]]
  note h2 = copy_in_holds [OF doc 2 named_len_checked [OF lens(2)]]
  note h3 = copy_in_holds [OF doc 3 named_len_checked [OF lens(3)]]
  have "list_all2 (\<lambda>block bytes. holds env handed block bytes b3) [(p1, n1), (p2, n2), (p3, n3)]
      [io_namespace options, io_task_queue options, io_identity options]"
    using h3(3) [OF h2(3) [OF h1(2)]] h3(3) [OF h2(2)] h3(2) by simp
  show ?thesis by (rule exI, rule init_core_delivers [OF doc run3 \<open>list_all2 _ _ _\<close>])
qed

section \<open>Receiving\<close>

text \<open>What a take gives is the code and exactly the bytes Core reported, from the buffer it was offered.\<close>

lemma take_once_payload:
  assumes "take_once env call b = Some (Ok (Some (code, out)), b')"
  shows "\<exists>m w. cm_call (en_core env) call (bb_ptr (br_output b)) (bb_capacity (br_output b)) m = (Inr w, br_module b') \<and>
    code = ucast (drop_bit 32 w) \<and>
    out = block_at (cm_memory (en_core env) (br_module b')) (bb_ptr (br_output b), ucast w)"
proof -
  obtain c m where c: "cm_call (en_core env) call (bb_ptr (br_output b)) (bb_capacity (br_output b)) (br_module b) =
      (c, m)" by force
  obtain w where w: "c = Inr w"
  proof (cases c)
    case (Inl p)
    with assms c show ?thesis by (simp add: take_once_def op_bind_def op_get_def core_export_def)
  qed
  let ?b = "b\<lparr>br_module := m\<rparr>"
  from assms c w have "op_bind (op_unpack env w (br_output b)) (\<lambda>(code, output, required).
      if code \<noteq> bridge_buffer_too_small then op_return (Some (code, output))
      else op_bind (grow_output_scratch env required) (\<lambda>_. op_return None)) ?b = Some (Ok (Some (code, out)), b')"
    by (simp add: take_once_def op_bind_def [of "op_get f" for f] op_bind_def [of "core_export env call buf" for buf]
        op_get_def core_export_def)
  then have u: "op_unpack env w (br_output b) ?b = Some (Ok (code, out, ucast w), ?b)" "b' = ?b"
      "code \<noteq> bridge_buffer_too_small"
    by (auto simp: op_bind_Some op_return_def op_unpack_def unpack_result_def Let_def op_lift_def op_fail_def
        split: if_splits sum.splits)
  have stop: "unat (ucast p + ucast n :: 64 word) = unat p + unat n" "unat (ucast p :: 64 word) = unat p"
    for p n :: "32 word" by (rule unat_stop, rule unat_start)
  from u have "code = ucast (drop_bit 32 w)" "out = block_at (cm_memory (en_core env) m) (bb_ptr (br_output b), ucast w)"
    by (auto simp: op_unpack_def unpack_result_def Let_def op_lift_def op_return_def op_fail_def block_at_def stop
        split: if_splits)
  with c w u(2) show ?thesis by (intro exI [of _ "br_module b"] exI [of _ w]) simp
qed

lemma take_loop_payload:
  assumes "take_loop env call b = Some (Ok (code, out), b')"
  shows "\<exists>ptr capacity m w. cm_call (en_core env) call ptr capacity m = (Inr w, br_module b') \<and>
    code = ucast (drop_bit 32 w) \<and> out = block_at (cm_memory (en_core env) (br_module b')) (ptr, ucast w)"
proof -
  have "\<forall>code out. fst y = Ok (code, out) \<longrightarrow>
      (\<exists>ptr capacity m w. cm_call (en_core env) call ptr capacity m = (Inr w, br_module (snd y)) \<and>
         code = ucast (drop_bit 32 w) \<and> out = block_at (cm_memory (en_core env) (br_module (snd y))) (ptr, ucast w))"
    if "take_loop env call b = Some y" for y
  proof (rule take_loop.raw_induct [OF _ that, where P = "\<lambda>env call b y. \<forall>code out. fst y = Ok (code, out) \<longrightarrow>
      (\<exists>ptr capacity m w. cm_call (en_core env) call ptr capacity m = (Inr w, br_module (snd y)) \<and>
         code = ucast (drop_bit 32 w) \<and> out = block_at (cm_memory (en_core env) (br_module (snd y))) (ptr, ucast w))"],
      goal_cases)
    case (1 loop env call b y)
    from 1(2) obtain q b1 where q: "take_once env call b = Some (q, b1)"
        "(case q of Ok None \<Rightarrow> loop env call b1 | Ok (Some x) \<Rightarrow> Some (Ok x, b1) | Err e \<Rightarrow> Some (Err e, b1)
          | Panic p \<Rightarrow> Some (Panic p, b1)) = Some y"
      by (auto simp: bind_eq_Some_conv)
    show ?case
    proof (cases "\<exists>x. q = Ok (Some x)")
      case True
      with q take_once_payload [of env call b] show ?thesis by fastforce
    next
      case False
      with q(2) 1(1) show ?thesis by (auto split: gores.splits option.splits)
    qed
  qed
  from this [OF assms] show ?thesis by simp
qed

section \<open>Completions\<close>

text \<open>
  C12. When a client is told that its completion was taken, Core was called for it, under its identifier, found
  exactly its bytes in the block it was given, and answered success: the bytes are neither cut nor overwritten by
  the allocations the bridge makes in between. It needs an allocator whose blocks lie in the memory and that
  leaves the contents of earlier blocks alone.
\<close>

theorem completion_reaches_core:
  assumes "core_documented (en_core env) handed"
    and "owner_call env serves (AskStartCompletion kind id' completion) b = Some (Inr v, b')"
  shows "\<exists>ptr len out capacity m w m'.
    cm_call (en_core env) (completion_start kind id' ptr len) out capacity m = (Inr w, m') \<and>
    ucast (drop_bit 32 w) = (0 :: 32 word) \<and> unat len = length completion \<and>
    slice (cm_memory (en_core env) m) (unat ptr, unat ptr + length completion) = completion"
proof -
  from assms(2) have "owner_run env (AskStartCompletion kind id' completion) b = Some (Ok v, b')"
    by (cases rule: owner_call_cases) auto
  then have "with_input env ''completion'' completion (completion_start kind id') b = Some (Ok (), b')"
    by (auto simp: no_value_def start_completion_def op_bind_Some op_return_def)
  from with_input_delivers [OF assms(1) this] obtain ptr len out capacity m w m' where
    "cm_call (en_core env) (completion_start kind id' ptr len) out capacity m = (Inr w, m')"
    "ucast (drop_bit 32 w) = (0 :: 32 word)" "unat len = length completion"
    "block_at (cm_memory (en_core env) m) (ptr, len) = completion" by blast
  then show ?thesis by (intro exI conjI) (simp_all add: block_at_def)
qed

text \<open>A module with a bump allocator: its state is the memory and the first free address.\<close>

definition bump_core :: "(memory \<times> nat) core_module" where
  "bump_core =
     \<lparr>cm_memory = fst, cm_write = (\<lambda>new s. (new, snd s)),
      cm_alloc = (\<lambda>len s. if snd s + unat len \<le> min (length (fst s)) 1000000
        then (Inr (of_nat (snd s)), (fst s, snd s + unat len)) else (Inl ''out of memory'', s)),
      cm_dealloc = (\<lambda>ptr len s. (None, s)), cm_call = (\<lambda>call ptr capacity s. (Inr 0, s))\<rparr>"

definition bump_handed :: "memory \<times> nat \<Rightarrow> (32 word \<times> 32 word) set" where
  "bump_handed s = {(ptr, len). unat ptr + unat len \<le> snd s}"

lemma bump_documented: "core_documented bump_core bump_handed"
proof -
  have "unat (of_nat n :: 32 word) = n" if "n \<le> 1000000" for n
    using that by (simp add: unat_of_nat)
  then show ?thesis
    by (auto simp: core_documented_def bump_core_def bump_handed_def block_at_def apart_def split: if_splits)
qed

definition bump_env :: "(memory \<times> nat) bridge_env" where
  "bump_env =
     \<lparr>en_core = bump_core, en_unmarshal = (\<lambda>bs. Inl (ErrNew ''malformed'')), en_size = (\<lambda>w. 0),
      en_marshal = (\<lambda>w. Inr []), en_md = \<lparr>ml_append = (\<lambda>m k v. m), ml_set = (\<lambda>m k v. m), ml_get = (\<lambda>m k. []),
      ml_delete = (\<lambda>m k. m), ml_copy = (\<lambda>m. m)\<rparr>, en_invoke = no_invoke, en_close = None,
      en_stack = ''stack''\<rparr>"

definition bump_bridge :: "(memory \<times> nat) bridge" where
  "bump_bridge = initial_bridge (replicate 70000 0, 8)
     \<lparr>gh_open = True, gh_authorization = [], gh_cancels = 0, gh_closes = 0\<rparr> []"

lemma completion_reaches_core_witness:
  "\<exists>b' ptr len out capacity m w m'.
     owner_call bump_env True (AskStartCompletion CompleteActivity 1 [5, 6, 7]) bump_bridge = Some (Inr NoValue, b') \<and>
     cm_call bump_core (StartCompleteActivity 1 ptr len) out capacity m = (Inr w, m') \<and>
     slice (cm_memory bump_core m) (unat ptr, unat ptr + 3) = [5, 6, 7]"
proof -
  obtain b' where
    b': "owner_call bump_env True (AskStartCompletion CompleteActivity 1 [5, 6, 7]) bump_bridge = Some (Inr NoValue, b')"
    by (simp add: bump_bridge_def owner_call_def owner_serve_def allow_closed_def operation_err_def initial_bridge_def
      run_owner_request_def no_value_def start_completion_def with_input_def checked_bridge_input_len_def
      max_bridge_message_size_def copy_in_def op_bind_def op_defer_def op_lift_def op_return_def op_get_def
      op_modify_def core_alloc_def core_dealloc_def core_export_def copy_into_def bump_env_def bump_core_def
      ensure_error_scratch_def error_scratch_capacity_def require_success_def op_unpack_def
      unpack_result_def bridge_buffer_too_small_def Let_def overwrite_def)
  have core: "en_core bump_env = bump_core" by (simp add: bump_env_def)
  from completion_reaches_core [OF bump_documented [folded core] b'] obtain ptr len out capacity m w m' where
    "cm_call bump_core (StartCompleteActivity 1 ptr len) out capacity m = (Inr w, m')"
    "slice (cm_memory bump_core m) (unat ptr, unat ptr + 3) = [5, 6, 7]"
    by (auto simp: core numeral_3_eq_3)
  with b' show ?thesis by blast
qed

end
