(* ===== verification/Core_Connection.thy ===== *)
theory Core_Connection
  imports Public_Run_Properties Bridge_Messages
begin

text \<open>
  From the options of a worker to the module: what the three kinds of worker ask of the bridge (\<open>worker/worker.go\<close>,
  \<open>internal/workflowworker/worker.go\<close>, \<open>internal/activityworker/worker.go\<close>), and what Core is started with.
\<close>

section \<open>What the workers ask for\<close>

text \<open>\<open>newCombinedCoreWorker\<close>, \<open>instantiateWorkflowCoreWorker\<close> and \<open>instantiateActivityCoreWorker\<close>.\<close>

definition combined_bridge_init :: "combined_core_config \<Rightarrow> init_options" where
  "combined_bridge_init k =
     combined_init (bytes_of_string (kc_namespace k)) (bytes_of_string (kc_task_queue k))
       (bytes_of_string (kc_identity k)) (kc_max_activities k) (kc_max_activity_pollers k)
       \<lparr>bw_max_tasks = kc_max_workflow_tasks k, bw_max_pollers = kc_max_workflow_pollers k,
        bw_max_cached = kc_max_cached k, bw_max_eager = kc_max_eager k,
        bw_heartbeat_millis = kc_heartbeat_millis k\<rparr>"

definition workflow_bridge_init :: "('cv, 'cc) connection \<Rightarrow> workflow_core_options \<Rightarrow> init_options" where
  "workflow_bridge_init c options =
     workflow_init (bytes_of_string (cn_namespace c)) (bytes_of_string (cn_task_queue c))
       (bytes_of_string (cn_identity c))
       \<lparr>bw_max_tasks = wc_max_executions options, bw_max_pollers = wc_max_pollers options,
        bw_max_cached = wc_max_cached options, bw_max_eager = 0, bw_heartbeat_millis = 0\<rparr>"

definition activity_bridge_init :: "('cv, 'cc) connection \<Rightarrow> activity_core_options \<Rightarrow> init_options" where
  "activity_bridge_init c options =
     activity_init (bytes_of_string (cn_namespace c)) (bytes_of_string (cn_task_queue c))
       (bytes_of_string (cn_identity c)) (av_max_executions options) (av_max_pollers options)"

text \<open>The combined Core worker; \<open>host\<close> is what making its gRPC host answers.\<close>

definition combined_core ::
    "'m bridge_env \<Rightarrow> (combined_core_config \<Rightarrow> goerr + grpc_host) \<Rightarrow> 'm \<Rightarrow> nat list list \<Rightarrow> bool \<Rightarrow> 'm round list \<Rightarrow>
     combined_core_config \<Rightarrow> (goerr option \<times> 'm bridge option) option" where
  "combined_core env host m arrivals serves rds k =
     new_bridge env (host k) m arrivals (combined_bridge_init k) serves rds"

section \<open>What Core is started with\<close>

text \<open>The numbers of a call, read as the signed integers the module gets.\<close>

lemma workflow_core_numbers:
  "eager_activity_reservations_for_mode worker_mode_workflow options = Inr 0"
  "init_call (workflow_bridge_init c n) 0 0 blocks =
     InitWithWorkerOptions blocks [0, 0, wc_max_executions n, wc_max_pollers n, wc_max_cached n, 0, 0, 1]"
  by (simp_all add: eager_activity_reservations_for_mode_def worker_mode_workflow_def worker_mode_combined_def
      init_call_def workflow_bridge_init_def workflow_init_def)

lemma activity_core_numbers:
  "eager_activity_reservations_for_mode worker_mode_activity options = Inr 0"
  "init_call (activity_bridge_init c v) 0 0 blocks =
     InitWithWorkerOptions blocks [av_max_executions v, av_max_pollers v, 0, 0, 0, 0, 0, 0]"
  by (simp_all add: eager_activity_reservations_for_mode_def worker_mode_activity_def worker_mode_combined_def
      init_call_def activity_bridge_init_def activity_init_def no_workflow_options_def)

text \<open>For options \<open>New\<close> accepts, the bridge does not put its own default in the place of a number.\<close>

lemma combined_core_numbers:
  assumes "config_for options k"
    and "eager_activity_reservations_for_mode worker_mode_combined (io_workflow (combined_bridge_init k)) = Inr eager"
    and "worker_heartbeat_interval_millis (io_workflow (combined_bridge_init k)) = Inr heartbeat"
  shows "eager = kc_max_eager k" and "heartbeat = kc_heartbeat_millis k"
proof -
  have "sint (kc_max_eager k) \<noteq> 0" using assms(1) by (simp add: config_for_def)
  then have "kc_max_eager k \<noteq> 0" by auto
  with assms(2,3) show "eager = kc_max_eager k" "heartbeat = kc_heartbeat_millis k"
    by (auto simp: eager_activity_reservations_for_mode_def worker_heartbeat_interval_millis_def Let_def
        combined_bridge_init_def combined_init_def split: if_splits)
qed

text \<open>A bridge that \<open>New\<close> returns has started Core.\<close>

lemma new_bridge_started:
  assumes "new_bridge env host m arrivals options serves rds = Some (None, ob)"
  shows "\<exists>h b1. start_init env options (initial_bridge m h arrivals) = Some (Ok (), b1)"
proof -
  from assms obtain h where h: "host = Inr h" by (cases host) (auto simp: new_bridge_def)
  with assms obtain v b2 where drive: "start_and_drive env serves (AskStartInit options) AskTakeInit rds
      (initial_bridge m h arrivals) = Some (Inr v, b2)"
    by (cases "start_and_drive env serves (AskStartInit options) AskTakeInit rds (initial_bridge m h arrivals)")
      (auto simp: new_bridge_def split: sum.split_asm)
  then obtain u b1 where "owner_call env serves (AskStartInit options) (initial_bridge m h arrivals) = Some (Inr u, b1)"
    by (cases "owner_call env serves (AskStartInit options) (initial_bridge m h arrivals)")
      (auto simp: start_and_drive_def split: sum.split_asm)
  then have "owner_run env (AskStartInit options) (initial_bridge m h arrivals) = Some (Ok u, b1)"
    by (cases rule: owner_call_cases) auto
  then show ?thesis by (auto simp: no_value_def op_bind_Some op_return_def)
qed

lemma new_combined_worker_asks:
  assumes "new_combined_worker rt answers (default_factory core_error) default_cv options =
    (Some (Inr w, c) :: ((goerr + ('u, 'b) public_worker) \<times> shared_core option) option)"
  shows "\<exists>k. config_for options k \<and> core_error k = None"
proof (cases rule: new_combined_worker_early [of rt answers "default_factory core_error" default_cv options,
      where 'u = 'u and 'b = 'b])
  case (early e)
  with assms show ?thesis by simp
next
  case (checked cn a v eager millis)
  from new_combined_worker_made [OF checked, of rt answers core_error] obtain k where
    new: "new_combined_worker rt answers (default_factory core_error) default_cv options =
      (case core_error k of
         Some e \<Rightarrow> Some (Inl e :: goerr + ('u, 'b) public_worker, None)
       | None \<Rightarrow> map_option (\<lambda>(r, c). (r, Some c)) (new_with_shared_core rt answers default_cv cn a v))"
    and "config_for options k" by blast
  with assms show ?thesis by (cases "core_error k") auto
qed

text \<open>
  C11. When \<open>New\<close> of the public worker succeeds, Core has been started, and with what was asked: in its memory it
  found the namespace, the task queue and the identity byte for byte, each in a block of its own, and the numbers
  it got are those of the options, signed and not truncated, 0 standing for the documented defaults; the bridge's
  own defaults and checks change none of them. The bridge is made with an allocator that hands out disjoint
  blocks.
\<close>

theorem core_initialised_as_asked:
  assumes "core_documented (en_core env) handed"
    and "\<forall>k. config_for options k \<longrightarrow>
      map_option fst (combined_core env host m0 arrivals serves rds k) = Some (core_error k)"
    and "new_combined_worker rt answers (default_factory core_error) default_cv options =
      (Some (Inr w, c) :: ((goerr + ('u, 'b) public_worker) \<times> shared_core option) option)"
  shows "\<exists>blocks numbers out capacity m answer m'.
    cm_call (en_core env) (InitWithWorkerOptions blocks numbers) out capacity m = (Inr answer, m') \<and>
    ucast (drop_bit 32 answer) = (0 :: 32 word) \<and>
    map (block_at (cm_memory (en_core env) m)) blocks = map bytes_of_string
      [or_default (cn_namespace options) ''default'', cn_task_queue options,
       or_default (cn_identity options) ''go-sdk-on-wasm-core''] \<and>
    map sint numbers =
      [if po_max_activities options = 0 then 1000 else po_max_activities options,
       po_max_activity_pollers options,
       if po_max_workflow_tasks options = 0 then 1000 else po_max_workflow_tasks options,
       po_max_workflow_pollers options,
       if po_max_cached options = 0 then 32 else po_max_cached options,
       if po_max_eager options = 0 then 3 else po_max_eager options,
       if po_disable_heartbeat options then 0
       else if po_heartbeat_interval options = 0 then 60000 else po_heartbeat_interval options div 1000000,
       2]"
proof -
  from new_combined_worker_asks [OF assms(3)] obtain k where k: "config_for options k" "core_error k = None" by blast
  with assms(2) obtain ob where "new_bridge env (host k) m0 arrivals (combined_bridge_init k) serves rds = Some (None, ob)"
    by (auto simp: combined_core_def)
  from new_bridge_started [OF this] obtain h b1 where
    "start_init env (combined_bridge_init k) (initial_bridge m0 h arrivals) = Some (Ok (), b1)" by blast
  from start_init_delivers [OF assms(1) this] obtain blocks eager heartbeat out capacity m answer m' where
    eager: "eager_activity_reservations_for_mode worker_mode_combined (io_workflow (combined_bridge_init k)) = Inr eager"
    and heartbeat: "worker_heartbeat_interval_millis (io_workflow (combined_bridge_init k)) = Inr heartbeat"
    and call: "cm_call (en_core env) (init_call (combined_bridge_init k) eager heartbeat blocks) out capacity m =
      (Inr answer, m')" "ucast (drop_bit 32 answer) = (0 :: 32 word)"
    and strings: "map (block_at (cm_memory (en_core env) m)) blocks =
      map bytes_of_string [kc_namespace k, kc_task_queue k, kc_identity k]"
    by (auto simp: combined_bridge_init_def combined_init_def)
  note numbers = combined_core_numbers [OF k(1) eager heartbeat]
  let ?numbers = "[kc_max_activities k, kc_max_activity_pollers k, kc_max_workflow_tasks k, kc_max_workflow_pollers k,
    kc_max_cached k, kc_max_eager k, kc_heartbeat_millis k, worker_mode_combined]"
  have "init_call (combined_bridge_init k) eager heartbeat blocks = InitWithWorkerOptions blocks ?numbers"
    by (simp add: init_call_def numbers combined_bridge_init_def combined_init_def)
  with call strings k(1) show ?thesis
    by (intro exI [of _ blocks] exI [of _ ?numbers] exI [of _ out] exI [of _ capacity] exI [of _ m]
        exI [of _ answer] exI [of _ m'] conjI) (simp_all add: config_for_def worker_mode_combined_def)
qed

section \<open>A worker of the default options\<close>

lemma options_accepted:
  assumes "options_in_range options" and "\<And>k. config_for options k \<Longrightarrow> core_error k = None"
  shows "\<exists>w c. new_combined_worker rt answers (default_factory core_error) default_cv options =
    (Some (Inr w, c) :: ((goerr + ('u, 'b) public_worker) \<times> shared_core option) option)"
proof -
  from assms(1) obtain cn a v n eager millis where checked:
      "normalize_connection default_cv noop_codec ''worker'' (connection_of options) = Inr cn"
      "normalize_combined_core_options (activity_options_of options) (workflow_options_of options) = Inr (a, v)"
      "normalize_max_eager (po_max_eager options) = Inr eager"
      "normalize_heartbeat_interval (po_heartbeat_interval options) (po_disable_heartbeat options) = Inr millis"
      "normalize_workflow_options v = Inr n"
    unfolding options_in_range_iff [of _ default_cv] by blast
  have "\<exists>m. check_activity_options a = Inr m"
    using checked(2) unfolding normalize_combined_Inr
    by (auto simp: check_activity_options_def Let_def max_int32_activity_def max_int32_def)
  then obtain m where "check_activity_options a = Inr m" by blast
  note result = new_with_shared_core_result [OF normalize_connection_again [OF checked(1)] this]
  from new_combined_worker_made [OF checked(1-4), of rt answers core_error] obtain k where
    new: "new_combined_worker rt answers (default_factory core_error) default_cv options =
      (case core_error k of
         Some e \<Rightarrow> Some (Inl e :: goerr + ('u, 'b) public_worker, None)
       | None \<Rightarrow> map_option (\<lambda>(r, c). (r, Some c)) (new_with_shared_core rt answers default_cv cn a v))"
    and "config_for options k" by blast
  with assms(2) show ?thesis by (simp add: result checked(5))
qed

definition large_module :: "memory \<times> nat" where "large_module = (replicate 140000 0, 8)"

definition sample_host :: "combined_core_config \<Rightarrow> goerr + grpc_host" where
  "sample_host k = Inr \<lparr>gh_open = True, gh_authorization = [], gh_cancels = 0, gh_closes = 0\<rparr>"

definition idle_round :: "(memory \<times> nat) round" where
  "idle_round = \<lparr>rd_ctx = None, rd_serves = True, rd_event = Woken, rd_ctx_after = None,
     rd_found = initial_bridge large_module
       \<lparr>gh_open = True, gh_authorization = [], gh_cancels = 0, gh_closes = 0\<rparr> []\<rparr>"

text \<open>The steps of the start on the bump allocator: \<open>n\<close> is the first free address.\<close>

definition bump_state :: "nat \<Rightarrow> (memory \<times> nat) bridge \<Rightarrow> bool" where
  "bump_state n b \<longleftrightarrow>
     (\<exists>memory. br_module b = (memory, n) \<and> length memory = 140000) \<and> operation_err b = None \<and> br_done b = None \<and>
     br_output b = no_buffer"

lemma bump_alloc:
  assumes "bump_state n b" and "n + unat len \<le> 140000"
  shows "\<exists>b1. core_alloc bump_env len b = Some (Ok (of_nat n), b1) \<and> bump_state (n + unat len) b1 \<and> br_error b1 = br_error b"
  using assms by (auto simp: bump_state_def core_alloc_def bump_env_def bump_core_def operation_err_def)

lemma bump_copy_in:
  assumes "bump_state n b" and "n + length bytes \<le> 140000"
  shows "\<exists>b1. copy_in bump_env bytes b = Some (Ok (of_nat n), b1) \<and> bump_state (n + length bytes) b1 \<and>
    br_error b1 = br_error b"
proof -
  have n: "unat (of_nat n :: 32 word) = n" "unat (of_nat (length bytes) :: 32 word) = length bytes"
    using assms(2) by (simp_all add: unat_of_nat)
  have checked: "checked_bridge_input_len (length bytes) = Inr (of_nat (length bytes))"
    using assms(2) by (simp add: checked_bridge_input_len_def max_bridge_message_size_def)
  from bump_alloc [OF assms(1), of "of_nat (length bytes)"] assms(2) n obtain b1 where
    b1: "core_alloc bump_env (of_nat (length bytes)) b = Some (Ok (of_nat n), b1)"
      "bump_state (n + length bytes) b1" "br_error b1 = br_error b" by auto
  from b1(2) obtain memory where m: "br_module b1 = (memory, n + length bytes)" "length memory = 140000"
    by (auto simp: bump_state_def)
  with n assms(2) have "copy_into bump_env (of_nat n) bytes b1 =
      Some (Ok (), b1\<lparr>br_module := (overwrite memory n bytes, n + length bytes)\<rparr>)"
    by (simp add: copy_into_def bump_env_def bump_core_def Let_def)
  with b1 m assms(2) checked show ?thesis
    by (auto simp: copy_in_def op_bind_def op_lift_def op_return_def bump_state_def operation_err_def length_overwrite)
qed

lemma bump_dealloc: "bump_state n b \<Longrightarrow> \<exists>b1. core_dealloc bump_env ptr len b = Some (Ok (), b1) \<and> bump_state n b1"
  by (auto simp: core_dealloc_def bump_env_def bump_core_def bump_state_def operation_err_def)

lemma bump_with_block:
  assumes "bump_state n b" and "br_error b = no_buffer" and "n + length bytes \<le> 140000"
    and "\<And>ptr b1. bump_state (n + length bytes) b1 \<Longrightarrow> br_error b1 = no_buffer \<Longrightarrow>
      \<exists>b2. rest ptr b1 = Some (Ok (), b2) \<and> bump_state n' b2"
  shows "\<exists>b2. with_block bump_env bytes len rest b = Some (Ok (), b2) \<and> bump_state n' b2"
proof -
  from bump_copy_in [OF assms(1,3)] assms(2) obtain b1 where
    b1: "copy_in bump_env bytes b = Some (Ok (of_nat n), b1)" "bump_state (n + length bytes) b1" "br_error b1 = no_buffer"
    by auto
  from assms(4) [OF this(2,3)] obtain b2 where b2: "rest (of_nat n) b1 = Some (Ok (), b2)" "bump_state n' b2" by blast
  from bump_dealloc [OF this(2)] obtain b3 where "core_dealloc bump_env (of_nat n) len b2 = Some (Ok (), b3)" "bump_state n' b3"
    by blast
  with b1(1) b2(1) show ?thesis by (auto simp: with_block_def op_bind_def op_defer_def)
qed

lemma bump_answers:
  assumes "bump_state n b"
  shows "core_export bump_env call buf b = Some (Ok 0, b)"
  using assms by (simp add: core_export_def bump_env_def bump_core_def)

lemma bump_unpack:
  assumes "bump_state n b \<or> bump_state n (b\<lparr>br_output := no_buffer\<rparr>)" and "unat (bb_ptr buf) \<le> 140000"
  shows "op_unpack bump_env 0 buf b = Some (Ok (0, [], 0), b)"
  using assms
  by (auto simp: op_unpack_def unpack_result_def Let_def op_lift_def op_return_def bump_state_def bump_env_def bump_core_def
      bridge_buffer_too_small_def unat_start slice_def)

lemma bump_success:
  assumes "bump_state n b \<or> bump_state n (b\<lparr>br_output := no_buffer\<rparr>)" and "unat (bb_ptr buf) \<le> 140000"
  shows "require_success bump_env 0 buf b = Some (Ok [], b)"
  using bump_unpack [OF assms] by (simp add: require_success_def op_bind_def op_return_def bridge_buffer_too_small_def)

lemma bump_init_core:
  assumes "bump_state n b" and "br_error b = no_buffer" and "n \<le> 70000"
    and "eager_activity_reservations_for_mode (io_mode options) (io_workflow options) = Inr eager"
    and "worker_heartbeat_interval_millis (io_workflow options) = Inr heartbeat"
  shows "\<exists>b2. init_core bump_env options blocks b = Some (Ok (), b2) \<and> bump_state (n + 65536) b2"
proof -
  from bump_alloc [OF assms(1), of error_scratch_capacity] assms(3) obtain b1 where
    b1: "core_alloc bump_env error_scratch_capacity b = Some (Ok (of_nat n), b1)" "bump_state (n + 65536) b1"
    by (auto simp: error_scratch_capacity_def)
  let ?buf = "\<lparr>bb_ptr = of_nat n, bb_capacity = error_scratch_capacity\<rparr>"
  let ?b2 = "b1\<lparr>br_error := ?buf\<rparr>"
  from b1(2) have s: "bump_state (n + 65536) ?b2"
    by (simp add: bump_state_def operation_err_def split: option.split_asm if_split_asm)
  from b1 assms(2) have "ensure_error_scratch bump_env b = Some (Ok ?buf, ?b2)"
    by (simp add: ensure_error_scratch_def op_bind_def op_get_def op_modify_def op_return_def Let_def)
  moreover have "unat (bb_ptr ?buf) \<le> 140000" using assms(3) by (simp add: unat_of_nat)
  then have "require_success bump_env 0 ?buf ?b2 = Some (Ok [], ?b2)" using s by (intro bump_success) blast
  ultimately show ?thesis
    using s assms(4,5) bump_answers [OF s]
    by (simp add: init_core_def op_bind_def op_lift_def op_return_def)
qed

lemma bump_start_init:
  assumes "length (io_namespace options) + length (io_task_queue options) + length (io_identity options) \<le> 1000"
    and "eager_activity_reservations_for_mode (io_mode options) (io_workflow options) = Inr eager"
    and "worker_heartbeat_interval_millis (io_workflow options) = Inr heartbeat"
    and "bump_state 8 b" and "br_error b = no_buffer"
  shows "\<exists>n b2. start_init bump_env options b = Some (Ok (), b2) \<and> bump_state n b2 \<and> n \<le> 70000"
proof -
  have lens: "named_len what bytes = Inr (of_nat (length bytes))" if "length bytes \<le> 1000" for what bytes
    using that by (simp add: named_len_def checked_bridge_input_len_def max_bridge_message_size_def)
  let ?n = "8 + length (io_namespace options) + length (io_task_queue options) + length (io_identity options)"
  have "start_init bump_env options b =
      with_block bump_env (io_namespace options) (of_nat (length (io_namespace options))) (\<lambda>p1.
      with_block bump_env (io_task_queue options) (of_nat (length (io_task_queue options))) (\<lambda>p2.
      with_block bump_env (io_identity options) (of_nat (length (io_identity options))) (\<lambda>p3.
      init_core bump_env options [(p1, of_nat (length (io_namespace options))),
        (p2, of_nat (length (io_task_queue options))), (p3, of_nat (length (io_identity options)))]))) b"
    using assms(1) by (simp add: start_init_def lens op_lift_def op_bind_def op_return_def)
  moreover have "\<exists>b2. \<dots> = Some (Ok (), b2) \<and> bump_state (?n + 65536) b2"
    using assms(1) by (intro bump_with_block [OF assms(4,5)] bump_with_block bump_init_core [OF _ _ _ assms(2,3)])
      (assumption | simp)+
  ultimately have "\<exists>b2. start_init bump_env options b = Some (Ok (), b2) \<and> bump_state (?n + 65536) b2" by simp
  with assms(1) show ?thesis by (intro exI [of _ "?n + 65536"]) simp
qed

lemma bump_operation_step:
  assumes "bump_state n b" and "n \<le> 70000"
  shows "\<exists>b2. operation_step bump_env call b = Some (Ok ([], True), b2)"
proof -
  from bump_alloc [OF assms(1), of 65536] assms(2) obtain b1 where
    b1: "core_alloc bump_env 65536 b = Some (Ok (of_nat n), b1)" "bump_state (n + 65536) b1" by auto
  let ?buf = "\<lparr>bb_ptr = of_nat n, bb_capacity = 65536\<rparr> :: bridge_buffer"
  let ?b2 = "b1\<lparr>br_output := ?buf\<rparr>"
  from b1 assms(1) have sized: "ensure_output_scratch bump_env initial_output_capacity b = Some (Ok (), ?b2)"
    by (auto simp: ensure_output_scratch_def resize_output_scratch_def initial_output_capacity_def
        max_bridge_message_size_def op_bind_def op_get_def op_modify_def op_return_def Let_def bump_state_def)
  have ptr: "unat (bb_ptr ?buf) \<le> 140000" using assms(2) by (simp add: unat_of_nat)
  have "?b2\<lparr>br_output := no_buffer\<rparr> = b1" using b1(2) by (simp add: bump_state_def)
  with b1(2) have s: "bump_state (n + 65536) ?b2 \<or> bump_state (n + 65536) (?b2\<lparr>br_output := no_buffer\<rparr>)" by simp
  have export: "core_export bump_env c buf ?b2 = Some (Ok 0, ?b2)" for c and buf :: bridge_buffer
    by (simp add: core_export_def bump_env_def bump_core_def)
  have again: "ensure_output_scratch bump_env initial_output_capacity ?b2 = Some (Ok (), ?b2)"
    by (simp add: ensure_output_scratch_def initial_output_capacity_def op_bind_def op_get_def op_return_def)
  have "take_once bump_env call ?b2 = Some (Ok (Some (0, [])), ?b2)"
    by (simp add: take_once_def op_bind_def op_get_def export bump_unpack [OF s ptr] op_return_def
        bridge_buffer_too_small_def)
  then have "take_loop bump_env call ?b2 = Some (Ok (0, []), ?b2)"
    by (subst take_loop.simps) simp
  with again have "take_with_retry bump_env call ?b2 = Some (Ok (0, []), ?b2)"
    by (simp add: take_with_retry_def op_bind_def)
  then have "drive_once bump_env call ?b2 = Some (Ok (Some ([], True)), ?b2)"
    by (simp add: drive_once_def drain_and_take_def op_bind_def op_get_def export bump_success [OF s ptr] op_return_def)
  then have "drive_operation_step bump_env call ?b2 = Some (Ok ([], True), ?b2)"
    by (subst drive_operation_step.simps) simp
  with sized show ?thesis by (simp add: operation_step_def op_bind_def)
qed

lemma bump_new_bridge:
  assumes "length (io_namespace options) + length (io_task_queue options) + length (io_identity options) \<le> 1000"
    and "eager_activity_reservations_for_mode (io_mode options) (io_workflow options) = Inr eager"
    and "worker_heartbeat_interval_millis (io_workflow options) = Inr heartbeat"
  shows "\<exists>b. new_bridge bump_env (Inr h) large_module [] options True [idle_round] = Some (None, Some b)"
proof -
  let ?b = "initial_bridge large_module h []"
  have "bump_state 8 ?b" "br_error ?b = no_buffer"
    by (auto simp: bump_state_def initial_bridge_def large_module_def operation_err_def)
  from bump_start_init [OF assms this] obtain n b1 where
    b1: "start_init bump_env options ?b = Some (Ok (), b1)" "bump_state n b1" "n \<le> 70000" by blast
  have alive: "operation_err ?b = None" "br_done ?b = None" "operation_err b1 = None" "br_done b1 = None"
    using b1(2) by (auto simp: bump_state_def initial_bridge_def operation_err_def)
  from b1(1) have first: "owner_call bump_env True (AskStartInit options) ?b = Some (Inr NoValue, b1)"
    by (simp add: owner_call_def owner_serve_def allow_closed_def run_owner_request_def alive no_value_def
        op_bind_def op_return_def)
  from bump_operation_step [OF b1(2,3), of TakeInit] obtain b2 where
    "operation_step bump_env TakeInit b1 = Some (Ok ([], True), b2)" by blast
  then have "owner_call bump_env True AskTakeInit b1 = Some (Inr (StepValue [] True), b2)"
    by (simp add: owner_call_def owner_serve_def allow_closed_def run_owner_request_def alive step_value_def
        op_bind_def op_return_def)
  with first alive show ?thesis
    by (simp add: new_bridge_def start_and_drive_def idle_round_def allow_closed_def ready_result_def)
qed

lemma core_initialised_as_asked_witness:
  "\<exists>blocks numbers out capacity m answer m'.
    cm_call bump_core (InitWithWorkerOptions blocks numbers) out capacity m = (Inr answer, m') \<and>
    ucast (drop_bit 32 answer) = (0 :: 32 word) \<and>
    map (block_at (cm_memory bump_core m)) blocks =
      map bytes_of_string [''default'', ''greetings'', ''go-sdk-on-wasm-core''] \<and>
    map sint numbers = [1000, 0, 1000, 0, 32, 3, 60000, 2]"
proof -
  have core: "en_core bump_env = bump_core" by (simp add: bump_env_def)
  have asked: "map_option fst (combined_core bump_env sample_host large_module [] True [idle_round] k) = Some None"
    if "config_for sample_options k" for k
  proof -
    let ?o = "combined_bridge_init k"
    from that have "sint (kc_max_eager k) = 3" "sint (kc_heartbeat_millis k) = 60000"
      "kc_namespace k = ''default''" "kc_task_queue k = ''greetings''" "kc_identity k = ''go-sdk-on-wasm-core''"
      by (simp_all add: config_for_def sample_options_def or_default_def)
    moreover from this have "kc_max_eager k \<noteq> 0" by auto
    ultimately have "eager_activity_reservations_for_mode (io_mode ?o) (io_workflow ?o) = Inr (kc_max_eager k)"
      "worker_heartbeat_interval_millis (io_workflow ?o) = Inr (kc_heartbeat_millis k)"
      "length (io_namespace ?o) + length (io_task_queue ?o) + length (io_identity ?o) \<le> 1000"
      by (simp_all add: combined_bridge_init_def combined_init_def eager_activity_reservations_for_mode_def Let_def
          worker_heartbeat_interval_millis_def bytes_of_string_def)
    from bump_new_bridge [OF this(3,1,2)] show ?thesis by (auto simp: combined_core_def sample_host_def)
  qed
  have "options_in_range sample_options" by (simp add: options_in_range_def sample_options_def max_int32_def)
  from options_accepted [OF this, of "\<lambda>k. None" sample_runtime refusing "default_payload_converter sample_lib"]
  obtain w :: "(greeting_status, nat) public_worker" and c where
    "new_combined_worker sample_runtime refusing (default_factory (\<lambda>k. None)) (default_payload_converter sample_lib)
       sample_options = Some (Inr w, c)" by auto
  note found = core_initialised_as_asked [OF bump_documented [folded core] _ this, of sample_host large_module "[]" True
      "[idle_round]"]
  have "\<forall>k. config_for sample_options k \<longrightarrow>
      map_option fst (combined_core bump_env sample_host large_module [] True [idle_round] k) = Some None"
    using asked by blast
  from found [OF this] show ?thesis
    unfolding core by (simp add: sample_options_def or_default_def)
qed

end
