(* ===== verification/Demo_Worker.thy ===== *)
theory Demo_Worker
  imports Public_Run_Properties
begin

text \<open>
  The demonstration program (\<open>cmd/demo/main.go\<close>): its activities, and how \<open>main\<close> makes its worker. The
  workflows are in \<open>Workflow_Api\<close>; \<open>Run\<close> is in \<open>Public_Run\<close>. The environment is a parameter.
\<close>

section \<open>Activities\<close>

datatype demo_activity = Greet | LocalGreet

text \<open>\<open>greet\<close>; \<open>heartbeat\<close> is \<open>activity.RecordHeartbeat\<close> with the context of the task.\<close>

definition demo_greet :: "(goval list \<Rightarrow> bytes gores) \<Rightarrow> string \<Rightarrow> activity_outcome" where
  "demo_greet heartbeat name =
     (case heartbeat [VString name] of
        Panic p \<Rightarrow> ActPanicked p
      | Err e \<Rightarrow> ActReturned (VString []) (Some (ErrWrap ''record heartbeat: '' e []))
      | Ok bs \<Rightarrow>
          ActReturned (VString (''Hello, '' @ name @ '' from Temporal Core compiled through WASM into Go!'')) None)"

definition demo_local_greet :: "string \<Rightarrow> activity_outcome" where
  "demo_local_greet name =
     ActReturned (VString (''Hello, '' @ name @ '' from a local activity through Temporal Core!'')) None"

fun demo_call :: "(goval list \<Rightarrow> bytes gores) \<Rightarrow> demo_activity \<Rightarrow> goval list \<Rightarrow> activity_outcome" where
  "demo_call heartbeat Greet args = demo_greet heartbeat (first_argument args)"
| "demo_call heartbeat LocalGreet args = demo_local_greet (first_argument args)"

definition greet_function :: "demo_activity gofunc" where
  "greet_function = GoFunc [TGoContext, TString] [TString, TError] (Some Greet)"

definition local_greet_function :: "demo_activity gofunc" where
  "local_greet_function = GoFunc [TString] [TString, TError] (Some LocalGreet)"

text \<open>The names the Go runtime gives the activities, and the only workflow \<open>main\<close> registers by its function.\<close>

fun activity_runtime_name :: "demo_activity \<Rightarrow> string option" where
  "activity_runtime_name Greet = demo_runtime_name ''greet''"
| "activity_runtime_name LocalGreet = demo_runtime_name ''localGreet''"

section \<open>The worker\<close>

text \<open>\<open>getenv\<close> answers the empty string for a variable that is not set.\<close>

definition env_or_default :: "(string \<Rightarrow> string) \<Rightarrow> string \<Rightarrow> string \<Rightarrow> string" where
  "env_or_default getenv name fallback = (let v = getenv name in if v \<noteq> [] then v else fallback)"

definition demo_options :: "(string \<Rightarrow> string) \<Rightarrow> public_options" where
  "demo_options getenv =
     \<lparr>cn_address = env_or_default getenv ''TEMPORAL_ADDRESS'' ''localhost:7233'',
      cn_namespace = env_or_default getenv ''TEMPORAL_NAMESPACE'' ''default'',
      cn_task_queue = demo_task_queue, cn_identity = [], cn_payload_converter = None, cn_payload_codec = None,
      cn_tls = None, cn_api_key = getenv ''TEMPORAL_API_KEY'',
      po_max_activities = 0, po_max_activity_pollers = 0, po_max_workflow_tasks = 0, po_max_workflow_pollers = 0,
      po_max_cached = 0, po_max_eager = 0, po_heartbeat_interval = 0, po_disable_heartbeat = False\<rparr>"

type_synonym demo_worker = "(greeting_status, demo_activity) public_worker"

text \<open>Calls one after the other, until one panics.\<close>

fun in_turn :: "('w \<Rightarrow> string + 'w) list \<Rightarrow> 'w \<Rightarrow> string + 'w" where
  "in_turn [] w = Inr w"
| "in_turn (f # fs) w = (case f w of Inl p \<Rightarrow> Inl p | Inr w1 \<Rightarrow> in_turn fs w1)"

text \<open>The registrations of \<open>main\<close>; \<open>name_of\<close> is the runtime name of a workflow function.\<close>

definition demo_registrations ::
    "runtime \<Rightarrow> codec_lib \<Rightarrow> (greeting_status code \<Rightarrow> string option) \<Rightarrow> (demo_worker \<Rightarrow> string + demo_worker) list" where
  "demo_registrations rt lib name_of =
     (let workflow = (\<lambda>name takes_name body w.
        register_workflow_untyped rt w name (Some (greeting_function takes_name body))) in
      [\<lambda>w. register_named_activity lib activity_runtime_name w (Some greet_function),
       \<lambda>w. register_named_activity lib activity_runtime_name w (Some local_greet_function),
       workflow ''timer-greeting'' True (timer_greeting lib),
       workflow ''local-activity-greeting'' True (local_activity_greeting lib),
       workflow ''child-workflow-greeting'' True (child_workflow_greeting lib),
       \<lambda>w. register_named_workflow rt lib name_of w (Some (greeting_function True child_greeting)),
       workflow ''parallel-greeting'' True (parallel_greeting lib),
       workflow ''signal-greeting'' False signal_greeting,
       workflow ''query-greeting'' False query_greeting,
       workflow ''update-greeting'' False update_greeting])"

text \<open>\<open>main\<close> up to \<open>Run\<close>: the worker, the error it logs, or the panic.\<close>

definition demo_main ::
    "runtime \<Rightarrow> (nat \<Rightarrow> goerr option) \<Rightarrow> combined_factory \<Rightarrow> codec_lib \<Rightarrow> (greeting_status code \<Rightarrow> string option) \<Rightarrow>
     (string \<Rightarrow> string) \<Rightarrow> ((goerr + (string + demo_worker)) \<times> shared_core option) option" where
  "demo_main rt answers factory lib name_of getenv =
     map_option (\<lambda>(r, c).
         (case r of Inl e \<Rightarrow> Inl e | Inr w \<Rightarrow> Inr (in_turn (demo_registrations rt lib name_of) w), c))
       (new_combined_worker rt answers factory (default_payload_converter lib) (demo_options getenv))"

section \<open>What is registered\<close>

lemma register_named_activity_fresh:
  assumes "runtime_name b = Some n" and "name = trim_suffix (after_last_dot n) ''-fm''" and "name \<noteq> []"
    and "name \<notin> dom (map_of (aw_handlers (pw_activity w)))" and "length outs \<in> {1, 2}" and "last outs = TError"
  shows "\<exists>w'. register_named_activity lib runtime_name w (Some (GoFunc ins outs (Some b))) = Inr w' \<and>
    pw_workflow w' = pw_workflow w \<and>
    dom (map_of (aw_handlers (pw_activity w'))) = insert name (dom (map_of (aw_handlers (pw_activity w))))"
  using assms
  by (auto simp: register_named_activity_def register_activity_untyped_def register_activity_def domIff
      new_registered_activity_def new_function_def function_name_def Let_def update_conv')

lemma register_workflow_fresh_name:
  assumes "name \<notin> dom (map_of (ww_handlers (pw_workflow w)))" and "name \<noteq> []"
  shows "\<exists>w'. register_workflow_untyped rt w name (Some (greeting_function takes_name body)) = Inr w' \<and>
    pw_activity w' = pw_activity w \<and>
    dom (map_of (ww_handlers (pw_workflow w'))) = insert name (dom (map_of (ww_handlers (pw_workflow w))))"
  using assms
  by (auto simp: register_workflow_untyped_def register_workflow_def new_registered_workflow_def new_function_def
      greeting_function_def Let_def domIff update_conv')

text \<open>
  The registrations of \<open>main\<close> on a new worker do not panic, and the worker then has exactly these names. They
  include those under which the demo's workflows call activities and child workflows (\<open>demo_names\<close>).
\<close>

lemma demo_names:
  "demo_name lib ''activity'' ''greet'' = Inr ''greet''"
  "demo_name lib ''activity'' ''localGreet'' = Inr ''localGreet''"
  "demo_name lib ''workflow'' ''childGreeting'' = Inr ''childGreeting''"
  by (simp_all add: demo_name_def function_name_def demo_function_def demo_runtime_name_def after_last_dot_def
      trim_suffix_def)

abbreviation demo_workflow_names :: "string list" where
  "demo_workflow_names \<equiv>
     [''timer-greeting'', ''local-activity-greeting'', ''child-workflow-greeting'', ''childGreeting'',
      ''parallel-greeting'', ''signal-greeting'', ''query-greeting'', ''update-greeting'']"

text \<open>Registering workflows one after the other adds their names.\<close>

definition register_in_turn ::
    "runtime \<Rightarrow> (string \<times> bool \<times> (ctx option \<Rightarrow> goval list \<Rightarrow> demo)) list \<Rightarrow> demo_worker \<Rightarrow> string + demo_worker" where
  "register_in_turn rt fs = in_turn (map (\<lambda>(name, takes_name, body) w.
     register_workflow_untyped rt w name (Some (greeting_function takes_name body))) fs)"

lemma workflows_in_turn:
  assumes "distinct (map fst fs)" and "[] \<notin> fst ` set fs"
    and "dom (map_of (ww_handlers (pw_workflow v))) \<inter> fst ` set fs = {}"
  shows "\<exists>w'. register_in_turn rt fs v = Inr w' \<and> pw_activity w' = pw_activity v \<and>
    dom (map_of (ww_handlers (pw_workflow w'))) = dom (map_of (ww_handlers (pw_workflow v))) \<union> fst ` set fs"
  using assms unfolding register_in_turn_def
proof (induction fs arbitrary: v)
  case (Cons f fs)
  obtain name takes_name body where f: "f = (name, takes_name, body)" by (cases f)
  from Cons.prems have fresh: "name \<notin> dom (map_of (ww_handlers (pw_workflow v)))" "name \<noteq> []"
    by (auto simp: f)
  obtain v' where v': "register_workflow_untyped rt v name (Some (greeting_function takes_name body)) = Inr v'"
      "pw_activity v' = pw_activity v"
      "dom (map_of (ww_handlers (pw_workflow v'))) = insert name (dom (map_of (ww_handlers (pw_workflow v))))"
    using register_workflow_fresh_name [OF fresh, of rt takes_name body] by blast
  from Cons.prems have "distinct (map fst fs)" "[] \<notin> fst ` set fs"
      "dom (map_of (ww_handlers (pw_workflow v'))) \<inter> fst ` set fs = {}"
    by (auto simp: f v'(3) image_iff)
  from Cons.IH [OF this] v' show ?case by (auto simp: f)
qed simp

lemma activities_in_turn:
  assumes "aw_handlers (pw_activity w) = []"
  shows "\<exists>w1 w2. register_named_activity lib activity_runtime_name w (Some greet_function) = Inr w1 \<and>
    register_named_activity lib activity_runtime_name w1 (Some local_greet_function) = Inr w2 \<and>
    pw_workflow w2 = pw_workflow w \<and> dom (map_of (aw_handlers (pw_activity w2))) = {''localGreet'', ''greet''}"
proof -
  have names: "trim_suffix (after_last_dot ''main.greet'') ''-fm'' = ''greet''"
      "trim_suffix (after_last_dot ''main.localGreet'') ''-fm'' = ''localGreet''"
    by (simp_all add: after_last_dot_def trim_suffix_def)
  obtain w1 where w1: "register_named_activity lib activity_runtime_name w (Some greet_function) = Inr w1"
      "pw_workflow w1 = pw_workflow w" "dom (map_of (aw_handlers (pw_activity w1))) = {''greet''}"
    using register_named_activity_fresh [of activity_runtime_name Greet "''main.greet''" "''greet''" w
        "[TString, TError]" lib "[TGoContext, TString]"]  assms
    by (auto simp: greet_function_def demo_runtime_name_def names)
  obtain w2 where w2: "register_named_activity lib activity_runtime_name w1 (Some local_greet_function) = Inr w2"
      "pw_workflow w2 = pw_workflow w1" "dom (map_of (aw_handlers (pw_activity w2))) = {''localGreet'', ''greet''}"
    using register_named_activity_fresh [of activity_runtime_name LocalGreet "''main.localGreet''" "''localGreet''" w1
        "[TString, TError]" lib "[TString]"]
    by (auto simp: local_greet_function_def demo_runtime_name_def names w1(3))
  with w1 show ?thesis by auto
qed

lemma demo_registered:
  assumes "aw_handlers (pw_activity w) = []" and "ww_handlers (pw_workflow w) = []"
    and "name_of child_greeting = Some ''main.childGreeting''"
  shows "\<exists>w'. in_turn (demo_registrations rt lib name_of) w = Inr w' \<and>
    dom (map_of (aw_handlers (pw_activity w'))) = {''greet'', ''localGreet''} \<and>
    dom (map_of (ww_handlers (pw_workflow w'))) = set demo_workflow_names"
proof -
  have named: "register_named_workflow rt lib name_of w (Some (greeting_function True child_greeting)) =
      register_workflow_untyped rt w ''childGreeting'' (Some (greeting_function True child_greeting))" for w
    using assms(3) by (simp add: register_named_workflow_def function_name_def greeting_function_def after_last_dot_def
        trim_suffix_def)
  let ?fs = "[(''timer-greeting'', True, timer_greeting lib), (''local-activity-greeting'', True, local_activity_greeting lib),
    (''child-workflow-greeting'', True, child_workflow_greeting lib), (''childGreeting'', True, child_greeting),
    (''parallel-greeting'', True, parallel_greeting lib), (''signal-greeting'', False, signal_greeting),
    (''query-greeting'', False, query_greeting), (''update-greeting'', False, update_greeting)]"
  from activities_in_turn [OF assms(1), of lib] obtain w1 w2 where
    w1: "register_named_activity lib activity_runtime_name w (Some greet_function) = Inr w1" and
    w2: "register_named_activity lib activity_runtime_name w1 (Some local_greet_function) = Inr w2"
      "pw_workflow w2 = pw_workflow w" "dom (map_of (aw_handlers (pw_activity w2))) = {''localGreet'', ''greet''}"
    by (elim exE conjE) (rule that)
  have all: "in_turn (demo_registrations rt lib name_of) w = register_in_turn rt ?fs w2"
    by (simp add: demo_registrations_def register_in_turn_def Let_def w1 w2(1) named)
  have "distinct (map fst ?fs)" "[] \<notin> fst ` set ?fs"
      "dom (map_of (ww_handlers (pw_workflow w2))) \<inter> fst ` set ?fs = {}"
    by (simp_all add: w2(2) assms(2))
  from workflows_in_turn [OF this, of rt] obtain w' where w': "register_in_turn rt ?fs w2 = Inr w'"
      "pw_activity w' = pw_activity w2"
      "dom (map_of (ww_handlers (pw_workflow w'))) = dom (map_of (ww_handlers (pw_workflow w2))) \<union> fst ` set ?fs"
    by (elim exE conjE) (rule that)
  from w'(3) have "dom (map_of (ww_handlers (pw_workflow w'))) = set demo_workflow_names" by (simp add: w2(2) assms(2))
  with w'(1,2) w2(3) show ?thesis unfolding all by (intro exI [of _ w'] conjI) (simp_all add: insert_commute)
qed

text \<open>The demo's \<open>main\<close>: with Core made, it comes to \<open>Run\<close> with every function registered.\<close>

lemma demo_main_ready:
  assumes "demo_main rt answers factory lib name_of getenv = Some (Inr r, Some c)"
    and "name_of child_greeting = Some ''main.childGreeting''"
  shows "\<exists>w. r = Inr w \<and> dom (map_of (aw_handlers (pw_activity w))) = {''greet'', ''localGreet''} \<and>
    dom (map_of (ww_handlers (pw_workflow w))) = set demo_workflow_names \<and> holders_of c = ({0, 1}, 0)"
proof -
  from assms(1) obtain q where
    q: "new_combined_worker rt answers factory (default_payload_converter lib) (demo_options getenv) = Some (q, Some c)"
      "(case q of Inl e \<Rightarrow> Inl e | Inr w \<Rightarrow> Inr (in_turn (demo_registrations rt lib name_of) w)) = Inr r"
    by (auto simp: demo_main_def)
  then obtain w where w: "q = Inr w" by (cases q) auto
  with q(2) have r: "r = in_turn (demo_registrations rt lib name_of) w" by simp
  note made = new_combined_worker_Inr [OF q(1) [unfolded w]]
  have none: "aw_handlers (pw_activity w) = []" using made(3) by (auto simp: new_activity_worker_def)
  have "ww_handlers (pw_workflow w) = []" using made(2) by (auto simp: new_workflow_worker_def)
  from demo_registered [where name_of = name_of, OF none this assms(2), of rt lib, folded r] obtain w' where "r = Inr w'"
    "dom (map_of (aw_handlers (pw_activity w'))) = {''greet'', ''localGreet''}"
    "dom (map_of (ww_handlers (pw_workflow w'))) = set demo_workflow_names"
    by (elim exE conjE) (rule that)
  then show ?thesis unfolding made(1) opened_holders(2) by (intro exI conjI refl)
qed

end
