(* ===== verification/Spec2Isabelle.thy ===== *)
theory Spec2Isabelle
  imports Completion_Pipe Payload_Codec Workflow_Properties Workflow_Handlers Workflow_Cache
    Activity_Properties Public_Run_Properties Wasi_Properties Grpc_Properties Bridge_Properties
    Bridge_Clients Core_Connection Demo_Worker
begin

text \<open>
  A verification development for the Go SDK on a WebAssembly Core: a Temporal worker whose Core (polling,
  state machines, the protocol with the server) is compiled to WebAssembly, and whose language side is
  the Go code under \<open>internal\<close>, \<open>workflow\<close>, \<open>activity\<close> and \<open>worker\<close>. Core hands the Go side
  activations of workflow runs and activity tasks; the Go side runs the user's functions and hands back
  completions. Between the two stands a bridge: one goroutine that owns the compiled module, passes messages
  through its memory and makes the gRPC calls it asks for. This development models the Go side and the bridge.

  \<^bold>\<open>The parts of the program and their theories.\<close>

  \<^item> \<open>Go_Prelude\<close>: Go errors (\<open>errors.Is\<close>, \<open>errors.Join\<close>, wrapping), rendering, maps as association
    lists.
  \<^item> \<open>Completion_Pipe\<close> (\<open>internal/completionpipe\<close>): the bounded pipeline that submits completions.
    \<open>enqueue\<close>, \<open>finish_and_take_next\<close> and \<open>result_finalize\<close> are the critical sections of its mutex;
    \<open>pipe_step\<close> interleaves its goroutines with its owner. \<open>Pipe_Owner\<close> states, as the locale
    \<open>pipe_owner\<close>, what an owner that changes its pipeline by these steps can rely on; the run loops of
    both workers interpret it.
  \<^item> \<open>Payload_Converter\<close> and \<open>Payload_Codec\<close> (\<open>internal/converter\<close>): values to payloads and back, and
    the traversal of a message that applies a payload codec. A message is a tree of the fields the
    traversal visits.
  \<^item> \<open>Invoker\<close> (\<open>internal/invoker\<close>, \<open>internal/functionname\<close>, \<open>internal/workerconfig\<close>): the checks
    on registered functions, their arguments and results, operation names, connection defaults.
  \<^item> \<open>Workflow_Types\<close>, \<open>Workflow_Runtime\<close>, \<open>Workflow_Dispatch\<close>, \<open>Workflow_Activation\<close>,
    \<open>Workflow_Api\<close> (\<open>internal/workflowworker\<close> without its worker and loop, and \<open>workflow\<close>): one
    workflow execution. Workflow code is a codatatype of actions with continuations, so that a coroutine
    (\<open>iter.Pull\<close>) is a suspended continuation; futures and coroutines are lists addressed by index.
    \<open>activate\<close> is \<open>workflowExecution.activate\<close>, \<open>drive\<close> the cooperative dispatcher. User code may
    not return: then the value is \<open>None\<close>.
  \<^item> \<open>Run_Lanes\<close>, \<open>Workflow_Worker\<close>, \<open>Workflow_Run_Loop\<close> (\<open>internal/workflowworker/worker.go\<close>,
    \<open>runloop.go\<close>): the turns of a run, the worker with its cache of executions, and the loop with its
    poller, its processors and its pipeline, as the step relations \<open>loop_internal\<close> and
    \<open>loop_external\<close>.
  \<^item> \<open>Activity_Worker\<close>, \<open>Activity_Loop\<close> (\<open>internal/activityworker\<close>): options, the execution of an
    activity, heartbeats, and the loop with its poller, activities and pipeline, as
    \<open>activity_internal\<close> and \<open>activity_external\<close>.
  \<^item> \<open>Public_Worker\<close>, \<open>Public_Options\<close>, \<open>Public_Run\<close> (\<open>worker\<close>): the worker a program uses. It checks and
    normalises options, makes one Core worker that its workflow and its activity worker share by a reference
    count (\<open>shared_core\<close>), registers functions, runs both loops at once (\<open>public_internal\<close> composes their
    step relations), and shuts down.
  \<^item> \<open>Bridge_Owner\<close>, \<open>Bridge_Requests\<close>, \<open>Bridge_Calls\<close> (\<open>internal/corebridge\<close>): the owner of the module.
    \<open>bridge\<close> is \<open>Bridge\<close> with \<open>bridgeOwner\<close>; an operation (\<open>owner_op\<close>) gives a value, an error or a panic
    with the next state, or does not return. \<open>Bridge_Owner\<close> has the scratch buffers and the passing of bytes,
    \<open>Bridge_Requests\<close> the pump for gRPC calls and what the owner does for its clients, \<open>Bridge_Calls\<close> how
    requests are served, the poisoning of the bridge by a trap, waiting, construction and shutdown, and the
    step relation \<open>bridge_step\<close> of all interleavings.
  \<^item> \<open>Core_Connection\<close> (\<open>worker\<close>, \<open>internal/workflowworker\<close>, \<open>internal/activityworker\<close>): what the three kinds
    of worker ask of the bridge when they are made. \<open>combined_core\<close> composes the public worker with the bridge.
  \<^item> \<open>Demo_Worker\<close> (\<open>cmd/demo\<close>): the activities of the demonstration and how its \<open>main\<close> makes its worker; its
    workflows are in \<open>Workflow_Api\<close>.
  \<^item> \<open>Wasi_Host\<close>, \<open>Grpc_Host\<close> (\<open>internal/wasmhost\<close>): the WASI functions the module imports, on its linear
    memory, and the unary calls made for it: metadata, timeouts, credentials, errors.

  \<^bold>\<open>What is shown.\<close>

  \<^item> \<open>Completion_Pipe\<close>: the accounting invariant, first-in first-out exactly-once submission, and that
    the pipeline drains.
  \<^item> \<open>Payload_Converter\<close>, \<open>Payload_Codec\<close>: routing by encoding, round trips, the traversal against a
    reference map over the eligible payloads, error behaviour.
  \<^item> \<open>Workflow_Frames\<close>, \<open>Workflow_Laws\<close>, \<open>Workflow_Safety\<close>, \<open>Workflow_Runs\<close>,
    \<open>Workflow_Properties\<close>, \<open>Workflow_Handlers\<close>: laws of one execution that every operation keeps,
    stated once in the locale of execution laws and interpreted for each law: one terminal command,
    futures written once, signals delivered in order, consecutive sequence numbers, outstanding
    operations accounted for; queries, updates and chained futures.
  \<^item> \<open>Workflow_Cache\<close>: each activation answered under its own run, and what is cached after it.
  \<^item> \<open>Workflow_Loop_Laws\<close>, \<open>Workflow_Loop_Books\<close>, \<open>Workflow_Loop_Properties\<close>: the loop settles, runs
    the activations of a run one at a time in order, answers each exactly once, and reports its errors.
  \<^item> \<open>Activity_Loop_Laws\<close>, \<open>Activity_Loop_Properties\<close>, \<open>Activity_Properties\<close>: each activity is
    completed once, its heartbeats end before, draining does not wait for user code, errors are
    reported.
  \<^item> \<open>Public_Options\<close>, \<open>Public_Run_Laws\<close>, \<open>Public_Run_Properties\<close>: which options are accepted, that the
    reference count implements a set of holders, that \<open>Run\<close> settles, reports every error and shuts Core down
    once, after both loops.
  \<^item> \<open>Bridge_Frames\<close>, \<open>Bridge_Laws\<close>, \<open>Bridge_Returns\<close>, \<open>Bridge_Properties\<close>: triples for the operations of
    the owner. The blocks of the module's memory it holds are its two bounded buffers and the calls in flight
    are counted; every request is answered (the locale \<open>op_loop\<close> states when a loop ends, interpreted for the
    four loops of the owner); a trap ends the bridge for good; a shutdown gives the memory back. The loop of
    \<open>takeWithRetry\<close> ends only because the module asks for more than it was offered: \<open>stuck_module_hangs\<close> is
    a module with which it does not.
  \<^item> \<open>Bridge_Messages\<close>: messages through the module's memory. \<open>core_documented\<close> is what an allocator promises
    (its blocks are disjoint and keep their contents); under it a completion, and the strings Core is started
    with, are found by Core byte for byte, and a take gives the client exactly the bytes Core reported.
  \<^item> \<open>Bridge_Clients\<close>: no wake-up is lost (\<open>no_lost_wakeup\<close>), a poll ends when its context or the bridge does, a
    shutdown without error has given everything back.
  \<^item> \<open>Core_Connection\<close>, \<open>Demo_Worker\<close>: Core is started with the numbers and strings of the options the user
    gave; the demonstration registers its functions without a panic, under the names its workflows call.
  \<^item> \<open>Wasi_Properties\<close>, \<open>Grpc_Properties\<close>: no WASI function writes outside the ranges it is given; which
    metadata, deadline and authorization a call carries and what Core is answered.

  \<^bold>\<open>Modelling choices.\<close> Goroutines are interleaved at their channel operations and critical sections; a
  channel without buffer is the state of its sender. Loops that need not end (user code, the dispatcher)
  are \<open>partial_function (option)\<close>; no fuel is used. Sequence numbers and the options handed to Core are
  words of the source's width. What the code calls but the repository does not contain in readable form
  (Core, the generated Protobuf code, JSON and Protobuf marshalling, payload codecs, gRPC, the operating system,
  user functions) is a parameter of the definitions that use it. The arrival of gRPC responses is a schedule in
  the state of the bridge, which the environment may change between requests.

  \<^bold>\<open>Not modelled.\<close> \<open>internal/corewasm\<close> and \<open>internal/corepb\<close> are generated. The tests, the scripts
  and the benchmarks are not part of the program's logic. Of the modelled parts, the tracing and the timing
  reports are left out, and of the demonstration its signal handler (to \<open>Run\<close>, a cancelled context) and its log.
\<close>

end
